(* ===== verification/Prelude.thy ===== *)
theory Prelude
  imports Main "HOL-Library.Word"
begin

text \<open>
  Shared vocabulary of the development: the exceptions the Python code raises, the result
  type of code that may raise, the three small monads the components are written in (results,
  byte-stream readers, stateful code that may raise), fixed-width integer encodings
  (\<^verbatim>\<open>int.to_bytes\<close>, \<^verbatim>\<open>int.from_bytes\<close>), and the generic lemmas on lists and results that
  the component theories use through \<^verbatim>\<open>simp\<close> or through the named collections below.
\<close>

named_theorems res_simps \<open>unfolding rules of the result, reader and state monads\<close>
named_theorems codec_simps \<open>how a reader behaves on what the matching writer produced\<close>

section \<open>Decoded values\<close>

text \<open>A \<^verbatim>\<open>decimal.Decimal\<close>: \<open>Fin neg c e\<close> is the number \<open>c * 10 ^ e\<close>, negated when \<open>neg\<close> holds.\<close>

datatype decimal = Fin bool nat int | Infinite bool | NaN

text \<open>
  A decoded JSON document. A float is the decimal that \<^verbatim>\<open>str\<close> prints for it (its shortest
  representation), so two floats are equal exactly when their decimals are. Objects keep their
  members in order; the decoder keeps one member per name.
\<close>

datatype json =
    JNull
  | JBool bool
  | JInt int
  | JFloat decimal
  | JStr string
  | JList "json list"
  | JObj "(string \<times> json) list"

section \<open>Exceptions and results\<close>

text \<open>
  A Python exception. Messages keep the fixed text of the source; values interpolated into an
  f-string are left out. \<open>TxFormatError\<close> is a subclass of \<open>ValueError\<close> in the source
  (democracy/funding/bitcoin_tx.py), and so are the key format errors of authentication/crypto, which
  \<open>is_value_error\<close> records. \<open>BitcoinRpcError\<close>
  (bitcoin/rpc_errors.py) carries the method, the code and the value whose \<^verbatim>\<open>str\<close> is the message.
\<close>

datatype py_exn =
    ValueError string
  | TxFormatError string
  | TypeError string
  | KeyError string
  | AttributeError string
  | OverflowError string
  | InvalidOperation string
  | DecimalOverflow string
  | CampaignNotFoundError string
  | IntegrityError string
  | ChallengeStoreFullError string
  | BitcoinRpcError string json json
  | TransactionFetchError string
  | InvalidPublicKeyFormatError string
  | InvalidPrivateKeyFormatError string
  | PermissionError string
  | RuntimeError string
  | ZeroDivisionError string

fun is_value_error :: "py_exn \<Rightarrow> bool" where
  "is_value_error (ValueError m) = True"
| "is_value_error (TxFormatError m) = True"
| "is_value_error (InvalidPublicKeyFormatError m) = True"
| "is_value_error (InvalidPrivateKeyFormatError m) = True"
| "is_value_error e = False"

type_synonym 'a res = "py_exn + 'a"

definition rbind :: "'e + 'a \<Rightarrow> ('a \<Rightarrow> 'e + 'b) \<Rightarrow> 'e + 'b" where
  "rbind m f = (case m of Inl e \<Rightarrow> Inl e | Inr x \<Rightarrow> f x)"

definition guard_res :: "bool \<Rightarrow> 'e \<Rightarrow> 'e + unit" where
  "guard_res b e = (if b then Inr () else Inl e)"

definition raise_if :: "bool \<Rightarrow> 'e \<Rightarrow> 'e + 'a \<Rightarrow> 'e + 'a" where
  "raise_if b e m = (if b then Inl e else m)"

lemma rbind_simps [simp]:
  "rbind (Inl e) f = Inl e"
  "rbind (Inr x) f = f x"
  by (simp_all add: rbind_def)

lemma rbind_Inr_iff [res_simps]:
  "rbind m f = Inr y \<longleftrightarrow> (\<exists>x. m = Inr x \<and> f x = Inr y)"
  by (cases m) auto

lemma rbind_Inl_iff [res_simps]:
  "rbind m f = Inl e \<longleftrightarrow> m = Inl e \<or> (\<exists>x. m = Inr x \<and> f x = Inl e)"
  by (cases m) auto

lemma rbind_assoc: "rbind (rbind m f) g = rbind m (\<lambda>x. rbind (f x) g)"
  by (cases m) auto

lemma guard_res_iff [res_simps]:
  "guard_res b e = Inr u \<longleftrightarrow> b"
  "guard_res b e = Inl e' \<longleftrightarrow> \<not> b \<and> e' = e"
  by (auto simp: guard_res_def)

lemma raise_if_iff [res_simps]:
  "raise_if b e m = Inr x \<longleftrightarrow> \<not> b \<and> m = Inr x"
  by (auto simp: raise_if_def)

lemma raise_if_simps [simp]:
  "raise_if False e m = m" "raise_if True e m = Inl e"
  by (simp_all add: raise_if_def)

text \<open>A list comprehension whose body may raise: \<^verbatim>\<open>[f(x) for x in xs]\<close>.\<close>

fun map_res :: "('a \<Rightarrow> 'e + 'b) \<Rightarrow> 'a list \<Rightarrow> 'e + 'b list" where
  "map_res f [] = Inr []"
| "map_res f (x # xs) = rbind (f x) (\<lambda>y. rbind (map_res f xs) (\<lambda>ys. Inr (y # ys)))"

text \<open>Building a byte string with a sequence of \<^verbatim>\<open>result.extend(...)\<close> calls that may raise.\<close>

definition concat_res :: "('a \<Rightarrow> 'e + 'b list) \<Rightarrow> 'a list \<Rightarrow> 'e + 'b list" where
  "concat_res f xs = rbind (map_res f xs) (\<lambda>yss. Inr (concat yss))"

lemma map_res_Inr_iff:
  "map_res f xs = Inr ys \<longleftrightarrow> list_all2 (\<lambda>x y. f x = Inr y) xs ys"
proof (induction xs arbitrary: ys)
  case Nil
  then show ?case by auto
next
  case (Cons x xs)
  then show ?case by (cases ys) (auto simp: res_simps)
qed

lemma map_res_length: "map_res f xs = Inr ys \<Longrightarrow> length ys = length xs"
  by (auto simp: map_res_Inr_iff dest: list_all2_lengthD)

lemma map_res_all_Inr:
  "(\<And>x. x \<in> set xs \<Longrightarrow> f x = Inr (g x)) \<Longrightarrow> map_res f xs = Inr (map g xs)"
  by (induction xs) auto

lemma map_res_Inl:
  "map_res f xs = Inl e \<Longrightarrow> \<exists>x \<in> set xs. f x = Inl e"
  by (induction xs) (auto simp: res_simps)

lemma concat_res_simps [simp]:
  "concat_res f [] = Inr []"
  "concat_res f (x # xs) = rbind (f x) (\<lambda>y. rbind (concat_res f xs) (\<lambda>ys. Inr (y @ ys)))"
  by (simp_all add: concat_res_def rbind_assoc)

lemma concat_res_all_Inr:
  "(\<And>x. x \<in> set xs \<Longrightarrow> f x = Inr (g x)) \<Longrightarrow> concat_res f xs = Inr (concat (map g xs))"
  by (simp add: concat_res_def map_res_all_Inr)

section \<open>Bytes and fixed-width integers\<close>

type_synonym byte = "8 word"
type_synonym bytes = "8 word list"

definition byte_of_int :: "int \<Rightarrow> byte" where
  "byte_of_int v = word_of_int v"

lemma uint_byte_of_int [simp]: "uint (byte_of_int v) = v mod 256"
  by (simp add: byte_of_int_def uint_word_of_int)

lemma byte_of_int_uint [simp]: "byte_of_int (uint b) = b"
  by (simp add: byte_of_int_def)

lemma uint_byte_less [simp]: "uint (b :: byte) < 256"
  using uint_bounded [of b] by simp

lemma byte_of_int_mod_add [simp]:
  "byte_of_int ((uint b + 256 * v) mod 256) = b"
proof -
  have "(uint b + 256 * v) mod 256 = uint b"
    by simp
  then show ?thesis by simp
qed

text \<open>\<^verbatim>\<open>v.to_bytes(n, "little")\<close> and \<^verbatim>\<open>int.from_bytes(bs, "little")\<close>.\<close>

primrec le_bytes :: "nat \<Rightarrow> int \<Rightarrow> bytes" where
  "le_bytes 0 v = []"
| "le_bytes (Suc n) v = byte_of_int (v mod 256) # le_bytes n (v div 256)"

primrec le_int :: "bytes \<Rightarrow> int" where
  "le_int [] = 0"
| "le_int (b # bs) = uint b + 256 * le_int bs"

lemma length_le_bytes [simp]: "length (le_bytes n v) = n"
  by (induction n arbitrary: v) auto

lemma le_int_nonneg [simp]: "0 \<le> le_int bs"
  by (induction bs) auto

lemma le_int_less: "le_int bs < 256 ^ length bs"
proof (induction bs)
  case Nil
  then show ?case by simp
next
  case (Cons b bs)
  have "uint b + 256 * le_int bs < 256 + 256 * le_int bs"
    using uint_byte_less [of b] by linarith
  also have "\<dots> \<le> 256 * 256 ^ length bs"
    using Cons by simp
  finally show ?case by simp
qed

lemma le_int_le_bytes: "le_int (le_bytes n v) = v mod 256 ^ n"
proof (induction n arbitrary: v)
  case 0
  then show ?case by simp
next
  case (Suc n)
  have "v mod 256 ^ Suc n = v mod 256 + 256 * (v div 256 mod 256 ^ n)"
    by (simp add: zmod_zmult2_eq mult.commute)
  with Suc show ?case by simp
qed

lemma le_int_le_bytes_id [simp]:
  "0 \<le> v \<Longrightarrow> v < 256 ^ n \<Longrightarrow> le_int (le_bytes n v) = v"
  by (simp add: le_int_le_bytes)

lemma le_bytes_le_int [simp]: "length bs = n \<Longrightarrow> le_bytes n (le_int bs) = bs"
proof (induction bs arbitrary: n)
  case Nil
  then show ?case by simp
next
  case (Cons b bs)
  have "(uint b + 256 * le_int bs) div 256 = le_int bs"
    by (simp add: div_pos_pos_trivial)
  with Cons show ?case by auto
qed

text \<open>\<^verbatim>\<open>v.to_bytes(n, "big")\<close> and \<^verbatim>\<open>int.from_bytes(bs, "big")\<close>.\<close>

definition be_bytes :: "nat \<Rightarrow> int \<Rightarrow> bytes" where
  "be_bytes n v = rev (le_bytes n v)"

definition be_int :: "bytes \<Rightarrow> int" where
  "be_int bs = le_int (rev bs)"

lemma length_be_bytes [simp]: "length (be_bytes n v) = n"
  by (simp add: be_bytes_def)

lemma be_int_be_bytes [simp]:
  "0 \<le> v \<Longrightarrow> v < 256 ^ n \<Longrightarrow> be_int (be_bytes n v) = v"
  by (simp add: be_int_def be_bytes_def)

lemma be_int_nonneg [simp]: "0 \<le> be_int bs"
  by (simp add: be_int_def)

lemma be_int_less: "be_int bs < 256 ^ length bs"
  using le_int_less [of "rev bs"] by (simp add: be_int_def)

lemma be_bytes_be_int [simp]: "length bs = n \<Longrightarrow> be_bytes n (be_int bs) = bs"
  by (simp add: be_int_def be_bytes_def)

text \<open>\<open>to_bytes_be n v\<close> is the checked conversion: Python raises \<^verbatim>\<open>OverflowError\<close> out of range.\<close>

definition to_bytes_be :: "nat \<Rightarrow> int \<Rightarrow> bytes res" where
  "to_bytes_be n v =
     (if v < 0 then Inl (OverflowError ''can't convert negative int to unsigned'')
      else if 256 ^ n \<le> v then Inl (OverflowError ''int too big to convert'')
      else Inr (be_bytes n v))"

lemma to_bytes_be_Inr_iff:
  "to_bytes_be n v = Inr bs \<longleftrightarrow> 0 \<le> v \<and> v < 256 ^ n \<and> bs = be_bytes n v"
  by (auto simp: to_bytes_be_def)

lemma be_bytes_inj:
  "be_bytes n v = be_bytes n w \<Longrightarrow> 0 \<le> v \<Longrightarrow> v < 256 ^ n \<Longrightarrow> 0 \<le> w \<Longrightarrow> w < 256 ^ n \<Longrightarrow> v = w"
  by (metis be_int_be_bytes)

section \<open>Byte-stream readers\<close>

text \<open>
  A reader over a \<^verbatim>\<open>BytesIO\<close>: it takes the bytes that are left, raises or returns a value and
  the bytes left after it.
\<close>

type_synonym 'a reader = "bytes \<Rightarrow> ('a \<times> bytes) res"

definition pbind :: "'a reader \<Rightarrow> ('a \<Rightarrow> 'b reader) \<Rightarrow> 'b reader" where
  "pbind p f = (\<lambda>s. rbind (p s) (\<lambda>(x, s'). f x s'))"

definition preturn :: "'a \<Rightarrow> 'a reader" where
  "preturn x = (\<lambda>s. Inr (x, s))"

definition praise :: "py_exn \<Rightarrow> 'a reader" where
  "praise e = (\<lambda>s. Inl e)"

text \<open>The loop \<^verbatim>\<open>for _ in range(n): acc.append(p())\<close>.\<close>

primrec read_n :: "nat \<Rightarrow> 'a reader \<Rightarrow> 'a list reader" where
  "read_n 0 p = preturn []"
| "read_n (Suc n) p = pbind p (\<lambda>x. pbind (read_n n p) (\<lambda>xs. preturn (x # xs)))"

lemma preturn_apply [simp]: "preturn x s = Inr (x, s)"
  by (simp add: preturn_def)

lemma praise_apply [simp]: "praise e s = Inl e"
  by (simp add: praise_def)

lemma pbind_Inr_iff [res_simps]:
  "pbind p f s = Inr r \<longleftrightarrow> (\<exists>x s'. p s = Inr (x, s') \<and> f x s' = Inr r)"
  by (auto simp: pbind_def res_simps)

lemma pbind_step [codec_simps]: "p s = Inr (x, s') \<Longrightarrow> pbind p f s = f x s'"
  by (simp add: pbind_def)

lemma pbind_fail [simp]: "p s = Inl e \<Longrightarrow> pbind p f s = Inl e"
  by (simp add: pbind_def)

text \<open>
  The contract of an encoder and a reader for the same items: on what the encoder wrote,
  whatever follows it, the reader returns the item and leaves what follows. The contract
  composes to sequences of items, which is how the transaction format is built.
\<close>

locale stream_codec =
  fixes valid :: "'a \<Rightarrow> bool"
    and enc :: "'a \<Rightarrow> bytes res"
    and dec :: "'a reader"
  assumes enc_total: "valid x \<Longrightarrow> \<exists>bs. enc x = Inr bs"
    and dec_enc: "valid x \<Longrightarrow> enc x = Inr bs \<Longrightarrow> dec (bs @ rest) = Inr (x, rest)"
    and dec_valid: "dec s = Inr (x, s') \<Longrightarrow> valid x"
begin

lemma enc_prefix_free:
  assumes "valid x" "valid y" "enc x = Inr bx" "enc y = Inr by'" "bx @ r = by' @ r'"
  shows "x = y \<and> r = r'"
proof -
  have "dec (bx @ r) = Inr (x, r)" by (rule dec_enc [OF assms(1,3)])
  moreover have "dec (bx @ r) = Inr (y, r')"
    unfolding assms(5) by (rule dec_enc [OF assms(2,4)])
  ultimately show ?thesis by simp
qed

lemma enc_list_total:
  "list_all valid xs \<Longrightarrow> \<exists>bs. concat_res enc xs = Inr bs"
proof (induction xs)
  case (Cons x xs)
  then obtain b bs where "enc x = Inr b" "concat_res enc xs = Inr bs"
    using enc_total [of x] by auto
  then show ?case by simp
qed simp

lemma dec_enc_list:
  "list_all valid xs \<Longrightarrow> concat_res enc xs = Inr bs \<Longrightarrow>
   read_n (length xs) dec (bs @ rest) = Inr (xs, rest)"
proof (induction xs arbitrary: bs)
  case Nil
  then show ?case by simp
next
  case (Cons x xs)
  from Cons.prems obtain b cs where b: "enc x = Inr b" and cs: "concat_res enc xs = Inr cs"
    and bs: "bs = b @ cs"
    by (auto simp: res_simps)
  have "dec (b @ cs @ rest) = Inr (x, cs @ rest)"
    using Cons.prems(1) b dec_enc by simp
  moreover have "read_n (length xs) dec (cs @ rest) = Inr (xs, rest)"
    using Cons.IH Cons.prems(1) cs by simp
  ultimately show ?case
    by (simp add: bs codec_simps)
qed

lemma dec_list_valid:
  "read_n n dec s = Inr (xs, s') \<Longrightarrow> list_all valid xs \<and> length xs = n"
  by (induction n arbitrary: s xs s') (auto simp: res_simps dec_valid)

end

section \<open>Stateful code that may raise\<close>

text \<open>
  A method that reads and writes the state \<open>'s\<close> of its object and returns or raises. State
  changes made before an exception stay, as they do in Python.
\<close>

type_synonym ('s, 'e, 'a) sm = "'s \<Rightarrow> ('e + 'a) \<times> 's"

definition sreturn :: "'a \<Rightarrow> ('s, 'e, 'a) sm" where
  "sreturn x = (\<lambda>s. (Inr x, s))"

definition sraise :: "'e \<Rightarrow> ('s, 'e, 'a) sm" where
  "sraise e = (\<lambda>s. (Inl e, s))"

definition slift :: "'e + 'a \<Rightarrow> ('s, 'e, 'a) sm" where
  "slift r = (\<lambda>s. (r, s))"

definition sbind :: "('s, 'e, 'a) sm \<Rightarrow> ('a \<Rightarrow> ('s, 'e, 'b) sm) \<Rightarrow> ('s, 'e, 'b) sm" where
  "sbind m f = (\<lambda>s. case m s of (Inl e, s') \<Rightarrow> (Inl e, s') | (Inr x, s') \<Rightarrow> f x s')"

text \<open>\<open>swhen_raise b e\<close> is \<^verbatim>\<open>if b: raise e\<close>.\<close>

definition swhen_raise :: "bool \<Rightarrow> 'e \<Rightarrow> ('s, 'e, unit) sm" where
  "swhen_raise b e = (if b then sraise e else sreturn ())"

text \<open>\<open>scatch m h\<close> is \<^verbatim>\<open>try: m except ... as e: h(e)\<close>; \<open>h\<close> returns \<open>None\<close> for an exception it
  does not handle, which is raised again.\<close>

definition scatch :: "('s, 'e, 'a) sm \<Rightarrow> ('e \<Rightarrow> ('s, 'e, 'a) sm option) \<Rightarrow> ('s, 'e, 'a) sm" where
  "scatch m h = (\<lambda>s. case m s of
      (Inl e, s') \<Rightarrow> (case h e of None \<Rightarrow> (Inl e, s') | Some k \<Rightarrow> k s')
    | (Inr x, s') \<Rightarrow> (Inr x, s'))"

lemma sm_simps [simp]:
  "sreturn x s = (Inr x, s)"
  "sraise e s = (Inl e, s)"
  "slift r s = (r, s)"
  "swhen_raise True e = sraise e"
  "swhen_raise False e = sreturn ()"
  by (simp_all add: sreturn_def sraise_def slift_def swhen_raise_def)

lemma sbind_Inr_iff [res_simps]:
  "sbind m f s = (Inr y, s') \<longleftrightarrow> (\<exists>x s1. m s = (Inr x, s1) \<and> f x s1 = (Inr y, s'))"
  by (auto simp: sbind_def split: prod.splits sum.splits)

lemma sbind_step: "m s = (Inr x, s1) \<Longrightarrow> sbind m f s = f x s1"
  by (simp add: sbind_def)

lemma sbind_fail: "m s = (Inl e, s1) \<Longrightarrow> sbind m f s = (Inl e, s1)"
  by (simp add: sbind_def)

lemma sbind_return_simps [simp]:
  "sbind (sreturn x) f = f x"
  "sbind (sraise e) f = sraise e"
  "sbind (slift (Inr x)) f = f x"
  "sbind (slift (Inl e)) f = sraise e"
  by (auto simp: sbind_def fun_eq_iff)

lemma swhen_raise_Inr_iff [res_simps]:
  "swhen_raise b e s = (Inr u, s') \<longleftrightarrow> \<not> b \<and> s' = s"
  by (auto simp: swhen_raise_def)

lemma slift_Inr_iff [res_simps]: "slift r s = (Inr x, s') \<longleftrightarrow> r = Inr x \<and> s' = s"
  by auto

section \<open>Lists\<close>

lemma take_eq_iff_append: "take n xs = ys \<Longrightarrow> length ys = n \<Longrightarrow> xs = ys @ drop n xs"
  by (metis append_take_drop_id)

lemma append_eq_same_length:
  "length a = length b \<Longrightarrow> a @ c = b @ d \<longleftrightarrow> a = b \<and> c = d"
  by simp

end
