(* ===== verification/Py_Text.thy ===== *)
theory Py_Text
  imports Prelude
begin

text \<open>
  The text operations of CPython 3.10 (the version .github/workflows/build.yml pins) that the
  source uses: \<^verbatim>\<open>str.strip\<close>, \<^verbatim>\<open>str.lower\<close>, \<^verbatim>\<open>bytes.fromhex\<close>, \<^verbatim>\<open>bytes.hex\<close>, \<^verbatim>\<open>int(s, base)\<close>,
  \<^verbatim>\<open>str(int)\<close>, \<^verbatim>\<open>base64.b64decode(s, validate=True)\<close> (as a predicate: the source only asks whether
  it raises) and UTF-8 encoding. A Python \<^verbatim>\<open>str\<close> is a \<open>string\<close> whose characters stand for the
  code points U+0000 to U+00FF.
\<close>

section \<open>Characters\<close>

abbreviation code :: "char \<Rightarrow> nat" where
  "code c \<equiv> of_char c"

text \<open>What \<^verbatim>\<open>str.strip()\<close> removes, and what \<^verbatim>\<open>bytes.fromhex\<close> skips (ASCII white space only).\<close>

definition is_py_space :: "char \<Rightarrow> bool" where
  "is_py_space c \<longleftrightarrow> (9 \<le> code c \<and> code c \<le> 13) \<or> (28 \<le> code c \<and> code c \<le> 32)
     \<or> code c = 133 \<or> code c = 160"

definition is_ascii_space :: "char \<Rightarrow> bool" where
  "is_ascii_space c \<longleftrightarrow> (9 \<le> code c \<and> code c \<le> 13) \<or> code c = 32"

definition is_int_space :: "char \<Rightarrow> bool" where
  "is_int_space c \<longleftrightarrow> is_ascii_space c \<or> code c = 133 \<or> code c = 160"

definition strip_by :: "('a \<Rightarrow> bool) \<Rightarrow> 'a list \<Rightarrow> 'a list" where
  "strip_by p s = rev (dropWhile p (rev (dropWhile p s)))"

definition strip :: "string \<Rightarrow> string" where
  "strip s = strip_by is_py_space s"

definition lower_char :: "char \<Rightarrow> char" where
  "lower_char c =
     (if (65 \<le> code c \<and> code c \<le> 90) \<or> (192 \<le> code c \<and> code c \<le> 222 \<and> code c \<noteq> 215)
      then char_of (code c + 32) else c)"

definition lower :: "string \<Rightarrow> string" where
  "lower s = map lower_char s"

definition starts_with :: "string \<Rightarrow> string \<Rightarrow> bool" where
  "starts_with p s \<longleftrightarrow> take (length p) s = p"

text \<open>What \<open>strip_by\<close> returns: the part between the first and the last kept character.\<close>

lemma strip_by_ends:
  assumes "strip_by p s = x # xs"
  shows "\<not> p x \<and> \<not> p (last (x # xs))"
proof -
  let ?d = "dropWhile p s"
  have ne: "strip_by p s \<noteq> []" using assms by simp
  then have rne: "dropWhile p (rev ?d) \<noteq> []" by (simp add: strip_by_def)
  then have lastok: "\<not> p (last (strip_by p s))"
    by (simp add: strip_by_def last_rev hd_dropWhile)
  have dne: "?d \<noteq> []" using rne by (metis dropWhile.simps(1) rev.simps(1))
  have "rev ?d = takeWhile p (rev ?d) @ dropWhile p (rev ?d)" by simp
  then have "?d = strip_by p s @ rev (takeWhile p (rev ?d))"
    by (metis rev_append rev_rev_ident strip_by_def)
  then have "hd (strip_by p s) = hd ?d" using ne by (metis hd_append2)
  then have "\<not> p (hd (strip_by p s))" using dne by (simp add: hd_dropWhile)
  with lastok assms show ?thesis by simp
qed

lemma strip_by_id:
  assumes "s = [] \<or> (\<not> p (hd s) \<and> \<not> p (last s))"
  shows "strip_by p s = s"
proof -
  have "dropWhile p s = s" using assms by (auto simp: dropWhile_eq_self_iff)
  moreover have "dropWhile p (rev s) = rev s"
    using assms by (auto simp: dropWhile_eq_self_iff hd_rev)
  ultimately show ?thesis by (simp add: strip_by_def)
qed

lemma strip_by_idem [simp]: "strip_by p (strip_by p s) = strip_by p s"
proof (cases "strip_by p s")
  case Nil
  show ?thesis unfolding Nil by (simp add: strip_by_def)
next
  case (Cons x xs)
  then show ?thesis
    using strip_by_ends [OF Cons] by (intro strip_by_id) auto
qed

lemma strip_idem [simp]: "strip (strip s) = strip s"
  by (simp add: strip_def)

lemma set_strip: "set (strip s) \<subseteq> set s"
  by (auto simp: strip_def strip_by_def dest!: set_dropWhileD)

section \<open>Hexadecimal\<close>

definition hex_val :: "char \<Rightarrow> nat option" where
  "hex_val c =
     (if 48 \<le> code c \<and> code c \<le> 57 then Some (code c - 48)
      else if 97 \<le> code c \<and> code c \<le> 102 then Some (code c - 87)
      else if 65 \<le> code c \<and> code c \<le> 70 then Some (code c - 55)
      else None)"

definition hex_digit :: "nat \<Rightarrow> char" where
  "hex_digit n = char_of (if n < 10 then 48 + n else 87 + n)"

text \<open>
  \<^verbatim>\<open>bytes.fromhex\<close>: pairs of hex digits, with ASCII white space allowed before each pair and at
  the end but not inside a pair. \<open>None\<close> is the \<^verbatim>\<open>ValueError\<close>.
\<close>

fun fromhex :: "string \<Rightarrow> bytes option" where
  "fromhex [] = Some []"
| "fromhex [c] = (if is_ascii_space c then Some [] else None)"
| "fromhex (c # d # cs) =
     (if is_ascii_space c then fromhex (d # cs)
      else case (hex_val c, hex_val d) of
        (Some h, Some l) \<Rightarrow> map_option (\<lambda>bs. byte_of_int (16 * int h + int l) # bs) (fromhex cs)
      | _ \<Rightarrow> None)"

text \<open>\<^verbatim>\<open>bytes.hex()\<close>: two lower-case digits per byte.\<close>

definition byte_hex :: "byte \<Rightarrow> string" where
  "byte_hex b = [hex_digit (nat (uint b div 16)), hex_digit (nat (uint b mod 16))]"

definition bytes_hex :: "bytes \<Rightarrow> string" where
  "bytes_hex bs = concat (map byte_hex bs)"

lemma bytes_hex_simps [simp]:
  "bytes_hex [] = []"
  "bytes_hex (b # bs) = byte_hex b @ bytes_hex bs"
  by (simp_all add: bytes_hex_def)

lemma length_bytes_hex [simp]: "length (bytes_hex bs) = 2 * length bs"
  by (induction bs) (auto simp: byte_hex_def)

lemma of_char_char_of_small [simp]: "n < 256 \<Longrightarrow> (of_char (char_of (n :: nat)) :: nat) = n"
  by (simp add: of_char_of)

lemma hex_digit_facts:
  assumes "n < 16"
  shows hex_val_hex_digit [simp]: "hex_val (hex_digit n) = Some n"
    and not_space_hex_digit [simp]: "\<not> is_ascii_space (hex_digit n)"
    and not_py_space_hex_digit [simp]: "\<not> is_py_space (hex_digit n)"
    and lower_hex_digit [simp]: "lower_char (hex_digit n) = hex_digit n"
  using assms
  by (auto simp: hex_val_def hex_digit_def is_ascii_space_def is_py_space_def lower_char_def)

lemma byte_nibbles:
  "nat (uint (b :: byte) div 16) < 16" "nat (uint b mod 16) < 16"
  "16 * int (nat (uint b div 16)) + int (nat (uint b mod 16)) = uint b"
proof -
  have "uint b div 16 < 16" using uint_byte_less [of b] by linarith
  then show "nat (uint b div 16) < 16" by (simp add: nat_less_iff)
qed (simp_all add: nat_less_iff)

theorem fromhex_bytes_hex [simp]: "fromhex (bytes_hex bs) = Some bs"
proof (induction bs)
  case Nil
  then show ?case by simp
next
  case (Cons b bs)
  then show ?case
    using byte_nibbles [of b] by (simp add: byte_hex_def)
qed

lemma fromhex_no_space_length:
  "fromhex s = Some bs \<Longrightarrow> \<forall>c \<in> set s. \<not> is_ascii_space c \<Longrightarrow> length s = 2 * length bs"
  by (induction s arbitrary: bs rule: fromhex.induct) (auto split: option.splits if_splits)

lemma fromhex_chars:
  "fromhex s = Some bs \<Longrightarrow> c \<in> set s \<Longrightarrow> is_ascii_space c \<or> hex_val c \<noteq> None"
  by (induction s arbitrary: bs rule: fromhex.induct) (auto split: option.splits if_splits)

lemma hex_val_not_space: "hex_val c \<noteq> None \<Longrightarrow> \<not> is_ascii_space c \<and> \<not> is_py_space c"
  by (auto simp: hex_val_def is_ascii_space_def is_py_space_def split: if_splits)

lemma set_bytes_hex: "c \<in> set (bytes_hex bs) \<Longrightarrow> \<exists>n < 16. c = hex_digit n"
proof (induction bs)
  case (Cons b bs)
  then show ?case using byte_nibbles [of b] by (auto simp: byte_hex_def)
qed simp

lemma lower_bytes_hex [simp]: "lower (bytes_hex bs) = bytes_hex bs"
  unfolding lower_def by (rule map_idI) (auto dest: set_bytes_hex)

lemma strip_bytes_hex [simp]: "strip (bytes_hex bs) = bytes_hex bs"
proof (cases "bytes_hex bs = []")
  case True
  then show ?thesis by (simp add: strip_def strip_by_def)
next
  case False
  then show ?thesis unfolding strip_def
    using set_bytes_hex [OF hd_in_set [OF False]] set_bytes_hex [OF last_in_set [OF False]]
    by (intro strip_by_id) auto
qed

lemma bytes_hex_inj: "bytes_hex a = bytes_hex b \<Longrightarrow> a = b"
  by (metis fromhex_bytes_hex option.inject)

section \<open>Integers as text\<close>

text \<open>
  The digits of \<^verbatim>\<open>int(s, base)\<close>: single underscores are allowed between digits. The flag says
  that an underscore is not allowed next (at the start, and after an underscore).
\<close>

fun int_digits :: "nat \<Rightarrow> bool \<Rightarrow> int \<Rightarrow> string \<Rightarrow> int option" where
  "int_digits b us acc [] = (if us then None else Some acc)"
| "int_digits b us acc (c # cs) =
     (if c = CHR ''_'' then (if us then None else int_digits b True acc cs)
      else case hex_val c of
        None \<Rightarrow> None
      | Some d \<Rightarrow> if d < b then int_digits b False (acc * int b + int d) cs else None)"

definition drop_hex_prefix :: "string \<Rightarrow> string" where
  "drop_hex_prefix s =
     (if take 2 s = ''0x'' \<or> take 2 s = ''0X''
      then (if take 1 (drop 2 s) = ''_'' then drop 3 s else drop 2 s)
      else s)"

definition py_int :: "nat \<Rightarrow> string \<Rightarrow> int option" where
  "py_int b s =
     (let t = strip_by is_int_space s;
          (neg, u) = (if take 1 t = ''-'' then (True, drop 1 t)
                      else if take 1 t = ''+'' then (False, drop 1 t) else (False, t));
          v = (if b = 16 then drop_hex_prefix u else u)
      in map_option (\<lambda>n. if neg then - n else n) (int_digits b True 0 v))"

text \<open>\<^verbatim>\<open>str(n)\<close> for an integer.\<close>

fun nat_str :: "nat \<Rightarrow> string" where
  "nat_str n = (if n < 10 then [char_of (48 + n)] else nat_str (n div 10) @ [char_of (48 + n mod 10)])"

declare nat_str.simps [simp del]

definition int_str :: "int \<Rightarrow> string" where
  "int_str i = (if i < 0 then CHR ''-'' # nat_str (nat (- i)) else nat_str (nat i))"

definition is_digit :: "char \<Rightarrow> bool" where
  "is_digit c \<longleftrightarrow> 48 \<le> code c \<and> code c \<le> 57"

definition digit_val :: "char \<Rightarrow> nat" where
  "digit_val c = code c - 48"

text \<open>The value of a string of decimal digits.\<close>

definition dec_val :: "string \<Rightarrow> nat" where
  "dec_val s = foldl (\<lambda>a c. 10 * a + digit_val c) 0 s"

lemma dec_val_append_digit: "dec_val (s @ [c]) = 10 * dec_val s + digit_val c"
  by (simp add: dec_val_def)

lemma nat_str_nonempty [simp]: "nat_str n \<noteq> []"
  by (subst nat_str.simps) simp

lemma is_digit_char_of [simp]: "n < 10 \<Longrightarrow> is_digit (char_of (48 + n :: nat))"
  by (simp add: is_digit_def)

lemma nat_str_digits: "list_all is_digit (nat_str n)"
proof (induction n rule: nat_str.induct)
  case (1 n)
  then show ?case
    by (subst nat_str.simps) simp
qed

lemma dec_val_nat_str [simp]: "dec_val (nat_str n) = n"
proof (induction n rule: nat_str.induct)
  case (1 n)
  show ?case
  proof (cases "n < 10")
    case True
    then show ?thesis
      by (subst nat_str.simps) (simp add: dec_val_def digit_val_def)
  next
    case False
    with 1 show ?thesis
      by (subst nat_str.simps) (simp add: dec_val_append_digit digit_val_def)
  qed
qed

lemma length_nat_str_bounds:
  "n < 10 ^ length (nat_str n) \<and> (0 < n \<longrightarrow> 10 ^ (length (nat_str n) - 1) \<le> n)"
proof (induction n rule: nat_str.induct)
  case (1 n)
  show ?case
  proof (cases "n < 10")
    case True
    then show ?thesis by (simp add: nat_str.simps [of n])
  next
    case False
    let ?k = "length (nat_str (n div 10))"
    have k: "0 < ?k" by (simp add: length_greater_0_conv)
    have IH: "n div 10 < 10 ^ ?k" "10 ^ (?k - 1) \<le> n div 10"
      using 1 [OF False] False by auto
    have len: "length (nat_str n) = Suc ?k"
      using False by (simp add: nat_str.simps [of n])
    have up: "n < 10 ^ Suc ?k" using IH(1) by simp
    have "10 ^ ?k = 10 * 10 ^ (?k - 1)" using k by (cases ?k) auto
    also have "\<dots> \<le> 10 * (n div 10)" using IH(2) by simp
    also have "\<dots> \<le> n" by simp
    finally show ?thesis using up len by simp
  qed
qed

section \<open>Base64 and UTF-8\<close>

definition is_b64_char :: "char \<Rightarrow> bool" where
  "is_b64_char c \<longleftrightarrow> (65 \<le> code c \<and> code c \<le> 90) \<or> (97 \<le> code c \<and> code c \<le> 122)
     \<or> (48 \<le> code c \<and> code c \<le> 57) \<or> c = CHR ''+'' \<or> c = CHR ''/''"

text \<open>
  \<^verbatim>\<open>base64.b64decode(s, validate=True)\<close> does not raise: \<open>s\<close> matches
  \<^verbatim>\<open>[A-Za-z0-9+/]*={0,2}\<close>, and \<^verbatim>\<open>binascii.a2b_base64\<close> finds no incomplete group (padding after
  a complete group is ignored, two data characters need two pads, three need one).
\<close>

definition b64_ok :: "string \<Rightarrow> bool" where
  "b64_ok s =
     (let d = takeWhile is_b64_char s; p = dropWhile is_b64_char s; n = length d mod 4
      in list_all (\<lambda>c. c = CHR ''='') p \<and> length p \<le> 2 \<and>
         (n = 0 \<or> n = 2 \<and> length p = 2 \<or> n = 3 \<and> 1 \<le> length p))"

definition utf8_char :: "char \<Rightarrow> bytes" where
  "utf8_char c =
     (if code c < 128 then [byte_of_int (int (code c))]
      else [byte_of_int (192 + int (code c) div 64), byte_of_int (128 + int (code c) mod 64)])"

definition utf8 :: "string \<Rightarrow> bytes" where
  "utf8 s = concat (map utf8_char s)"

lemma utf8_simps [simp]:
  "utf8 [] = []" "utf8 (c # s) = utf8_char c @ utf8 s"
  by (simp_all add: utf8_def)

lemma utf8_char_inj: "utf8_char c @ x = utf8_char d @ y \<Longrightarrow> c = d \<and> x = y"
proof -
  assume eq: "utf8_char c @ x = utf8_char d @ y"
  have c: "code c < 256" and d: "code d < 256" by simp_all
  have "code c = code d"
  proof -
    have m: "(192 + int (code e) div 64) mod 256 = 192 + int (code e) div 64" for e
    proof -
      have "int (code e) < 256" using nat_of_char_less_256 [of e] by linarith
      then have "int (code e) div 64 < 64" by linarith
      then show ?thesis by (intro mod_pos_pos_trivial) linarith+
    qed
    have dm: "c = d" if "int (code c) div 64 = int (code d) div 64"
      and "int (code c) mod 64 = int (code d) mod 64"
    proof -
      have "int (code c) = int (code d)" using that by (metis mult_div_mod_eq)
      then show ?thesis by simp
    qed
    from eq have "map uint (utf8_char c @ x) = map uint (utf8_char d @ y)" by simp
    with c d have "int (code c) = int (code d)"
      by (auto simp: utf8_char_def m split: if_splits dest: dm)
    then show ?thesis by simp
  qed
  then have "c = d" by simp
  with eq show ?thesis by simp
qed

theorem utf8_inj: "utf8 a = utf8 b \<Longrightarrow> a = b"
proof (induction a arbitrary: b)
  case Nil
  then show ?case by (cases b) (auto simp: utf8_char_def split: if_splits)
next
  case (Cons c a)
  have "b \<noteq> []" using Cons.prems by (auto simp: utf8_char_def split: if_splits)
  then obtain d b' where b: "b = d # b'" by (cases b) auto
  with Cons.prems have "c = d \<and> utf8 a = utf8 b'" by (intro utf8_char_inj) simp
  with Cons.IH b show ?case by simp
qed

end
