(* ===== verification/Sha256.thy ===== *)
theory Sha256
  imports Py_Text
begin

text \<open>
  \<^verbatim>\<open>hashlib.sha256\<close> (FIPS 180-4), which the source uses for transaction ids, campaign commitments,
  registration commitments and content hashes. Everything is computed on 32-bit words.
\<close>

unbundle bit_operations_syntax

type_synonym w32 = "32 word"

definition sha_h0 :: "w32 list" where
  "sha_h0 = [
      1779033703, 3144134277, 1013904242, 2773480762, 1359893119, 2600822924, 528734635, 1541459225]"

definition sha_k :: "w32 list" where
  "sha_k = [
      1116352408, 1899447441, 3049323471, 3921009573, 961987163, 1508970993, 2453635748, 2870763221,
      3624381080, 310598401, 607225278, 1426881987, 1925078388, 2162078206, 2614888103, 3248222580,
      3835390401, 4022224774, 264347078, 604807628, 770255983, 1249150122, 1555081692, 1996064986,
      2554220882, 2821834349, 2952996808, 3210313671, 3336571891, 3584528711, 113926993, 338241895,
      666307205, 773529912, 1294757372, 1396182291, 1695183700, 1986661051, 2177026350, 2456956037,
      2730485921, 2820302411, 3259730800, 3345764771, 3516065817, 3600352804, 4094571909, 275423344,
      430227734, 506948616, 659060556, 883997877, 958139571, 1322822218, 1537002063, 1747873779,
      1955562222, 2024104815, 2227730452, 2361852424, 2428436474, 2756734187, 3204031479, 3329325298]"

definition small_sigma0 :: "w32 \<Rightarrow> w32" where
  "small_sigma0 x = word_rotr 7 x XOR word_rotr 18 x XOR drop_bit 3 x"

definition small_sigma1 :: "w32 \<Rightarrow> w32" where
  "small_sigma1 x = word_rotr 17 x XOR word_rotr 19 x XOR drop_bit 10 x"

definition big_sigma0 :: "w32 \<Rightarrow> w32" where
  "big_sigma0 x = word_rotr 2 x XOR word_rotr 13 x XOR word_rotr 22 x"

definition big_sigma1 :: "w32 \<Rightarrow> w32" where
  "big_sigma1 x = word_rotr 6 x XOR word_rotr 11 x XOR word_rotr 25 x"

text \<open>The message schedule is kept newest word first.\<close>

primrec schedule :: "nat \<Rightarrow> w32 list \<Rightarrow> w32 list" where
  "schedule 0 w = w"
| "schedule (Suc n) w =
     schedule n ((small_sigma1 (w ! 1) + w ! 6 + small_sigma0 (w ! 14) + w ! 15) # w)"

fun sha_round :: "w32 \<times> w32 \<Rightarrow> w32 list \<Rightarrow> w32 list" where
  "sha_round (k, w) [a, b, c, d, e, f, g, h] =
     (let t1 = h + big_sigma1 e + ((e AND f) XOR (NOT e AND g)) + k + w;
          t2 = big_sigma0 a + ((a AND b) XOR (a AND c) XOR (b AND c))
      in [t1 + t2, a, b, c, d + t1, e, f, g])"
| "sha_round kw s = s"

definition be_word :: "bytes \<Rightarrow> w32" where
  "be_word bs = word_of_int (be_int bs)"

definition block_words :: "bytes \<Rightarrow> w32 list" where
  "block_words bs = map (\<lambda>i. be_word (take 4 (drop (4 * i) bs))) [0..<16]"

definition compress :: "w32 list \<Rightarrow> bytes \<Rightarrow> w32 list" where
  "compress s bs =
     map2 (+) s (fold sha_round (zip sha_k (rev (schedule 48 (rev (block_words bs))))) s)"

definition pad_message :: "bytes \<Rightarrow> bytes" where
  "pad_message m =
     m @ [0x80] @ replicate ((119 - length m mod 64) mod 64) 0 @ be_bytes 8 (8 * int (length m))"

definition sha256 :: "bytes \<Rightarrow> bytes" where
  "sha256 m =
     (let p = pad_message m;
          blocks = map (\<lambda>i. take 64 (drop (64 * i) p)) [0..<length p div 64]
      in concat (map (\<lambda>w. be_bytes 4 (uint w)) (fold (\<lambda>b s. compress s b) blocks sha_h0)))"

section \<open>Lemmas\<close>

lemma length_sha_round [simp]: "length (sha_round kw s) = length s"
  by (cases "(kw, s)" rule: sha_round.cases) (auto simp: Let_def)

lemma length_fold_sha_round [simp]: "length (fold sha_round kws s) = length s"
  by (induction kws arbitrary: s) auto

lemma length_compress [simp]: "length (compress s bs) = length s"
  by (simp add: compress_def)

lemma length_fold_compress: "length (fold (\<lambda>b s. compress s b) bs s) = length s"
  by (induction bs arbitrary: s) auto

text \<open>A digest has 32 bytes, and its hexadecimal form 64 lower-case digits.\<close>

lemma length_sha256 [simp]: "length (sha256 m) = 32"
proof -
  have "length (concat (map (\<lambda>w. be_bytes 4 (uint w)) ws)) = 4 * length ws" for ws :: "w32 list"
    by (induction ws) auto
  then show ?thesis by (simp add: sha256_def Let_def length_fold_compress sha_h0_def)
qed

lemma length_pad_message: "64 dvd length (pad_message m)"
proof -
  define r where "r = length m mod 64"
  have r: "r < 64" by (simp add: r_def)
  have "64 dvd r + (1 + ((119 - r) mod 64 + 8))"
  proof (cases "r \<le> 55")
    case True
    then have "119 - r = (55 - r) + 64" by linarith
    then have "(119 - r) mod 64 = 55 - r" by (simp only: mod_add_self2) simp
    with True show ?thesis by simp
  next
    case False
    then have "(119 - r) mod 64 = 119 - r" by simp
    with False r show ?thesis by simp
  qed
  moreover have "length m = 64 * (length m div 64) + r" by (simp add: r_def)
  ultimately have "64 dvd length m + (1 + ((119 - r) mod 64 + 8))"
    by (metis (no_types) add.assoc dvd_add dvd_triv_left)
  then show ?thesis by (simp add: pad_message_def r_def)
qed

end
