(* ===== verification/Bitcoin_Tx.thy ===== *)
theory Bitcoin_Tx
  imports Sha256
begin

text \<open>
  The transaction codec of democracy/funding/bitcoin_tx.py: the dataclasses, the integer and
  varint encoders and readers, \<^verbatim>\<open>serialize\<close>, \<^verbatim>\<open>parse_transaction\<close> and the combination of
  one-input pledge transactions. A \<^verbatim>\<open>BytesIO\<close> is the list of bytes left to read. The laws of
  each field format are interpretations of \<open>stream_codec\<close>, and the round trip of a whole
  transaction rests on them.
\<close>

section \<open>Data\<close>

record tx_input =
  prev_txid_le :: bytes
  in_vout :: int
  script_sig :: bytes
  in_sequence :: int
  witness :: "bytes list"

record tx_output =
  out_value_sats :: int
  script_pubkey :: bytes

record bitcoin_tx =
  version :: int
  inputs :: "tx_input list"
  outputs :: "tx_output list"
  locktime :: int

definition outpoint_key :: "tx_input \<Rightarrow> string \<times> int" where
  "outpoint_key txin = (bytes_hex (rev (prev_txid_le txin)), in_vout txin)"

section \<open>Integers\<close>

definition uint32_le :: "int \<Rightarrow> bytes res" where
  "uint32_le v =
     (if v < 0 \<or> 0xFFFFFFFF < v then Inl (ValueError ''uint32 out of range.'')
      else Inr (le_bytes 4 v))"

definition uint64_le :: "int \<Rightarrow> bytes res" where
  "uint64_le v =
     (if v < 0 \<or> 0xFFFFFFFFFFFFFFFF < v then Inl (ValueError ''uint64 out of range.'')
      else Inr (le_bytes 8 v))"

definition encode_varint :: "int \<Rightarrow> bytes res" where
  "encode_varint v =
     (if v < 0 then Inl (ValueError ''varint cannot be negative.'')
      else if v < 0xFD then Inr [byte_of_int v]
      else if v \<le> 0xFFFF then Inr (0xFD # le_bytes 2 v)
      else if v \<le> 0xFFFFFFFF then Inr (0xFE # le_bytes 4 v)
      else if v \<le> 0xFFFFFFFFFFFFFFFF then Inr (0xFF # le_bytes 8 v)
      else Inl (ValueError ''varint too large.''))"

text \<open>
  \<^verbatim>\<open>stream.read(size)\<close> raises \<^verbatim>\<open>OverflowError\<close> for a size that does not fit an index
  (\<open>2 ^ 63\<close> and above), and otherwise returns what is there, at most \<open>size\<close> bytes.
\<close>

definition read_exact :: "int \<Rightarrow> bytes reader" where
  "read_exact n s =
     (if 2 ^ 63 \<le> n then Inl (OverflowError ''cannot fit 'int' into an index-sized integer'')
      else let value = take (nat n) s
           in if int (length value) \<noteq> n then Inl (TxFormatError ''Unexpected end of transaction.'')
              else Inr (value, drop (nat n) s))"

definition read_uint32_le :: "int reader" where
  "read_uint32_le = pbind (read_exact 4) (\<lambda>b. preturn (le_int b))"

definition read_uint64_le :: "int reader" where
  "read_uint64_le = pbind (read_exact 8) (\<lambda>b. preturn (le_int b))"

definition read_varint :: "int reader" where
  "read_varint = pbind (read_exact 1) (\<lambda>p.
     let prefix = uint (p ! 0)
     in if prefix < 0xFD then preturn prefix
        else if prefix = 0xFD then pbind (read_exact 2) (\<lambda>b. preturn (le_int b))
        else if prefix = 0xFE then pbind (read_exact 4) (\<lambda>b. preturn (le_int b))
        else pbind (read_exact 8) (\<lambda>b. preturn (le_int b)))"

section \<open>Serialisation\<close>

definition serialize_script :: "bytes \<Rightarrow> bytes res" where
  "serialize_script sc = rbind (encode_varint (int (length sc))) (\<lambda>n. Inr (n @ sc))"

definition serialize_input :: "tx_input \<Rightarrow> bytes res" where
  "serialize_input txin =
     rbind (uint32_le (in_vout txin)) (\<lambda>v.
     rbind (serialize_script (script_sig txin)) (\<lambda>sc.
     rbind (uint32_le (in_sequence txin)) (\<lambda>q.
       Inr (prev_txid_le txin @ v @ sc @ q))))"

definition serialize_output :: "tx_output \<Rightarrow> bytes res" where
  "serialize_output txout =
     rbind (uint64_le (out_value_sats txout)) (\<lambda>v.
     rbind (serialize_script (script_pubkey txout)) (\<lambda>sc. Inr (v @ sc)))"

definition serialize_witness :: "bytes list \<Rightarrow> bytes res" where
  "serialize_witness items =
     rbind (encode_varint (int (length items))) (\<lambda>n.
     rbind (concat_res serialize_script items) (\<lambda>ws. Inr (n @ ws)))"

definition has_witness :: "bitcoin_tx \<Rightarrow> bool" where
  "has_witness tx \<longleftrightarrow> list_ex (\<lambda>txin. witness txin \<noteq> []) (inputs tx)"

definition serialize :: "bitcoin_tx \<Rightarrow> bytes res" where
  "serialize tx =
     rbind (uint32_le (version tx)) (\<lambda>v.
     rbind (encode_varint (int (length (inputs tx)))) (\<lambda>ni.
     rbind (concat_res serialize_input (inputs tx)) (\<lambda>ins.
     rbind (encode_varint (int (length (outputs tx)))) (\<lambda>no.
     rbind (concat_res serialize_output (outputs tx)) (\<lambda>outs.
     rbind (if has_witness tx then concat_res serialize_witness (map witness (inputs tx)) else Inr [])
       (\<lambda>wits.
     rbind (uint32_le (locktime tx)) (\<lambda>lt.
       Inr (v @ (if has_witness tx then [0x00, 0x01] else []) @ ni @ ins @ no @ outs @ wits @ lt))))))))"

definition to_hex :: "bitcoin_tx \<Rightarrow> string res" where
  "to_hex tx = rbind (serialize tx) (\<lambda>bs. Inr (bytes_hex bs))"

definition serialize_without_witness :: "bitcoin_tx \<Rightarrow> bytes res" where
  "serialize_without_witness tx =
     rbind (uint32_le (version tx)) (\<lambda>v.
     rbind (encode_varint (int (length (inputs tx)))) (\<lambda>ni.
     rbind (concat_res serialize_input (inputs tx)) (\<lambda>ins.
     rbind (encode_varint (int (length (outputs tx)))) (\<lambda>no.
     rbind (concat_res serialize_output (outputs tx)) (\<lambda>outs.
     rbind (uint32_le (locktime tx)) (\<lambda>lt.
       Inr (v @ ni @ ins @ no @ outs @ lt)))))))"

definition txid :: "bitcoin_tx \<Rightarrow> string res" where
  "txid tx = rbind (serialize_without_witness tx) (\<lambda>raw_no_witness.
     Inr (bytes_hex (rev (sha256 (sha256 raw_no_witness)))))"

section \<open>Parsing\<close>

definition read_script :: "bytes reader" where
  "read_script = pbind read_varint read_exact"

definition read_input :: "tx_input reader" where
  "read_input =
     pbind (read_exact 32) (\<lambda>prev.
     pbind read_uint32_le (\<lambda>v.
     pbind read_script (\<lambda>sc.
     pbind read_uint32_le (\<lambda>q.
       preturn \<lparr>prev_txid_le = prev, in_vout = v, script_sig = sc, in_sequence = q, witness = []\<rparr>))))"

definition read_output :: "tx_output reader" where
  "read_output =
     pbind read_uint64_le (\<lambda>v.
     pbind read_script (\<lambda>sc.
       preturn \<lparr>out_value_sats = v, script_pubkey = sc\<rparr>))"

definition read_witness :: "bytes list reader" where
  "read_witness = pbind read_varint (\<lambda>n. read_n (nat n) read_script)"

primrec read_witnesses :: "tx_input list \<Rightarrow> tx_input list reader" where
  "read_witnesses [] = preturn []"
| "read_witnesses (txin # ins) =
     pbind read_witness (\<lambda>items.
     pbind (read_witnesses ins) (\<lambda>rest. preturn (txin\<lparr>witness := items\<rparr> # rest)))"

definition read_input_count :: "(bool \<times> int) reader" where
  "read_input_count = pbind read_varint (\<lambda>marker_or_count.
     if marker_or_count = 0 then
       pbind (read_exact 1) (\<lambda>flag.
         if flag \<noteq> [0x01] then praise (TxFormatError ''Invalid segwit transaction marker/flag.'')
         else pbind read_varint (\<lambda>n. preturn (True, n)))
     else preturn (False, marker_or_count))"

definition read_tx :: "bitcoin_tx reader" where
  "read_tx =
     pbind read_uint32_le (\<lambda>v.
     pbind read_input_count (\<lambda>(wit, ni).
     pbind (read_n (nat ni) read_input) (\<lambda>ins.
     pbind read_varint (\<lambda>no.
     pbind (read_n (nat no) read_output) (\<lambda>outs.
     pbind (if wit then read_witnesses ins else preturn ins) (\<lambda>ins'.
     pbind read_uint32_le (\<lambda>lt.
       preturn \<lparr>version = v, inputs = ins', outputs = outs, locktime = lt\<rparr>)))))))"

definition parse_transaction :: "string \<Rightarrow> bitcoin_tx res" where
  "parse_transaction raw_tx_hex =
     (case fromhex raw_tx_hex of
        None \<Rightarrow> Inl (TxFormatError ''raw_tx_hex is not valid hex.'')
      | Some raw \<Rightarrow> rbind (read_tx raw) (\<lambda>(tx, remaining).
          if remaining \<noteq> [] then Inl (TxFormatError ''Unexpected bytes after transaction end.'')
          else Inr tx))"

section \<open>Combining pledges\<close>

text \<open>The loop over the parsed transactions: \<open>seen\<close> is \<^verbatim>\<open>seen_outpoints\<close>, \<open>acc\<close> is
  \<^verbatim>\<open>combined_inputs\<close>, \<open>first\<close> carries the expected outputs, locktime and version.\<close>

fun combine_loop :: "bitcoin_tx \<Rightarrow> (string \<times> int) list \<Rightarrow> tx_input list \<Rightarrow> bitcoin_tx list
    \<Rightarrow> tx_input list res" where
  "combine_loop first seen acc [] = Inr acc"
| "combine_loop first seen acc (tx # txs) =
     (if length (inputs tx) \<noteq> 1 then
        Inl (ValueError ''Each signed pledge transaction must have exactly one input.'')
      else if outputs tx \<noteq> outputs first then
        Inl (ValueError ''All pledge transactions must have identical outputs.'')
      else if locktime tx \<noteq> locktime first then
        Inl (ValueError ''All pledge transactions must use the same locktime.'')
      else if version tx \<noteq> version first then
        Inl (ValueError ''All pledge transactions must use the same version.'')
      else let txin = inputs tx ! 0; outpoint = outpoint_key txin in
        if outpoint \<in> set seen then Inl (ValueError ''Duplicate pledge input'')
        else combine_loop first (outpoint # seen) (acc @ [txin]) txs)"

definition combine_anyonecanpay_pledges :: "string list \<Rightarrow> string res" where
  "combine_anyonecanpay_pledges hexes =
     (if hexes = [] then Inl (ValueError ''At least one pledge transaction is required.'')
      else rbind (map_res parse_transaction hexes) (\<lambda>parsed.
        let first = parsed ! 0 in
        rbind (combine_loop first [] [] parsed) (\<lambda>combined.
          to_hex \<lparr>version = version first, inputs = combined, outputs = outputs first,
                   locktime = locktime first\<rparr>)))"

section \<open>The field formats satisfy the codec contract\<close>

definition u32_ok :: "int \<Rightarrow> bool" where
  "u32_ok v \<longleftrightarrow> 0 \<le> v \<and> v \<le> 0xFFFFFFFF"

definition u64_ok :: "int \<Rightarrow> bool" where
  "u64_ok v \<longleftrightarrow> 0 \<le> v \<and> v \<le> 0xFFFFFFFFFFFFFFFF"

text \<open>Lengths of Python sequences are below \<open>2 ^ 63\<close>.\<close>

definition len_ok :: "'a list \<Rightarrow> bool" where
  "len_ok xs \<longleftrightarrow> length xs < 2 ^ 63"

definition txin_ok :: "tx_input \<Rightarrow> bool" where
  "txin_ok i \<longleftrightarrow> length (prev_txid_le i) = 32 \<and> u32_ok (in_vout i) \<and> len_ok (script_sig i)
     \<and> u32_ok (in_sequence i)"

definition txout_ok :: "tx_output \<Rightarrow> bool" where
  "txout_ok o' \<longleftrightarrow> u64_ok (out_value_sats o') \<and> len_ok (script_pubkey o')"

definition witness_ok :: "bytes list \<Rightarrow> bool" where
  "witness_ok ws \<longleftrightarrow> u64_ok (int (length ws)) \<and> list_all len_ok ws"

lemma read_exact_append:
  "int (length bs) = n \<Longrightarrow> n < 2 ^ 63 \<Longrightarrow> read_exact n (bs @ rest) = Inr (bs, rest)"
  by (auto simp: read_exact_def)

lemma read_exact_Inr:
  "read_exact n s = Inr (x, s') \<Longrightarrow>
     int (length x) = n \<and> n < 2 ^ 63 \<and> s = x @ s'"
  by (auto simp: read_exact_def Let_def split: if_splits)

interpretation u32: stream_codec u32_ok uint32_le read_uint32_le
proof
  fix x :: int and bs rest s s'
  show "\<exists>bs. uint32_le x = Inr bs" if "u32_ok x"
    using that by (auto simp: u32_ok_def uint32_le_def)
  show "read_uint32_le (bs @ rest) = Inr (x, rest)" if "u32_ok x" "uint32_le x = Inr bs"
    using that by (auto simp: u32_ok_def uint32_le_def read_uint32_le_def codec_simps
        read_exact_append)
  show "u32_ok x" if "read_uint32_le s = Inr (x, s')"
  proof -
    from that obtain b where "x = le_int b" "length b = 4"
      by (auto simp: read_uint32_le_def res_simps dest!: read_exact_Inr)
    then show ?thesis using le_int_less [of b] by (simp add: u32_ok_def)
  qed
qed

interpretation u64: stream_codec u64_ok uint64_le read_uint64_le
proof
  fix x :: int and bs rest s s'
  show "\<exists>bs. uint64_le x = Inr bs" if "u64_ok x"
    using that by (auto simp: u64_ok_def uint64_le_def)
  show "read_uint64_le (bs @ rest) = Inr (x, rest)" if "u64_ok x" "uint64_le x = Inr bs"
    using that by (auto simp: u64_ok_def uint64_le_def read_uint64_le_def codec_simps
        read_exact_append)
  show "u64_ok x" if "read_uint64_le s = Inr (x, s')"
  proof -
    from that obtain b where "x = le_int b" "length b = 8"
      by (auto simp: read_uint64_le_def res_simps dest!: read_exact_Inr)
    then show ?thesis using le_int_less [of b] by (simp add: u64_ok_def)
  qed
qed

lemma read_varint_encode:
  assumes "encode_varint x = Inr bs"
  shows "read_varint (bs @ rest) = Inr (x, rest)"
proof -
  have one: "read_exact 1 (b # r) = Inr ([b], r)" for b r
    using read_exact_append [of "[b]" 1 r] by simp
  have fd: "uint (253 :: byte) = 253" "uint (254 :: byte) = 254" "uint (255 :: byte) = 255"
    by simp_all
  show ?thesis
    using assms
    by (auto simp: encode_varint_def read_varint_def codec_simps one read_exact_append fd
        split: if_splits)
qed

lemma read_varint_bounds: "read_varint s = Inr (x, s') \<Longrightarrow> 0 \<le> x \<and> x \<le> 0xFFFFFFFFFFFFFFFF"
proof -
  assume "read_varint s = Inr (x, s')"
  moreover have "le_int b \<le> 0xFFFFFFFFFFFFFFFF" if "length b \<le> 8" for b
  proof -
    have "le_int b < 256 ^ length b" by (rule le_int_less)
    also have "(256 :: int) ^ length b \<le> 256 ^ 8" using that by (intro power_increasing) auto
    finally show ?thesis by simp
  qed
  moreover have "uint (b :: byte) \<le> 0xFFFFFFFFFFFFFFFF" for b
    using uint_byte_less [of b] by linarith
  ultimately show ?thesis
    by (auto simp: read_varint_def Let_def res_simps split: if_splits dest!: read_exact_Inr)
qed

interpretation varint: stream_codec u64_ok encode_varint read_varint
proof
  fix x :: int and bs rest s s'
  show "\<exists>bs. encode_varint x = Inr bs" if "u64_ok x"
    using that by (auto simp: u64_ok_def encode_varint_def)
  show "read_varint (bs @ rest) = Inr (x, rest)" if "u64_ok x" "encode_varint x = Inr bs"
    using that(2) by (rule read_varint_encode)
  show "u64_ok x" if "read_varint s = Inr (x, s')"
    using read_varint_bounds [OF that] by (simp add: u64_ok_def)
qed

lemma len_ok_u64: "len_ok xs \<Longrightarrow> u64_ok (int (length xs))"
  by (simp add: len_ok_def u64_ok_def)

interpretation script: stream_codec len_ok serialize_script read_script
proof
  fix x :: bytes and bs rest s s'
  show "\<exists>bs. serialize_script x = Inr bs" if "len_ok x"
    using varint.enc_total [OF len_ok_u64 [OF that]] by (auto simp: serialize_script_def)
  show "read_script (bs @ rest) = Inr (x, rest)" if x: "len_ok x" "serialize_script x = Inr bs"
  proof -
    from x(2) obtain n where n: "encode_varint (int (length x)) = Inr n" and bs: "bs = n @ x"
      by (auto simp: serialize_script_def res_simps)
    from x(1) have "int (length x) < 2 ^ 63"
      unfolding len_ok_def by (metis of_nat_less_iff of_nat_numeral of_nat_power)
    then show ?thesis
      using varint.dec_enc [OF len_ok_u64 [OF x(1)] n, of "x @ rest"]
      by (simp add: read_script_def bs codec_simps read_exact_append)
  qed
  show "len_ok x" if "read_script s = Inr (x, s')"
    using that by (auto simp: read_script_def len_ok_def res_simps dest!: read_exact_Inr)
qed

interpretation txin: stream_codec "\<lambda>i. txin_ok i \<and> witness i = []" serialize_input read_input
proof
  fix x :: tx_input and bs rest s s'
  show "\<exists>bs. serialize_input x = Inr bs" if x: "txin_ok x \<and> witness x = []"
  proof -
    from x obtain v sc q where "uint32_le (in_vout x) = Inr v"
      "serialize_script (script_sig x) = Inr sc" "uint32_le (in_sequence x) = Inr q"
      using u32.enc_total script.enc_total by (metis txin_ok_def)
    then show ?thesis by (simp add: serialize_input_def)
  qed
  show "read_input (bs @ rest) = Inr (x, rest)"
    if x: "txin_ok x \<and> witness x = []" and e: "serialize_input x = Inr bs"
  proof -
    from e obtain v sc q where v: "uint32_le (in_vout x) = Inr v"
      and sc: "serialize_script (script_sig x) = Inr sc"
      and q: "uint32_le (in_sequence x) = Inr q"
      and bs: "bs = prev_txid_le x @ v @ sc @ q"
      by (auto simp: serialize_input_def res_simps)
    from x have ok: "u32_ok (in_vout x)" "len_ok (script_sig x)" "u32_ok (in_sequence x)"
      and prev: "length (prev_txid_le x) = 32"
      by (auto simp: txin_ok_def)
    show ?thesis
      using x prev
      by (simp add: read_input_def bs codec_simps read_exact_append u32.dec_enc [OF ok(1) v]
          script.dec_enc [OF ok(2) sc] u32.dec_enc [OF ok(3) q])
  qed
  show "txin_ok x \<and> witness x = []" if "read_input s = Inr (x, s')"
    using that
    by (auto simp: read_input_def txin_ok_def res_simps u32.dec_valid script.dec_valid
        dest!: read_exact_Inr)
qed

interpretation txout: stream_codec txout_ok serialize_output read_output
proof
  fix x :: tx_output and bs rest s s'
  show "\<exists>bs. serialize_output x = Inr bs" if x: "txout_ok x"
  proof -
    from x obtain v sc where "uint64_le (out_value_sats x) = Inr v"
      "serialize_script (script_pubkey x) = Inr sc"
      using u64.enc_total script.enc_total by (metis txout_ok_def)
    then show ?thesis by (simp add: serialize_output_def)
  qed
  show "read_output (bs @ rest) = Inr (x, rest)"
    if x: "txout_ok x" and e: "serialize_output x = Inr bs"
  proof -
    from e obtain v sc where v: "uint64_le (out_value_sats x) = Inr v"
      and sc: "serialize_script (script_pubkey x) = Inr sc" and bs: "bs = v @ sc"
      by (auto simp: serialize_output_def res_simps)
    from x have ok: "u64_ok (out_value_sats x)" "len_ok (script_pubkey x)"
      by (auto simp: txout_ok_def)
    show ?thesis
      by (simp add: read_output_def bs codec_simps u64.dec_enc [OF ok(1) v]
          script.dec_enc [OF ok(2) sc])
  qed
  show "txout_ok x" if "read_output s = Inr (x, s')"
    using that by (auto simp: read_output_def txout_ok_def res_simps u64.dec_valid script.dec_valid)
qed

interpretation witness_stack: stream_codec witness_ok serialize_witness read_witness
proof
  fix x :: "bytes list" and bs rest s s'
  show "\<exists>bs. serialize_witness x = Inr bs" if x: "witness_ok x"
  proof -
    from x obtain n ws where "encode_varint (int (length x)) = Inr n"
      "concat_res serialize_script x = Inr ws"
      using varint.enc_total script.enc_list_total by (metis witness_ok_def)
    then show ?thesis by (simp add: serialize_witness_def)
  qed
  show "read_witness (bs @ rest) = Inr (x, rest)"
    if x: "witness_ok x" and e: "serialize_witness x = Inr bs"
  proof -
    from e obtain n ws where n: "encode_varint (int (length x)) = Inr n"
      and ws: "concat_res serialize_script x = Inr ws" and bs: "bs = n @ ws"
      by (auto simp: serialize_witness_def res_simps)
    show ?thesis
      using x script.dec_enc_list [OF _ ws, of rest]
      by (simp add: read_witness_def bs codec_simps read_varint_encode [OF n] witness_ok_def)
  qed
  show "witness_ok x" if "read_witness s = Inr (x, s')"
    using that
    by (auto simp: read_witness_def witness_ok_def res_simps u64_ok_def
        dest!: read_varint_bounds script.dec_list_valid)
qed

section \<open>Whole transactions\<close>

text \<open>
  The transactions the format can carry: every field in range and, because a leading zero input
  count is read as the segwit marker, at least one input.
\<close>

definition tx_fields_ok :: "bitcoin_tx \<Rightarrow> bool" where
  "tx_fields_ok tx \<longleftrightarrow> u32_ok (version tx) \<and> u32_ok (locktime tx)
     \<and> u64_ok (int (length (inputs tx))) \<and> u64_ok (int (length (outputs tx)))
     \<and> list_all txin_ok (inputs tx) \<and> list_all (witness_ok \<circ> witness) (inputs tx)
     \<and> list_all txout_ok (outputs tx)"

definition tx_ok :: "bitcoin_tx \<Rightarrow> bool" where
  "tx_ok tx \<longleftrightarrow> tx_fields_ok tx \<and> inputs tx \<noteq> []"

abbreviation strip_witness :: "tx_input \<Rightarrow> tx_input" where
  "strip_witness i \<equiv> i\<lparr>witness := []\<rparr>"

lemma serialize_input_strip [simp]: "serialize_input (strip_witness i) = serialize_input i"
  by (simp add: serialize_input_def)

lemma concat_res_serialize_strip:
  "concat_res serialize_input (map strip_witness ins) = concat_res serialize_input ins"
  by (induction ins) auto

lemma read_inputs_strip:
  assumes "list_all txin_ok ins" "concat_res serialize_input ins = Inr bs"
  shows "read_n (length ins) read_input (bs @ rest) = Inr (map strip_witness ins, rest)"
proof -
  have "list_all (\<lambda>i. txin_ok i \<and> witness i = []) (map strip_witness ins)"
    using assms(1) by (auto simp: list_all_iff txin_ok_def)
  from txin.dec_enc_list [OF this] assms(2) show ?thesis
    by (simp add: concat_res_serialize_strip)
qed

lemma read_witnesses_serialized:
  "list_all (witness_ok \<circ> witness) ins \<Longrightarrow>
   concat_res serialize_witness (map witness ins) = Inr bs \<Longrightarrow>
   read_witnesses (map strip_witness ins) (bs @ rest) = Inr (ins, rest)"
proof (induction ins arbitrary: bs)
  case Nil
  then show ?case by simp
next
  case (Cons i ins)
  from Cons.prems obtain b cs where b: "serialize_witness (witness i) = Inr b"
    and cs: "concat_res serialize_witness (map witness ins) = Inr cs" and bs: "bs = b @ cs"
    by (auto simp: res_simps)
  have "read_witness (b @ cs @ rest) = Inr (witness i, cs @ rest)"
    using Cons.prems(1) b witness_stack.dec_enc by simp
  moreover have "read_witnesses (map strip_witness ins) (cs @ rest) = Inr (ins, rest)"
    using Cons.IH Cons.prems(1) cs by simp
  ultimately show ?case by (simp add: bs codec_simps)
qed

lemma strip_witness_no_witness:
  "\<not> has_witness tx \<Longrightarrow> map strip_witness (inputs tx) = inputs tx"
  by (auto simp: has_witness_def list_ex_iff intro!: map_idI)

lemma read_input_count_serialized:
  assumes "encode_varint n = Inr bs" "0 < n"
  shows "read_input_count ((if w then [0x00, 0x01] else []) @ bs @ rest) = Inr ((w, n), rest)"
proof (cases w)
  case True
  have z: "read_varint (0 # r) = Inr (0, r)" for r
    using read_varint_encode [of 0 "[0]" r] by (simp add: encode_varint_def byte_of_int_def)
  have "read_exact 1 (1 # bs @ rest) = Inr ([1], bs @ rest)"
    using read_exact_append [of "[1]" 1 "bs @ rest"] by simp
  with True show ?thesis
    by (simp add: read_input_count_def codec_simps z read_varint_encode [OF assms(1)])
next
  case False
  with assms(2) show ?thesis
    by (simp add: read_input_count_def codec_simps read_varint_encode [OF assms(1)])
qed

lemma serialize_total:
  assumes "tx_fields_ok tx" shows "\<exists>bs. serialize tx = Inr bs"
proof -
  from assms have w: "list_all witness_ok (map witness (inputs tx))"
    by (simp add: tx_fields_ok_def list_all_iff)
  have ins: "concat_res serialize_input (inputs tx) = concat_res serialize_input (map strip_witness (inputs tx))"
    by (simp add: concat_res_serialize_strip)
  have "list_all (\<lambda>i. txin_ok i \<and> witness i = []) (map strip_witness (inputs tx))"
    using assms by (auto simp: tx_fields_ok_def list_all_iff txin_ok_def)
  then obtain bi where "concat_res serialize_input (inputs tx) = Inr bi"
    using txin.enc_list_total ins by metis
  moreover obtain bo where "concat_res serialize_output (outputs tx) = Inr bo"
    using assms txout.enc_list_total by (metis tx_fields_ok_def)
  moreover obtain bw where "concat_res serialize_witness (map witness (inputs tx)) = Inr bw"
    using witness_stack.enc_list_total [OF w] by auto
  moreover obtain v lt where "uint32_le (version tx) = Inr v" "uint32_le (locktime tx) = Inr lt"
    using assms u32.enc_total by (metis tx_fields_ok_def)
  moreover obtain ni no where "encode_varint (int (length (inputs tx))) = Inr ni"
    "encode_varint (int (length (outputs tx))) = Inr no"
    using assms varint.enc_total by (metis tx_fields_ok_def)
  ultimately show ?thesis by (simp add: serialize_def)
qed

lemma read_tx_serialize:
  assumes ok: "tx_ok tx" and s: "serialize tx = Inr bs"
  shows "read_tx (bs @ rest) = Inr (tx, rest)"
proof -
  from s obtain v ni ins no outs wits lt where
    v: "uint32_le (version tx) = Inr v" and
    ni: "encode_varint (int (length (inputs tx))) = Inr ni" and
    ins: "concat_res serialize_input (inputs tx) = Inr ins" and
    no: "encode_varint (int (length (outputs tx))) = Inr no" and
    outs: "concat_res serialize_output (outputs tx) = Inr outs" and
    wits: "(if has_witness tx then concat_res serialize_witness (map witness (inputs tx)) else Inr []) = Inr wits" and
    lt: "uint32_le (locktime tx) = Inr lt" and
    bs: "bs = v @ (if has_witness tx then [0x00, 0x01] else []) @ ni @ ins @ no @ outs @ wits @ lt"
    by (auto simp: serialize_def res_simps)
  have pos: "0 < int (length (inputs tx))" using ok by (simp add: tx_ok_def)
  have f: "u32_ok (version tx)" "u32_ok (locktime tx)" "list_all txin_ok (inputs tx)"
    "list_all txout_ok (outputs tx)" "list_all (witness_ok \<circ> witness) (inputs tx)"
    using ok by (auto simp: tx_ok_def tx_fields_ok_def)
  have w: "(if has_witness tx then read_witnesses (map strip_witness (inputs tx))
            else preturn (map strip_witness (inputs tx))) (wits @ lt @ rest) = Inr (inputs tx, lt @ rest)"
    using wits read_witnesses_serialized [OF f(5)] strip_witness_no_witness [of tx]
    by (auto split: if_splits)
  show ?thesis
    unfolding read_tx_def bs append_assoc
    using read_input_count_serialized [OF ni pos, of "has_witness tx"] w
    by (simp add: codec_simps u32.dec_enc [OF f(1) v] read_varint_encode [OF no]
        read_inputs_strip [OF f(3) ins] txout.dec_enc_list [OF f(4) outs]
        u32.dec_enc [OF f(2) lt] del: append.simps)
qed

lemma parse_transaction_to_hex:
  assumes "tx_ok tx" "to_hex tx = Inr h"
  shows "parse_transaction h = Inr tx"
proof -
  from assms(2) obtain bs where bs: "serialize tx = Inr bs" and h: "h = bytes_hex bs"
    by (auto simp: to_hex_def res_simps)
  show ?thesis
    using read_tx_serialize [OF assms(1) bs, of "[]"] by (simp add: parse_transaction_def h)
qed

lemma read_witnesses_valid:
  "read_witnesses ins s = Inr (ins', s') \<Longrightarrow>
     length ins' = length ins \<and> list_all (witness_ok \<circ> witness) ins' \<and>
     map strip_witness ins' = map strip_witness ins"
proof (induction ins arbitrary: s ins' s')
  case Nil
  then show ?case by simp
next
  case (Cons i ins)
  from Cons.prems obtain items s1 rest s2 where
    "read_witness s = Inr (items, s1)" "read_witnesses ins s1 = Inr (rest, s2)"
    "ins' = i\<lparr>witness := items\<rparr> # rest"
    by (auto simp: res_simps)
  with Cons.IH [of s1 rest s2] show ?case
    by (auto dest: witness_stack.dec_valid)
qed

lemma txin_ok_strip [simp]: "txin_ok (strip_witness i) = txin_ok i"
  by (simp add: txin_ok_def)

lemma list_all_txin_ok_strip:
  "map strip_witness a = map strip_witness b \<Longrightarrow> list_all txin_ok a = list_all txin_ok b"
proof -
  have "list_all txin_ok x = list_all txin_ok (map strip_witness x)" for x
    by (simp add: list_all_iff)
  then show "map strip_witness a = map strip_witness b \<Longrightarrow> list_all txin_ok a = list_all txin_ok b"
    by metis
qed

lemma read_input_count_bounds:
  "read_input_count s = Inr ((w, n), s') \<Longrightarrow> 0 \<le> n \<and> n \<le> 0xFFFFFFFFFFFFFFFF \<and> (w \<or> 0 < n)"
  by (auto simp: read_input_count_def res_simps split: if_splits dest!: read_varint_bounds)

lemma read_tx_fields_ok:
  assumes "read_tx s = Inr (tx, s')" shows "tx_fields_ok tx"
proof -
  from assms obtain v s1 w ni s2 ins s3 no s4 outs s5 ins' s6 lt where
    v: "read_uint32_le s = Inr (v, s1)" and
    ni: "read_input_count s1 = Inr ((w, ni), s2)" and
    ins: "read_n (nat ni) read_input s2 = Inr (ins, s3)" and
    no: "read_varint s3 = Inr (no, s4)" and
    outs: "read_n (nat no) read_output s4 = Inr (outs, s5)" and
    w: "(if w then read_witnesses ins else preturn ins) s5 = Inr (ins', s6)" and
    lt: "read_uint32_le s6 = Inr (lt, s')" and
    tx: "tx = \<lparr>version = v, inputs = ins', outputs = outs, locktime = lt\<rparr>"
    by (auto simp: read_tx_def res_simps)
  have i: "list_all txin_ok ins" "list_all (\<lambda>i. witness i = []) ins" "length ins = nat ni"
    using txin.dec_list_valid [OF ins] by (auto simp: list_all_iff)
  have n: "u64_ok (int (nat ni))" "u64_ok (int (nat no))"
    using read_input_count_bounds [OF ni] read_varint_bounds [OF no] by (auto simp: u64_ok_def)
  have ins': "length ins' = length ins" "list_all txin_ok ins'"
    "list_all (witness_ok \<circ> witness) ins'"
    using w i read_witnesses_valid [of ins s5 ins' s6] list_all_txin_ok_strip [of ins' ins]
    by (auto simp: list_all_iff witness_ok_def u64_ok_def split: if_splits)
  show ?thesis
    using ins' i n txout.dec_list_valid [OF outs] u32.dec_valid [OF v] u32.dec_valid [OF lt]
    by (auto simp: tx_fields_ok_def tx)
qed

lemma parse_transaction_fields_ok:
  "parse_transaction h = Inr tx \<Longrightarrow> tx_fields_ok tx"
  by (auto simp: parse_transaction_def res_simps split: option.splits if_splits
      dest: read_tx_fields_ok)

section \<open>Combined transactions\<close>

definition same_terms :: "bitcoin_tx \<Rightarrow> bitcoin_tx \<Rightarrow> bool" where
  "same_terms a b \<longleftrightarrow> outputs a = outputs b \<and> locktime a = locktime b \<and> version a = version b"

abbreviation pledge_input :: "bitcoin_tx \<Rightarrow> tx_input" where
  "pledge_input tx \<equiv> inputs tx ! 0"

lemma combine_loop_Inr_iff:
  "combine_loop first seen acc txs = Inr r \<longleftrightarrow>
     (\<forall>tx \<in> set txs. length (inputs tx) = 1 \<and> same_terms tx first)
     \<and> distinct (map (outpoint_key \<circ> pledge_input) txs)
     \<and> set (map (outpoint_key \<circ> pledge_input) txs) \<inter> set seen = {}
     \<and> r = acc @ map pledge_input txs"
proof (induction first seen acc txs rule: combine_loop.induct)
  case (1 first seen acc)
  then show ?case by auto
next
  case (2 first seen acc tx txs)
  then show ?case by (auto simp: Let_def same_terms_def)
qed

text \<open>What the combined transaction is, seen through the parser.\<close>

definition combines :: "bitcoin_tx list \<Rightarrow> bitcoin_tx \<Rightarrow> bool" where
  "combines txs t \<longleftrightarrow>
     (\<forall>tx \<in> set txs. length (inputs tx) = 1 \<and> same_terms tx t)
     \<and> inputs t = map pledge_input txs \<and> distinct (map outpoint_key (inputs t))"

lemma combined_fields_ok:
  assumes p: "map_res parse_transaction hexes = Inr txs" and c: "combines txs t"
    and ne: "txs \<noteq> []" and len: "length hexes < 2 ^ 63"
  shows "tx_ok t"
proof -
  have ok: "tx_fields_ok tx" if "tx \<in> set txs" for tx
    using p that parse_transaction_fields_ok
    by (auto simp: map_res_Inr_iff list_all2_conv_all_nth in_set_conv_nth)
  obtain tx where tx: "tx \<in> set txs" using ne by (cases txs) auto
  have st: "same_terms tx t" using tx c by (auto simp: combines_def)
  have one: "pledge_input x \<in> set (inputs x)" if "x \<in> set txs" for x
    using that c by (auto simp: combines_def)
  have "list_all txin_ok (inputs t) \<and> list_all (witness_ok \<circ> witness) (inputs t)"
    using ok one c by (fastforce simp: combines_def list_all_iff tx_fields_ok_def)
  moreover have "u64_ok (int (length (inputs t)))"
    using len c map_res_length [OF p] by (simp add: combines_def u64_ok_def)
  ultimately show ?thesis
    using ok [OF tx] st ne c
    by (auto simp: tx_ok_def tx_fields_ok_def same_terms_def combines_def)
qed

lemma combine_correct:
  assumes "combine_anyonecanpay_pledges hexes = Inr h" and "length hexes < 2 ^ 63"
  shows "\<exists>txs t. map_res parse_transaction hexes = Inr txs \<and> parse_transaction h = Inr t
           \<and> combines txs t"
proof -
  from assms obtain txs r where ne: "hexes \<noteq> []"
    and p: "map_res parse_transaction hexes = Inr txs"
    and l: "combine_loop (txs ! 0) [] [] txs = Inr r"
    and h: "to_hex \<lparr>version = version (txs ! 0), inputs = r, outputs = outputs (txs ! 0),
                   locktime = locktime (txs ! 0)\<rparr> = Inr h"
    by (auto simp: combine_anyonecanpay_pledges_def res_simps Let_def split: if_splits)
  let ?t = "\<lparr>version = version (txs ! 0), inputs = r, outputs = outputs (txs ! 0),
             locktime = locktime (txs ! 0)\<rparr>"
  have c: "combines txs ?t"
    using l by (auto simp: combine_loop_Inr_iff combines_def same_terms_def comp_def)
  have "txs \<noteq> []" using ne map_res_length [OF p] by auto
  then have "tx_ok ?t" using combined_fields_ok [OF p c] assms(2) by simp
  from parse_transaction_to_hex [OF this h] p c show ?thesis by blast
qed

lemma combine_complete:
  assumes p: "map_res parse_transaction hexes = Inr txs" and c: "combines txs t"
    and ne: "hexes \<noteq> []" and len: "length hexes < 2 ^ 63"
  shows "\<exists>h. combine_anyonecanpay_pledges hexes = Inr h"
proof -
  have txs: "txs \<noteq> []" using ne map_res_length [OF p] by auto
  then have s0: "same_terms (txs ! 0) t" using c by (auto simp: combines_def)
  have l: "combine_loop (txs ! 0) [] [] txs = Inr (map pledge_input txs)"
    using c s0 by (auto simp: combine_loop_Inr_iff combines_def same_terms_def comp_def)
  have t: "\<lparr>version = version (txs ! 0), inputs = map pledge_input txs, outputs = outputs (txs ! 0),
             locktime = locktime (txs ! 0)\<rparr> = t"
    using c s0 by (simp add: combines_def same_terms_def)
  obtain bs where "serialize t = Inr bs"
    using serialize_total combined_fields_ok [OF p c txs len] by (auto simp: tx_ok_def)
  then show ?thesis
    using ne p l t by (simp add: combine_anyonecanpay_pledges_def to_hex_def Let_def)
qed

section \<open>Properties\<close>

text \<open>
  Two pledges as Bitcoin Core serializes them, with one input, one output of 1000 satoshis and a
  witness each, and the transaction that spends both inputs.
\<close>

definition example_pledge_a :: string where
  "example_pledge_a = ''0200000000010111111111111111111111111111111111111111111111111111111111111111110000000000fdffffff01e80300000000000001510102abcd00000000''"

definition example_pledge_b :: string where
  "example_pledge_b = ''0200000000010122222222222222222222222222222222222222222222222222222222222222220100000000fdffffff01e80300000000000001510102abcd00000000''"

definition example_combined :: string where
  "example_combined = ''0200000000010211111111111111111111111111111111111111111111111111111111111111110000000000fdffffff22222222222222222222222222222222222222222222222222222222222222220100000000fdffffff01e80300000000000001510102abcd0102abcd00000000''"

lemma example_combines:
  "combine_anyonecanpay_pledges [example_pledge_a, example_pledge_b] = Inr example_combined"
  unfolding example_pledge_a_def example_pledge_b_def example_combined_def by code_simp

lemma example_parses:
  "map_res parse_transaction [example_pledge_a, example_pledge_b] = Inr
     [\<lparr>version = 2, inputs = [\<lparr>prev_txid_le = replicate 32 0x11, in_vout = 0, script_sig = [],
          in_sequence = 0xFFFFFFFD, witness = [[0xAB, 0xCD]]\<rparr>],
        outputs = [\<lparr>out_value_sats = 1000, script_pubkey = [0x51]\<rparr>], locktime = 0\<rparr>,
      \<lparr>version = 2, inputs = [\<lparr>prev_txid_le = replicate 32 0x22, in_vout = 1, script_sig = [],
          in_sequence = 0xFFFFFFFD, witness = [[0xAB, 0xCD]]\<rparr>],
        outputs = [\<lparr>out_value_sats = 1000, script_pubkey = [0x51]\<rparr>], locktime = 0\<rparr>]"
  unfolding example_pledge_a_def example_pledge_b_def by code_simp

lemma concat_pledge_inputs:
  "\<forall>tx \<in> set txs. length (inputs tx) = 1 \<Longrightarrow> concat (map inputs txs) = map pledge_input txs"
  by (induction txs) (auto simp: length_Suc_conv)

text \<open>
  C7. The combined transaction, read back by the same parser, has exactly the inputs of the given
  pledges, in their order and with their witnesses, no outpoint twice, and every pledge had one
  input and the same outputs, locktime and version as the result. The bound on the number of
  pledges is that of the varint reader.
\<close>

theorem combine_sound:
  assumes "combine_anyonecanpay_pledges hexes = Inr h" and "length hexes < 2 ^ 63"
  shows "\<exists>txs t. map_res parse_transaction hexes = Inr txs \<and> parse_transaction h = Inr t \<and>
           (\<forall>tx \<in> set txs. length (inputs tx) = 1 \<and> outputs tx = outputs t \<and>
              locktime tx = locktime t \<and> version tx = version t) \<and>
           inputs t = concat (map inputs txs) \<and> distinct (map outpoint_key (inputs t))"
proof -
  obtain txs t where p: "map_res parse_transaction hexes = Inr txs" "parse_transaction h = Inr t"
    and c: "combines txs t"
    using combine_correct [OF assms] by blast
  have "concat (map inputs txs) = map pledge_input txs"
    using c by (intro concat_pledge_inputs) (simp add: combines_def)
  with p c show ?thesis by (auto simp: combines_def same_terms_def)
qed

theorem combine_sound_witness:
  "\<exists>txs t. map_res parse_transaction [example_pledge_a, example_pledge_b] = Inr txs \<and>
     parse_transaction example_combined = Inr t \<and>
     inputs t = concat (map inputs txs) \<and> distinct (map outpoint_key (inputs t))"
  using combine_sound [OF example_combines] by auto

text \<open>
  C16. Pledges that parse, have one input each, agree on outputs, locktime and version and spend
  pairwise different outpoints are always combined: the function returns a transaction.
\<close>

theorem combine_total:
  assumes "map_res parse_transaction hexes = Inr txs" and "hexes \<noteq> []" and "length hexes < 2 ^ 63"
    and "\<forall>tx \<in> set txs. length (inputs tx) = 1 \<and> outputs tx = outputs (hd txs) \<and>
           locktime tx = locktime (hd txs) \<and> version tx = version (hd txs)"
    and "distinct (map outpoint_key (concat (map inputs txs)))"
  shows "\<exists>h. combine_anyonecanpay_pledges hexes = Inr h"
proof -
  have "concat (map inputs txs) = map pledge_input txs"
    using assms(4) by (intro concat_pledge_inputs) simp
  then have "combines txs ((hd txs)\<lparr>inputs := map pledge_input txs\<rparr>)"
    using assms(4,5) by (auto simp: combines_def same_terms_def)
  with combine_complete assms(1-3) show ?thesis by blast
qed

theorem combine_total_witness:
  "\<exists>h. combine_anyonecanpay_pledges [example_pledge_a, example_pledge_b] = Inr h"
  by (rule combine_total [OF example_parses]) (simp_all add: outpoint_key_def)

text \<open>
  C17. Every transaction whose fields fit their wire formats and that has an input is serialized, and
  parsing the hex form gives it back, witnesses included.
\<close>

theorem tx_round_trip:
  assumes "tx_ok tx" shows "\<exists>h. to_hex tx = Inr h \<and> parse_transaction h = Inr tx"
proof -
  obtain bs where "serialize tx = Inr bs" using assms serialize_total by (auto simp: tx_ok_def)
  then have "to_hex tx = Inr (bytes_hex bs)" by (simp add: to_hex_def)
  with parse_transaction_to_hex [OF assms] show ?thesis by blast
qed

theorem tx_round_trip_witness:
  "\<exists>h. to_hex \<lparr>version = 2, inputs = [\<lparr>prev_txid_le = replicate 32 0x11, in_vout = 0, script_sig = [],
        in_sequence = 0xFFFFFFFD, witness = [[0xAB, 0xCD]]\<rparr>], outputs = [], locktime = 0\<rparr> = Inr h \<and>
     parse_transaction h = Inr \<lparr>version = 2, inputs = [\<lparr>prev_txid_le = replicate 32 0x11, in_vout = 0,
        script_sig = [], in_sequence = 0xFFFFFFFD, witness = [[0xAB, 0xCD]]\<rparr>], outputs = [], locktime = 0\<rparr>"
  by (rule tx_round_trip) (simp add: tx_ok_def tx_fields_ok_def u32_ok_def u64_ok_def txin_ok_def
      witness_ok_def len_ok_def)

text \<open>
  C18. What the parser accepts is in range: version, locktime, output indices and sequences fit 32
  bits, values 64 bits, previous transaction ids have 32 bytes.
\<close>

theorem parsed_fields_in_range:
  assumes "parse_transaction h = Inr tx"
  shows "tx_fields_ok tx"
  using assms by (rule parse_transaction_fields_ok)

theorem parsed_fields_in_range_witness:
  "\<exists>tx. parse_transaction example_combined = Inr tx \<and> tx_fields_ok tx"
proof -
  obtain tx where "parse_transaction example_combined = Inr tx"
    using combine_correct [OF example_combines] by auto
  with parsed_fields_in_range show ?thesis by blast
qed

text \<open>
  The transaction id does not depend on the witnesses: removing all signatures of the segwit
  inputs leaves it unchanged.
\<close>

theorem txid_ignores_witness:
  "txid (tx\<lparr>inputs := map (\<lambda>i. i\<lparr>witness := []\<rparr>) (inputs tx)\<rparr>) = txid tx"
  by (simp add: txid_def serialize_without_witness_def concat_res_serialize_strip)

text \<open>
  A script length of \<open>2 ^ 63\<close> makes the parser raise \<^verbatim>\<open>OverflowError\<close>, which is not the
  \<^verbatim>\<open>TxFormatError\<close> (a \<^verbatim>\<open>ValueError\<close>) of every other malformed transaction.
\<close>

theorem parse_overflow_error:
  "parse_transaction ''0200000001111111111111111111111111111111111111111111111111111111111111111100000000ff0000000000000080'' =
     Inl (OverflowError ''cannot fit 'int' into an index-sized integer'')"
  by code_simp

end
