(* ===== verification/Py_Decimal.thy ===== *)
theory Py_Decimal
  imports Py_Text
begin

text \<open>
  Python's \<^verbatim>\<open>decimal.Decimal\<close> under the default context (28 digits, \<^verbatim>\<open>ROUND_HALF_EVEN\<close>, exponents
  between -999999 and 999999, traps for invalid operations and overflow), as far as
  bitcoin/utils.py and authentication/transaction_verification/rpc_verifier.py use it: the
  constructor from text, multiplication, \<^verbatim>\<open>to_integral_value\<close>, comparison, \<^verbatim>\<open>quantize\<close> with
  \<^verbatim>\<open>ROUND_DOWN\<close> and conversion to \<^verbatim>\<open>int\<close>. The operations on decoded JSON
  documents are here too: a JSON float is represented by the decimal that \<^verbatim>\<open>str\<close> prints for it.
\<close>

section \<open>The context and its operations\<close>

definition prec :: nat where "prec = 28"
definition Emax :: int where "Emax = 999999"
definition Etiny :: int where "Etiny = -1000026"
definition Etop :: int where "Etop = 999972"

lemmas decimal_context = prec_def Emax_def Etiny_def Etop_def

abbreviation num_digits :: "nat \<Rightarrow> nat" where
  "num_digits n \<equiv> length (nat_str n)"

text \<open>Half-even rounding of \<open>c / 10 ^ k\<close>.\<close>

definition round_half_even :: "nat \<Rightarrow> nat \<Rightarrow> nat" where
  "round_half_even c k =
     (let q = c div 10 ^ k; r = c mod 10 ^ k
      in if 10 ^ k < 2 * r \<or> (2 * r = 10 ^ k \<and> odd q) then q + 1 else q)"

text \<open>Rounding a result to the context (\<^verbatim>\<open>Decimal._fix\<close>).\<close>

definition dec_fix :: "bool \<Rightarrow> nat \<Rightarrow> int \<Rightarrow> decimal res" where
  "dec_fix neg c e =
     (if c = 0 then Inr (Fin neg 0 (min (max e Etiny) Emax))
      else let exp_min0 = int (num_digits c) + e - int prec in
        if Etop < exp_min0 then Inl (DecimalOverflow ''above Emax'')
        else let exp_min = max exp_min0 Etiny in
          if e < exp_min then
            let c1 = round_half_even c (nat (exp_min - e));
                (c2, e2) = (if prec < num_digits c1 then (c1 div 10, exp_min + 1) else (c1, exp_min))
            in if Etop < e2 then Inl (DecimalOverflow ''above Emax'') else Inr (Fin neg c2 e2)
          else Inr (Fin neg c e))"

fun dec_mult :: "decimal \<Rightarrow> decimal \<Rightarrow> decimal res" where
  "dec_mult (Fin s c e) (Fin s' c' e') = dec_fix (s \<noteq> s') (c * c') (e + e')"
| "dec_mult (Infinite s) (Fin s' c' e') =
     (if c' = 0 then Inl (InvalidOperation ''0 * Infinity'') else Inr (Infinite (s \<noteq> s')))"
| "dec_mult (Fin s c e) (Infinite s') =
     (if c = 0 then Inl (InvalidOperation ''0 * Infinity'') else Inr (Infinite (s \<noteq> s')))"
| "dec_mult (Infinite s) (Infinite s') = Inr (Infinite (s \<noteq> s'))"
| "dec_mult NaN y = Inr NaN"
| "dec_mult x NaN = Inr NaN"

fun to_integral_value :: "decimal \<Rightarrow> decimal" where
  "to_integral_value (Fin s c e) =
     (if 0 \<le> e then Fin s c e else Fin s (round_half_even c (nat (- e))) 0)"
| "to_integral_value d = d"

fun is_finite :: "decimal \<Rightarrow> bool" where
  "is_finite (Fin s c e) = True"
| "is_finite d = False"

definition signed :: "bool \<Rightarrow> nat \<Rightarrow> int" where
  "signed s c = (if s then - int c else int c)"

text \<open>The numerator of a finite decimal over \<open>10 ^ (- m)\<close>, for \<open>m\<close> at most its exponent.\<close>

definition scaled :: "int \<Rightarrow> bool \<Rightarrow> nat \<Rightarrow> int \<Rightarrow> int" where
  "scaled m s c e = signed s c * 10 ^ nat (e - m)"

fun dec_eq :: "decimal \<Rightarrow> decimal \<Rightarrow> bool" where
  "dec_eq (Fin s c e) (Fin s' c' e') \<longleftrightarrow> scaled (min e e') s c e = scaled (min e e') s' c' e'"
| "dec_eq (Infinite s) (Infinite s') \<longleftrightarrow> s = s'"
| "dec_eq x y \<longleftrightarrow> False"

fun dec_negative :: "decimal \<Rightarrow> bool" where
  "dec_negative (Fin s c e) \<longleftrightarrow> s \<and> c \<noteq> 0"
| "dec_negative (Infinite s) \<longleftrightarrow> s"
| "dec_negative NaN \<longleftrightarrow> False"

text \<open>\<^verbatim>\<open>int(d)\<close> truncates towards zero; infinities and NaN raise.\<close>

fun dec_to_int :: "decimal \<Rightarrow> int res" where
  "dec_to_int (Fin s c e) =
     Inr (if 0 \<le> e then signed s c * 10 ^ nat e else signed s (c div 10 ^ nat (- e)))"
| "dec_to_int (Infinite s) = Inl (OverflowError ''cannot convert Infinity to integer'')"
| "dec_to_int NaN = Inl (ValueError ''cannot convert NaN to integer'')"

text \<open>
  \<^verbatim>\<open>d.quantize(Decimal("0.00000001"), rounding=ROUND_DOWN)\<close> for a finite \<open>d\<close>: the coefficient over
  \<open>10 ^ (- 8)\<close>, which must have at most 28 digits.
\<close>

definition quantize8_down :: "bool \<Rightarrow> nat \<Rightarrow> int \<Rightarrow> decimal res" where
  "quantize8_down s c e =
     (let c' = (if - 8 \<le> e then c * 10 ^ nat (e + 8) else c div 10 ^ nat (- 8 - e))
      in if prec < num_digits c' then Inl (InvalidOperation ''quantize result has too many digits'')
         else Inr (Fin s c' (- 8)))"

section \<open>The constructor from text\<close>

definition MAX_EMAX :: int where "MAX_EMAX = 999999999999999999"
definition MIN_ETINY :: int where "MIN_ETINY = -1999999999999999997"

definition dec_exponent :: "string \<Rightarrow> int option" where
  "dec_exponent s =
     (case s of
        [] \<Rightarrow> Some 0
      | c # t \<Rightarrow>
          if c = CHR ''e'' \<or> c = CHR ''E'' then
            (let (neg, u) = (if take 1 t = ''-'' then (True, drop 1 t)
                             else if take 1 t = ''+'' then (False, drop 1 t) else (False, t))
             in if u \<noteq> [] \<and> list_all is_digit u then Some (signed neg (dec_val u)) else None)
          else None)"

definition dec_number :: "bool \<Rightarrow> string \<Rightarrow> decimal option" where
  "dec_number neg s =
     (let ip = takeWhile is_digit s;
          r = dropWhile is_digit s;
          (fp, r') = (if take 1 r = ''.'' then (takeWhile is_digit (drop 1 r), dropWhile is_digit (drop 1 r))
                      else ([], r))
      in if ip @ fp = [] then None
         else case dec_exponent r' of
           None \<Rightarrow> None
         | Some x \<Rightarrow>
             let c = dec_val (ip @ fp); e = x - int (length fp) in
             if MAX_EMAX < int (num_digits c) + e - 1 \<or> e < MIN_ETINY then None
             else Some (Fin neg c e))"

definition dec_of_string :: "string \<Rightarrow> decimal option" where
  "dec_of_string s =
     (let t = filter (\<lambda>c. c \<noteq> CHR ''_'') (strip s);
          (neg, u) = (if take 1 t = ''-'' then (True, drop 1 t)
                      else if take 1 t = ''+'' then (False, drop 1 t) else (False, t));
          l = lower u
      in if l = ''inf'' \<or> l = ''infinity'' then Some (Infinite neg)
         else if (take 3 l = ''nan'' \<and> list_all is_digit (drop 3 l))
               \<or> (take 4 l = ''snan'' \<and> list_all is_digit (drop 4 l)) then Some NaN
         else dec_number neg u)"

section \<open>Lemmas\<close>

lemma num_digits_mult_pow10:
  assumes "0 < c" shows "num_digits (c * 10 ^ k) = num_digits c + k"
proof (induction k)
  case 0
  then show ?case by simp
next
  case (Suc k)
  have "\<not> c * 10 ^ Suc k < 10" using assms by simp
  then have "num_digits (c * 10 ^ Suc k) = Suc (num_digits (c * 10 ^ Suc k div 10))"
    by (subst nat_str.simps) simp
  also have "c * 10 ^ Suc k div 10 = c * 10 ^ k" by simp
  finally show ?case using Suc by simp
qed

lemma num_digits_le_iff: "0 < k \<Longrightarrow> num_digits c \<le> k \<longleftrightarrow> c < 10 ^ k"
proof -
  assume k: "0 < k"
  have up: "c < 10 ^ num_digits c" using length_nat_str_bounds [of c] by simp
  have "num_digits c \<le> k" if "c < 10 ^ k"
  proof (cases "c = 0")
    case True
    then show ?thesis using k by (simp add: nat_str.simps [of 0])
  next
    case False
    then have "10 ^ (num_digits c - 1) < (10 :: nat) ^ k"
      using length_nat_str_bounds [of c] that by (meson bot_nat_0.not_eq_extremum le_less_trans)
    then have "num_digits c - 1 < k" by (metis one_less_numeral_iff power_less_imp_less_exp semiring_norm(76))
    then show ?thesis by linarith
  qed
  moreover have "c < 10 ^ k" if "num_digits c \<le> k"
    using up that by (meson less_le_trans one_le_numeral power_increasing)
  ultimately show ?thesis by blast
qed

lemma round_half_even_exact: "round_half_even (c * 10 ^ k) k = c"
  by (simp add: round_half_even_def)

lemma round_half_even_eq_iff:
  "round_half_even c k * 10 ^ k = c \<longleftrightarrow> 10 ^ k dvd c"
proof
  assume "round_half_even c k * 10 ^ k = c"
  then show "10 ^ k dvd c" by (metis dvd_triv_right)
next
  assume "10 ^ k dvd c"
  then obtain d where "c = d * 10 ^ k" by (metis dvd_def mult.commute)
  then show "round_half_even c k * 10 ^ k = c" by (simp add: round_half_even_exact)
qed

lemma dec_eq_to_integral:
  "dec_eq (Fin s c e) (to_integral_value (Fin s c e)) \<longleftrightarrow> 0 \<le> e \<or> 10 ^ nat (- e) dvd c"
proof (cases "0 \<le> e")
  case True
  then show ?thesis by (simp add: scaled_def)
next
  case False
  have "dec_eq (Fin s c e) (to_integral_value (Fin s c e)) \<longleftrightarrow>
          signed s c = signed s (round_half_even c (nat (- e))) * 10 ^ nat (- e)"
    using False by (simp add: scaled_def)
  also have "\<dots> \<longleftrightarrow> int c = int (round_half_even c (nat (- e))) * 10 ^ nat (- e)"
    by (auto simp: signed_def)
  also have "\<dots> \<longleftrightarrow> int c = int (round_half_even c (nat (- e)) * 10 ^ nat (- e))" by simp
  also have "\<dots> \<longleftrightarrow> round_half_even c (nat (- e)) * 10 ^ nat (- e) = c"
    unfolding of_nat_eq_iff by (rule eq_commute)
  finally show ?thesis using False by (simp add: round_half_even_eq_iff)
qed

text \<open>
  Multiplication by \<open>10 ^ 8\<close> is exact up to 28 digits: the result denotes the same number, with
  the trailing zeros that do not fit dropped.
\<close>

lemma dec_fix_pow10_exact:
  assumes "0 < c" "num_digits c \<le> prec" "Etiny \<le> e" "e \<le> 900000" "j \<le> prec"
  shows "\<exists>k \<le> j. dec_fix s (c * 10 ^ j) e = Inr (Fin s (c * 10 ^ (j - k)) (e + int k))"
proof -
  define M where "M = max (int (num_digits c + j) + e - int prec) Etiny"
  have nd: "num_digits (c * 10 ^ j) = num_digits c + j" using assms(1) by (rule num_digits_mult_pow10)
  have top: "\<not> Etop < int (num_digits c + j) + e - int prec"
    using assms by (simp add: decimal_context)
  show ?thesis
  proof (cases "M \<le> e")
    case True
    then have "dec_fix s (c * 10 ^ j) e = Inr (Fin s (c * 10 ^ j) e)"
      unfolding dec_fix_def nd
      using assms(1) top by (simp only: Let_def M_def [symmetric]) simp
    then show ?thesis by (intro exI [of _ 0]) simp
  next
    case False
    define k where "k = nat (M - e)"
    have m: "M = int (num_digits c + j) + e - int prec" using False assms(3) by (simp add: M_def)
    have k: "int k = M - e" using False by (simp add: k_def)
    have kj: "k \<le> j" using m k assms(2) by linarith
    have pj: "(10::nat) ^ j = 10 ^ (j - k) * 10 ^ k" using kj by (simp flip: power_add)
    have r: "round_half_even (c * 10 ^ j) k = c * 10 ^ (j - k)"
      unfolding pj using round_half_even_exact [of "c * 10 ^ (j - k)" k] by (simp add: mult.assoc)
    have d: "num_digits (c * 10 ^ (j - k)) = prec"
      using num_digits_mult_pow10 [OF assms(1), of "j - k"] m k kj by linarith
    have em: "M = e + int k" using k by simp
    have "\<not> Etop < M" using m top by simp
    then have "dec_fix s (c * 10 ^ j) e = Inr (Fin s (c * 10 ^ (j - k)) M)"
      unfolding dec_fix_def nd
      using assms(1) top False r d by (simp only: Let_def M_def [symmetric] k_def [symmetric]) simp
    with kj em show ?thesis by auto
  qed
qed

section \<open>JSON\<close>

text \<open>\<^verbatim>\<open>d.get(key, default)\<close> on a JSON object.\<close>

definition jget :: "string \<Rightarrow> (string \<times> json) list \<Rightarrow> json \<Rightarrow> json" where
  "jget k m d = (case map_of m k of None \<Rightarrow> d | Some v \<Rightarrow> v)"

fun json_num :: "json \<Rightarrow> decimal option" where
  "json_num (JBool b) = Some (Fin False (if b then 1 else 0) 0)"
| "json_num (JInt i) = Some (Fin (i < 0) (nat \<bar>i\<bar>) 0)"
| "json_num (JFloat d) = Some d"
| "json_num j = None"

lemma zip_size_less [termination_simp]:
  "(a, b) \<in> set (zip xs ys) \<Longrightarrow> size a < Suc (size_list size xs)"
  by (metis less_Suc_eq_le order_less_imp_le set_zip_leftD size_list_estimation' order_refl)

text \<open>\<^verbatim>\<open>==\<close> on decoded JSON: numbers (booleans included) by value, lists item by item, objects by
  their members whatever the order.\<close>

fun json_eq :: "json \<Rightarrow> json \<Rightarrow> bool" where
  "json_eq JNull y \<longleftrightarrow> y = JNull"
| "json_eq (JStr s) y \<longleftrightarrow> y = JStr s"
| "json_eq (JList xs) y \<longleftrightarrow>
     (case y of JList ys \<Rightarrow> length xs = length ys \<and> list_all (\<lambda>(a, b). json_eq a b) (zip xs ys)
      | _ \<Rightarrow> False)"
| "json_eq (JObj m) y \<longleftrightarrow>
     (case y of JObj n \<Rightarrow> length m = length n \<and>
        list_all (\<lambda>(k, v). list_ex (\<lambda>(k', v'). k = k' \<and> json_eq v v') n) m
      | _ \<Rightarrow> False)"
| "json_eq x y \<longleftrightarrow> (case (json_num x, json_num y) of (Some a, Some b) \<Rightarrow> dec_eq a b | _ \<Rightarrow> False)"

text \<open>\<^verbatim>\<open>int(x)\<close> on a decoded JSON value.\<close>

fun py_int_of :: "json \<Rightarrow> int res" where
  "py_int_of (JBool b) = Inr (if b then 1 else 0)"
| "py_int_of (JInt i) = Inr i"
| "py_int_of (JFloat d) = dec_to_int d"
| "py_int_of (JStr s) = (case py_int 10 s of None \<Rightarrow> Inl (ValueError ''invalid literal for int()'')
                         | Some i \<Rightarrow> Inr i)"
| "py_int_of j = Inl (TypeError ''int() argument must be a string or a number'')"

text \<open>The truth value of a decoded JSON value.\<close>

fun truthy :: "json \<Rightarrow> bool" where
  "truthy JNull \<longleftrightarrow> False"
| "truthy (JBool b) \<longleftrightarrow> b"
| "truthy (JInt i) \<longleftrightarrow> i \<noteq> 0"
| "truthy (JFloat d) \<longleftrightarrow> \<not> dec_eq d (Fin False 0 0)"
| "truthy (JStr s) \<longleftrightarrow> s \<noteq> []"
| "truthy (JList xs) \<longleftrightarrow> xs \<noteq> []"
| "truthy (JObj m) \<longleftrightarrow> m \<noteq> []"

text \<open>\<^verbatim>\<open>str(v)\<close>: a string is returned as it is, \<open>py_repr\<close> gives the text of any other decoded value.\<close>

definition py_str :: "(json \<Rightarrow> string) \<Rightarrow> json \<Rightarrow> string" where
  "py_str py_repr v = (case v of JStr s \<Rightarrow> s | _ \<Rightarrow> py_repr v)"

end
