(* ===== verification/Bitcoin_Utils.thy ===== *)
theory Bitcoin_Utils
  imports Py_Decimal
begin

text \<open>
  bitcoin/utils.py: the validators of transaction ids, raw transactions and PSBTs, and the
  conversions between satoshis and BTC amounts. Arguments whose type the code tests with
  \<^verbatim>\<open>isinstance\<close> are decoded JSON values; a BTC amount may also be a \<^verbatim>\<open>Decimal\<close>.
\<close>

section \<open>Validators\<close>

definition validate_txid :: "json \<Rightarrow> string res" where
  "validate_txid txid =
     (case txid of
        JStr s \<Rightarrow>
          let normalized = strip s in
          if normalized = [] then Inl (ValueError ''txid must not be empty.'')
          else if length normalized \<noteq> 64
            then Inl (ValueError ''txid must be a 64-character hexadecimal string.'')
          else if fromhex normalized = None
            then Inl (ValueError ''txid must be a 64-character hexadecimal string.'')
          else Inr normalized
      | _ \<Rightarrow> Inl (ValueError ''txid must be a string.''))"

definition validate_raw_tx_hex :: "json \<Rightarrow> string res" where
  "validate_raw_tx_hex raw_tx_hex =
     (case raw_tx_hex of
        JStr s \<Rightarrow>
          let normalized = strip s in
          if normalized = [] then Inl (ValueError ''raw_tx_hex must not be empty.'')
          else if fromhex normalized = None
            then Inl (ValueError ''raw_tx_hex must be a hexadecimal string.'')
          else Inr normalized
      | _ \<Rightarrow> Inl (ValueError ''raw_tx_hex must be a string.''))"

definition validate_psbt_base64 :: "json \<Rightarrow> string res" where
  "validate_psbt_base64 psbt_base64 =
     (case psbt_base64 of
        JStr s \<Rightarrow>
          let normalized = strip s in
          if normalized = [] then Inl (ValueError ''psbt_base64 must not be empty.'')
          else if \<not> b64_ok normalized
            then Inl (ValueError ''psbt_base64 must be a base64 string.'')
          else Inr normalized
      | _ \<Rightarrow> Inl (ValueError ''psbt_base64 must be a string.''))"

section \<open>Satoshi and BTC amounts\<close>

definition SATOSHIS_PER_BTC :: decimal where
  "SATOSHIS_PER_BTC = Fin False 100000000 0"

text \<open>
  Division by \<open>10 ^ 8\<close> lowers the exponent by eight and rounds to the context; \<^verbatim>\<open>Decimal\<close> drops
  trailing zeros of the quotient, which \<^verbatim>\<open>quantize\<close> puts back.
\<close>

definition div_satoshis_per_btc :: "nat \<Rightarrow> decimal res" where
  "div_satoshis_per_btc n = dec_fix False n (- 8)"

text \<open>\<^verbatim>\<open>format(btc, "f")\<close> of a non-negative decimal with exponent -8.\<close>

definition format_btc :: "nat \<Rightarrow> string" where
  "format_btc c =
     (let f = nat_str (c mod 10 ^ 8)
      in nat_str (c div 10 ^ 8) @ ''.'' @ replicate (8 - length f) CHR ''0'' @ f)"

definition sats_to_btc_string :: "int \<Rightarrow> string res" where
  "sats_to_btc_string amount_sats =
     (if amount_sats < 0 then Inl (ValueError ''amount_sats must be non-negative.'')
      else rbind (div_satoshis_per_btc (nat amount_sats)) (\<lambda>q.
        case q of
          Fin s c e \<Rightarrow> rbind (quantize8_down s c e) (\<lambda>btc.
            case btc of Fin s' c' e' \<Rightarrow> Inr (format_btc c') | _ \<Rightarrow> Inr ''NaN'')
        | _ \<Rightarrow> Inl (InvalidOperation ''quantize with an infinity'')))"

datatype btc_value = BDecimal decimal | BJson json

text \<open>
  The constructor call of the \<^verbatim>\<open>try\<close> block: \<open>None\<close> stands for the exceptions caught there. A list counts as
  invalid; the constructor would also take a list of a sign, digits and an exponent, but Bitcoin Core
  reports amounts as numbers.
\<close>

fun decimal_of :: "btc_value \<Rightarrow> decimal option" where
  "decimal_of (BDecimal d) = Some d"
| "decimal_of (BJson (JFloat d)) = Some d"
| "decimal_of (BJson (JInt i)) = Some (Fin (i < 0) (nat \<bar>i\<bar>) 0)"
| "decimal_of (BJson (JStr s)) = dec_of_string s"
| "decimal_of _ = None"

definition btc_value_to_sats :: "btc_value \<Rightarrow> int res" where
  "btc_value_to_sats btc_value =
     (if (case btc_value of BJson (JBool b) \<Rightarrow> True | _ \<Rightarrow> False)
      then Inl (ValueError ''Invalid BTC value.'')
      else case decimal_of btc_value of
        None \<Rightarrow> Inl (ValueError ''Invalid BTC value.'')
      | Some value \<Rightarrow>
          if \<not> is_finite value then Inl (ValueError ''Invalid BTC value.'')
          else if dec_negative value then Inl (ValueError ''BTC value must be non-negative.'')
          else rbind (dec_mult value SATOSHIS_PER_BTC) (\<lambda>sats_decimal.
            if \<not> dec_eq sats_decimal (to_integral_value sats_decimal)
            then Inl (ValueError ''BTC value is not exactly representable in satoshis.'')
            else dec_to_int sats_decimal))"

section \<open>Lemmas\<close>

lemma validate_txid_Inr_iff:
  "validate_txid j = Inr t \<longleftrightarrow>
     (\<exists>s. j = JStr s \<and> t = strip s \<and> length t = 64 \<and> fromhex t \<noteq> None)"
  by (cases j) (auto simp: validate_txid_def Let_def split: if_splits)

lemma validate_raw_tx_hex_Inr_iff:
  "validate_raw_tx_hex j = Inr t \<longleftrightarrow>
     (\<exists>s. j = JStr s \<and> t = strip s \<and> t \<noteq> [] \<and> fromhex t \<noteq> None)"
  by (cases j) (auto simp: validate_raw_tx_hex_def Let_def split: if_splits)

lemma validate_psbt_base64_Inr_iff:
  "validate_psbt_base64 j = Inr t \<longleftrightarrow>
     (\<exists>s. j = JStr s \<and> t = strip s \<and> t \<noteq> [] \<and> b64_ok t)"
  by (cases j) (auto simp: validate_psbt_base64_def Let_def split: if_splits)

text \<open>A validator returns a string that it maps to itself.\<close>

lemma validate_txid_idem: "validate_txid j = Inr t \<Longrightarrow> validate_txid (JStr t) = Inr t"
  by (auto simp: validate_txid_Inr_iff)

lemma validate_psbt_idem: "validate_psbt_base64 j = Inr t \<Longrightarrow> validate_psbt_base64 (JStr t) = Inr t"
  by (auto simp: validate_psbt_base64_Inr_iff)

lemma validators_raise_value_error:
  "validate_txid j = Inl e \<Longrightarrow> \<exists>m. e = ValueError m"
  "validate_raw_tx_hex j = Inl e \<Longrightarrow> \<exists>m. e = ValueError m"
  "validate_psbt_base64 j = Inl e \<Longrightarrow> \<exists>m. e = ValueError m"
  by (cases j; auto simp: validate_txid_def validate_raw_tx_hex_def validate_psbt_base64_def Let_def
      split: if_splits)+

lemma sats_to_btc_string_ok:
  assumes "0 \<le> n" "n < 10 ^ 28"
  shows "sats_to_btc_string n = Inr (format_btc (nat n))"
proof (cases "n = 0")
  case True
  then show ?thesis
    by (simp add: sats_to_btc_string_def div_satoshis_per_btc_def dec_fix_def decimal_context
        quantize8_down_def nat_str.simps)
next
  case False
  have d: "num_digits (nat n) \<le> 28" using assms by (subst num_digits_le_iff) auto
  have "dec_fix False (nat n * 10 ^ 0) (- 8) = Inr (Fin False (nat n) (- 8))"
    using dec_fix_pow10_exact [of "nat n" "- 8" 0 False] False assms d
    by (auto simp: decimal_context)
  then show ?thesis
    using assms d by (simp add: sats_to_btc_string_def div_satoshis_per_btc_def quantize8_down_def decimal_context)
qed

subsection \<open>Exact conversion up to 28 digits\<close>

text \<open>The number \<open>c * 10 ^ (e + 8)\<close> of satoshis, when it is a whole number.\<close>

definition exact_sats :: "nat \<Rightarrow> int \<Rightarrow> nat option" where
  "exact_sats c e =
     (if 0 \<le> e + 8 then Some (c * 10 ^ nat (e + 8))
      else if 10 ^ nat (- 8 - e) dvd c then Some (c div 10 ^ nat (- 8 - e)) else None)"

definition sats_of_decimal :: "decimal \<Rightarrow> int res" where
  "sats_of_decimal d =
     (if \<not> dec_eq d (to_integral_value d)
      then Inl (ValueError ''BTC value is not exactly representable in satoshis.'')
      else dec_to_int d)"

lemma sats_of_decimal_Fin:
  "sats_of_decimal (Fin s c e) =
     (if 0 \<le> e then Inr (signed s c * 10 ^ nat e)
      else if 10 ^ nat (- e) dvd c then Inr (signed s (c div 10 ^ nat (- e)))
      else Inl (ValueError ''BTC value is not exactly representable in satoshis.''))"
  unfolding sats_of_decimal_def dec_eq_to_integral by simp

lemma sats_of_decimal_pow10:
  assumes "k \<le> 8"
  shows "sats_of_decimal (Fin False (c * 10 ^ (8 - k)) (e + int k)) =
     (case exact_sats c e of
        None \<Rightarrow> Inl (ValueError ''BTC value is not exactly representable in satoshis.'')
      | Some s \<Rightarrow> Inr (int s))"
proof -
  consider "0 \<le> e + int k" | "e + int k < 0" "0 \<le> e + 8" | "e + 8 < 0" using assms by linarith
  then show ?thesis
  proof cases
    case 1
    then have "nat (e + 8) = (8 - k) + nat (e + int k)" using assms by linarith
    then have "(10::int) ^ (8 - k) * 10 ^ nat (e + int k) = 10 ^ nat (e + 8)"
      by (simp only: power_add)
    with 1 show ?thesis
      using assms by (simp add: sats_of_decimal_Fin exact_sats_def signed_def mult.assoc)
  next
    case 2
    then have n: "8 - k = nat (e + 8) + nat (- e - int k)" using assms by linarith
    then have "(c * 10 ^ (8 - k)) = c * 10 ^ nat (e + 8) * 10 ^ nat (- e - int k)"
      by (simp add: power_add)
    moreover have "nat (- (e + int k)) = nat (- e - int k)" by simp
    ultimately show ?thesis
      unfolding sats_of_decimal_Fin using 2 by (simp only: exact_sats_def signed_def) simp
  next
    case 3
    then have n: "nat (- (e + int k)) = (8 - k) + nat (- 8 - e)" using assms by linarith
    have "10 ^ nat (- (e + int k)) dvd c * 10 ^ (8 - k) \<longleftrightarrow> 10 ^ nat (- 8 - e) dvd c"
      unfolding n power_add by (simp add: mult.commute)
    moreover have "c * 10 ^ (8 - k) div 10 ^ nat (- (e + int k)) = c div 10 ^ nat (- 8 - e)"
      unfolding n power_add by (simp add: mult.commute)
    ultimately show ?thesis
      using 3 assms by (simp only: sats_of_decimal_Fin exact_sats_def signed_def) auto
  qed
qed

lemma btc_value_to_sats_decimal:
  assumes "decimal_of v = Some (Fin neg c e)" "neg \<longrightarrow> c = 0"
  shows "btc_value_to_sats v = rbind (dec_fix neg (c * 10 ^ 8) e) sats_of_decimal"
proof -
  have nb: "(case v of BJson (JBool b) \<Rightarrow> True | _ \<Rightarrow> False) = False"
    using assms(1) by (cases v rule: decimal_of.cases) auto
  show ?thesis
    using assms nb by (auto simp: btc_value_to_sats_def SATOSHIS_PER_BTC_def fun_eq_iff
        sats_of_decimal_def [abs_def])
qed

lemma btc_value_to_sats_exact:
  assumes "decimal_of v = Some (Fin neg c e)" "neg \<longrightarrow> c = 0"
    and "num_digits c \<le> 28" "- 1000026 \<le> e" "e \<le> 900000"
  shows "btc_value_to_sats v =
    (case exact_sats c e of
       None \<Rightarrow> Inl (ValueError ''BTC value is not exactly representable in satoshis.'')
     | Some s \<Rightarrow> Inr (int s))"
proof (cases "c = 0")
  case True
  define E where "E = min (max e Etiny) Emax"
  have "btc_value_to_sats v = sats_of_decimal (Fin neg 0 E)"
    unfolding btc_value_to_sats_decimal [OF assms(1, 2)] using True by (simp add: dec_fix_def E_def)
  also have "\<dots> = Inr 0"
    by (simp add: sats_of_decimal_Fin signed_def)
  finally show ?thesis using True by (simp add: exact_sats_def)
next
  case False
  then obtain k where "k \<le> 8" "dec_fix neg (c * 10 ^ 8) e = Inr (Fin neg (c * 10 ^ (8 - k)) (e + int k))"
    using dec_fix_pow10_exact [of c e 8 neg] assms by (auto simp: decimal_context)
  with False assms show ?thesis
    unfolding btc_value_to_sats_decimal [OF assms(1, 2)] by (simp add: sats_of_decimal_pow10)
qed

subsection \<open>Printing and reading back\<close>

lemma dec_val_append: "dec_val (a @ b) = dec_val a * 10 ^ length b + dec_val b"
proof (induction b rule: rev_induct)
  case Nil
  then show ?case by (simp add: dec_val_def)
next
  case (snoc c b)
  have "dec_val (a @ b @ [c]) = 10 * dec_val (a @ b) + digit_val c"
    using dec_val_append_digit [of "a @ b" c] by simp
  with snoc show ?case by (simp add: dec_val_append_digit algebra_simps)
qed

lemma dec_val_zeros [simp]: "dec_val (replicate k CHR ''0'') = 0"
  by (induction k) (auto simp: dec_val_def digit_val_def simp flip: replicate_append_same)

text \<open>The fraction part of a formatted amount: eight digits.\<close>

definition btc_fraction :: "nat \<Rightarrow> string" where
  "btc_fraction c =
     replicate (8 - length (nat_str (c mod 10 ^ 8))) CHR ''0'' @ nat_str (c mod 10 ^ 8)"

lemma btc_fraction_length [simp]: "length (btc_fraction c) = 8"
proof -
  have "num_digits (c mod 10 ^ 8) \<le> 8" by (subst num_digits_le_iff) auto
  then show ?thesis by (simp add: btc_fraction_def)
qed

lemma btc_fraction_digits: "list_all is_digit (btc_fraction c)"
  using nat_str_digits by (auto simp: btc_fraction_def list_all_iff is_digit_def)

lemma btc_fraction_val [simp]: "dec_val (btc_fraction c) = c mod 10 ^ 8"
  unfolding btc_fraction_def dec_val_append by simp

lemma format_btc_alt: "format_btc c = nat_str (c div 10 ^ 8) @ CHR ''.'' # btc_fraction c"
  by (simp add: format_btc_def btc_fraction_def Let_def)

lemma takeWhile_digits_append:
  "list_all P a \<Longrightarrow> takeWhile P (a @ b) = a @ takeWhile P b"
  "list_all P a \<Longrightarrow> dropWhile P (a @ b) = dropWhile P b"
  by (auto simp: list_all_iff)

lemma dec_number_format:
  assumes "list_all is_digit ip" "list_all is_digit fp" "length fp = 8"
    and "num_digits (dec_val (ip @ fp)) < 10 ^ 9"
  shows "dec_number neg (ip @ CHR ''.'' # fp) = Some (Fin neg (dec_val (ip @ fp)) (- 8))"
proof -
  have t: "takeWhile is_digit fp = fp" "dropWhile is_digit fp = []"
    using takeWhile_digits_append [OF assms(2), of "[]"] by auto
  have "fp \<noteq> []" "\<not> is_digit CHR ''.''" using assms(3) by (auto simp: is_digit_def)
  then show ?thesis
    using assms
    by (simp add: t dec_number_def takeWhile_digits_append dec_exponent_def MAX_EMAX_def MIN_ETINY_def Let_def)
qed

lemma digit_facts:
  assumes "is_digit c \<or> c = CHR ''.''"
  shows "\<not> is_py_space c" "lower_char c = c" "c \<noteq> CHR ''_''" "c \<noteq> CHR ''-''" "c \<noteq> CHR ''+''"
    "c \<noteq> CHR ''i''" "c \<noteq> CHR ''n''" "c \<noteq> CHR ''s''"
  using assms by (auto simp: is_py_space_def is_digit_def lower_char_def)

lemma dec_of_string_number:
  assumes "list_all (\<lambda>c. is_digit c \<or> c = CHR ''.'') s" "s \<noteq> []"
  shows "dec_of_string s = dec_number False s"
proof -
  obtain c t where s: "s = c # t" using assms(2) by (cases s) auto
  have c: "is_digit c \<or> c = CHR ''.''" using assms(1) s by simp
  have l: "is_digit (last s) \<or> last s = CHR ''.''" using assms by (auto simp: list_all_iff)
  have "strip s = s"
    unfolding strip_def using digit_facts(1) [OF l] digit_facts(1) [OF c] s by (intro strip_by_id) simp
  moreover have "filter (\<lambda>c. c \<noteq> CHR ''_'') s = s"
    using assms(1) digit_facts(3) by (fastforce simp: filter_id_conv list_all_iff)
  moreover have "lower s = s"
    using assms(1) digit_facts(2) by (fastforce simp: lower_def list_all_iff intro: map_idI)
  ultimately show ?thesis
    using digit_facts [OF c] s by (simp add: dec_of_string_def Let_def)
qed

lemma dec_of_string_format_btc:
  assumes "c < 10 ^ 28"
  shows "dec_of_string (format_btc c) = Some (Fin False c (- 8))"
proof -
  have v: "dec_val (nat_str (c div 10 ^ 8) @ btc_fraction c) = c"
    unfolding dec_val_append by simp
  have d: "num_digits c \<le> 28" using assms by (subst num_digits_le_iff) auto
  have "list_all (\<lambda>c. is_digit c \<or> c = CHR ''.'') (format_btc c)"
    using nat_str_digits [of "c div 10 ^ 8"] btc_fraction_digits [of c]
    by (auto simp: format_btc_alt list_all_iff)
  moreover have "format_btc c \<noteq> []" by (simp add: format_btc_alt)
  ultimately have "dec_of_string (format_btc c) = dec_number False (format_btc c)"
    by (rule dec_of_string_number)
  also have "\<dots> = Some (Fin False c (- 8))"
    unfolding format_btc_alt using dec_number_format [OF nat_str_digits btc_fraction_digits] v d by simp
  finally show ?thesis .
qed

lemma btc_string_round_trip:
  assumes "0 \<le> n" "n < 10 ^ 28"
  shows "rbind (sats_to_btc_string n) (\<lambda>s. btc_value_to_sats (BJson (JStr s))) = Inr n"
proof -
  have n: "nat n < 10 ^ 28" using assms by (simp add: nat_less_iff)
  have "num_digits (nat n) \<le> 28" using n by (subst num_digits_le_iff) auto
  then have "btc_value_to_sats (BJson (JStr (format_btc (nat n)))) = Inr n"
    using btc_value_to_sats_exact [of "BJson (JStr (format_btc (nat n)))" False "nat n" "- 8"]
      dec_of_string_format_btc [OF n] assms(1)
    by (simp add: exact_sats_def)
  then show ?thesis using assms by (simp add: sats_to_btc_string_ok)
qed

section \<open>Properties\<close>

lemma digit_chars:
  "char_of (48 :: nat) = CHR ''0''" "char_of (49 :: nat) = CHR ''1''" "char_of (50 :: nat) = CHR ''2''"
  "char_of (51 :: nat) = CHR ''3''" "char_of (52 :: nat) = CHR ''4''" "char_of (53 :: nat) = CHR ''5''"
  "char_of (54 :: nat) = CHR ''6''" "char_of (55 :: nat) = CHR ''7''" "char_of (56 :: nat) = CHR ''8''"
  "char_of (57 :: nat) = CHR ''9''"
  by code_simp+

text \<open>
  C19. An amount that is not negative, of at most 28 digits and with an exponent between \<open>- 1000026\<close> and \<open>900000\<close>, is
  converted exactly or refused: a value \<open>c * 10 ^ e\<close> becomes \<open>c * 10 ^ (e + 8)\<close> satoshis when that is a whole
  number, and raises \<^verbatim>\<open>ValueError\<close> otherwise. Below these exponents the product can underflow to zero
  (\<open>btc_value_underflow_accepted\<close>).
\<close>

theorem btc_value_exact:
  assumes "decimal_of v = Some (Fin neg c e)" "neg \<longrightarrow> c = 0"
    and "num_digits c \<le> 28" "- 1000026 \<le> e" "e \<le> 900000"
  shows "btc_value_to_sats v =
    (case exact_sats c e of
       None \<Rightarrow> Inl (ValueError ''BTC value is not exactly representable in satoshis.'')
     | Some s \<Rightarrow> Inr (int s))"
  using assms by (rule btc_value_to_sats_exact)

theorem btc_value_exact_witness:
  "btc_value_to_sats (BJson (JStr ''0.00012345'')) = Inr 12345"
proof -
  have "replicate 3 CHR ''0'' = ''000''" by (simp add: numeral_3_eq_3)
  then have "format_btc 12345 = ''0.00012345''" by (simp add: format_btc_def nat_str.simps digit_chars)
  then have "decimal_of (BJson (JStr ''0.00012345'')) = Some (Fin False 12345 (- 8))"
    using dec_of_string_format_btc [of 12345] by simp
  from btc_value_exact [OF this] show ?thesis by (simp add: exact_sats_def nat_str.simps)
qed

text \<open>
  C20. Formatting an amount below \<open>10 ^ 28\<close> satoshis as BTC and converting it back gives the same
  amount; in particular neither direction raises.
\<close>

theorem btc_format_round_trip:
  assumes "0 \<le> n" "n < 10 ^ 28"
  shows "\<exists>s. sats_to_btc_string n = Inr s \<and> btc_value_to_sats (BJson (JStr s)) = Inr n"
  using btc_string_round_trip [OF assms] by (auto simp: res_simps)

theorem btc_format_round_trip_witness:
  "\<exists>s. sats_to_btc_string 2100000000000000 = Inr s \<and> btc_value_to_sats (BJson (JStr s)) = Inr 2100000000000000"
  by (rule btc_format_round_trip) simp_all

text \<open>A tiny amount underflows in the multiplication and is accepted as no satoshi at all.\<close>

theorem btc_value_underflow_accepted:
  "btc_value_to_sats (BDecimal (Fin False 1 (- 1000060))) = Inr 0"
proof -
  have "dec_fix False (10 ^ 8) (- 1000060) = Inr (Fin False 0 Etiny)"
    by (simp add: dec_fix_def decimal_context nat_str.simps round_half_even_def signed_def Let_def)
  then show ?thesis
    using btc_value_to_sats_decimal [of "BDecimal (Fin False 1 (- 1000060))" False 1 "- 1000060"]
    by (simp add: sats_of_decimal_Fin signed_def)
qed

text \<open>
  Beyond 28 digits the multiplication rounds before the test for a whole number of satoshis:
  an amount that is not one satoshi is accepted as one satoshi.
\<close>

theorem btc_value_rounded_accepted:
  "decimal_of (BJson (JStr ''0.000000010000000000000000000000000001'')) =
     Some (Fin False 10000000000000000000000000001 (- 36)) \<and>
   exact_sats 10000000000000000000000000001 (- 36) = None \<and>
   btc_value_to_sats (BJson (JStr ''0.000000010000000000000000000000000001'')) = Inr 1"
proof (intro conjI)
  show d: "decimal_of (BJson (JStr ''0.000000010000000000000000000000000001'')) =
     Some (Fin False 10000000000000000000000000001 (- 36))"
  proof -
    have "list_all (\<lambda>c. is_digit c \<or> c = CHR ''.'') ''0.000000010000000000000000000000000001''"
      by (simp add: is_digit_def)
    from dec_of_string_number [OF this] show ?thesis
      by (simp add: dec_number_def is_digit_def dec_exponent_def dec_val_def digit_val_def nat_str.simps
          MAX_EMAX_def MIN_ETINY_def)
  qed
  show "exact_sats 10000000000000000000000000001 (- 36) = None"
    by (simp add: exact_sats_def)
  show "btc_value_to_sats (BJson (JStr ''0.000000010000000000000000000000000001'')) = Inr 1"
    using btc_value_to_sats_decimal [OF d]
    by (simp add: dec_fix_def decimal_context nat_str.simps round_half_even_def sats_of_decimal_Fin
        signed_def)
qed

text \<open>
  The transaction ids that are accepted: after trimming, 64 characters that \<^verbatim>\<open>bytes.fromhex\<close>
  accepts; the trimmed form is returned and is accepted again unchanged. Everything else raises
  \<^verbatim>\<open>ValueError\<close>.
\<close>

theorem validate_txid_spec:
  "(\<forall>t. validate_txid j = Inr t \<longleftrightarrow> (\<exists>s. j = JStr s \<and> t = strip s \<and> length t = 64 \<and> fromhex t \<noteq> None)) \<and>
   (\<forall>t. validate_txid j = Inr t \<longrightarrow> validate_txid (JStr t) = Inr t) \<and>
   (\<forall>e. validate_txid j = Inl e \<longrightarrow> (\<exists>m. e = ValueError m))"
  by (intro conjI allI impI validate_txid_Inr_iff)
    (erule validate_txid_idem, erule validators_raise_value_error(1))

theorem validate_txid_spec_witness:
  "validate_txid (JStr (replicate 64 CHR ''a'')) = Inr (replicate 64 CHR ''a'')"
proof -
  have "strip (replicate 64 CHR ''a'') = replicate 64 CHR ''a''" "fromhex (replicate 64 CHR ''a'') \<noteq> None"
    by code_simp+
  with validate_txid_spec [of "JStr (replicate 64 CHR ''a'')"] show ?thesis by simp
qed

text \<open>
  \<^verbatim>\<open>bytes.fromhex\<close> skips blanks, so a 64-character string of 62 digits and two blanks in
  the middle is accepted as a transaction id although it has 31 bytes only.
\<close>

theorem validate_txid_accepts_blanks:
  "validate_txid (JStr (replicate 32 CHR ''a'' @ ''  '' @ replicate 30 CHR ''a'')) =
     Inr (replicate 32 CHR ''a'' @ ''  '' @ replicate 30 CHR ''a'') \<and>
   map_option length (fromhex (replicate 32 CHR ''a'' @ ''  '' @ replicate 30 CHR ''a'')) = Some 31"
  by code_simp

end
