(* ===== verification/Rpc_Client.thy ===== *)
theory Rpc_Client
  imports Bitcoin_Utils
begin

text \<open>
  bitcoin/rpc_client.py and bitcoin/rpc_errors.py: the JSON-RPC client of Bitcoin Core. The node
  and the HTTP library are a parameter: the outcome of the POST request with a given id, method
  and parameter list. Ids are never issued twice, so a function of them covers a node whose
  answers change over time. The client's own state is its request counter; beside it the model keeps
  the method and the parameters of every request that was posted, for statements about what is asked of
  the node. No operation reads this record.
\<close>

section \<open>The service behind the client\<close>

text \<open>
  \<open>RequestFailed\<close> is \<^verbatim>\<open>httpx.RequestError\<close>. Otherwise \<open>status_ok\<close> says that
  \<^verbatim>\<open>raise_for_status\<close> does not raise, and \<open>body\<close> is the decoded document, \<open>None\<close> when
  \<^verbatim>\<open>response.json()\<close> raises \<^verbatim>\<open>ValueError\<close>.
\<close>

datatype http_outcome = RequestFailed | Response (status_ok: bool) (body: "json option")

type_synonym rpc_node = "int \<Rightarrow> string \<Rightarrow> json list \<Rightarrow> http_outcome"

record rpc_client =
  request_id :: int
  posted :: "(string \<times> json list) list"

type_synonym 'a rpc = "(rpc_client, py_exn, 'a) sm"

definition fresh_client :: rpc_client where
  "fresh_client = \<lparr>request_id = 0, posted = []\<rparr>"

definition next_request :: "string \<Rightarrow> json list \<Rightarrow> rpc_client \<Rightarrow> rpc_client" where
  "next_request m params s = s\<lparr>request_id := request_id s + 1, posted := posted s @ [(m, params)]\<rparr>"

section \<open>Configuration\<close>

record rpc_config =
  rpc_url :: string
  wallet_name :: "string option"
  timeout_seconds :: decimal

definition url_unreserved :: "nat \<Rightarrow> bool" where
  "url_unreserved n \<longleftrightarrow> (48 \<le> n \<and> n \<le> 57) \<or> (65 \<le> n \<and> n \<le> 90) \<or> (97 \<le> n \<and> n \<le> 122)
     \<or> n \<in> {45, 46, 95, 126}"

definition upper_hex_digit :: "nat \<Rightarrow> char" where
  "upper_hex_digit n = (if n < 10 then char_of (48 + n) else char_of (55 + n))"

text \<open>\<^verbatim>\<open>urllib.parse.quote(s, safe='')\<close>.\<close>

definition url_quote :: "string \<Rightarrow> string" where
  "url_quote s = concat (map (\<lambda>b. let n = unat b in
      if url_unreserved n then [char_of n]
      else [CHR ''%'', upper_hex_digit (n div 16), upper_hex_digit (n mod 16)]) (utf8 s))"

definition rstrip_slash :: "string \<Rightarrow> string" where
  "rstrip_slash s = rev (dropWhile (\<lambda>c. c = CHR ''/'') (rev s))"

definition not_positive :: "decimal \<Rightarrow> bool" where
  "not_positive d = (case d of Fin s c e \<Rightarrow> s \<or> c = 0 | Infinite s \<Rightarrow> s | NaN \<Rightarrow> False)"

text \<open>\<open>from_config\<close> returns the endpoint URL and the fresh client that posts to it.\<close>

definition from_config :: "rpc_config \<Rightarrow> (string \<times> rpc_client) res" where
  "from_config config =
     (let url = rstrip_slash (strip (rpc_url config)) in
      if url = [] then Inl (ValueError ''rpc_url must not be empty.'')
      else if not_positive (timeout_seconds config)
        then Inl (ValueError ''timeout_seconds must be positive.'')
      else let wallet = (case wallet_name config of None \<Rightarrow> [] | Some w \<Rightarrow> strip w) in
        Inr (if wallet \<noteq> [] then url @ ''/wallet/'' @ url_quote wallet else url,
             fresh_client))"

section \<open>The call\<close>

definition rpc_error :: "string \<Rightarrow> string \<Rightarrow> py_exn" where
  "rpc_error m msg = BitcoinRpcError m JNull (JStr msg)"

definition raise_for_status :: "string \<Rightarrow> bool \<Rightarrow> unit res" where
  "raise_for_status m ok = (if ok then Inr () else Inl (rpc_error m ''RPC HTTP error''))"

text \<open>What \<open>call\<close> makes of the outcome of its request.\<close>

definition read_response :: "string \<Rightarrow> int \<Rightarrow> http_outcome \<Rightarrow> json res" where
  "read_response m rid outcome =
     (case outcome of
        RequestFailed \<Rightarrow> Inl (rpc_error m ''RPC request failed'')
      | Response ok None \<Rightarrow>
          rbind (raise_for_status m ok) (\<lambda>_. Inl (rpc_error m ''RPC response was not valid JSON.''))
      | Response ok (Some payload) \<Rightarrow>
          (case payload of
             JObj p \<Rightarrow>
               let error = jget ''error'' p JNull in
               if error \<noteq> JNull then
                 Inl (case error of
                    JObj e \<Rightarrow> BitcoinRpcError m (jget ''code'' e JNull)
                                (jget ''message'' e (JStr ''Unknown RPC error.''))
                  | _ \<Rightarrow> rpc_error m ''Unknown RPC error'')
               else rbind (raise_for_status m ok) (\<lambda>_.
                 case map_of p ''result'' of
                   None \<Rightarrow> Inl (rpc_error m ''RPC response did not contain a result field.'')
                 | Some result \<Rightarrow>
                     if \<not> json_eq (jget ''id'' p JNull) (JInt rid)
                     then Inl (rpc_error m ''RPC response id did not match request id.'')
                     else Inr result)
           | _ \<Rightarrow> Inl (rpc_error m ''RPC response is not a JSON object.'')))"

definition call :: "rpc_node \<Rightarrow> string \<Rightarrow> json list \<Rightarrow> json rpc" where
  "call node method_arg params = (\<lambda>s.
     let m = strip method_arg in
     if m = [] then (Inl (ValueError ''method must not be empty.''), s)
     else let rid = request_id s + 1 in
       (read_response m rid (node rid m params), next_request m params s))"

section \<open>The wrappers\<close>

definition json_object :: "string \<Rightarrow> json \<Rightarrow> (string \<times> json) list res" where
  "json_object msg j = (case j of JObj m \<Rightarrow> Inr m | _ \<Rightarrow> Inl (ValueError msg))"

definition json_string :: "string \<Rightarrow> json \<Rightarrow> string res" where
  "json_string msg j = (case j of JStr s \<Rightarrow> Inr s | _ \<Rightarrow> Inl (ValueError msg))"

text \<open>\<^verbatim>\<open>isinstance(x, bool) or not isinstance(x, int)\<close>.\<close>

definition json_int :: "string \<Rightarrow> json \<Rightarrow> int res" where
  "json_int msg j = (case j of JInt i \<Rightarrow> Inr i | _ \<Rightarrow> Inl (ValueError msg))"

definition json_bool :: "string \<Rightarrow> json \<Rightarrow> bool res" where
  "json_bool msg j = (case j of JBool b \<Rightarrow> Inr b | _ \<Rightarrow> Inl (ValueError msg))"

definition json_list :: "string \<Rightarrow> json \<Rightarrow> json list res" where
  "json_list msg j = (case j of JList xs \<Rightarrow> Inr xs | _ \<Rightarrow> Inl (ValueError msg))"

definition get_raw_transaction :: "rpc_node \<Rightarrow> json \<Rightarrow> json \<Rightarrow> (string \<times> json) list rpc" where
  "get_raw_transaction node txid verbosity =
     sbind (slift (validate_txid txid)) (\<lambda>txid.
     sbind (swhen_raise (\<not> (json_eq verbosity (JInt 1) \<or> json_eq verbosity (JInt 2)))
              (ValueError ''verbosity must be 1 or 2.'')) (\<lambda>_.
     sbind (call node ''getrawtransaction'' [JStr txid, verbosity]) (\<lambda>result.
     slift (json_object ''getrawtransaction returned a non-dict result.'' result))))"

definition get_block_count :: "rpc_node \<Rightarrow> int rpc" where
  "get_block_count node =
     sbind (call node ''getblockcount'' []) (\<lambda>result.
     sbind (slift (json_int ''getblockcount returned a non-int result.'' result)) (\<lambda>n.
     sbind (swhen_raise (n < 0) (ValueError ''getblockcount returned a negative block height.'')) (\<lambda>_.
     sreturn n)))"

definition get_tx_out :: "rpc_node \<Rightarrow> json \<Rightarrow> json \<Rightarrow> json \<Rightarrow> (string \<times> json) list option rpc" where
  "get_tx_out node txid vout include_mempool =
     sbind (slift (validate_txid txid)) (\<lambda>txid.
     sbind (slift (json_int ''vout must be an integer.'' vout)) (\<lambda>v.
     sbind (swhen_raise (v < 0) (ValueError ''vout must be non-negative.'')) (\<lambda>_.
     sbind (slift (json_bool ''include_mempool must be a bool.'' include_mempool)) (\<lambda>_.
     sbind (call node ''gettxout'' [JStr txid, vout, include_mempool]) (\<lambda>result.
     if result = JNull then sreturn None
     else sbind (slift (json_object ''gettxout returned a non-dict result.'' result)) (\<lambda>m.
       sreturn (Some m)))))))"

text \<open>The argument checks that \<open>create_raw_transaction\<close> and \<open>create_psbt\<close> share.\<close>

definition check_create_args :: "json \<Rightarrow> json \<Rightarrow> json \<Rightarrow> json \<Rightarrow> unit res" where
  "check_create_args inputs outputs locktime replaceable =
     rbind (json_list ''inputs must be a list.'' inputs) (\<lambda>_.
     rbind (json_list ''outputs must be a list.'' outputs) (\<lambda>_.
     rbind (json_int ''locktime must be an integer.'' locktime) (\<lambda>n.
     rbind (guard_res (0 \<le> n) (ValueError ''locktime must be non-negative.'')) (\<lambda>_.
     rbind (json_bool ''replaceable must be a bool.'' replaceable) (\<lambda>_. Inr ())))))"

definition create_raw_transaction ::
    "rpc_node \<Rightarrow> json \<Rightarrow> json \<Rightarrow> json \<Rightarrow> json \<Rightarrow> string rpc" where
  "create_raw_transaction node inputs outputs locktime replaceable =
     sbind (slift (check_create_args inputs outputs locktime replaceable)) (\<lambda>_.
     sbind (call node ''createrawtransaction'' [inputs, outputs, locktime, replaceable]) (\<lambda>result.
     slift (json_string ''createrawtransaction returned a non-string result.'' result)))"

definition create_psbt :: "rpc_node \<Rightarrow> json \<Rightarrow> json \<Rightarrow> json \<Rightarrow> json \<Rightarrow> string rpc" where
  "create_psbt node inputs outputs locktime replaceable =
     sbind (slift (check_create_args inputs outputs locktime replaceable)) (\<lambda>_.
     sbind (call node ''createpsbt'' [inputs, outputs, locktime, replaceable]) (\<lambda>result.
     sbind (slift (json_string ''createpsbt returned a non-string result.'' result)) (\<lambda>r.
     let normalized = strip r in
     sbind (swhen_raise (normalized = []) (ValueError ''createpsbt returned an empty PSBT string.'')) (\<lambda>_.
     sbind (swhen_raise (\<not> b64_ok normalized)
              (ValueError ''createpsbt returned a non-base64 PSBT string.'')) (\<lambda>_.
     sreturn normalized)))))"

definition finalize_psbt :: "rpc_node \<Rightarrow> json \<Rightarrow> json \<Rightarrow> (string \<times> json) list rpc" where
  "finalize_psbt node psbt_base64 extract =
     sbind (slift (validate_psbt_base64 psbt_base64)) (\<lambda>psbt.
     sbind (slift (json_bool ''extract must be a bool.'' extract)) (\<lambda>_.
     sbind (call node ''finalizepsbt'' [JStr psbt, extract]) (\<lambda>result.
     slift (json_object ''finalizepsbt returned a non-dict result.'' result))))"

definition finalize_psbt_extract_tx_hex :: "rpc_node \<Rightarrow> json \<Rightarrow> string rpc" where
  "finalize_psbt_extract_tx_hex node psbt_base64 =
     sbind (finalize_psbt node psbt_base64 (JBool True)) (\<lambda>result.
     sbind (slift (json_bool ''finalizepsbt returned a non-bool complete flag.''
              (jget ''complete'' result JNull))) (\<lambda>complete.
     sbind (swhen_raise (\<not> complete) (ValueError ''finalizepsbt returned an incomplete PSBT.'')) (\<lambda>_.
     sbind (slift (json_string ''finalizepsbt returned a non-string hex result.''
              (jget ''hex'' result JNull))) (\<lambda>tx_hex.
     slift (validate_raw_tx_hex (JStr tx_hex))))))"

definition decode_raw_transaction :: "rpc_node \<Rightarrow> json \<Rightarrow> (string \<times> json) list rpc" where
  "decode_raw_transaction node raw_tx_hex =
     sbind (slift (validate_raw_tx_hex raw_tx_hex)) (\<lambda>h.
     sbind (call node ''decoderawtransaction'' [JStr h]) (\<lambda>result.
     slift (json_object ''decoderawtransaction returned a non-dict result.'' result)))"

definition send_raw_transaction :: "rpc_node \<Rightarrow> json \<Rightarrow> string rpc" where
  "send_raw_transaction node raw_tx_hex =
     sbind (slift (validate_raw_tx_hex raw_tx_hex)) (\<lambda>h.
     sbind (call node ''sendrawtransaction'' [JStr h]) (\<lambda>result.
     slift (json_string ''sendrawtransaction returned a non-string result.'' result)))"

definition test_mempool_accept :: "rpc_node \<Rightarrow> json \<Rightarrow> (string \<times> json) list rpc" where
  "test_mempool_accept node raw_tx_hex =
     sbind (slift (validate_raw_tx_hex raw_tx_hex)) (\<lambda>h.
     sbind (call node ''testmempoolaccept'' [JList [JStr h]]) (\<lambda>result.
     slift (case result of
        JList [item] \<Rightarrow> json_object ''testmempoolaccept result item was not a dict.'' item
      | _ \<Rightarrow> Inl (ValueError ''testmempoolaccept returned an unexpected result.''))))"

section \<open>Error codes\<close>

definition RPC_INVALID_ADDRESS_OR_KEY :: int where "RPC_INVALID_ADDRESS_OR_KEY = - 5"

text \<open>The values of \<^verbatim>\<open>BitcoinRpcErrorCode\<close>, in the order of the class.\<close>

definition rpc_error_codes :: "int list" where
  "rpc_error_codes =
     [- 32600, - 32601, - 32602, - 32603, - 32700, - 1, - 3, - 5, - 7, - 8, - 20, - 22, - 25, - 26,
      - 27, - 28, - 32, - 9, - 10, - 23, - 24, - 29, - 30, - 31, - 34, - 33, - 4, - 6, - 11, - 12,
      - 13, - 14, - 15, - 16, - 17, - 18, - 19, - 35, - 36, - 2]"

definition error_code_enum :: "json \<Rightarrow> int option" where
  "error_code_enum c =
     (if c = JNull then None else find (\<lambda>v. json_eq c (JInt v)) rpc_error_codes)"

section \<open>Lemmas\<close>

lemma read_response_Inr_iff:
  "read_response m rid outcome = Inr v \<longleftrightarrow>
     (\<exists>p. outcome = Response True (Some (JObj p)) \<and> jget ''error'' p JNull = JNull \<and>
          map_of p ''result'' = Some v \<and> json_eq (jget ''id'' p JNull) (JInt rid))"
proof (cases outcome)
  case RequestFailed
  then show ?thesis by (simp add: read_response_def)
next
  case (Response ok b)
  then show ?thesis
    by (cases b; cases ok)
      (auto simp: read_response_def raise_for_status_def Let_def split: json.splits option.splits)
qed

lemma next_request_id [simp]: "request_id (next_request m ps s) = request_id s + 1"
  by (simp add: next_request_def)

lemma next_request_posted [simp]: "posted (next_request m ps s) = posted s @ [(m, ps)]"
  by (simp add: next_request_def)

lemma call_Inr_iff:
  "call node m ps s = (Inr v, s') \<longleftrightarrow>
     strip m \<noteq> [] \<and> s' = next_request (strip m) ps s \<and>
     (\<exists>p. node (request_id s + 1) (strip m) ps = Response True (Some (JObj p)) \<and>
          jget ''error'' p JNull = JNull \<and> map_of p ''result'' = Some v \<and>
          json_eq (jget ''id'' p JNull) (JInt (request_id s + 1)))"
  by (auto simp: call_def Let_def read_response_Inr_iff)

fun is_rpc_error :: "py_exn \<Rightarrow> bool" where
  "is_rpc_error (BitcoinRpcError m c t) = True"
| "is_rpc_error e = False"

text \<open>
  The discipline of an operation on the client: it raises only \<^verbatim>\<open>ValueError\<close> and
  \<^verbatim>\<open>BitcoinRpcError\<close>, the counter never goes back, and only ids that were not issued before reach
  the node, so what the node would answer to an old id is irrelevant.
\<close>

definition rpc_op :: "(rpc_node \<Rightarrow> 'a rpc) \<Rightarrow> bool" where
  "rpc_op f \<longleftrightarrow>
     (\<forall>node s r s'. f node s = (r, s') \<longrightarrow>
        request_id s \<le> request_id s' \<and> (\<forall>e. r = Inl e \<longrightarrow> is_value_error e \<or> is_rpc_error e)) \<and>
     (\<forall>node node' s. (\<forall>i. request_id s < i \<longrightarrow> node i = node' i) \<longrightarrow> f node s = f node' s)"

lemma rpc_op_sbind:
  assumes f: "rpc_op f" and g: "\<And>x. rpc_op (\<lambda>node. g node x)"
  shows "rpc_op (\<lambda>node. sbind (f node) (g node))"
proof -
  have 1: "request_id s \<le> request_id s' \<and> (\<forall>e. r = Inl e \<longrightarrow> is_value_error e \<or> is_rpc_error e)"
    if "sbind (f node) (g node) s = (r, s')" for node s r s'
  proof (cases "f node s")
    case (Pair x s1)
    then have a: "request_id s \<le> request_id s1" "\<forall>e. x = Inl e \<longrightarrow> is_value_error e \<or> is_rpc_error e"
      using f by (auto simp: rpc_op_def)
    show ?thesis
    proof (cases x)
      case (Inl e)
      then show ?thesis using that a Pair by (auto simp: sbind_def)
    next
      case (Inr y)
      then have "g node y s1 = (r, s')" using that Pair by (simp add: sbind_def)
      then show ?thesis using g [of y] a(1) unfolding rpc_op_def by fastforce
    qed
  qed
  have 2: "sbind (f node) (g node) s = sbind (f node') (g node') s"
    if eq: "\<forall>i. request_id s < i \<longrightarrow> node i = node' i" for node node' s
  proof -
    have ff: "f node s = f node' s" using f eq unfolding rpc_op_def by blast
    obtain x s1 where fx: "f node' s = (x, s1)" by (cases "f node' s")
    then have "request_id s \<le> request_id s1" using f unfolding rpc_op_def by blast
    then have "\<forall>i. request_id s1 < i \<longrightarrow> node i = node' i" using eq by auto
    then have "g node y s1 = g node' y s1" for y using g [of y] unfolding rpc_op_def by blast
    then show ?thesis using ff fx by (cases x) (simp_all add: sbind_def)
  qed
  show ?thesis unfolding rpc_op_def using 1 2 by blast
qed

lemma rpc_op_slift: "(\<And>e. r = Inl e \<Longrightarrow> is_value_error e) \<Longrightarrow> rpc_op (\<lambda>node. slift r)"
  by (auto simp: rpc_op_def)

lemma rpc_op_sreturn: "rpc_op (\<lambda>node. sreturn x)"
  by (auto simp: rpc_op_def)

lemma rpc_op_swhen_raise: "is_value_error e \<Longrightarrow> rpc_op (\<lambda>node. swhen_raise b e)"
  by (cases b) (auto simp: rpc_op_def)

lemma rpc_op_if: "rpc_op f \<Longrightarrow> rpc_op g \<Longrightarrow> rpc_op (\<lambda>node. if b then f node else g node)"
  by (cases b) auto

lemma read_response_Inl: "read_response m rid out = Inl e \<Longrightarrow> is_rpc_error e"
  by (cases out)
    (auto simp: read_response_def raise_for_status_def rpc_error_def Let_def res_simps
      split: json.splits option.splits if_splits)

lemma rpc_op_call: "rpc_op (\<lambda>node. call node m ps)"
  by (auto simp: rpc_op_def call_def Let_def dest!: read_response_Inl)

lemma json_views_value_error:
  "json_object msg j = Inl e \<Longrightarrow> is_value_error e"
  "json_string msg j = Inl e \<Longrightarrow> is_value_error e"
  "json_int msg j = Inl e \<Longrightarrow> is_value_error e"
  "json_bool msg j = Inl e \<Longrightarrow> is_value_error e"
  "json_list msg j = Inl e \<Longrightarrow> is_value_error e"
  by (cases j; auto simp: json_object_def json_string_def json_int_def json_bool_def json_list_def)+

lemma validators_value_error:
  "validate_txid j = Inl e \<Longrightarrow> is_value_error e"
  "validate_raw_tx_hex j = Inl e \<Longrightarrow> is_value_error e"
  "validate_psbt_base64 j = Inl e \<Longrightarrow> is_value_error e"
  using validators_raise_value_error [of j e] by auto

lemma check_create_args_value_error:
  "check_create_args a b c d = Inl e \<Longrightarrow> is_value_error e"
  by (auto simp: check_create_args_def res_simps dest: json_views_value_error)

lemmas rpc_op_intros =
  rpc_op_sbind rpc_op_call rpc_op_sreturn rpc_op_swhen_raise rpc_op_if rpc_op_slift

lemma mempool_item_value_error:
  "(case r of JList [item] \<Rightarrow> json_object m1 item | _ \<Rightarrow> Inl (ValueError m2)) = Inl e \<Longrightarrow> is_value_error e"
  by (auto split: json.splits list.splits dest: json_views_value_error)

lemmas value_error_elims =
  json_views_value_error validators_value_error check_create_args_value_error
  mempool_item_value_error

lemma rpc_op_wrappers:
  "rpc_op (\<lambda>node. get_raw_transaction node txid v)"
  "rpc_op (\<lambda>node. get_block_count node)"
  "rpc_op (\<lambda>node. get_tx_out node txid v b)"
  "rpc_op (\<lambda>node. create_raw_transaction node i ou l r)"
  "rpc_op (\<lambda>node. create_psbt node i ou l r)"
  "rpc_op (\<lambda>node. finalize_psbt node p b)"
  "rpc_op (\<lambda>node. finalize_psbt_extract_tx_hex node p)"
  "rpc_op (\<lambda>node. decode_raw_transaction node h)"
  "rpc_op (\<lambda>node. send_raw_transaction node h)"
  "rpc_op (\<lambda>node. test_mempool_accept node h)"
  unfolding get_raw_transaction_def get_block_count_def get_tx_out_def create_raw_transaction_def
    create_psbt_def finalize_psbt_extract_tx_hex_def finalize_psbt_def decode_raw_transaction_def
    send_raw_transaction_def test_mempool_accept_def Let_def
  by - (intro rpc_op_intros; (erule value_error_elims | simp only: is_value_error.simps))+

end
