(* ===== verification/Datetime.thy ===== *)
theory Datetime
  imports Py_Decimal
begin

text \<open>
  \<^verbatim>\<open>datetime.datetime\<close> of CPython 3.10, as far as the source uses it: the ISO format and its parser
  (\<^verbatim>\<open>fromisoformat\<close> accepts \<^verbatim>\<open>YYYY-MM-DD[*HH[:MM[:SS[.fff[fff]]]][+HH:MM[:SS[.ffffff]]]]\<close>), comparison
  (an aware and a naive value cannot be ordered), addition of seconds, and \<^verbatim>\<open>fromtimestamp\<close> on a
  number. democracy/models/utils.py (\<^verbatim>\<open>parse_datetime\<close>) and the storage conversions of
  democracy/storage/sqlite_repository.py are at the end.
\<close>

section \<open>Values\<close>

text \<open>The offset from UTC is in microseconds; \<open>None\<close> marks a naive value.\<close>

record datetime =
  dt_year :: nat
  dt_month :: nat
  dt_day :: nat
  dt_hour :: nat
  dt_minute :: nat
  dt_second :: nat
  dt_microsecond :: nat
  dt_utcoffset :: "int option"

definition is_leap :: "nat \<Rightarrow> bool" where
  "is_leap y \<longleftrightarrow> 4 dvd y \<and> (\<not> 100 dvd y \<or> 400 dvd y)"

definition days_in_month :: "nat \<Rightarrow> nat \<Rightarrow> nat" where
  "days_in_month y m =
     (if m = 2 then (if is_leap y then 29 else 28) else if m \<in> {4, 6, 9, 11} then 30 else 31)"

definition us_per_day :: int where "us_per_day = 86400000000"

definition valid_datetime :: "datetime \<Rightarrow> bool" where
  "valid_datetime d \<longleftrightarrow>
     1 \<le> dt_year d \<and> dt_year d \<le> 9999 \<and> 1 \<le> dt_month d \<and> dt_month d \<le> 12 \<and>
     1 \<le> dt_day d \<and> dt_day d \<le> days_in_month (dt_year d) (dt_month d) \<and>
     dt_hour d < 24 \<and> dt_minute d < 60 \<and> dt_second d < 60 \<and> dt_microsecond d < 1000000 \<and>
     (case dt_utcoffset d of None \<Rightarrow> True | Some u \<Rightarrow> \<bar>u\<bar> < us_per_day)"

section \<open>Time line\<close>

definition days_before_month :: "nat \<Rightarrow> nat \<Rightarrow> nat" where
  "days_before_month y m = sum_list (map (days_in_month y) [1..<m])"

definition days_before_year :: "nat \<Rightarrow> nat" where
  "days_before_year y = (let p = y - 1 in p * 365 + p div 4 - p div 100 + p div 400)"

definition ymd2ord :: "nat \<Rightarrow> nat \<Rightarrow> nat \<Rightarrow> nat" where
  "ymd2ord y m d = days_before_year y + days_before_month y m + d"

text \<open>Microseconds of the wall clock, and of UTC.\<close>

definition local_us :: "datetime \<Rightarrow> int" where
  "local_us d = int (ymd2ord (dt_year d) (dt_month d) (dt_day d)) * us_per_day
     + int (dt_hour d * 3600 + dt_minute d * 60 + dt_second d) * 1000000 + int (dt_microsecond d)"

definition instant_us :: "datetime \<Rightarrow> int" where
  "instant_us d = local_us d - (case dt_utcoffset d of None \<Rightarrow> 0 | Some u \<Rightarrow> u)"

definition is_aware :: "datetime \<Rightarrow> bool" where
  "is_aware d \<longleftrightarrow> dt_utcoffset d \<noteq> None"

text \<open>\<^verbatim>\<open>a < b\<close> and \<^verbatim>\<open>a == b\<close>.\<close>

definition datetime_less :: "datetime \<Rightarrow> datetime \<Rightarrow> bool res" where
  "datetime_less a b =
     (if is_aware a \<noteq> is_aware b
      then Inl (TypeError ''can't compare offset-naive and offset-aware datetimes'')
      else Inr (instant_us a < instant_us b))"

definition datetime_eq :: "datetime \<Rightarrow> datetime \<Rightarrow> bool" where
  "datetime_eq a b \<longleftrightarrow> is_aware a = is_aware b \<and> instant_us a = instant_us b"

section \<open>The ISO format\<close>

text \<open>\<open>pad n v\<close> is \<open>v\<close> in \<open>n\<close> decimal digits.\<close>

primrec pad :: "nat \<Rightarrow> nat \<Rightarrow> string" where
  "pad 0 v = []"
| "pad (Suc n) v = pad n (v div 10) @ [char_of (48 + v mod 10)]"

definition iso_time :: "nat \<Rightarrow> nat \<Rightarrow> nat \<Rightarrow> nat \<Rightarrow> string" where
  "iso_time h m s us = pad 2 h @ '':'' @ pad 2 m @ '':'' @ pad 2 s @
     (if us = 0 then [] else ''.'' @ pad 6 us)"

definition iso_offset :: "int \<Rightarrow> string" where
  "iso_offset u =
     (let a = nat \<bar>u\<bar>; s = a div 1000000; f = a mod 1000000
      in (if u < 0 then ''-'' else ''+'') @ pad 2 (s div 3600) @ '':'' @ pad 2 (s div 60 mod 60) @
         (if s mod 60 = 0 \<and> f = 0 then []
          else '':'' @ pad 2 (s mod 60) @ (if f = 0 then [] else ''.'' @ pad 6 f)))"

definition isoformat :: "datetime \<Rightarrow> string" where
  "isoformat d =
     pad 4 (dt_year d) @ ''-'' @ pad 2 (dt_month d) @ ''-'' @ pad 2 (dt_day d) @ ''T'' @
     iso_time (dt_hour d) (dt_minute d) (dt_second d) (dt_microsecond d) @
     (case dt_utcoffset d of None \<Rightarrow> [] | Some u \<Rightarrow> iso_offset u)"

section \<open>The ISO parser\<close>

definition read_digits :: "nat \<Rightarrow> string \<Rightarrow> (nat \<times> string) option" where
  "read_digits n s =
     (let t = take n s in
      if length t = n \<and> list_all is_digit t then Some (dec_val t, drop n s) else None)"

definition read_char :: "char \<Rightarrow> string \<Rightarrow> string option" where
  "read_char c s = (case s of x # t \<Rightarrow> if x = c then Some t else None | [] \<Rightarrow> None)"

text \<open>\<^verbatim>\<open>.fff\<close> or \<^verbatim>\<open>.ffffff\<close>, up to the end.\<close>

definition parse_fraction :: "string \<Rightarrow> nat option" where
  "parse_fraction s =
     (if length s = 6 \<and> list_all is_digit s then Some (dec_val s)
      else if length s = 3 \<and> list_all is_digit s then Some (dec_val s * 1000) else None)"

text \<open>\<^verbatim>\<open>HH[:MM[:SS[.fff[fff]]]]\<close>, up to the end.\<close>

definition parse_hms :: "string \<Rightarrow> (nat \<times> nat \<times> nat \<times> nat) option" where
  "parse_hms s =
     (case read_digits 2 s of None \<Rightarrow> None | Some (h, s1) \<Rightarrow>
      if s1 = [] then Some (h, 0, 0, 0)
      else case Option.bind (read_char CHR '':'' s1) (read_digits 2) of None \<Rightarrow> None | Some (m, s2) \<Rightarrow>
      if s2 = [] then Some (h, m, 0, 0)
      else case Option.bind (read_char CHR '':'' s2) (read_digits 2) of None \<Rightarrow> None | Some (sec, s3) \<Rightarrow>
      if s3 = [] then Some (h, m, sec, 0)
      else map_option (\<lambda>f. (h, m, sec, f)) (Option.bind (read_char CHR ''.'' s3) parse_fraction))"

definition is_sign :: "char \<Rightarrow> bool" where
  "is_sign c \<longleftrightarrow> c = CHR ''+'' \<or> c = CHR ''-''"

text \<open>The offset part: empty, or a sign and a time of 5, 8 or 15 characters.\<close>

definition parse_offset :: "string \<Rightarrow> int option option" where
  "parse_offset s =
     (case s of
        [] \<Rightarrow> Some None
      | c # t \<Rightarrow>
          if length t \<notin> {5, 8, 15} then None
          else map_option (\<lambda>(h, m, sec, f).
            let u = int (h * 3600 + m * 60 + sec) * 1000000 + int f
            in Some (if c = CHR ''-'' then - u else u)) (parse_hms t))"

definition fromisoformat :: "string \<Rightarrow> datetime option" where
  "fromisoformat s =
     (case read_digits 4 s of None \<Rightarrow> None | Some (y, s1) \<Rightarrow>
      case Option.bind (read_char CHR ''-'' s1) (read_digits 2) of None \<Rightarrow> None | Some (mo, s2) \<Rightarrow>
      case Option.bind (read_char CHR ''-'' s2) (read_digits 2) of None \<Rightarrow> None | Some (d, s3) \<Rightarrow>
      let time_part = (case s3 of
            [] \<Rightarrow> Some ((0, 0, 0, 0), None)
          | sep # t \<Rightarrow>
              (case parse_hms (takeWhile (\<lambda>c. \<not> is_sign c) t) of None \<Rightarrow> None | Some hms \<Rightarrow>
               map_option (\<lambda>off. (hms, off)) (parse_offset (dropWhile (\<lambda>c. \<not> is_sign c) t))))
      in case time_part of None \<Rightarrow> None | Some ((h, m, sec, f), off) \<Rightarrow>
         let dt = \<lparr>dt_year = y, dt_month = mo, dt_day = d, dt_hour = h, dt_minute = m,
                   dt_second = sec, dt_microsecond = f, dt_utcoffset = off\<rparr>
         in if valid_datetime dt then Some dt else None)"

section \<open>Binary floats and time stamps\<close>

text \<open>
  \<open>float_round n d\<close> is the double nearest to the fraction \<open>n / d\<close> (ties to even), as
  \<open>m * 2 ^ (- k)\<close> with a 53-bit \<open>m\<close>. Underflow is not modelled: a number that small is
  less than half a microsecond either way.
\<close>

fun bit_length :: "nat \<Rightarrow> nat" where
  "bit_length n = (if n = 0 then 0 else Suc (bit_length (n div 2)))"

declare bit_length.simps [simp del]

definition div_half_even :: "nat \<Rightarrow> nat \<Rightarrow> nat" where
  "div_half_even a b =
     (let q = a div b; r = a mod b in if b < 2 * r \<or> (2 * r = b \<and> odd q) then q + 1 else q)"

definition scale2 :: "nat \<Rightarrow> nat \<Rightarrow> int \<Rightarrow> nat \<times> nat" where
  "scale2 n d k = (if 0 \<le> k then (n * 2 ^ nat k, d) else (n, d * 2 ^ nat (- k)))"

definition float_round :: "nat \<Rightarrow> nat \<Rightarrow> nat \<times> int" where
  "float_round n d =
     (if n = 0 then (0, 0)
      else let k0 = 53 - (int (bit_length n) - int (bit_length d));
               (a, b) = scale2 n d k0;
               k = (if 2 ^ 53 * b \<le> a then k0 - 1 else k0);
               (a', b') = scale2 n d k
           in (div_half_even a' b', k))"

text \<open>The fraction that \<open>(m, k)\<close> stands for.\<close>

definition float_frac :: "nat \<times> int \<Rightarrow> nat \<times> nat" where
  "float_frac mk = (let (m, k) = mk in scale2 m 1 (- k))"

text \<open>
  \<^verbatim>\<open>float(s)\<close> of a finite numeric string, as sign, coefficient and exponent; underscores may only
  stand between digits.
\<close>

fun underscores_ok :: "string \<Rightarrow> bool" where
  "underscores_ok (a # b # c # s) \<longleftrightarrow>
     (b = CHR ''_'' \<longrightarrow> is_digit a \<and> is_digit c) \<and> underscores_ok (b # c # s)"
| "underscores_ok s \<longleftrightarrow> list_all (\<lambda>c. c \<noteq> CHR ''_'') s"

definition float_of_string :: "string \<Rightarrow> decimal option" where
  "float_of_string s =
     (let t = strip s in if underscores_ok (CHR '' '' # t @ '' '') then dec_of_string t else None)"

text \<open>The day with a given ordinal (\<^verbatim>\<open>_ord2ymd\<close>).\<close>

function month_of :: "nat \<Rightarrow> nat \<Rightarrow> nat \<Rightarrow> nat \<times> nat" where
  "month_of y m d =
     (if 12 \<le> m \<or> d \<le> days_in_month y m then (m, d) else month_of y (m + 1) (d - days_in_month y m))"
  by auto
termination by (relation "measure (\<lambda>(y, m, d). 12 - m)") auto

declare month_of.simps [simp del]

definition ord2ymd :: "nat \<Rightarrow> nat \<times> nat \<times> nat" where
  "ord2ymd ord =
     (let n = ord - 1;
          n400 = n div 146097; n = n mod 146097;
          n100 = n div 36524; n = n mod 36524;
          n4 = n div 1461; n = n mod 1461;
          n1 = n div 365; n = n mod 365;
          y = n400 * 400 + n100 * 100 + n4 * 4 + n1 + 1
      in if n1 = 4 \<or> n100 = 4 then (y - 1, 12, 31)
         else let (m, d) = month_of y 1 (n + 1) in (y, m, d))"

definition epoch_ordinal :: int where "epoch_ordinal = 719163"

text \<open>\<^verbatim>\<open>datetime.fromtimestamp(t, timezone.utc)\<close>; \<open>None\<close> when it raises.\<close>

definition utc_of_seconds :: "int \<Rightarrow> nat \<Rightarrow> datetime option" where
  "utc_of_seconds t us =
     (let ord = epoch_ordinal + t div 86400; r = nat (t mod 86400) in
      if ord < 1 \<or> 3652059 < ord then None
      else let (y, m, d) = ord2ymd (nat ord) in
        Some \<lparr>dt_year = y, dt_month = m, dt_day = d, dt_hour = r div 3600,
              dt_minute = r div 60 mod 60, dt_second = r mod 60, dt_microsecond = us,
              dt_utcoffset = Some 0\<rparr>)"

definition fromtimestamp :: "decimal \<Rightarrow> datetime option" where
  "fromtimestamp t =
     (case t of
        Fin neg c e \<Rightarrow>
          if 400 < int (num_digits c) + e then None
          else
          let (n, d) = float_frac (if 0 \<le> e then float_round (c * 10 ^ nat e) 1
                                   else float_round c (10 ^ nat (- e)));
              ip = n div d;
              (fn, fd) = float_frac (float_round (n mod d * 1000000) d);
              us = div_half_even fn fd
          in if neg then
               (if us = 0 then utc_of_seconds (- int ip) 0
                else utc_of_seconds (- int ip - 1) (1000000 - us))
             else if 1000000 \<le> us then utc_of_seconds (int ip + 1) (us - 1000000)
             else utc_of_seconds (int ip) us
      | _ \<Rightarrow> None)"

section \<open>parse\_datetime and the storage conversions\<close>

text \<open>The argument is a decoded value; an integer or a float is a time stamp (a bool is an int).\<close>

definition parse_datetime :: "json \<Rightarrow> datetime res" where
  "parse_datetime v =
     (case v of
        JNull \<Rightarrow> Inl (ValueError ''Cannot parse 'None' as datetime'')
      | JStr s \<Rightarrow>
          (case fromisoformat s of
             Some d \<Rightarrow> Inr d
           | None \<Rightarrow>
               (case Option.bind (float_of_string s) fromtimestamp of
                  Some d \<Rightarrow> Inr d
                | None \<Rightarrow> Inl (ValueError ''Cannot parse string as datetime'')))
      | JList l \<Rightarrow> Inl (ValueError ''Cannot parse value as datetime'')
      | JObj m \<Rightarrow> Inl (ValueError ''Cannot parse value as datetime'')
      | _ \<Rightarrow>
          (case Option.bind (json_num v) fromtimestamp of
             Some d \<Rightarrow> Inr d
           | None \<Rightarrow> Inl (ValueError ''timestamp out of range'')))"

text \<open>A \<^verbatim>\<open>created_at\<close> attribute: a datetime, or the text that storage could not parse.\<close>

datatype timestamp = DT datetime | RawText string

definition datetime_to_storage :: "timestamp \<Rightarrow> string" where
  "datetime_to_storage t = (case t of DT d \<Rightarrow> isoformat d | RawText s \<Rightarrow> s)"

definition replace_Z :: "string \<Rightarrow> string" where
  "replace_Z s = concat (map (\<lambda>c. if c = CHR ''Z'' then ''+00:00'' else [c]) s)"

definition datetime_from_storage :: "string \<Rightarrow> timestamp" where
  "datetime_from_storage s =
     (case fromisoformat (replace_Z s) of Some d \<Rightarrow> DT d | None \<Rightarrow> RawText s)"

text \<open>\<^verbatim>\<open>value.isoformat()\<close>: a string has no such method.\<close>

definition timestamp_isoformat :: "timestamp \<Rightarrow> string res" where
  "timestamp_isoformat t =
     (case t of DT d \<Rightarrow> Inr (isoformat d)
      | RawText s \<Rightarrow> Inl (AttributeError ''str has no attribute isoformat''))"

definition valid_timestamp :: "timestamp \<Rightarrow> bool" where
  "valid_timestamp t \<longleftrightarrow> (case t of DT d \<Rightarrow> valid_datetime d | RawText s \<Rightarrow> False)"

section \<open>Printing and reading back\<close>

lemma length_pad [simp]: "length (pad n v) = n"
  by (induction n arbitrary: v) auto

lemma pad_digits: "list_all is_digit (pad n v)"
  by (induction n arbitrary: v) auto

lemma dec_val_pad: "v < 10 ^ n \<Longrightarrow> dec_val (pad n v) = v"
proof (induction n arbitrary: v)
  case 0
  then show ?case by (simp add: dec_val_def)
next
  case (Suc n)
  then have "v div 10 < 10 ^ n" by (simp add: less_mult_imp_div_less mult.commute)
  with Suc show ?case by (simp add: dec_val_append_digit digit_val_def)
qed

lemma read_digits_pad: "v < 10 ^ n \<Longrightarrow> read_digits n (pad n v @ rest) = Some (v, rest)"
  by (simp add: read_digits_def Let_def pad_digits dec_val_pad)

lemma read_char_Cons [simp]: "read_char c (c # t) = Some t"
  by (simp add: read_char_def)

lemma parse_fraction_pad: "f < 1000000 \<Longrightarrow> parse_fraction (pad 6 f) = Some f"
  by (simp add: parse_fraction_def pad_digits dec_val_pad del: pad.simps)

lemma parse_hms_iso_time:
  assumes "h < 100" "m < 100" "s < 100" "f < 1000000"
  shows "parse_hms (iso_time h m s f) = Some (h, m, s, f)"
  using assms
  by (simp add: parse_hms_def iso_time_def read_digits_pad parse_fraction_pad
      read_digits_pad [of _ _ "[]", simplified] del: pad.simps)

lemma parse_hms_hm:
  assumes "h < 100" "m < 100"
  shows "parse_hms (pad 2 h @ '':'' @ pad 2 m) = Some (h, m, 0, 0)"
  using assms
  by (simp add: parse_hms_def read_digits_pad read_digits_pad [of _ _ "[]", simplified] del: pad.simps)

lemma digit_not_sign: "is_digit c \<Longrightarrow> \<not> is_sign c"
  by (auto simp: is_digit_def is_sign_def)

lemma pad_no_sign: "\<forall>c \<in> set (pad n v). \<not> is_sign c"
  using pad_digits [of n v] digit_not_sign by (auto simp: list_all_iff)

lemma iso_time_no_sign: "\<forall>c \<in> set (iso_time h m s f). \<not> is_sign c"
  using pad_no_sign by (auto simp: iso_time_def is_sign_def simp del: pad.simps)

lemma parse_offset_iso_offset:
  assumes "\<bar>u\<bar> < us_per_day"
  shows "parse_offset (iso_offset u) = Some (Some u)"
proof -
  define a where "a = nat \<bar>u\<bar>"
  define s where "s = a div 1000000"
  define f where "f = a mod 1000000"
  define h where "h = s div 3600"
  define m where "m = s div 60 mod 60"
  have a: "a < 86400000000" using assms by (simp add: a_def us_per_day_def nat_less_iff)
  then have s: "s < 86400" by (simp add: s_def less_mult_imp_div_less)
  have b: "h < 100" "m < 100" "s mod 60 < 100" "f < 1000000"
    using s by (auto simp: h_def m_def f_def)
  have hm: "h * 3600 + m * 60 + s mod 60 = s"
  proof -
    have "h = s div 60 div 60" by (simp add: h_def flip: div_mult2_eq)
    then have "h * 60 + m = s div 60" by (simp add: m_def)
    then show ?thesis using div_mult_mod_eq [of s 60] by linarith
  qed
  have val: "int (h * 3600 + m * 60 + s mod 60) * 1000000 + int f = \<bar>u\<bar>"
  proof -
    have "int s * 1000000 + int f = int a" unfolding s_def f_def
      by (metis of_nat_add of_nat_mult of_nat_numeral div_mult_mod_eq)
    then show ?thesis using hm by (simp add: a_def)
  qed
  show ?thesis
  proof (cases "s mod 60 = 0 \<and> f = 0")
    case True
    then have "int (h * 3600 + m * 60) * 1000000 = \<bar>u\<bar>" using val by simp
    then show ?thesis
      using True b parse_hms_hm [OF b(1,2)]
      by (auto simp: iso_offset_def parse_offset_def Let_def simp flip: a_def s_def f_def h_def m_def
          simp del: pad.simps)
  next
    case False
    then have "iso_offset u = (if u < 0 then CHR ''-'' else CHR ''+'') # iso_time h m (s mod 60) f"
      by (simp add: iso_offset_def iso_time_def Let_def flip: a_def s_def f_def h_def m_def del: pad.simps)
    moreover have "length (iso_time h m (s mod 60) f) \<in> {8, 15}"
      by (simp add: iso_time_def del: pad.simps)
    ultimately show ?thesis
      using parse_hms_iso_time [OF b] val by (auto simp: parse_offset_def Let_def)
  qed
qed

theorem fromisoformat_isoformat:
  assumes "valid_datetime d"
  shows "fromisoformat (isoformat d) = Some d"
proof -
  have b: "dt_year d < 10000" "dt_month d < 100" "dt_day d < 100" "dt_hour d < 100"
    "dt_minute d < 100" "dt_second d < 100" "dt_microsecond d < 1000000"
    using assms by (auto simp: valid_datetime_def days_in_month_def split: if_splits)
  let ?t = "iso_time (dt_hour d) (dt_minute d) (dt_second d) (dt_microsecond d)"
  let ?o = "case dt_utcoffset d of None \<Rightarrow> [] | Some u \<Rightarrow> iso_offset u"
  have o: "?o = [] \<or> is_sign (hd ?o)"
    by (simp add: iso_offset_def is_sign_def Let_def split: option.split)
  then have ts: "takeWhile (\<lambda>c. \<not> is_sign c) (?t @ ?o) = ?t"
    "dropWhile (\<lambda>c. \<not> is_sign c) (?t @ ?o) = ?o"
    using iso_time_no_sign by (cases ?o; simp)+
  have po: "parse_offset ?o = Some (dt_utcoffset d)"
    using assms parse_offset_iso_offset
    by (auto simp: valid_datetime_def parse_offset_def split: option.splits)
  have "fromisoformat (isoformat d) =
      (let dt = \<lparr>dt_year = dt_year d, dt_month = dt_month d, dt_day = dt_day d, dt_hour = dt_hour d,
          dt_minute = dt_minute d, dt_second = dt_second d, dt_microsecond = dt_microsecond d,
          dt_utcoffset = dt_utcoffset d\<rparr> in if valid_datetime dt then Some dt else None)"
    using b ts po parse_hms_iso_time [OF b(4-7)]
    by (simp add: fromisoformat_def isoformat_def read_digits_pad del: pad.simps)
  with assms show ?thesis by (cases d) (simp add: Let_def)
qed

lemma fromisoformat_valid: "fromisoformat s = Some d \<Longrightarrow> valid_datetime d"
  by (auto simp: fromisoformat_def Let_def split: option.splits prod.splits if_splits list.splits)

lemma isoformat_inj:
  "isoformat a = isoformat b \<Longrightarrow> valid_datetime a \<Longrightarrow> valid_datetime b \<Longrightarrow> a = b"
  by (metis fromisoformat_isoformat option.inject)

lemma pad_no_Z: "CHR ''Z'' \<notin> set (pad n v)"
  using pad_digits [of n v] by (auto simp: list_all_iff is_digit_def)

lemma isoformat_no_Z: "CHR ''Z'' \<notin> set (isoformat d)"
  using pad_no_Z
  by (auto simp: isoformat_def iso_time_def iso_offset_def Let_def simp del: pad.simps
      split: option.splits if_splits)

lemma replace_Z_id: "CHR ''Z'' \<notin> set s \<Longrightarrow> replace_Z s = s"
  by (induction s) (auto simp: replace_Z_def)

text \<open>What is stored is read back.\<close>

lemma datetime_storage_round_trip:
  "valid_timestamp t \<Longrightarrow> datetime_from_storage (datetime_to_storage t) = t"
  by (auto simp: valid_timestamp_def datetime_from_storage_def datetime_to_storage_def
      replace_Z_id isoformat_no_Z fromisoformat_isoformat split: timestamp.splits)

lemma parse_datetime_isoformat:
  "valid_datetime d \<Longrightarrow> parse_datetime (JStr (isoformat d)) = Inr d"
  by (simp add: parse_datetime_def fromisoformat_isoformat)

section \<open>Every parsed value is a valid date and time\<close>

lemma month_of_valid:
  assumes "m \<le> 12" "1 \<le> m" "1 \<le> d" "d \<le> sum_list (map (days_in_month y) [m..<13])" "month_of y m d = (m', d')"
  shows "1 \<le> m' \<and> m' \<le> 12 \<and> 1 \<le> d' \<and> d' \<le> days_in_month y m'"
  using assms
proof (induction y m d rule: month_of.induct)
  case (1 y m d)
  show ?case
  proof (cases "12 \<le> m \<or> d \<le> days_in_month y m")
    case True
    with 1(2-) show ?thesis by (cases "m = 12") (auto simp: month_of.simps)
  next
    case False
    with 1(3) have "[m..<13] = m # [m + 1..<13]" by (simp add: upt_conv_Cons)
    with 1(2-) False have "1 \<le> d - days_in_month y m"
      "d - days_in_month y m \<le> sum_list (map (days_in_month y) [m + 1..<13])"
      "month_of y (m + 1) (d - days_in_month y m) = (m', d')" "m + 1 \<le> 12"
      by (auto simp: month_of.simps [of y m])
    with 1(1) [OF False] show ?thesis by simp
  qed
qed

lemma year_days: "365 \<le> sum_list (map (days_in_month y) [1..<13])"
  by (simp add: upt_rec days_in_month_def)

lemma ord2ymd_valid:
  assumes "n \<le> 3652059" "ord2ymd n = (y, m, d)"
  shows "1 \<le> y \<and> y \<le> 9999 \<and> 1 \<le> m \<and> m \<le> 12 \<and> 1 \<le> d \<and> d \<le> days_in_month y m"
proof -
  define k where "k = n - 1"
  define a where "a = k div 146097"
  define b where "b = k mod 146097"
  define c where "c = b div 36524"
  define e where "e = b mod 36524"
  define f where "f = e div 1461"
  define g where "g = e mod 1461"
  define h where "h = g div 365"
  have k: "k \<le> 3652058" using assms(1) by (simp add: k_def)
  have "k = 146097 * a + b" "b = 36524 * c + e" "e = 1461 * f + g" "b < 146097" "e < 36524" "g < 1461"
    by (simp_all add: a_def b_def c_def e_def f_def g_def)
  then have bounds: "a \<le> 24" "c \<le> 4" "f \<le> 24" "h \<le> 4" "h * 365 \<le> g"
    using k by (auto simp: h_def)
  have y: "a * 400 + c * 100 + f * 4 + h + 1 \<le> 9999"
  proof (cases "a = 24")
    case True
    then have "b \<le> 145730" using k \<open>k = 146097 * a + b\<close> by simp
    then have "c \<le> 3" using \<open>b = 36524 * c + e\<close> by simp
    moreover have "c * 100 + f * 4 + h \<le> 398"
    proof (cases "c = 3 \<and> f = 24")
      case True
      then have "g \<le> 1094" using \<open>b \<le> 145730\<close> \<open>b = 36524 * c + e\<close> \<open>e = 1461 * f + g\<close> by simp
      with bounds True show ?thesis by simp
    next
      case False
      with \<open>c \<le> 3\<close> bounds show ?thesis by auto
    qed
    ultimately show ?thesis using True by simp
  next
    case False
    then show ?thesis using bounds by simp
  qed
  obtain m0 d0 where md: "month_of (a * 400 + c * 100 + f * 4 + h + 1) 1 (g mod 365 + 1) = (m0, d0)"
    by (cases "month_of (a * 400 + c * 100 + f * 4 + h + 1) 1 (g mod 365 + 1)")
  have "g mod 365 + 1 \<le> 365" by simp
  then have "1 \<le> m0 \<and> m0 \<le> 12 \<and> 1 \<le> d0 \<and> d0 \<le> days_in_month (a * 400 + c * 100 + f * 4 + h + 1) m0"
    using month_of_valid [OF _ _ _ _ md] year_days [of "a * 400 + c * 100 + f * 4 + h + 1"] by simp
  moreover have "ord2ymd n = (if h = 4 \<or> c = 4 then (a * 400 + c * 100 + f * 4 + h + 1 - 1, 12, 31)
      else (a * 400 + c * 100 + f * 4 + h + 1, m0, d0))"
    unfolding ord2ymd_def Let_def k_def [symmetric] a_def [symmetric] b_def [symmetric] c_def [symmetric]
      e_def [symmetric] f_def [symmetric] g_def [symmetric] h_def [symmetric] md by simp
  moreover have "days_in_month x 12 = 31" for x by (simp add: days_in_month_def)
  ultimately show ?thesis using assms(2) y by (auto split: if_splits)
qed

lemma utc_of_seconds_valid:
  assumes "utc_of_seconds t us = Some d" "us < 1000000"
  shows "valid_datetime d"
proof -
  define r where "r = nat (t mod 86400)"
  have "r < 86400" by (simp add: r_def nat_less_iff)
  moreover obtain y m dd where o: "ord2ymd (nat (epoch_ordinal + t div 86400)) = (y, m, dd)"
    by (cases "ord2ymd (nat (epoch_ordinal + t div 86400))")
  moreover have "nat (epoch_ordinal + t div 86400) \<le> 3652059" using assms(1)
    by (auto simp: utc_of_seconds_def Let_def split: if_splits)
  ultimately show ?thesis
    using assms ord2ymd_valid [OF _ o]
    by (auto simp: utc_of_seconds_def Let_def valid_datetime_def us_per_day_def r_def [symmetric]
        less_mult_imp_div_less split: if_splits)
qed

lemma div_half_even_bound:
  assumes "0 < b" shows "2 * b * div_half_even a b \<le> 2 * a + b"
proof -
  have e: "b * (a div b) + a mod b = a" by simp
  have "2 * b * (a div b + 1) \<le> 2 * a + b" if "b \<le> 2 * (a mod b)"
  proof -
    have "2 * b * (a div b + 1) = 2 * (b * (a div b)) + 2 * b" by (simp add: algebra_simps)
    then show ?thesis using that e by linarith
  qed
  moreover have "2 * b * (a div b) \<le> 2 * a + b" using e by linarith
  ultimately show ?thesis by (auto simp: div_half_even_def Let_def simp del: mult_Suc_right)
qed

lemma bit_length_bounds: "0 < n \<Longrightarrow> 2 ^ (bit_length n - 1) \<le> n \<and> n < 2 ^ bit_length n"
proof (induction n rule: bit_length.induct)
  case (1 n)
  show ?case
  proof (cases "n div 2 = 0")
    case True
    with 1(2) have "n = 1" by simp
    then show ?thesis by (simp add: bit_length.simps)
  next
    case False
    then have b: "bit_length n = Suc (bit_length (n div 2))" "0 < bit_length (n div 2)"
      using 1(2) by (simp_all add: bit_length.simps [of n] bit_length.simps [of "n div 2"])
    then obtain l where l: "bit_length (n div 2) = Suc l" using gr0_implies_Suc by blast
    with False 1(1) [of] 1(2) have "2 ^ l \<le> n div 2" "n div 2 < 2 ^ Suc l" by auto
    then show ?thesis using b l by auto
  qed
qed

lemma microseconds_bound:
  assumes "n < 1000000 * d" "float_frac (float_round n d) = (fn, fd)"
  shows "div_half_even fn fd < 2000000"
proof (cases "n = 0")
  case True
  with assms show ?thesis by (auto simp: float_round_def float_frac_def scale2_def div_half_even_def)
next
  case False
  have d: "0 < d" using assms(1) by (cases d) auto
  have "(2 :: nat) ^ (bit_length n - 1) < 2 ^ (20 + bit_length d)"
  proof -
    have "2 ^ (bit_length n - 1) \<le> n" "d < 2 ^ bit_length d" using bit_length_bounds d False by auto
    moreover have "(2 :: nat) ^ (20 + bit_length d) = 1048576 * 2 ^ bit_length d" by (simp add: power_add)
    ultimately show ?thesis using assms(1) by linarith
  qed
  then have bl: "bit_length n \<le> 20 + bit_length d" by simp
  obtain m k where mk: "float_round n d = (m, k)" by (cases "float_round n d")
  then have k: "0 \<le> k" and m: "m = div_half_even (n * 2 ^ nat k) d"
    using bl False by (auto simp: float_round_def Let_def scale2_def split: if_splits prod.splits)
  have f: "fn = m" "fd = 2 ^ nat k" using assms(2) mk k by (auto simp: float_frac_def scale2_def split: if_splits)
  have 1: "2 * d * m \<le> 2 * (n * 2 ^ nat k) + d" unfolding m by (rule div_half_even_bound [OF d])
  have "2 * 2 ^ nat k * div_half_even m (2 ^ nat k) \<le> 2 * m + 2 ^ nat k" by (rule div_half_even_bound) simp
  then have "d * (2 * 2 ^ nat k * div_half_even m (2 ^ nat k)) \<le> d * (2 * m + 2 ^ nat k)" by (rule mult_le_mono2)
  also have "\<dots> = 2 * d * m + d * 2 ^ nat k" by (simp add: algebra_simps)
  also have "\<dots> \<le> 2 * (n * 2 ^ nat k) + d + d * 2 ^ nat k" using 1 by simp
  also have "\<dots> \<le> 2 * (1000000 * d * 2 ^ nat k) + d * 2 ^ nat k + d * 2 ^ nat k"
    using assms(1) by (intro add_mono) auto
  also have "\<dots> = d * (2 * 2 ^ nat k * 1000001)" by simp
  finally have "div_half_even m (2 ^ nat k) \<le> 1000001" using d by simp
  then show ?thesis using f by simp
qed

lemma fromtimestamp_valid:
  assumes "fromtimestamp t = Some d" shows "valid_datetime d"
proof (cases t)
  case (Fin neg c e)
  define nd where "nd = float_frac (if 0 \<le> e then float_round (c * 10 ^ nat e) 1 else float_round c (10 ^ nat (- e)))"
  obtain n q where nq: "nd = (n, q)" by (cases nd)
  have "0 < q" using nq by (auto simp: nd_def float_frac_def scale2_def split: if_splits prod.splits)
  then have lt: "n mod q * 1000000 < 1000000 * q" by simp
  obtain fn fd where f: "float_frac (float_round (n mod q * 1000000) q) = (fn, fd)"
    by (cases "float_frac (float_round (n mod q * 1000000) q)")
  note us = microseconds_bound [OF lt f]
  define us where "us = div_half_even fn fd"
  from assms us [folded us_def] show ?thesis
    unfolding fromtimestamp_def Fin decimal.case nd_def [symmetric] Let_def nq prod.case f us_def [symmetric]
    by (auto split: if_splits elim!: utc_of_seconds_valid)
qed (use assms in \<open>simp_all add: fromtimestamp_def\<close>)

lemma parse_datetime_valid:
  assumes "parse_datetime v = Inr d" shows "valid_datetime d"
  using assms fromisoformat_valid fromtimestamp_valid
  by (cases v) (auto simp: parse_datetime_def split: option.splits json.splits bind_splits)

end
