(* ===== verification/Models.thy ===== *)
theory Models
  imports Datetime Bitcoin_Utils Sha256
begin

text \<open>
  The domain objects of democracy/models and democracy/funding/models.py: UUIDs, issues,
  solutions and their votes, the content hash of a solution, funding campaigns and pledges with
  the validation that their constructors run, and the campaign commitment.
\<close>

section \<open>UUIDs\<close>

type_synonym uuid = "128 word"

definition uuid_bytes :: "uuid \<Rightarrow> bytes" where
  "uuid_bytes u = be_bytes 16 (uint u)"

text \<open>\<^verbatim>\<open>str(u)\<close>: 32 hex digits in groups of 8, 4, 4, 4 and 12.\<close>

definition dash_groups :: "string \<Rightarrow> string" where
  "dash_groups h = take 8 h @ ''-'' @ take 4 (drop 8 h) @ ''-'' @ take 4 (drop 12 h) @ ''-'' @
     take 4 (drop 16 h) @ ''-'' @ drop 20 h"

definition uuid_str :: "uuid \<Rightarrow> string" where
  "uuid_str u = dash_groups (bytes_hex (uuid_bytes u))"

text \<open>\<^verbatim>\<open>s.replace(p, '')\<close> for a non-empty \<open>p\<close>.\<close>

fun remove_all :: "string \<Rightarrow> string \<Rightarrow> string" where
  "remove_all p [] = []"
| "remove_all p (c # s) =
     (if p \<noteq> [] \<and> take (length p) (c # s) = p then remove_all p (drop (length p - 1) s)
      else c # remove_all p s)"

text \<open>\<^verbatim>\<open>UUID(s)\<close>.\<close>

definition uuid_of_str :: "string \<Rightarrow> uuid res" where
  "uuid_of_str s =
     (let h = remove_all ''uuid:'' (remove_all ''urn:'' s);
          h = strip_by (\<lambda>c. c = CHR ''{'' \<or> c = CHR ''}'') h;
          h = filter (\<lambda>c. c \<noteq> CHR ''-'') h
      in if length h \<noteq> 32 then Inl (ValueError ''badly formed hexadecimal UUID string'')
         else case py_int 16 h of
           None \<Rightarrow> Inl (ValueError ''invalid literal for int() with base 16'')
         | Some i \<Rightarrow> if 0 \<le> i \<and> i < 2 ^ 128 then Inr (word_of_int i)
                     else Inl (ValueError ''int is out of range (need a 128-bit value)''))"

section \<open>Issues, solutions and votes\<close>

record issue =
  iss_id :: uuid
  iss_title :: string
  iss_creator_id :: uuid
  iss_description :: string
  iss_created_at :: timestamp

record issue_vote =
  iv_id :: uuid
  iv_voter_id :: uuid
  iv_issue_id :: uuid
  iv_created_at :: timestamp

record solution =
  sol_id :: uuid
  sol_issue_id :: uuid
  sol_title :: string
  sol_creator_id :: uuid
  sol_description :: string
  sol_created_at :: timestamp

record solution_vote =
  sv_id :: uuid
  sv_voter_id :: uuid
  sv_solution_id :: uuid
  sv_created_at :: timestamp

datatype vote_record_result = CREATED | ALREADY_VOTED

text \<open>A string as \<^verbatim>\<open>json.dumps\<close> writes it (ASCII only).\<close>

definition json_escape_char :: "char \<Rightarrow> string" where
  "json_escape_char c =
     (if code c = 34 then [CHR 0x5C, CHR 0x22]
      else if code c = 92 then [CHR 0x5C, CHR 0x5C]
      else if code c = 10 then [CHR 0x5C, CHR ''n'']
      else if code c = 13 then [CHR 0x5C, CHR ''r'']
      else if code c = 9 then [CHR 0x5C, CHR ''t'']
      else if code c = 12 then [CHR 0x5C, CHR ''f'']
      else if code c = 8 then [CHR 0x5C, CHR ''b'']
      else if 32 \<le> code c \<and> code c \<le> 126 then [c]
      else [CHR 0x5C, CHR ''u'', CHR ''0'', CHR ''0'', hex_digit (code c div 16), hex_digit (code c mod 16)])"

definition json_string_lit :: "string \<Rightarrow> string" where
  "json_string_lit s = [CHR 0x22] @ concat (map json_escape_char s) @ [CHR 0x22]"

text \<open>\<^verbatim>\<open>json.dumps(d, sort_keys=True, separators=(",", ":"))\<close> of a dict of strings, keys sorted.\<close>

primrec json_members :: "(string \<times> string) list \<Rightarrow> string" where
  "json_members [] = []"
| "json_members (kv # m) =
     json_string_lit (fst kv) @ '':'' @ json_string_lit (snd kv) @
     (if m = [] then [] else '','' @ json_members m)"

definition solution_payload :: "solution \<Rightarrow> string res" where
  "solution_payload s =
     rbind (timestamp_isoformat (sol_created_at s)) (\<lambda>created_at.
     Inr (''{'' @ json_members
       [(''created_at'', created_at),
        (''creator_id'', uuid_str (sol_creator_id s)),
        (''description'', sol_description s),
        (''id'', uuid_str (sol_id s)),
        (''issue_id'', uuid_str (sol_issue_id s)),
        (''title'', sol_title s)] @ ''}''))"

definition compute_hash :: "solution \<Rightarrow> string res" where
  "compute_hash s = rbind (solution_payload s) (\<lambda>p. Inr (bytes_hex (sha256 (utf8 p))))"

section \<open>Funding campaigns\<close>

record funding_campaign =
  camp_id :: uuid
  camp_solution_id :: uuid
  camp_solution_hash :: string
  camp_payout_address :: "string option"
  camp_asking_price :: int
  camp_deadline :: "int option"
  camp_created_at :: timestamp

definition normalize_payout :: "string option \<Rightarrow> string option" where
  "normalize_payout a =
     (case a of None \<Rightarrow> None | Some s \<Rightarrow> if strip s = [] then None else Some (strip s))"

text \<open>The constructor: the fields as passed go through \<^verbatim>\<open>__post_init__\<close>.\<close>

definition campaign_post_init :: "funding_campaign \<Rightarrow> funding_campaign res" where
  "campaign_post_init c0 =
     (let c = c0\<lparr>camp_payout_address := normalize_payout (camp_payout_address c0)\<rparr> in
      if camp_asking_price c < 0 then Inl (ValueError ''asking_price_sats must be non-negative.'')
      else if (case camp_deadline c of None \<Rightarrow> False | Some d \<Rightarrow> d \<le> 0)
        then Inl (ValueError ''deadline_height must be positive.'')
      else if camp_asking_price c = 0 then
        (if camp_payout_address c \<noteq> None
         then Inl (ValueError ''developer_payout_address must be omitted when asking_price_sats is 0.'')
         else if camp_deadline c \<noteq> None
         then Inl (ValueError ''deadline_height must be omitted when asking_price_sats is 0.'')
         else Inr c)
      else if camp_payout_address c = None
        then Inl (ValueError ''developer_payout_address is required when asking_price_sats is positive.'')
      else if camp_deadline c = None
        then Inl (ValueError ''deadline_height is required when asking_price_sats is positive.'')
      else Inr c)"

definition is_active :: "funding_campaign \<Rightarrow> bool" where
  "is_active c \<longleftrightarrow> 0 < camp_asking_price c"

definition FUNDING_PROTOCOL_LABEL :: bytes where
  "FUNDING_PROTOCOL_LABEL = utf8 ''superorganism-funding-v1''"

definition length_prefix :: "bytes \<Rightarrow> bytes res" where
  "length_prefix v = rbind (to_bytes_be 4 (int (length v))) (\<lambda>n. Inr (n @ v))"

definition commitment_payload :: "bytes \<Rightarrow> funding_campaign \<Rightarrow> bytes res" where
  "commitment_payload network_id c =
     (if network_id = [] then Inl (ValueError ''network_id must be non-empty bytes.'')
      else if \<not> is_active c
        then Inl (ValueError ''Cannot compute campaign commitment for an inactive campaign.'')
      else case fromhex (camp_solution_hash c) of
        None \<Rightarrow> Inl (ValueError ''non-hexadecimal number found in fromhex() arg'')
      | Some solution_hash_bytes \<Rightarrow>
          (case (camp_payout_address c, camp_deadline c) of
             (Some payout_address, Some deadline_height) \<Rightarrow>
               rbind (length_prefix solution_hash_bytes) (\<lambda>h.
               rbind (length_prefix (utf8 payout_address)) (\<lambda>a.
               rbind (to_bytes_be 8 (camp_asking_price c)) (\<lambda>p.
               rbind (to_bytes_be 8 deadline_height) (\<lambda>d.
               Inr (FUNDING_PROTOCOL_LABEL @ network_id @ uuid_bytes (camp_id c) @
                    uuid_bytes (camp_solution_id c) @ h @ a @ p @ d)))))
           | _ \<Rightarrow> Inl (ValueError ''Active campaigns must define payout address and deadline.'')))"

definition compute_campaign_commitment_hex :: "bytes \<Rightarrow> funding_campaign \<Rightarrow> string res" where
  "compute_campaign_commitment_hex network_id c =
     rbind (commitment_payload network_id c) (\<lambda>payload. Inr (bytes_hex (sha256 payload)))"

section \<open>Funding pledges\<close>

record funding_pledge =
  pl_id :: uuid
  pl_campaign_id :: uuid
  pl_pledger_id :: uuid
  pl_txid :: string
  pl_vout :: int
  pl_value_sats :: int
  pl_signed_psbt :: string
  pl_created_at :: timestamp

definition pledge_post_init :: "funding_pledge \<Rightarrow> funding_pledge res" where
  "pledge_post_init p =
     rbind (validate_txid (JStr (pl_txid p))) (\<lambda>txid.
     rbind (validate_psbt_base64 (JStr (pl_signed_psbt p))) (\<lambda>psbt.
     if pl_value_sats p \<le> 0 then Inl (ValueError ''value_sats must be positive.'')
     else if pl_vout p < 0 then Inl (ValueError ''vout must be non-negative.'')
     else Inr (p\<lparr>pl_txid := txid, pl_signed_psbt := psbt\<rparr>)))"

section \<open>Lemmas: UUIDs\<close>

lemma hex_digit_not:
  assumes "n < 16"
  shows "hex_digit n \<noteq> CHR ''-''" "hex_digit n \<noteq> CHR ''+''" "hex_digit n \<noteq> CHR ''_''"
    "hex_digit n \<noteq> CHR ''x''" "hex_digit n \<noteq> CHR ''X''" "hex_digit n \<noteq> CHR ''u''"
    "hex_digit n \<noteq> CHR ''{''" "hex_digit n \<noteq> CHR ''}''" "\<not> is_int_space (hex_digit n)"
    "hex_digit n \<noteq> CHR 0x22"
proof -
  have "48 \<le> code (hex_digit n) \<and> code (hex_digit n) \<le> 57 \<or> 97 \<le> code (hex_digit n) \<and> code (hex_digit n) \<le> 102"
    using assms by (simp add: hex_digit_def)
  then show "hex_digit n \<noteq> CHR ''-''" "hex_digit n \<noteq> CHR ''+''" "hex_digit n \<noteq> CHR ''_''"
    "hex_digit n \<noteq> CHR ''x''" "hex_digit n \<noteq> CHR ''X''" "hex_digit n \<noteq> CHR ''u''"
    "hex_digit n \<noteq> CHR ''{''" "hex_digit n \<noteq> CHR ''}''" "\<not> is_int_space (hex_digit n)"
    "hex_digit n \<noteq> CHR 0x22"
    by (auto simp: is_int_space_def is_ascii_space_def)
qed

lemma bytes_hex_chars:
  assumes "c \<in> set (bytes_hex bs)"
  shows "c \<noteq> CHR ''-''" "c \<noteq> CHR ''+''" "c \<noteq> CHR ''_''" "c \<noteq> CHR ''x''" "c \<noteq> CHR ''X''"
    "c \<noteq> CHR ''u''" "c \<noteq> CHR ''{''" "c \<noteq> CHR ''}''" "\<not> is_int_space c" "c \<noteq> CHR 0x22"
  using set_bytes_hex [OF assms] hex_digit_not by auto

lemma le_int_append: "le_int (a @ b) = le_int a + 256 ^ length a * le_int b"
  by (induction a) (auto simp: algebra_simps)

lemma be_int_Cons: "be_int (b # bs) = uint b * 256 ^ length bs + be_int bs"
  by (simp add: be_int_def le_int_append)

lemma int_digits_bytes_hex:
  "\<not> us \<or> bs \<noteq> [] \<Longrightarrow> int_digits 16 us acc (bytes_hex bs) = Some (acc * 256 ^ length bs + be_int bs)"
proof (induction bs arbitrary: us acc)
  case Nil
  then show ?case by (simp add: be_int_def)
next
  case (Cons b bs)
  let ?h = "nat (uint b div 16)" and ?l = "nat (uint b mod 16)"
  have acc: "(acc * 16 + int ?h) * 16 + int ?l = acc * 256 + uint b"
    using byte_nibbles(3) [of b] by simp
  have "int_digits 16 us acc (bytes_hex (b # bs)) =
      int_digits 16 False ((acc * 16 + int ?h) * 16 + int ?l) (bytes_hex bs)"
    using byte_nibbles(1,2) [of b] by (simp add: byte_hex_def hex_digit_not)
  also have "\<dots> = Some ((acc * 256 + uint b) * 256 ^ length bs + be_int bs)"
    unfolding acc by (rule Cons.IH) simp
  finally show ?case by (simp add: be_int_Cons algebra_simps)
qed

lemma py_int_bytes_hex:
  assumes "bs \<noteq> []" shows "py_int 16 (bytes_hex bs) = Some (be_int bs)"
proof -
  let ?s = "bytes_hex bs"
  have ne: "?s \<noteq> []" using assms by (cases bs) (auto simp: byte_hex_def)
  obtain c d t where s: "?s = c # d # t" using assms by (cases bs) (auto simp: byte_hex_def)
  have in_s: "c \<in> set ?s" "d \<in> set ?s" by (simp_all add: s)
  have "strip_by is_int_space ?s = ?s"
    using bytes_hex_chars(9) [OF hd_in_set [OF ne]] bytes_hex_chars(9) [OF last_in_set [OF ne]]
    by (intro strip_by_id) simp
  moreover have "take 1 ?s \<noteq> ''-''" "take 1 ?s \<noteq> ''+''" "drop_hex_prefix ?s = ?s"
    using bytes_hex_chars [OF in_s(1)] bytes_hex_chars [OF in_s(2)]
    by (simp_all add: s drop_hex_prefix_def)
  ultimately show ?thesis
    using int_digits_bytes_hex [of True bs 0] assms by (simp add: py_int_def)
qed

lemma remove_all_absent:
  "hd p \<notin> set s \<Longrightarrow> p \<noteq> [] \<Longrightarrow> remove_all p s = s"
  by (induction p s rule: remove_all.induct) (auto simp: neq_Nil_conv)

lemma set_dash_groups: "set (dash_groups h) \<subseteq> insert (CHR ''-'') (set h)"
  by (auto simp: dash_groups_def dest: in_set_takeD in_set_dropD)

lemma undash_groups: "CHR ''-'' \<notin> set h \<Longrightarrow> filter (\<lambda>c. c \<noteq> CHR ''-'') (dash_groups h) = h"
proof -
  assume h: "CHR ''-'' \<notin> set h"
  have f: "filter (\<lambda>c. c \<noteq> CHR ''-'') x = x" if "set x \<subseteq> set h" for x
    using h that by (auto simp: filter_id_conv)
  have "filter (\<lambda>c. c \<noteq> CHR ''-'') (dash_groups h) =
      take 8 h @ take 4 (drop 8 h) @ take 4 (drop 12 h) @ take 4 (drop 16 h) @ drop 20 h"
    by (simp add: dash_groups_def f [OF set_take_subset] f [OF set_drop_subset]
        f [OF subset_trans [OF set_take_subset set_drop_subset]])
  also have "\<dots> = h"
    using append_take_drop_id [of 8 h] append_take_drop_id [of 4 "drop 8 h"]
      append_take_drop_id [of 4 "drop 12 h"] append_take_drop_id [of 4 "drop 16 h"] by simp
  finally show ?thesis .
qed

theorem uuid_of_str_uuid_str [simp]: "uuid_of_str (uuid_str u) = Inr u"
proof -
  let ?h = "bytes_hex (uuid_bytes u)" and ?s = "uuid_str u"
  have hc: "c \<in> set ?h \<or> c = CHR ''-''" if "c \<in> set ?s" for c
    using that set_dash_groups [of ?h] by (auto simp: uuid_str_def)
  have nd: "CHR ''-'' \<notin> set ?h" using bytes_hex_chars(1) by blast
  have chars: "CHR ''u'' \<notin> set ?s" "CHR ''{'' \<notin> set ?s" "CHR ''}'' \<notin> set ?s"
    using hc [of "CHR ''u''"] hc [of "CHR ''{''"] hc [of "CHR ''}''"]
      bytes_hex_chars(6) [of "CHR ''u''"] bytes_hex_chars(7) [of "CHR ''{''"]
      bytes_hex_chars(8) [of "CHR ''}''"] by auto
  have r: "remove_all ''uuid:'' (remove_all ''urn:'' ?s) = ?s"
    using chars(1) by (simp add: remove_all_absent)
  have ne: "?s \<noteq> []" by (simp add: uuid_str_def dash_groups_def)
  have st: "strip_by (\<lambda>c. c = CHR ''{'' \<or> c = CHR ''}'') ?s = ?s"
    using chars(2,3) hd_in_set [OF ne] last_in_set [OF ne] by (intro strip_by_id) auto
  have len: "length (uuid_bytes u) = 16" by (simp add: uuid_bytes_def)
  have u: "0 \<le> uint u" "uint u < 2 ^ 128" using uint_bounded [of u] by auto
  then have "be_int (uuid_bytes u) = uint u" by (simp add: uuid_bytes_def)
  moreover have "uuid_bytes u \<noteq> []" using len by auto
  ultimately have "py_int 16 ?h = Some (uint u)" by (simp add: py_int_bytes_hex)
  then show ?thesis
    using r st undash_groups [OF nd] u len
    by (simp add: uuid_of_str_def uuid_str_def Let_def)
qed

lemma uuid_str_inj: "uuid_str a = uuid_str b \<longleftrightarrow> a = b"
  by (metis sum.inject(2) uuid_of_str_uuid_str)

lemma length_uuid_bytes [simp]: "length (uuid_bytes u) = 16"
  by (simp add: uuid_bytes_def)

lemma uuid_bytes_inj: "uuid_bytes a = uuid_bytes b \<longleftrightarrow> a = b"
proof
  assume "uuid_bytes a = uuid_bytes b"
  then have "be_int (uuid_bytes a) = be_int (uuid_bytes b)" by simp
  moreover have "be_int (uuid_bytes u) = uint u" for u
    using uint_bounded [of u] by (simp add: uuid_bytes_def)
  ultimately show "a = b" by (simp add: word_uint_eq_iff)
qed simp

section \<open>Lemmas: the canonical JSON of a solution\<close>

text \<open>A reader for one escaped character, which makes escaping injective.\<close>

definition unescape :: "string \<Rightarrow> (char \<times> string) option" where
  "unescape s =
     (case s of
        c # r \<Rightarrow>
          if c \<noteq> CHR 0x5C then Some (c, r)
          else (case r of
            e # t \<Rightarrow>
              if e = CHR ''u'' then Some (char_of (16 * the (hex_val (t ! 2)) + the (hex_val (t ! 3))), drop 4 t)
              else Some (if e = CHR ''n'' then char_of (10::nat) else if e = CHR ''r'' then char_of (13::nat)
                else if e = CHR ''t'' then char_of (9::nat) else if e = CHR ''f'' then char_of (12::nat)
                else if e = CHR ''b'' then char_of (8::nat) else e, t)
          | [] \<Rightarrow> None)
      | [] \<Rightarrow> None)"

lemma char_of_code: "code c = n \<Longrightarrow> char_of n = c"
  by auto

lemma unescape_escape: "unescape (json_escape_char c @ x) = Some (c, x)"
proof (cases "code c \<in> {34, 92, 10, 13, 9, 12, 8}")
  case True
  then have "c \<in> char_of ` {34, 92, 10, 13, 9, 12, 8 :: nat}" by (metis char_of_code image_eqI)
  moreover have "char_of (34 :: nat) = CHR 0x22" "char_of (92 :: nat) = CHR 0x5C" by code_simp+
  ultimately show ?thesis by (auto simp: json_escape_char_def unescape_def)
next
  case False
  then have "c \<noteq> CHR 0x5C" by auto
  moreover have "code c div 16 < 16" using nat_of_char_less_256 [of c] by linarith
  moreover have "char_of (16 * (code c div 16) + code c mod 16) = c" by simp
  ultimately show ?thesis
    using False by (cases "32 \<le> code c \<and> code c \<le> 126") (simp_all add: json_escape_char_def unescape_def)
qed

lemma json_escape_char_inj:
  "json_escape_char c @ x = json_escape_char d @ y \<Longrightarrow> c = d \<and> x = y"
  by (metis Pair_inject option.inject unescape_escape)

lemma json_escape_char_start:
  "json_escape_char c \<noteq> [] \<and> hd (json_escape_char c) \<noteq> CHR 0x22"
  by (auto simp: json_escape_char_def)

lemma json_chars_inj:
  "concat (map json_escape_char a) @ CHR 0x22 # x = concat (map json_escape_char b) @ CHR 0x22 # y
   \<Longrightarrow> a = b \<and> x = y"
proof (induction a arbitrary: b)
  case Nil
  then show ?case
    using json_escape_char_start by (cases b) (auto simp: Cons_eq_append_conv, metis list.sel(1))
next
  case (Cons c a)
  have "b \<noteq> []"
    using Cons.prems json_escape_char_start [of c] by (cases "json_escape_char c") auto
  then obtain d b' where b: "b = d # b'" by (cases b) auto
  have "json_escape_char c @ (concat (map json_escape_char a) @ CHR 0x22 # x) =
      json_escape_char d @ (concat (map json_escape_char b') @ CHR 0x22 # y)"
    using Cons.prems b by simp
  from json_escape_char_inj [OF this] Cons.IH b show ?case by blast
qed

lemma json_string_lit_inj:
  "json_string_lit a @ x = json_string_lit b @ y \<Longrightarrow> a = b \<and> x = y"
  unfolding json_string_lit_def by (rule json_chars_inj) simp

lemma json_members_inj:
  "map fst m = map fst n \<Longrightarrow> json_members m @ x = json_members n @ y \<Longrightarrow> m = n \<and> x = y"
proof (induction m arbitrary: n)
  case Nil
  then show ?case by simp
next
  case (Cons kv m)
  then obtain kv' n' where n: "n = kv' # n'" "fst kv = fst kv'" "map fst m = map fst n'" by auto
  let ?r = "\<lambda>m x. (if m = [] then [] else '','' @ json_members m) @ x"
  have "json_string_lit (fst kv) @ ('':'' @ json_string_lit (snd kv) @ ?r m x) =
        json_string_lit (fst kv') @ ('':'' @ json_string_lit (snd kv') @ ?r n' y)"
    using Cons.prems n by simp
  then have "snd kv = snd kv'" "?r m x = ?r n' y"
    by (auto dest!: json_string_lit_inj)
  moreover have "m = [] \<longleftrightarrow> n' = []" using n(3) by auto
  ultimately show ?case using Cons.IH [OF n(3)] n by (auto simp: prod_eq_iff split: if_splits)
qed

text \<open>Two solutions with the same canonical JSON are the same solution.\<close>

lemma solution_payload_inj:
  assumes "solution_payload a = Inr p" "solution_payload b = Inr p"
    and "valid_timestamp (sol_created_at a)" "valid_timestamp (sol_created_at b)"
  shows "a = b"
proof -
  obtain da db where d: "sol_created_at a = DT da" "valid_datetime da"
    "sol_created_at b = DT db" "valid_datetime db"
    using assms(3,4) by (auto simp: valid_timestamp_def split: timestamp.splits)
  define mem where "mem = (\<lambda>(s :: solution) d. [(''created_at'', isoformat d),
      (''creator_id'', uuid_str (sol_creator_id s)), (''description'', sol_description s),
      (''id'', uuid_str (sol_id s)), (''issue_id'', uuid_str (sol_issue_id s)),
      (''title'', sol_title s)])"
  from assms(1,2) d have "json_members (mem a da) @ [] = json_members (mem b db) @ []"
    by (auto simp: solution_payload_def timestamp_isoformat_def mem_def simp del: json_members.simps)
  then have "mem a da = mem b db"
    by (rule json_members_inj [THEN conjunct1, rotated]) (simp add: mem_def)
  then show ?thesis
    using d isoformat_inj by (cases a; cases b) (auto simp: mem_def uuid_str_inj)
qed

section \<open>Lemmas: campaigns and pledges\<close>

text \<open>What a constructed campaign satisfies.\<close>

definition campaign_ok :: "funding_campaign \<Rightarrow> bool" where
  "campaign_ok c \<longleftrightarrow>
     (case (camp_payout_address c, camp_deadline c) of
        (None, None) \<Rightarrow> camp_asking_price c = 0
      | (Some a, Some d) \<Rightarrow> 0 < camp_asking_price c \<and> 0 < d \<and> a \<noteq> [] \<and> strip a = a
      | _ \<Rightarrow> False)"

lemma normalize_payout_Some: "normalize_payout x = Some a \<Longrightarrow> a \<noteq> [] \<and> strip a = a"
  by (auto simp: normalize_payout_def split: option.splits if_splits)

lemma campaign_post_init_Inr:
  "campaign_post_init c0 = Inr c \<Longrightarrow>
     campaign_ok c \<and> c = c0\<lparr>camp_payout_address := normalize_payout (camp_payout_address c0)\<rparr>"
  by (auto simp: campaign_post_init_def campaign_ok_def Let_def normalize_payout_Some
      split: if_splits option.splits)

lemma campaign_post_init_ok: "campaign_ok c \<Longrightarrow> campaign_post_init c = Inr c"
  by (cases c) (auto simp: campaign_post_init_def campaign_ok_def Let_def normalize_payout_def
      split: option.splits)

lemma campaign_post_init_value_error: "campaign_post_init c = Inl e \<Longrightarrow> is_value_error e"
  by (auto simp: campaign_post_init_def Let_def split: if_splits)

lemma campaign_ok_active:
  "campaign_ok c \<Longrightarrow> is_active c \<longleftrightarrow> (\<exists>a d. camp_payout_address c = Some a \<and> camp_deadline c = Some d)"
  by (auto simp: campaign_ok_def is_active_def split: option.splits)

definition pledge_ok :: "funding_pledge \<Rightarrow> bool" where
  "pledge_ok p \<longleftrightarrow> validate_txid (JStr (pl_txid p)) = Inr (pl_txid p) \<and>
     validate_psbt_base64 (JStr (pl_signed_psbt p)) = Inr (pl_signed_psbt p) \<and>
     0 < pl_value_sats p \<and> 0 \<le> pl_vout p"

lemma pledge_post_init_Inr:
  "pledge_post_init p0 = Inr p \<Longrightarrow>
     pledge_ok p \<and> p = p0\<lparr>pl_txid := strip (pl_txid p0), pl_signed_psbt := strip (pl_signed_psbt p0)\<rparr>"
  by (auto simp: pledge_post_init_def pledge_ok_def res_simps validate_txid_idem validate_psbt_idem
      split: if_splits)
    (auto simp: validate_txid_Inr_iff validate_psbt_base64_Inr_iff)

lemma pledge_post_init_ok: "pledge_ok p \<Longrightarrow> pledge_post_init p = Inr p"
  by (simp add: pledge_post_init_def pledge_ok_def)

lemma pledge_post_init_value_error: "pledge_post_init p = Inl e \<Longrightarrow> is_value_error e"
  by (auto simp: pledge_post_init_def res_simps split: if_splits dest: validators_raise_value_error)

section \<open>Lemmas: the commitment\<close>

lemma length_prefix_Inr_iff:
  "length_prefix v = Inr bs \<longleftrightarrow> int (length v) < 256 ^ 4 \<and> bs = be_bytes 4 (int (length v)) @ v"
  by (auto simp: length_prefix_def res_simps to_bytes_be_Inr_iff)

lemma length_prefix_inj:
  assumes "length_prefix v = Inr a" "length_prefix w = Inr b" "a @ x = b @ y"
  shows "v = w \<and> x = y"
proof -
  from assms have eq: "be_bytes 4 (int (length v)) @ v @ x = be_bytes 4 (int (length w)) @ w @ y"
    and len: "int (length v) < 256 ^ 4" "int (length w) < 256 ^ 4"
    by (auto simp: length_prefix_Inr_iff)
  then have "be_bytes 4 (int (length v)) = be_bytes 4 (int (length w))" "v @ x = w @ y"
    by (auto simp: append_eq_same_length)
  then show ?thesis using len be_bytes_inj [of 4 "int (length v)" "int (length w)"] by auto
qed

lemma commitment_payload_Inr_iff:
  "commitment_payload nid c = Inr p \<longleftrightarrow>
     nid \<noteq> [] \<and> is_active c \<and>
     (\<exists>sh a d h ad. fromhex (camp_solution_hash c) = Some sh \<and> camp_payout_address c = Some a \<and>
        camp_deadline c = Some d \<and> length_prefix sh = Inr h \<and> length_prefix (utf8 a) = Inr ad \<and>
        camp_asking_price c < 256 ^ 8 \<and> 0 \<le> d \<and> d < 256 ^ 8 \<and>
        p = FUNDING_PROTOCOL_LABEL @ nid @ uuid_bytes (camp_id c) @ uuid_bytes (camp_solution_id c) @
            h @ ad @ be_bytes 8 (camp_asking_price c) @ be_bytes 8 d)"
  by (auto simp: commitment_payload_def res_simps to_bytes_be_Inr_iff is_active_def
      split: option.splits if_splits)

text \<open>The terms that a commitment binds.\<close>

definition same_commitment_terms :: "funding_campaign \<Rightarrow> funding_campaign \<Rightarrow> bool" where
  "same_commitment_terms c d \<longleftrightarrow>
     camp_id c = camp_id d \<and> camp_solution_id c = camp_solution_id d \<and>
     fromhex (camp_solution_hash c) = fromhex (camp_solution_hash d) \<and>
     camp_payout_address c = camp_payout_address d \<and>
     camp_asking_price c = camp_asking_price d \<and> camp_deadline c = camp_deadline d"

lemma commitment_payload_inj:
  assumes c: "commitment_payload n c = Inr p" and d: "commitment_payload n' d = Inr p"
    and n: "length n = length n'"
  shows "n = n' \<and> same_commitment_terms c d"
proof -
  from c obtain sh a dl h ad where C: "is_active c" "fromhex (camp_solution_hash c) = Some sh"
    "camp_payout_address c = Some a" "camp_deadline c = Some dl" "length_prefix sh = Inr h"
    "length_prefix (utf8 a) = Inr ad" "camp_asking_price c < 256 ^ 8" "0 \<le> dl" "dl < 256 ^ 8"
    "p = FUNDING_PROTOCOL_LABEL @ n @ uuid_bytes (camp_id c) @ uuid_bytes (camp_solution_id c) @
       h @ ad @ be_bytes 8 (camp_asking_price c) @ be_bytes 8 dl"
    unfolding commitment_payload_Inr_iff by blast
  from d obtain sh' a' dl' h' ad' where D: "is_active d" "fromhex (camp_solution_hash d) = Some sh'"
    "camp_payout_address d = Some a'" "camp_deadline d = Some dl'" "length_prefix sh' = Inr h'"
    "length_prefix (utf8 a') = Inr ad'" "camp_asking_price d < 256 ^ 8" "0 \<le> dl'" "dl' < 256 ^ 8"
    "p = FUNDING_PROTOCOL_LABEL @ n' @ uuid_bytes (camp_id d) @ uuid_bytes (camp_solution_id d) @
       h' @ ad' @ be_bytes 8 (camp_asking_price d) @ be_bytes 8 dl'"
    unfolding commitment_payload_Inr_iff by blast
  let ?t = "be_bytes 8 (camp_asking_price c) @ be_bytes 8 dl"
  let ?t' = "be_bytes 8 (camp_asking_price d) @ be_bytes 8 dl'"
  have ids: "n = n'" "camp_id c = camp_id d" "camp_solution_id c = camp_solution_id d"
    and eq: "h @ ad @ ?t = h' @ ad' @ ?t'"
    using C(10) D(10) n by (auto simp: append_eq_same_length uuid_bytes_inj)
  from length_prefix_inj [OF C(5) D(5) eq] have sh: "sh = sh'" and eq2: "ad @ ?t = ad' @ ?t'" by auto
  from length_prefix_inj [OF C(6) D(6) eq2] have "utf8 a = utf8 a'" and t: "?t = ?t'" by auto
  then have "a = a'" by (simp add: utf8_inj)
  moreover have "camp_asking_price c = camp_asking_price d" "dl = dl'"
    using t C(1,7-9) D(1,7-9) be_bytes_inj
    by (auto simp: append_eq_same_length is_active_def)
  ultimately show ?thesis using ids sh C D by (simp add: same_commitment_terms_def)
qed

end
