(* ===== verification/Gossip.thy ===== *)
theory Gossip
  imports Models "HOL-Library.Product_Lexorder" "HOL-Library.Multiset"
begin

text \<open>
  democracy/network/messages/gossip_messages.py and democracy/network/object_type.py: gossip items,
  their canonical order, the packed binary encoding (three bits of type and 128 bits of UUID per
  item) and the batches that fit one message. The size computation uses a float division, which is
  exact below \<open>2 ^ 53 div 131\<close> items.
\<close>

unbundle bit_operations_syntax

section \<open>Items\<close>

datatype object_type =
  ISSUE | ISSUE_VOTE | SOLUTION | SOLUTION_VOTE | FUNDING_CAMPAIGN | FUNDING_PLEDGE

fun object_type_int :: "object_type \<Rightarrow> int" where
  "object_type_int ISSUE = 0"
| "object_type_int ISSUE_VOTE = 1"
| "object_type_int SOLUTION = 2"
| "object_type_int SOLUTION_VOTE = 3"
| "object_type_int FUNDING_CAMPAIGN = 4"
| "object_type_int FUNDING_PLEDGE = 5"

text \<open>\<^verbatim>\<open>ObjectType(value)\<close>; \<open>None\<close> is the \<^verbatim>\<open>ValueError\<close>.\<close>

definition object_type_of_int :: "int \<Rightarrow> object_type option" where
  "object_type_of_int v =
     find (\<lambda>t. object_type_int t = v)
       [ISSUE, ISSUE_VOTE, SOLUTION, SOLUTION_VOTE, FUNDING_CAMPAIGN, FUNDING_PLEDGE]"

record gossip_item =
  gi_type :: object_type
  gi_uuid :: uuid

section \<open>Canonical order\<close>

text \<open>\<^verbatim>\<open>d[k] = v\<close> on a dict, which keeps the position of a key that is already there.\<close>

fun dict_set :: "'k \<Rightarrow> 'v \<Rightarrow> ('k \<times> 'v) list \<Rightarrow> ('k \<times> 'v) list" where
  "dict_set k v [] = [(k, v)]"
| "dict_set k v (p # d) = (if fst p = k then (k, v) # d else p # dict_set k v d)"

definition deduplicate_items :: "gossip_item list \<Rightarrow> gossip_item list" where
  "deduplicate_items items =
     map snd (fold (\<lambda>i d. dict_set (gi_type i, gi_uuid i) i d) items [])"

definition item_key :: "gossip_item \<Rightarrow> int \<times> int" where
  "item_key i = (object_type_int (gi_type i), uint (gi_uuid i))"

definition canonicalize_items :: "gossip_item list \<Rightarrow> gossip_item list" where
  "canonicalize_items items = sort_key item_key (deduplicate_items items)"

section \<open>Sizes and batches\<close>

definition OBJECT_TYPE_BITS :: nat where "OBJECT_TYPE_BITS = 3"
definition OBJECT_ID_BITS :: nat where "OBJECT_ID_BITS = 128"
definition BITS_PER_ITEM :: nat where "BITS_PER_ITEM = OBJECT_TYPE_BITS + OBJECT_ID_BITS"
definition MAX_GOSSIP_ITEMS_BLOB_BYTES :: nat where "MAX_GOSSIP_ITEMS_BLOB_BYTES = 1300"

lemmas gossip_widths = OBJECT_TYPE_BITS_def OBJECT_ID_BITS_def BITS_PER_ITEM_def
  MAX_GOSSIP_ITEMS_BLOB_BYTES_def

definition encoded_size_for_item_count :: "nat \<Rightarrow> nat" where
  "encoded_size_for_item_count n = (n * BITS_PER_ITEM + 7) div 8"

definition encoded_gossip_items_size :: "gossip_item list \<Rightarrow> nat" where
  "encoded_gossip_items_size items = encoded_size_for_item_count (length (deduplicate_items items))"

definition max_gossip_items_for_blob_size :: "int \<Rightarrow> int res" where
  "max_gossip_items_for_blob_size n =
     (if n < 0 then Inl (ValueError ''Maximum gossip blob size cannot be negative.'')
      else Inr (n * 8 div int BITS_PER_ITEM))"

text \<open>\<^verbatim>\<open>xs[start : start + n]\<close> for start in \<^verbatim>\<open>range(0, len(xs), n)\<close>.\<close>

function chunks :: "nat \<Rightarrow> 'a list \<Rightarrow> 'a list list" where
  "chunks n xs = (if xs = [] \<or> n = 0 then [] else take n xs # chunks n (drop n xs))"
  by auto
termination by (relation "measure (\<lambda>(n, xs). length xs)") auto

declare chunks.simps [simp del]

definition batch_gossip_items :: "gossip_item list \<Rightarrow> gossip_item list list res" where
  "batch_gossip_items items =
     (let canonical_items = canonicalize_items items in
      if canonical_items = [] then Inr []
      else rbind (max_gossip_items_for_blob_size (int MAX_GOSSIP_ITEMS_BLOB_BYTES)) (\<lambda>m.
        if m < 1 then Inl (ValueError ''Maximum gossip blob size is too small to fit one gossip item.'')
        else Inr (chunks (nat m) canonical_items)))"

section \<open>Encoding\<close>

definition pack_item :: "gossip_item \<Rightarrow> int \<Rightarrow> int" where
  "pack_item i packed =
     push_bit OBJECT_ID_BITS (push_bit OBJECT_TYPE_BITS packed OR object_type_int (gi_type i))
       OR uint (gi_uuid i)"

definition encode_gossip_items :: "gossip_item list \<Rightarrow> bytes res" where
  "encode_gossip_items items =
     (let canonical_items = canonicalize_items items; item_count = length canonical_items in
      if item_count = 0 then Inr []
      else to_bytes_be (encoded_size_for_item_count item_count) (fold pack_item canonical_items 0))"

definition unpack_item :: "int \<Rightarrow> nat \<Rightarrow> nat \<Rightarrow> gossip_item option" where
  "unpack_item packed item_count item_index =
     (let shift = (item_count - item_index - 1) * BITS_PER_ITEM;
          packed_item = drop_bit shift packed AND (push_bit BITS_PER_ITEM 1 - 1);
          object_type_value = drop_bit OBJECT_ID_BITS packed_item;
          object_uuid_value = packed_item AND (push_bit OBJECT_ID_BITS 1 - 1)
      in map_option (\<lambda>t. \<lparr>gi_type = t, gi_uuid = word_of_int object_uuid_value\<rparr>)
           (object_type_of_int object_type_value))"

definition decode_gossip_items :: "bytes \<Rightarrow> gossip_item list" where
  "decode_gossip_items items_blob =
     (if items_blob = [] then []
      else let item_count = length items_blob * 8 div BITS_PER_ITEM in
        if item_count = 0 then []
        else if length items_blob \<noteq> encoded_size_for_item_count item_count then []
        else List.map_filter (unpack_item (be_int items_blob) item_count) [0..<item_count])"

section \<open>Lemmas: canonical order\<close>

lemma object_type_of_int_int [simp]: "object_type_of_int (object_type_int t) = Some t"
  by (cases t) (simp_all add: object_type_of_int_def)

lemma object_type_int_bounds: "0 \<le> object_type_int t \<and> object_type_int t < 8"
  by (cases t) simp_all

lemma object_type_int_inj: "object_type_int a = object_type_int b \<longleftrightarrow> a = b"
  by (metis object_type_of_int_int option.inject)

lemma item_key_inj: "item_key a = item_key b \<longleftrightarrow> a = b"
  by (cases a; cases b) (auto simp: item_key_def object_type_int_inj word_uint_eq_iff)

lemma dict_set_keys: "set (map fst (dict_set k v d)) = insert k (set (map fst d))"
  by (induction d) auto

lemma dict_set_distinct: "distinct (map fst d) \<Longrightarrow> distinct (map fst (dict_set k v d))"
  by (induction d) (use dict_set_keys [of k v] in auto)

definition items_dict :: "((object_type \<times> uuid) \<times> gossip_item) list \<Rightarrow> bool" where
  "items_dict d \<longleftrightarrow> distinct (map fst d) \<and> (\<forall>p \<in> set d. fst p = (gi_type (snd p), gi_uuid (snd p)))"

lemma items_dict_set:
  "items_dict d \<Longrightarrow> items_dict (dict_set (gi_type i, gi_uuid i) i d) \<and>
     set (map snd (dict_set (gi_type i, gi_uuid i) i d)) = insert i (set (map snd d))"
proof (induction d)
  case Nil
  then show ?case by (simp add: items_dict_def)
next
  case (Cons p d)
  have d: "items_dict d" using Cons.prems by (auto simp: items_dict_def)
  show ?case
  proof (cases "fst p = (gi_type i, gi_uuid i)")
    case True
    then have "snd p = i" using Cons.prems by (cases i; cases "snd p") (auto simp: items_dict_def)
    with True have "p = ((gi_type i, gi_uuid i), i)" by (cases p) simp
    then have "dict_set (gi_type i, gi_uuid i) i (p # d) = p # d" "snd p = i" by simp_all
    with Cons.prems show ?thesis by (simp only:) auto
  next
    case False
    have "fst p \<notin> set (map fst d)" using Cons.prems unfolding items_dict_def list.map distinct.simps by blast
    then have "fst p \<notin> set (map fst (dict_set (gi_type i, gi_uuid i) i d))"
      using False unfolding dict_set_keys by blast
    with Cons.IH [OF d] Cons.prems False show ?thesis by (auto simp: items_dict_def)
  qed
qed

lemma fold_dict_set:
  "items_dict d \<Longrightarrow> items_dict (fold (\<lambda>i d. dict_set (gi_type i, gi_uuid i) i d) items d) \<and>
     set (map snd (fold (\<lambda>i d. dict_set (gi_type i, gi_uuid i) i d) items d)) = set (map snd d) \<union> set items"
proof (induction items arbitrary: d)
  case (Cons i items)
  from Cons.IH [of "dict_set (gi_type i, gi_uuid i) i d"] items_dict_set [OF Cons.prems, of i]
  show ?case by auto
qed simp

lemma items_dict_distinct: "items_dict d \<Longrightarrow> distinct (map snd d)"
proof -
  assume d: "items_dict d"
  then have "map fst d = map (\<lambda>i. (gi_type i, gi_uuid i)) (map snd d)" by (auto simp: items_dict_def)
  moreover have "distinct (map fst d)" using d by (simp add: items_dict_def)
  ultimately have "distinct (map (\<lambda>i. (gi_type i, gi_uuid i)) (map snd d))" by (simp only:)
  then show ?thesis by (simp only: distinct_map)
qed

lemma deduplicate_items_facts:
  "set (deduplicate_items items) = set items" "distinct (deduplicate_items items)"
proof -
  have "items_dict []" by (simp add: items_dict_def)
  from fold_dict_set [OF this, of items] items_dict_distinct
  show "set (deduplicate_items items) = set items" "distinct (deduplicate_items items)"
    by (auto simp: deduplicate_items_def)
qed

lemma canonicalize_items_facts:
  "set (canonicalize_items items) = set items" "distinct (canonicalize_items items)"
  "sorted (map item_key (canonicalize_items items))"
  "length (canonicalize_items items) = length (deduplicate_items items)"
  by (simp_all add: canonicalize_items_def deduplicate_items_facts)

lemma sorted_item_keys_unique:
  assumes "set xs = set ys" "distinct xs" "distinct ys" "sorted (map item_key xs)" "sorted (map item_key ys)"
  shows "xs = ys"
proof -
  have inj: "inj item_key" by (simp add: inj_def item_key_inj)
  then have "distinct (map item_key xs)" "distinct (map item_key ys)"
    using assms by (auto simp: distinct_map intro: inj_on_subset)
  then have "map item_key xs = map item_key ys"
    using assms by (intro sorted_distinct_set_unique) auto
  with inj show ?thesis by (metis inj_map_eq_map)
qed

lemma canonicalize_items_set:
  "set xs = set ys \<Longrightarrow> canonicalize_items xs = canonicalize_items ys"
  by (intro sorted_item_keys_unique) (simp_all add: canonicalize_items_facts)

lemma canonicalize_items_idem:
  "distinct xs \<Longrightarrow> sorted (map item_key xs) \<Longrightarrow> canonicalize_items xs = xs"
  by (intro sorted_item_keys_unique) (simp_all add: canonicalize_items_facts)

section \<open>Lemmas: packing\<close>

lemma push_bit_or_add:
  assumes "0 \<le> (b :: int)" "b < 2 ^ n"
  shows "push_bit n a OR b = a * 2 ^ n + b"
proof -
  have "take_bit n b = b" using assms by (simp add: take_bit_int_eq_self)
  then have "\<not> bit (push_bit n a) k \<or> \<not> bit b k" for k
    by (metis bit_push_bit_iff_int bit_take_bit_iff not_le)
  then have "push_bit n a + b = push_bit n a OR b" by (rule disjunctive_add)
  then show ?thesis by (simp add: push_bit_eq_mult)
qed

abbreviation item_base :: int where "item_base \<equiv> 2 ^ 131"

definition item_value :: "gossip_item \<Rightarrow> int" where
  "item_value i = object_type_int (gi_type i) * 2 ^ 128 + uint (gi_uuid i)"

lemma uint_uuid_bounds: "0 \<le> uint (u :: uuid)" "uint u < 2 ^ 128"
  using uint_bounded [of u] by auto

lemma pack_item_eq: "pack_item i packed = packed * item_base + item_value i"
proof -
  have "push_bit 3 packed OR object_type_int (gi_type i) = packed * 8 + object_type_int (gi_type i)"
    using push_bit_or_add [of "object_type_int (gi_type i)" 3 packed] object_type_int_bounds [of "gi_type i"]
    by simp
  then show ?thesis
    using push_bit_or_add [of "uint (gi_uuid i)" 128] uint_uuid_bounds [of "gi_uuid i"]
    by (simp add: pack_item_def gossip_widths item_value_def algebra_simps)
qed

lemma item_value_bounds: "0 \<le> item_value i" "item_value i < item_base"
  using object_type_int_bounds [of "gi_type i"] uint_uuid_bounds [of "gi_uuid i"]
  by (simp_all add: item_value_def)

text \<open>Packed items are the digits of a number in base \<open>2 ^ 131\<close>, most significant first.\<close>

definition packed :: "gossip_item list \<Rightarrow> int" where
  "packed items = fold pack_item items 0"

lemma packed_snoc: "packed (xs @ [i]) = packed xs * item_base + item_value i"
  by (simp add: packed_def pack_item_eq)

lemma packed_bounds: "0 \<le> packed items \<and> packed items < item_base ^ length items"
proof (induction items rule: rev_induct)
  case Nil
  then show ?case by (simp add: packed_def)
next
  case (snoc i xs)
  have "packed xs * item_base + item_value i < (packed xs + 1) * item_base"
    using item_value_bounds [of i] by (simp add: algebra_simps)
  also have "\<dots> \<le> item_base ^ length xs * item_base"
    using snoc by (intro mult_right_mono) auto
  finally have "packed (xs @ [i]) < item_base ^ length (xs @ [i])"
    by (simp only: packed_snoc length_append power_add) simp
  moreover have "0 \<le> packed (xs @ [i])"
    unfolding packed_snoc using snoc item_value_bounds [of i] by simp
  ultimately show ?case by blast
qed

lemma packed_digit:
  "k < length items \<Longrightarrow>
     packed items div item_base ^ (length items - k - 1) mod item_base = item_value (items ! k)"
proof (induction items arbitrary: k rule: rev_induct)
  case (snoc i xs)
  show ?case
  proof (cases "k = length xs")
    case True
    then show ?thesis using item_value_bounds [of i] by (simp add: packed_snoc)
  next
    case False
    then have k: "k < length xs" using snoc.prems by simp
    then have e: "length (xs @ [i]) - k - 1 = Suc (length xs - k - 1)" by simp
    have d: "(packed xs * item_base + item_value i) div item_base = packed xs"
      using item_value_bounds [of i] by simp
    have "packed (xs @ [i]) div item_base ^ (length (xs @ [i]) - k - 1) =
        packed xs div item_base ^ (length xs - k - 1)"
      unfolding e power_Suc packed_snoc
      by (subst zdiv_zmult2_eq) (simp_all only: d, simp)
    with snoc.IH [OF k] k show ?thesis by (simp add: nth_append)
  qed
qed simp

lemma unpack_item_packed:
  assumes "k < length items"
  shows "unpack_item (packed items) (length items) k = Some (items ! k)"
proof -
  let ?i = "items ! k" and ?s = "(length items - k - 1) * 131"
  have m: "x AND (push_bit n 1 - 1) = x mod 2 ^ n" for x :: int and n
    by (simp add: push_bit_eq_mult mask_eq_exp_minus_1 [symmetric] take_bit_eq_mask [symmetric] take_bit_eq_mod)
  have "(2 :: int) ^ ?s = item_base ^ (length items - k - 1)"
    by (simp only: power_mult [symmetric] mult.commute)
  then have p: "drop_bit ?s (packed items) AND (push_bit 131 1 - 1) = item_value ?i"
    using packed_digit [OF assms] unfolding m drop_bit_eq_div by simp
  have t: "drop_bit 128 (item_value ?i) = object_type_int (gi_type ?i)"
    and u: "item_value ?i AND (push_bit 128 1 - 1) = uint (gi_uuid ?i)"
    using uint_uuid_bounds [of "gi_uuid ?i"] unfolding m drop_bit_eq_div item_value_def by simp_all
  have w: "BITS_PER_ITEM = 131" "OBJECT_ID_BITS = 128" by (simp_all add: gossip_widths)
  have "\<lparr>gi_type = gi_type ?i, gi_uuid = gi_uuid ?i\<rparr> = ?i" by simp
  then show ?thesis
    unfolding unpack_item_def Let_def w p t u by simp
qed

lemma size_covers: "n * 131 \<le> 8 * ((n * 131 + 7) div 8)" "8 * ((n * 131 + 7) div 8) < n * 131 + (8 :: nat)"
  by linarith+

lemma item_count_of_size: "encoded_size_for_item_count n * 8 div 131 = n"
proof -
  let ?m = "8 * ((n * 131 + 7) div 8)"
  have "n * 131 \<le> ?m" "?m < Suc n * 131" using size_covers [of n] by simp_all
  then have "?m div 131 = n" by (intro div_nat_eqI) (simp_all add: mult.commute)
  then show ?thesis by (simp add: encoded_size_for_item_count_def gossip_widths mult.commute)
qed

lemma packed_fits: "packed items < 256 ^ encoded_size_for_item_count (length items)"
proof -
  let ?n = "length items" and ?z = "encoded_size_for_item_count (length items)"
  have "131 * ?n \<le> 8 * ?z"
    using size_covers(1) [of ?n] by (simp add: encoded_size_for_item_count_def gossip_widths mult.commute)
  then have "(2 :: int) ^ (131 * ?n) \<le> 2 ^ (8 * ?z)" by (intro power_increasing) auto
  moreover have "(2 :: int) ^ (131 * ?n) = item_base ^ ?n" "(2 :: int) ^ (8 * ?z) = 256 ^ ?z"
    by (simp_all add: power_mult)
  ultimately show ?thesis using packed_bounds [of items] by linarith
qed

lemma encode_gossip_items_eq:
  "encode_gossip_items items =
     Inr (if items = [] then []
          else be_bytes (encoded_size_for_item_count (length (canonicalize_items items)))
                 (packed (canonicalize_items items)))"
proof -
  let ?c = "canonicalize_items items"
  have "?c = [] \<longleftrightarrow> items = []" using canonicalize_items_facts(1) [of items] by auto
  moreover have "to_bytes_be (encoded_size_for_item_count (length ?c)) (packed ?c) =
      Inr (be_bytes (encoded_size_for_item_count (length ?c)) (packed ?c))"
    using packed_fits [of ?c] packed_bounds [of ?c] by (simp add: to_bytes_be_def)
  ultimately show ?thesis by (simp add: encode_gossip_items_def Let_def packed_def)
qed

lemma map_filter_upt:
  "(\<And>k. k < length xs \<Longrightarrow> f k = Some (xs ! k)) \<Longrightarrow> List.map_filter f [0..<length xs] = xs"
proof -
  assume "\<And>k. k < length xs \<Longrightarrow> f k = Some (xs ! k)"
  then have "List.map_filter f [0..<n] = take n xs" if "n \<le> length xs" for n
    using that by (induction n) (auto simp: List.map_filter_def take_Suc_conv_app_nth)
  then show ?thesis by simp
qed

lemma decode_encode:
  assumes "encode_gossip_items items = Inr blob"
  shows "decode_gossip_items blob = canonicalize_items items"
proof (cases "items = []")
  case True
  then show ?thesis
    using assms canonicalize_items_facts(1) [of items]
    by (auto simp: encode_gossip_items_eq decode_gossip_items_def)
next
  case False
  let ?c = "canonicalize_items items" and ?z = "encoded_size_for_item_count (length (canonicalize_items items))"
  have ne: "?c \<noteq> []" using False canonicalize_items_facts(1) [of items] by auto
  have blob: "blob = be_bytes ?z (packed ?c)" using assms False by (simp add: encode_gossip_items_eq)
  have len: "length blob = ?z" by (simp add: blob)
  have count: "?z * 8 div BITS_PER_ITEM = length ?c"
    using item_count_of_size [of "length ?c"] by (simp add: gossip_widths)
  have v: "be_int blob = packed ?c"
    unfolding blob using packed_bounds [of ?c] packed_fits [of ?c] by simp
  have "blob \<noteq> []" using count ne len by (metis div_0 length_0_conv mult_0)
  then show ?thesis
    unfolding decode_gossip_items_def Let_def len count v
    using ne map_filter_upt [of ?c "unpack_item (packed ?c) (length ?c)"] unpack_item_packed [of _ ?c]
    by simp
qed

section \<open>Lemmas: batches\<close>

lemma concat_chunks: "0 < n \<Longrightarrow> concat (chunks n xs) = xs"
proof (induction n xs rule: chunks.induct)
  case (1 n xs)
  then show ?case by (subst chunks.simps) auto
qed

lemma chunks_bounds: "b \<in> set (chunks n xs) \<Longrightarrow> b \<noteq> [] \<and> length b \<le> n"
proof (induction n xs rule: chunks.induct)
  case (1 n xs)
  then show ?case by (subst (asm) chunks.simps) (auto split: if_splits)
qed

lemma set_chunks_sub: "b \<in> set (chunks n xs) \<Longrightarrow> \<exists>l r. xs = l @ b @ r"
proof (induction n xs rule: chunks.induct)
  case (1 n xs)
  show ?case
  proof (cases "xs = [] \<or> n = 0 \<or> b = take n xs")
    case True
    then show ?thesis
      using 1(2) by (subst (asm) chunks.simps) (metis append_Nil append_take_drop_id empty_iff list.set(1))
  next
    case False
    then have "b \<in> set (chunks n (drop n xs))"
      using 1(2) by (subst (asm) chunks.simps) auto
    then obtain l r where "drop n xs = l @ b @ r" using 1(1) False by blast
    then have "xs = (take n xs @ l) @ b @ r" by (metis append.assoc append_take_drop_id)
    then show ?thesis by blast
  qed
qed

lemma batch_gossip_items_eq: "batch_gossip_items items = Inr (chunks 79 (canonicalize_items items))"
  by (simp add: batch_gossip_items_def Let_def max_gossip_items_for_blob_size_def gossip_widths chunks.simps)

lemma batch_canonical:
  assumes "b \<in> set (chunks n (canonicalize_items items))" shows "canonicalize_items b = b"
proof -
  obtain l r where "canonicalize_items items = l @ b @ r" using set_chunks_sub [OF assms] by blast
  with canonicalize_items_facts(2,3) [of items] show ?thesis
    by (intro canonicalize_items_idem) (auto simp: sorted_append)
qed

section \<open>Properties\<close>

text \<open>
  C21. Every list of items can be encoded, and decoding the blob gives its items once each, in
  canonical order: nothing is lost or invented.
\<close>

theorem gossip_round_trip:
  "\<exists>blob. encode_gossip_items items = Inr blob \<and>
     decode_gossip_items blob = canonicalize_items items \<and>
     set (decode_gossip_items blob) = set items \<and> distinct (decode_gossip_items blob) \<and>
     length blob = encoded_gossip_items_size items"
proof -
  obtain blob where e: "encode_gossip_items items = Inr blob" by (simp add: encode_gossip_items_eq)
  have "items = [] \<Longrightarrow> encoded_gossip_items_size items = 0"
    by (simp add: encoded_gossip_items_size_def deduplicate_items_def encoded_size_for_item_count_def)
  then have "length blob = encoded_gossip_items_size items"
    using e by (auto simp: encode_gossip_items_eq encoded_gossip_items_size_def canonicalize_items_facts)
  with e decode_encode [OF e] canonicalize_items_facts(1,2) [of items] show ?thesis by auto
qed

text \<open>
  The encoding depends on the set of items only: peers that know the same objects produce the
  same bytes, whatever order and multiplicity they list them in.
\<close>

theorem gossip_deterministic:
  assumes "set xs = set ys"
  shows "encode_gossip_items xs = encode_gossip_items ys"
  using canonicalize_items_set [OF assms] assms by (auto simp: encode_gossip_items_eq)

theorem gossip_deterministic_witness:
  "encode_gossip_items [\<lparr>gi_type = SOLUTION, gi_uuid = 7\<rparr>, \<lparr>gi_type = ISSUE, gi_uuid = 9\<rparr>] =
   encode_gossip_items [\<lparr>gi_type = ISSUE, gi_uuid = 9\<rparr>, \<lparr>gi_type = SOLUTION, gi_uuid = 7\<rparr>,
     \<lparr>gi_type = ISSUE, gi_uuid = 9\<rparr>]"
  by (rule gossip_deterministic) auto

text \<open>
  C22. Batching always succeeds, covers every item exactly once, and each batch is not empty, is
  encoded in at most 1300 bytes and decodes to itself.
\<close>

theorem gossip_batches:
  "\<exists>bs. batch_gossip_items items = Inr bs \<and> concat bs = canonicalize_items items \<and>
     set (concat bs) = set items \<and>
     (\<forall>b \<in> set bs. b \<noteq> [] \<and> (\<exists>blob. encode_gossip_items b = Inr blob \<and>
        length blob \<le> MAX_GOSSIP_ITEMS_BLOB_BYTES \<and> decode_gossip_items blob = b))"
proof -
  let ?bs = "chunks 79 (canonicalize_items items)"
  have "concat ?bs = canonicalize_items items" by (simp add: concat_chunks)
  moreover have "b \<noteq> [] \<and> (\<exists>blob. encode_gossip_items b = Inr blob \<and>
        length blob \<le> MAX_GOSSIP_ITEMS_BLOB_BYTES \<and> decode_gossip_items blob = b)" if b: "b \<in> set ?bs" for b
  proof -
    obtain blob where e: "encode_gossip_items b = Inr blob" by (simp add: encode_gossip_items_eq)
    have "length b \<le> 79" "b \<noteq> []" using chunks_bounds [OF b] by auto
    then have "length blob \<le> 1300"
      using e batch_canonical [OF b]
      by (auto simp: encode_gossip_items_eq encoded_size_for_item_count_def gossip_widths)
    with e decode_encode [OF e] batch_canonical [OF b] \<open>b \<noteq> []\<close> show ?thesis by (simp add: gossip_widths)
  qed
  ultimately show ?thesis
    unfolding batch_gossip_items_eq
    by (intro exI [of _ ?bs] conjI ballI refl) (simp_all only: canonicalize_items_facts(1) not_False_eq_True)
qed

theorem gossip_batches_witness:
  "\<exists>bs. batch_gossip_items (replicate 200 \<lparr>gi_type = ISSUE, gi_uuid = 9\<rparr>) = Inr bs \<and>
     set (concat bs) = {\<lparr>gi_type = ISSUE, gi_uuid = 9\<rparr>}"
  using gossip_batches [of "replicate 200 \<lparr>gi_type = ISSUE, gi_uuid = 9\<rparr>"] by auto

end
