(* ===== verification/Messages.thy ===== *)
theory Messages
  imports Models Gossip
begin

text \<open>
  democracy/network/messages: the six object messages of the gossip protocol, with their conversions
  \<^verbatim>\<open>to_model\<close> and \<^verbatim>\<open>from_model\<close>. A message holds the values of its fields after unpacking;
  identifiers and time stamps are text. Reading a message runs the constructor of the model, so a
  message that breaks its rules raises.
\<close>

section \<open>The messages\<close>

record issue_message =
  im_title :: string
  im_creator_id :: string
  im_description :: string
  im_id :: string
  im_created_at :: string

record issue_vote_message =
  ivm_voter_id :: string
  ivm_issue_id :: string
  ivm_id :: string
  ivm_created_at :: string

record solution_message =
  sm_title :: string
  sm_description :: string
  sm_creator_id :: string
  sm_issue_id :: string
  sm_id :: string
  sm_created_at :: string

record solution_vote_message =
  svm_voter_id :: string
  svm_solution_id :: string
  svm_id :: string
  svm_created_at :: string

record funding_campaign_message =
  fcm_id :: string
  fcm_solution_id :: string
  fcm_solution_hash :: string
  fcm_payout_address :: string
  fcm_asking_price :: int
  fcm_deadline :: int
  fcm_created_at :: string

record funding_pledge_message =
  fpm_id :: string
  fpm_campaign_id :: string
  fpm_pledger_id :: string
  fpm_txid :: string
  fpm_vout :: int
  fpm_value_sats :: int
  fpm_signed_psbt :: string
  fpm_created_at :: string

section \<open>Reading a message\<close>

definition issue_to_model :: "issue_message \<Rightarrow> issue res" where
  "issue_to_model m =
     rbind (uuid_of_str (im_creator_id m)) (\<lambda>creator.
     rbind (uuid_of_str (im_id m)) (\<lambda>id.
     rbind (parse_datetime (JStr (im_created_at m))) (\<lambda>t.
     Inr \<lparr>iss_id = id, iss_title = im_title m, iss_creator_id = creator,
          iss_description = im_description m, iss_created_at = DT t\<rparr>)))"

definition issue_vote_to_model :: "issue_vote_message \<Rightarrow> issue_vote res" where
  "issue_vote_to_model m =
     rbind (uuid_of_str (ivm_voter_id m)) (\<lambda>voter.
     rbind (uuid_of_str (ivm_issue_id m)) (\<lambda>issue.
     rbind (uuid_of_str (ivm_id m)) (\<lambda>id.
     rbind (parse_datetime (JStr (ivm_created_at m))) (\<lambda>t.
     Inr \<lparr>iv_id = id, iv_voter_id = voter, iv_issue_id = issue, iv_created_at = DT t\<rparr>))))"

definition solution_to_model :: "solution_message \<Rightarrow> solution res" where
  "solution_to_model m =
     rbind (uuid_of_str (sm_creator_id m)) (\<lambda>creator.
     rbind (uuid_of_str (sm_issue_id m)) (\<lambda>issue.
     rbind (uuid_of_str (sm_id m)) (\<lambda>id.
     rbind (parse_datetime (JStr (sm_created_at m))) (\<lambda>t.
     Inr \<lparr>sol_id = id, sol_issue_id = issue, sol_title = sm_title m, sol_creator_id = creator,
          sol_description = sm_description m, sol_created_at = DT t\<rparr>))))"

definition solution_vote_to_model :: "solution_vote_message \<Rightarrow> solution_vote res" where
  "solution_vote_to_model m =
     rbind (uuid_of_str (svm_voter_id m)) (\<lambda>voter.
     rbind (uuid_of_str (svm_solution_id m)) (\<lambda>solution.
     rbind (uuid_of_str (svm_id m)) (\<lambda>id.
     rbind (parse_datetime (JStr (svm_created_at m))) (\<lambda>t.
     Inr \<lparr>sv_id = id, sv_voter_id = voter, sv_solution_id = solution, sv_created_at = DT t\<rparr>))))"

definition campaign_to_model :: "funding_campaign_message \<Rightarrow> funding_campaign res" where
  "campaign_to_model m =
     (let payout_address = (if fcm_payout_address m = [] then None else Some (fcm_payout_address m));
          deadline_height = (if fcm_deadline m = 0 then None else Some (fcm_deadline m))
      in rbind (uuid_of_str (fcm_id m)) (\<lambda>id.
         rbind (uuid_of_str (fcm_solution_id m)) (\<lambda>solution.
         rbind (parse_datetime (JStr (fcm_created_at m))) (\<lambda>t.
         campaign_post_init
           \<lparr>camp_id = id, camp_solution_id = solution, camp_solution_hash = fcm_solution_hash m,
            camp_payout_address = payout_address, camp_asking_price = fcm_asking_price m,
            camp_deadline = deadline_height, camp_created_at = DT t\<rparr>))))"

definition pledge_to_model :: "funding_pledge_message \<Rightarrow> funding_pledge res" where
  "pledge_to_model m =
     rbind (uuid_of_str (fpm_id m)) (\<lambda>id.
     rbind (uuid_of_str (fpm_campaign_id m)) (\<lambda>campaign.
     rbind (uuid_of_str (fpm_pledger_id m)) (\<lambda>pledger.
     rbind (parse_datetime (JStr (fpm_created_at m))) (\<lambda>t.
     pledge_post_init
       \<lparr>pl_id = id, pl_campaign_id = campaign, pl_pledger_id = pledger, pl_txid = fpm_txid m,
        pl_vout = fpm_vout m, pl_value_sats = fpm_value_sats m, pl_signed_psbt = fpm_signed_psbt m,
        pl_created_at = DT t\<rparr>))))"

section \<open>Building a message\<close>

definition issue_from_model :: "issue \<Rightarrow> issue_message res" where
  "issue_from_model i =
     rbind (timestamp_isoformat (iss_created_at i)) (\<lambda>t.
     Inr \<lparr>im_title = iss_title i, im_creator_id = uuid_str (iss_creator_id i),
          im_description = iss_description i, im_id = uuid_str (iss_id i), im_created_at = t\<rparr>)"

definition issue_vote_from_model :: "issue_vote \<Rightarrow> issue_vote_message res" where
  "issue_vote_from_model v =
     rbind (timestamp_isoformat (iv_created_at v)) (\<lambda>t.
     Inr \<lparr>ivm_voter_id = uuid_str (iv_voter_id v), ivm_issue_id = uuid_str (iv_issue_id v),
          ivm_id = uuid_str (iv_id v), ivm_created_at = t\<rparr>)"

definition solution_from_model :: "solution \<Rightarrow> solution_message res" where
  "solution_from_model x =
     rbind (timestamp_isoformat (sol_created_at x)) (\<lambda>t.
     Inr \<lparr>sm_title = sol_title x, sm_description = sol_description x,
          sm_creator_id = uuid_str (sol_creator_id x), sm_issue_id = uuid_str (sol_issue_id x),
          sm_id = uuid_str (sol_id x), sm_created_at = t\<rparr>)"

definition solution_vote_from_model :: "solution_vote \<Rightarrow> solution_vote_message res" where
  "solution_vote_from_model v =
     rbind (timestamp_isoformat (sv_created_at v)) (\<lambda>t.
     Inr \<lparr>svm_voter_id = uuid_str (sv_voter_id v), svm_solution_id = uuid_str (sv_solution_id v),
          svm_id = uuid_str (sv_id v), svm_created_at = t\<rparr>)"

definition campaign_from_model :: "funding_campaign \<Rightarrow> funding_campaign_message res" where
  "campaign_from_model c =
     rbind (timestamp_isoformat (camp_created_at c)) (\<lambda>t.
     Inr \<lparr>fcm_id = uuid_str (camp_id c), fcm_solution_id = uuid_str (camp_solution_id c),
          fcm_solution_hash = camp_solution_hash c,
          fcm_payout_address = (case camp_payout_address c of None \<Rightarrow> [] | Some a \<Rightarrow> a),
          fcm_asking_price = camp_asking_price c,
          fcm_deadline = (case camp_deadline c of None \<Rightarrow> 0 | Some d \<Rightarrow> d), fcm_created_at = t\<rparr>)"

definition pledge_from_model :: "funding_pledge \<Rightarrow> funding_pledge_message res" where
  "pledge_from_model p =
     rbind (timestamp_isoformat (pl_created_at p)) (\<lambda>t.
     Inr \<lparr>fpm_id = uuid_str (pl_id p), fpm_campaign_id = uuid_str (pl_campaign_id p),
          fpm_pledger_id = uuid_str (pl_pledger_id p), fpm_txid = pl_txid p, fpm_vout = pl_vout p,
          fpm_value_sats = pl_value_sats p, fpm_signed_psbt = pl_signed_psbt p, fpm_created_at = t\<rparr>)"

lemmas to_model_defs = issue_to_model_def issue_vote_to_model_def solution_to_model_def
  solution_vote_to_model_def campaign_to_model_def pledge_to_model_def

lemmas from_model_defs = issue_from_model_def issue_vote_from_model_def solution_from_model_def
  solution_vote_from_model_def campaign_from_model_def pledge_from_model_def

section \<open>Objects and payloads\<close>

text \<open>A model of any of the six kinds, the message that carries it, and what a peer sends.\<close>

datatype model =
    MIssue issue
  | MIssueVote issue_vote
  | MSolution solution
  | MSolutionVote solution_vote
  | MCampaign funding_campaign
  | MPledge funding_pledge

datatype object_message =
    IssueMessage issue_message
  | IssueVoteMessage issue_vote_message
  | SolutionMessage solution_message
  | SolutionVoteMessage solution_vote_message
  | FundingCampaignMessage funding_campaign_message
  | FundingPledgeMessage funding_pledge_message

datatype payload =
    IHave bytes
  | IWant bytes
  | Object object_message

fun model_type :: "model \<Rightarrow> object_type" where
  "model_type (MIssue x) = ISSUE"
| "model_type (MIssueVote x) = ISSUE_VOTE"
| "model_type (MSolution x) = SOLUTION"
| "model_type (MSolutionVote x) = SOLUTION_VOTE"
| "model_type (MCampaign x) = FUNDING_CAMPAIGN"
| "model_type (MPledge x) = FUNDING_PLEDGE"

fun model_id :: "model \<Rightarrow> uuid" where
  "model_id (MIssue x) = iss_id x"
| "model_id (MIssueVote x) = iv_id x"
| "model_id (MSolution x) = sol_id x"
| "model_id (MSolutionVote x) = sv_id x"
| "model_id (MCampaign x) = camp_id x"
| "model_id (MPledge x) = pl_id x"

fun to_model :: "object_message \<Rightarrow> model res" where
  "to_model (IssueMessage m) = map_sum id MIssue (issue_to_model m)"
| "to_model (IssueVoteMessage m) = map_sum id MIssueVote (issue_vote_to_model m)"
| "to_model (SolutionMessage m) = map_sum id MSolution (solution_to_model m)"
| "to_model (SolutionVoteMessage m) = map_sum id MSolutionVote (solution_vote_to_model m)"
| "to_model (FundingCampaignMessage m) = map_sum id MCampaign (campaign_to_model m)"
| "to_model (FundingPledgeMessage m) = map_sum id MPledge (pledge_to_model m)"

fun build_message :: "model \<Rightarrow> object_message res" where
  "build_message (MIssue x) = map_sum id IssueMessage (issue_from_model x)"
| "build_message (MIssueVote x) = map_sum id IssueVoteMessage (issue_vote_from_model x)"
| "build_message (MSolution x) = map_sum id SolutionMessage (solution_from_model x)"
| "build_message (MSolutionVote x) = map_sum id SolutionVoteMessage (solution_vote_from_model x)"
| "build_message (MCampaign x) = map_sum id FundingCampaignMessage (campaign_from_model x)"
| "build_message (MPledge x) = map_sum id FundingPledgeMessage (pledge_from_model x)"

fun message_type :: "object_message \<Rightarrow> object_type" where
  "message_type (IssueMessage m) = ISSUE"
| "message_type (IssueVoteMessage m) = ISSUE_VOTE"
| "message_type (SolutionMessage m) = SOLUTION"
| "message_type (SolutionVoteMessage m) = SOLUTION_VOTE"
| "message_type (FundingCampaignMessage m) = FUNDING_CAMPAIGN"
| "message_type (FundingPledgeMessage m) = FUNDING_PLEDGE"

section \<open>What a received model satisfies\<close>

text \<open>
  The rules of the constructors and a valid time stamp: what every read of a message establishes,
  and what a message needs to be read back.
\<close>

fun model_created_at :: "model \<Rightarrow> timestamp" where
  "model_created_at (MIssue x) = iss_created_at x"
| "model_created_at (MIssueVote x) = iv_created_at x"
| "model_created_at (MSolution x) = sol_created_at x"
| "model_created_at (MSolutionVote x) = sv_created_at x"
| "model_created_at (MCampaign x) = camp_created_at x"
| "model_created_at (MPledge x) = pl_created_at x"

fun model_ok :: "model \<Rightarrow> bool" where
  "model_ok (MCampaign x) \<longleftrightarrow> valid_timestamp (camp_created_at x) \<and> campaign_ok x"
| "model_ok (MPledge x) \<longleftrightarrow> valid_timestamp (pl_created_at x) \<and> pledge_ok x"
| "model_ok m \<longleftrightarrow> valid_timestamp (model_created_at m)"

lemma valid_timestamp_DT: "valid_timestamp t \<longleftrightarrow> (\<exists>d. t = DT d \<and> valid_datetime d)"
  by (cases t) (auto simp: valid_timestamp_def)

lemma map_sum_Inr_iff [simp]: "map_sum f g x = Inr y \<longleftrightarrow> (\<exists>z. x = Inr z \<and> y = g z)"
  by (cases x) auto

lemma map_sum_Inl_iff [simp]: "map_sum f g x = Inl y \<longleftrightarrow> (\<exists>z. x = Inl z \<and> y = f z)"
  by (cases x) auto

lemma Some_map_option_iff [simp]: "Some y = map_option g z \<longleftrightarrow> (\<exists>w. z = Some w \<and> y = g w)"
  by (cases z) auto

lemma message_round_trip:
  assumes "model_ok m" shows "\<exists>msg. build_message m = Inr msg \<and> to_model msg = Inr m"
proof (cases m)
  case (MCampaign c)
  have "campaign_ok c" "valid_timestamp (camp_created_at c)" using assms MCampaign by auto
  moreover obtain a d where "(camp_payout_address c, camp_deadline c) = (a, d)" by simp
  ultimately have c: "c\<lparr>camp_payout_address := (if (case camp_payout_address c of None \<Rightarrow> [] | Some a \<Rightarrow> a) = [] then None
         else Some (case camp_payout_address c of None \<Rightarrow> [] | Some a \<Rightarrow> a)),
       camp_deadline := (if (case camp_deadline c of None \<Rightarrow> 0 | Some a \<Rightarrow> a) = 0 then None
         else Some (case camp_deadline c of None \<Rightarrow> 0 | Some a \<Rightarrow> a))\<rparr> = c"
    by (cases c) (auto simp: campaign_ok_def split: option.splits)
  with assms MCampaign campaign_post_init_ok [of c] show ?thesis
    by (cases c) (auto simp: campaign_from_model_def campaign_to_model_def Let_def valid_timestamp_DT
        timestamp_isoformat_def parse_datetime_isoformat)
next
  case (MPledge p)
  with assms pledge_post_init_ok [of p] show ?thesis
    by (cases p) (auto simp: from_model_defs to_model_defs valid_timestamp_DT timestamp_isoformat_def
        parse_datetime_isoformat)
qed (use assms in \<open>auto simp: from_model_defs to_model_defs valid_timestamp_DT timestamp_isoformat_def
        parse_datetime_isoformat\<close>)

lemma to_model_ok:
  assumes "to_model msg = Inr m" shows "model_ok m \<and> model_type m = message_type msg"
proof (cases msg)
  case (FundingCampaignMessage c)
  with assms show ?thesis
    by (auto simp: campaign_to_model_def Let_def res_simps valid_timestamp_DT dest!: campaign_post_init_Inr parse_datetime_valid)
next
  case (FundingPledgeMessage p)
  with assms show ?thesis
    by (auto simp: pledge_to_model_def res_simps valid_timestamp_DT dest!: pledge_post_init_Inr parse_datetime_valid)
qed (use assms in \<open>auto simp: to_model_defs res_simps valid_timestamp_DT parse_datetime_valid\<close>)

lemma build_message_type: "build_message m = Inr msg \<Longrightarrow> message_type msg = model_type m"
  by (cases m) auto

lemma uuid_of_str_value_error: "uuid_of_str s = Inl e \<Longrightarrow> is_value_error e"
  by (auto simp: uuid_of_str_def Let_def split: if_splits option.splits)

lemma parse_datetime_value_error: "parse_datetime v = Inl e \<Longrightarrow> is_value_error e"
  by (cases v) (auto simp: parse_datetime_def split: option.splits)

text \<open>A message that cannot be read raises \<^verbatim>\<open>ValueError\<close>.\<close>

lemma to_model_value_error: "to_model msg = Inl e \<Longrightarrow> is_value_error e"
  by (cases msg) (auto simp: to_model_defs Let_def res_simps
      dest: uuid_of_str_value_error parse_datetime_value_error campaign_post_init_value_error
        pledge_post_init_value_error)

end
