(* ===== verification/Repository.thy ===== *)
theory Repository
  imports Models "HOL-Library.List_Lexorder"
begin

text \<open>
  democracy/storage/sqlite_repository.py: the SQLite repository of issues, solutions, votes,
  funding campaigns and pledges. A table is the list of its rows in row-id order, with the columns
  of the schema; the constraints of the schema (unique columns, primary key, foreign keys, in the
  order in which SQLite reports them) are checked by every write, and a write that fails leaves the
  database as it was, as \<^verbatim>\<open>with self._connection\<close> rolls back. Identifiers and time stamps are stored
  as text.
\<close>

section \<open>The schema\<close>

record content_row =
  cr_hash :: string
  cr_size_bytes :: nat
  cr_text_content :: string
  cr_created_at :: string

record issue_row =
  ir_id :: string
  ir_title :: string
  ir_creator_id :: string
  ir_description_hash :: string
  ir_created_at :: string

text \<open>A row of issue\_votes or solution\_votes; the target is the issue or the solution.\<close>

record vote_row =
  vr_id :: string
  vr_target_id :: string
  vr_voter_id :: string
  vr_created_at :: string

record solution_row =
  sr_id :: string
  sr_issue_id :: string
  sr_title :: string
  sr_creator_id :: string
  sr_description_hash :: string
  sr_created_at :: string

record campaign_row =
  car_id :: string
  car_solution_id :: string
  car_solution_hash :: string
  car_payout_address :: "string option"
  car_asking_price :: int
  car_deadline_height :: "int option"
  car_created_at :: string

record pledge_row =
  pr_id :: string
  pr_campaign_id :: string
  pr_pledger_id :: string
  pr_txid :: string
  pr_vout :: int
  pr_value_sats :: int
  pr_signed_psbt :: string
  pr_created_at :: string

record db =
  contents :: "content_row list"
  issues :: "issue_row list"
  issue_votes :: "vote_row list"
  solutions :: "solution_row list"
  solution_votes :: "vote_row list"
  campaigns :: "campaign_row list"
  pledges :: "pledge_row list"

definition empty_db :: db where
  "empty_db = \<lparr>contents = [], issues = [], issue_votes = [], solutions = [], solution_votes = [],
               campaigns = [], pledges = []\<rparr>"

type_synonym 'a repo = "(db, py_exn, 'a) sm"

section \<open>Statements\<close>

text \<open>The first violated constraint, as a list of conditions with their messages.\<close>

fun check_constraints :: "(bool \<times> string) list \<Rightarrow> unit res" where
  "check_constraints [] = Inr ()"
| "check_constraints ((violated, msg) # cs) =
     (if violated then Inl (IntegrityError msg) else check_constraints cs)"

definition FK_FAILED :: string where "FK_FAILED = ''FOREIGN KEY constraint failed''"

text \<open>Python integers that do not fit SQLite's 64 bits cannot be bound to a parameter.\<close>

definition fits_int64 :: "int \<Rightarrow> bool" where
  "fits_int64 i \<longleftrightarrow> - (2 ^ 63) \<le> i \<and> i < 2 ^ 63"

definition bind_ints :: "int list \<Rightarrow> unit res" where
  "bind_ints is = guard_res (list_all fits_int64 is)
     (OverflowError ''Python int too large to convert to SQLite INTEGER'')"

text \<open>A transaction: the checks, then the write.\<close>

definition transaction :: "unit res \<Rightarrow> (db \<Rightarrow> db) \<Rightarrow> unit repo" where
  "transaction r upd = (\<lambda>s. case r of Inl e \<Rightarrow> (Inl e, s) | Inr u \<Rightarrow> (Inr (), upd s))"

text \<open>\<^verbatim>\<open>ORDER BY created_at\<close>, descending and ascending, on the text of the column.\<close>

definition text_key :: "string \<Rightarrow> nat list" where
  "text_key s = map of_char s"

definition order_by_asc :: "('r \<Rightarrow> string) \<Rightarrow> 'r list \<Rightarrow> 'r list" where
  "order_by_asc f rows = sort_key (\<lambda>r. text_key (f r)) rows"

definition order_by_desc :: "('r \<Rightarrow> string) \<Rightarrow> 'r list \<Rightarrow> 'r list" where
  "order_by_desc f rows = rev (sort_key (\<lambda>r. text_key (f r)) (rev rows))"

section \<open>Content-addressed descriptions\<close>

definition compute_content_hash :: "bytes \<Rightarrow> string" where
  "compute_content_hash bs = ''sha256:'' @ bytes_hex (sha256 bs)"

text \<open>\<open>now\<close> is \<^verbatim>\<open>_utc_now()\<close>.\<close>

definition store_text_content :: "string \<Rightarrow> string \<Rightarrow> db \<Rightarrow> db" where
  "store_text_content now t s =
     (let h = compute_content_hash (utf8 t) in
      if h \<in> set (map cr_hash (contents s)) then s
      else s\<lparr>contents := contents s @ [\<lparr>cr_hash = h, cr_size_bytes = length (utf8 t),
                cr_text_content = t, cr_created_at = now\<rparr>]\<rparr>)"

definition get_content :: "string \<Rightarrow> db \<Rightarrow> string option" where
  "get_content h s = map_option cr_text_content (find (\<lambda>r. cr_hash r = h) (contents s))"

definition has_content :: "string \<Rightarrow> db \<Rightarrow> bool" where
  "has_content h s \<longleftrightarrow> list_ex (\<lambda>r. cr_hash r = h) (contents s)"

section \<open>Row mapping\<close>

definition row_to_issue :: "issue_row \<Rightarrow> string \<Rightarrow> issue res" where
  "row_to_issue r description =
     rbind (uuid_of_str (ir_id r)) (\<lambda>id.
     rbind (uuid_of_str (ir_creator_id r)) (\<lambda>creator.
     Inr \<lparr>iss_id = id, iss_title = ir_title r, iss_creator_id = creator,
          iss_description = description, iss_created_at = datetime_from_storage (ir_created_at r)\<rparr>))"

definition row_to_solution :: "solution_row \<Rightarrow> string \<Rightarrow> solution res" where
  "row_to_solution r description =
     rbind (uuid_of_str (sr_id r)) (\<lambda>id.
     rbind (uuid_of_str (sr_issue_id r)) (\<lambda>issue.
     rbind (uuid_of_str (sr_creator_id r)) (\<lambda>creator.
     Inr \<lparr>sol_id = id, sol_issue_id = issue, sol_title = sr_title r, sol_creator_id = creator,
          sol_description = description, sol_created_at = datetime_from_storage (sr_created_at r)\<rparr>)))"

definition row_to_issue_vote :: "vote_row \<Rightarrow> issue_vote res" where
  "row_to_issue_vote r =
     rbind (uuid_of_str (vr_id r)) (\<lambda>id.
     rbind (uuid_of_str (vr_target_id r)) (\<lambda>target.
     rbind (uuid_of_str (vr_voter_id r)) (\<lambda>voter.
     Inr \<lparr>iv_id = id, iv_voter_id = voter, iv_issue_id = target,
          iv_created_at = datetime_from_storage (vr_created_at r)\<rparr>)))"

definition row_to_solution_vote :: "vote_row \<Rightarrow> solution_vote res" where
  "row_to_solution_vote r =
     rbind (uuid_of_str (vr_id r)) (\<lambda>id.
     rbind (uuid_of_str (vr_target_id r)) (\<lambda>target.
     rbind (uuid_of_str (vr_voter_id r)) (\<lambda>voter.
     Inr \<lparr>sv_id = id, sv_voter_id = voter, sv_solution_id = target,
          sv_created_at = datetime_from_storage (vr_created_at r)\<rparr>)))"

definition row_to_campaign :: "campaign_row \<Rightarrow> funding_campaign res" where
  "row_to_campaign r =
     rbind (uuid_of_str (car_id r)) (\<lambda>id.
     rbind (uuid_of_str (car_solution_id r)) (\<lambda>solution.
     campaign_post_init
       \<lparr>camp_id = id, camp_solution_id = solution, camp_solution_hash = car_solution_hash r,
        camp_payout_address = car_payout_address r, camp_asking_price = car_asking_price r,
        camp_deadline = car_deadline_height r,
        camp_created_at = datetime_from_storage (car_created_at r)\<rparr>))"

definition row_to_pledge :: "pledge_row \<Rightarrow> funding_pledge res" where
  "row_to_pledge r =
     rbind (uuid_of_str (pr_id r)) (\<lambda>id.
     rbind (uuid_of_str (pr_campaign_id r)) (\<lambda>campaign.
     rbind (uuid_of_str (pr_pledger_id r)) (\<lambda>pledger.
     pledge_post_init
       \<lparr>pl_id = id, pl_campaign_id = campaign, pl_pledger_id = pledger, pl_txid = pr_txid r,
        pl_vout = pr_vout r, pl_value_sats = pr_value_sats r, pl_signed_psbt = pr_signed_psbt r,
        pl_created_at = datetime_from_storage (pr_created_at r)\<rparr>)))"

text \<open>The rows that the writes bind.\<close>

definition issue_to_row :: "issue \<Rightarrow> issue_row" where
  "issue_to_row i =
     \<lparr>ir_id = uuid_str (iss_id i), ir_title = iss_title i, ir_creator_id = uuid_str (iss_creator_id i),
      ir_description_hash = compute_content_hash (utf8 (iss_description i)),
      ir_created_at = datetime_to_storage (iss_created_at i)\<rparr>"

definition solution_to_row :: "solution \<Rightarrow> solution_row" where
  "solution_to_row s =
     \<lparr>sr_id = uuid_str (sol_id s), sr_issue_id = uuid_str (sol_issue_id s), sr_title = sol_title s,
      sr_creator_id = uuid_str (sol_creator_id s),
      sr_description_hash = compute_content_hash (utf8 (sol_description s)),
      sr_created_at = datetime_to_storage (sol_created_at s)\<rparr>"

definition issue_vote_to_row :: "issue_vote \<Rightarrow> vote_row" where
  "issue_vote_to_row v =
     \<lparr>vr_id = uuid_str (iv_id v), vr_target_id = uuid_str (iv_issue_id v),
      vr_voter_id = uuid_str (iv_voter_id v), vr_created_at = datetime_to_storage (iv_created_at v)\<rparr>"

definition solution_vote_to_row :: "solution_vote \<Rightarrow> vote_row" where
  "solution_vote_to_row v =
     \<lparr>vr_id = uuid_str (sv_id v), vr_target_id = uuid_str (sv_solution_id v),
      vr_voter_id = uuid_str (sv_voter_id v), vr_created_at = datetime_to_storage (sv_created_at v)\<rparr>"

definition campaign_to_row :: "funding_campaign \<Rightarrow> campaign_row" where
  "campaign_to_row c =
     \<lparr>car_id = uuid_str (camp_id c), car_solution_id = uuid_str (camp_solution_id c),
      car_solution_hash = camp_solution_hash c, car_payout_address = camp_payout_address c,
      car_asking_price = camp_asking_price c, car_deadline_height = camp_deadline c,
      car_created_at = datetime_to_storage (camp_created_at c)\<rparr>"

definition pledge_to_row :: "funding_pledge \<Rightarrow> pledge_row" where
  "pledge_to_row p =
     \<lparr>pr_id = uuid_str (pl_id p), pr_campaign_id = uuid_str (pl_campaign_id p),
      pr_pledger_id = uuid_str (pl_pledger_id p), pr_txid = pl_txid p, pr_vout = pl_vout p,
      pr_value_sats = pl_value_sats p, pr_signed_psbt = pl_signed_psbt p,
      pr_created_at = datetime_to_storage (pl_created_at p)\<rparr>"

section \<open>Writes\<close>

definition add_issue :: "string \<Rightarrow> issue \<Rightarrow> unit repo" where
  "add_issue now i = (\<lambda>s.
     transaction
       (check_constraints [(uuid_str (iss_id i) \<in> set (map ir_id (issues s)),
                            ''UNIQUE constraint failed: issues.id'')])
       (\<lambda>s. let s1 = store_text_content now (iss_description i) s
            in s1\<lparr>issues := issues s1 @ [issue_to_row i]\<rparr>) s)"

definition add_issue_vote :: "issue_vote \<Rightarrow> unit repo" where
  "add_issue_vote v = (\<lambda>s.
     let r = issue_vote_to_row v in
     transaction
       (check_constraints
          [((vr_target_id r, vr_voter_id r) \<in> set (map (\<lambda>x. (vr_target_id x, vr_voter_id x)) (issue_votes s)),
            ''UNIQUE constraint failed: issue_votes.issue_id, issue_votes.voter_id''),
           (vr_id r \<in> set (map vr_id (issue_votes s)), ''UNIQUE constraint failed: issue_votes.id''),
           (vr_target_id r \<notin> set (map ir_id (issues s)), FK_FAILED)])
       (\<lambda>s. s\<lparr>issue_votes := issue_votes s @ [r]\<rparr>) s)"

definition add_solution :: "string \<Rightarrow> solution \<Rightarrow> unit repo" where
  "add_solution now x = (\<lambda>s.
     transaction
       (check_constraints
          [(uuid_str (sol_id x) \<in> set (map sr_id (solutions s)), ''UNIQUE constraint failed: solutions.id''),
           (uuid_str (sol_issue_id x) \<notin> set (map ir_id (issues s)), FK_FAILED)])
       (\<lambda>s. let s1 = store_text_content now (sol_description x) s
            in s1\<lparr>solutions := solutions s1 @ [solution_to_row x]\<rparr>) s)"

definition add_solution_vote :: "solution_vote \<Rightarrow> unit repo" where
  "add_solution_vote v = (\<lambda>s.
     let r = solution_vote_to_row v in
     transaction
       (check_constraints
          [((vr_target_id r, vr_voter_id r) \<in> set (map (\<lambda>x. (vr_target_id x, vr_voter_id x)) (solution_votes s)),
            ''UNIQUE constraint failed: solution_votes.solution_id, solution_votes.voter_id''),
           (vr_id r \<in> set (map vr_id (solution_votes s)), ''UNIQUE constraint failed: solution_votes.id''),
           (vr_target_id r \<notin> set (map sr_id (solutions s)), FK_FAILED)])
       (\<lambda>s. s\<lparr>solution_votes := solution_votes s @ [r]\<rparr>) s)"

definition add_campaign :: "funding_campaign \<Rightarrow> unit repo" where
  "add_campaign c = (\<lambda>s.
     let r = campaign_to_row c in
     transaction
       (rbind (bind_ints (car_asking_price r # (case car_deadline_height r of None \<Rightarrow> [] | Some d \<Rightarrow> [d]))) (\<lambda>_.
        check_constraints
          [(car_solution_id r \<in> set (map car_solution_id (campaigns s)),
            ''UNIQUE constraint failed: funding_campaigns.solution_id''),
           (car_id r \<in> set (map car_id (campaigns s)), ''UNIQUE constraint failed: funding_campaigns.id''),
           (car_solution_id r \<notin> set (map sr_id (solutions s)), FK_FAILED)]))
       (\<lambda>s. s\<lparr>campaigns := campaigns s @ [r]\<rparr>) s)"

definition pledge_key :: "pledge_row \<Rightarrow> string \<times> string \<times> int" where
  "pledge_key r = (pr_campaign_id r, pr_txid r, pr_vout r)"

definition add_pledge :: "funding_pledge \<Rightarrow> unit repo" where
  "add_pledge p = (\<lambda>s.
     let r = pledge_to_row p in
     transaction
       (rbind (bind_ints [pr_vout r, pr_value_sats r]) (\<lambda>_.
        check_constraints
          [(pledge_key r \<in> set (map pledge_key (pledges s)),
            ''UNIQUE constraint failed: funding_pledges.campaign_id, funding_pledges.txid, funding_pledges.vout''),
           (pr_id r \<in> set (map pr_id (pledges s)), ''UNIQUE constraint failed: funding_pledges.id''),
           (pr_campaign_id r \<notin> set (map car_id (campaigns s)), FK_FAILED)]))
       (\<lambda>s. s\<lparr>pledges := pledges s @ [r]\<rparr>) s)"

section \<open>Recording votes\<close>

text \<open>\<^verbatim>\<open>sub in s\<close>.\<close>

fun contains :: "string \<Rightarrow> string \<Rightarrow> bool" where
  "contains p [] \<longleftrightarrow> p = []"
| "contains p (c # s) \<longleftrightarrow> starts_with p (c # s) \<or> contains p s"

definition is_duplicate_issue_vote_error :: "string \<Rightarrow> bool" where
  "is_duplicate_issue_vote_error message \<longleftrightarrow>
     contains ''UNIQUE constraint failed'' message \<and> contains ''issue_votes.issue_id'' message \<and>
     contains ''issue_votes.voter_id'' message"

definition is_duplicate_solution_vote_error :: "string \<Rightarrow> bool" where
  "is_duplicate_solution_vote_error message \<longleftrightarrow>
     contains ''UNIQUE constraint failed'' message \<and> contains ''solution_votes.solution_id'' message \<and>
     contains ''solution_votes.voter_id'' message"

definition record_vote :: "(string \<Rightarrow> bool) \<Rightarrow> unit repo \<Rightarrow> vote_record_result repo" where
  "record_vote is_duplicate add =
     scatch (sbind add (\<lambda>_. sreturn CREATED))
       (\<lambda>e. case e of
          IntegrityError message \<Rightarrow>
            if is_duplicate message then Some (sreturn ALREADY_VOTED) else None
        | _ \<Rightarrow> None)"

definition record_issue_vote :: "issue_vote \<Rightarrow> vote_record_result repo" where
  "record_issue_vote v = record_vote is_duplicate_issue_vote_error (add_issue_vote v)"

definition record_solution_vote :: "solution_vote \<Rightarrow> vote_record_result repo" where
  "record_solution_vote v = record_vote is_duplicate_solution_vote_error (add_solution_vote v)"

section \<open>Reads\<close>

text \<open>
  A join with content\_objects drops a row whose description is missing. \<^verbatim>\<open>fetchone\<close> takes the first
  row, \<^verbatim>\<open>fetchall\<close> maps all of them.
\<close>

definition issue_of_row :: "db \<Rightarrow> issue_row \<Rightarrow> issue res option" where
  "issue_of_row s r = map_option (row_to_issue r) (get_content (ir_description_hash r) s)"

definition solution_of_row :: "db \<Rightarrow> solution_row \<Rightarrow> solution res option" where
  "solution_of_row s r = map_option (row_to_solution r) (get_content (sr_description_hash r) s)"

definition fetch_one :: "'m res list \<Rightarrow> 'm option res" where
  "fetch_one rows = (case rows of [] \<Rightarrow> Inr None | r # _ \<Rightarrow> map_sum id Some r)"

definition fetch_all :: "'m res list \<Rightarrow> 'm list res" where
  "fetch_all rows = map_res id rows"

definition get_issue :: "uuid \<Rightarrow> db \<Rightarrow> issue option res" where
  "get_issue i s =
     fetch_one (List.map_filter (issue_of_row s) (filter (\<lambda>r. ir_id r = uuid_str i) (issues s)))"

definition get_all_issues :: "db \<Rightarrow> issue list res" where
  "get_all_issues s =
     fetch_all (List.map_filter (issue_of_row s) (order_by_desc ir_created_at (issues s)))"

definition get_issue_vote :: "uuid \<Rightarrow> db \<Rightarrow> issue_vote option res" where
  "get_issue_vote i s =
     fetch_one (map row_to_issue_vote (filter (\<lambda>r. vr_id r = uuid_str i) (issue_votes s)))"

definition get_all_issue_votes :: "db \<Rightarrow> issue_vote list res" where
  "get_all_issue_votes s =
     fetch_all (map row_to_issue_vote (order_by_desc vr_created_at (issue_votes s)))"

definition get_solution :: "uuid \<Rightarrow> db \<Rightarrow> solution option res" where
  "get_solution i s =
     fetch_one (List.map_filter (solution_of_row s) (filter (\<lambda>r. sr_id r = uuid_str i) (solutions s)))"

definition get_all_solutions :: "db \<Rightarrow> solution list res" where
  "get_all_solutions s =
     fetch_all (List.map_filter (solution_of_row s) (order_by_desc sr_created_at (solutions s)))"

definition get_solutions_for_issue :: "uuid \<Rightarrow> db \<Rightarrow> solution list res" where
  "get_solutions_for_issue i s =
     fetch_all (List.map_filter (solution_of_row s)
       (order_by_desc sr_created_at (filter (\<lambda>r. sr_issue_id r = uuid_str i) (solutions s))))"

definition get_solution_vote :: "uuid \<Rightarrow> db \<Rightarrow> solution_vote option res" where
  "get_solution_vote i s =
     fetch_one (map row_to_solution_vote (filter (\<lambda>r. vr_id r = uuid_str i) (solution_votes s)))"

definition get_all_solution_votes :: "db \<Rightarrow> solution_vote list res" where
  "get_all_solution_votes s =
     fetch_all (map row_to_solution_vote (order_by_desc vr_created_at (solution_votes s)))"

definition get_campaign :: "uuid \<Rightarrow> db \<Rightarrow> funding_campaign option res" where
  "get_campaign i s =
     fetch_one (map row_to_campaign (filter (\<lambda>r. car_id r = uuid_str i) (campaigns s)))"

definition get_campaign_for_solution :: "uuid \<Rightarrow> db \<Rightarrow> funding_campaign option res" where
  "get_campaign_for_solution i s =
     fetch_one (map row_to_campaign (filter (\<lambda>r. car_solution_id r = uuid_str i) (campaigns s)))"

definition get_all_campaigns :: "db \<Rightarrow> funding_campaign list res" where
  "get_all_campaigns s =
     fetch_all (map row_to_campaign (order_by_desc car_created_at (campaigns s)))"

definition get_pledge :: "uuid \<Rightarrow> db \<Rightarrow> funding_pledge option res" where
  "get_pledge i s =
     fetch_one (map row_to_pledge (filter (\<lambda>r. pr_id r = uuid_str i) (pledges s)))"

definition get_pledges_for_campaign :: "uuid \<Rightarrow> db \<Rightarrow> funding_pledge list res" where
  "get_pledges_for_campaign i s =
     fetch_all (map row_to_pledge
       (order_by_asc pr_created_at (filter (\<lambda>r. pr_campaign_id r = uuid_str i) (pledges s))))"

definition get_all_pledges :: "db \<Rightarrow> funding_pledge list res" where
  "get_all_pledges s =
     fetch_all (map row_to_pledge (order_by_desc pr_created_at (pledges s)))"

section \<open>Reads with vote counts\<close>

text \<open>
  The grouped queries count the votes of each row. The order in which SQLite visits the groups is
  not specified; \<open>scan\<close> is that order, any permutation of the rows.
\<close>

definition vote_count :: "string \<Rightarrow> vote_row list \<Rightarrow> nat" where
  "vote_count i votes = length (filter (\<lambda>v. vr_target_id v = i) votes)"

definition with_votes :: "nat \<Rightarrow> 'm res \<Rightarrow> ('m \<times> nat) res" where
  "with_votes n r = map_sum id (\<lambda>m. (m, n)) r"

definition issue_with_votes_of_row :: "db \<Rightarrow> issue_row \<Rightarrow> (issue \<times> nat) res option" where
  "issue_with_votes_of_row s r =
     map_option (with_votes (vote_count (ir_id r) (issue_votes s))) (issue_of_row s r)"

definition solution_with_votes_of_row :: "db \<Rightarrow> solution_row \<Rightarrow> (solution \<times> nat) res option" where
  "solution_with_votes_of_row s r =
     map_option (with_votes (vote_count (sr_id r) (solution_votes s))) (solution_of_row s r)"

definition get_all_issues_with_votes ::
    "(issue_row list \<Rightarrow> issue_row list) \<Rightarrow> db \<Rightarrow> (issue \<times> nat) list res" where
  "get_all_issues_with_votes scan s =
     fetch_all (List.map_filter (issue_with_votes_of_row s)
       (order_by_desc ir_created_at (scan (issues s))))"

definition get_issue_with_votes :: "uuid \<Rightarrow> db \<Rightarrow> (issue \<times> nat) option res" where
  "get_issue_with_votes i s =
     fetch_one (List.map_filter (issue_with_votes_of_row s)
       (filter (\<lambda>r. ir_id r = uuid_str i) (issues s)))"

definition get_all_solutions_with_votes ::
    "(solution_row list \<Rightarrow> solution_row list) \<Rightarrow> db \<Rightarrow> (solution \<times> nat) list res" where
  "get_all_solutions_with_votes scan s =
     fetch_all (List.map_filter (solution_with_votes_of_row s)
       (order_by_desc sr_created_at (scan (solutions s))))"

definition get_solution_with_votes :: "uuid \<Rightarrow> db \<Rightarrow> (solution \<times> nat) option res" where
  "get_solution_with_votes i s =
     fetch_one (List.map_filter (solution_with_votes_of_row s)
       (filter (\<lambda>r. sr_id r = uuid_str i) (solutions s)))"

definition get_solutions_for_issue_with_votes ::
    "(solution_row list \<Rightarrow> solution_row list) \<Rightarrow> uuid \<Rightarrow> db \<Rightarrow> (solution \<times> nat) list res" where
  "get_solutions_for_issue_with_votes scan i s =
     fetch_all (List.map_filter (solution_with_votes_of_row s)
       (order_by_desc sr_created_at
         (scan (filter (\<lambda>r. sr_issue_id r = uuid_str i) (solutions s)))))"

section \<open>Replacing and deleting\<close>

text \<open>The rows that a deletion cascades to.\<close>

definition drop_campaigns :: "(string \<Rightarrow> bool) \<Rightarrow> db \<Rightarrow> db" where
  "drop_campaigns of_solution s =
     (let gone = map car_id (filter (\<lambda>r. of_solution (car_solution_id r)) (campaigns s))
      in s\<lparr>campaigns := filter (\<lambda>r. \<not> of_solution (car_solution_id r)) (campaigns s),
           pledges := filter (\<lambda>r. pr_campaign_id r \<notin> set gone) (pledges s)\<rparr>)"

definition drop_solutions :: "(solution_row \<Rightarrow> bool) \<Rightarrow> db \<Rightarrow> db" where
  "drop_solutions p s =
     (let gone = map sr_id (filter p (solutions s));
          s1 = drop_campaigns (\<lambda>i. i \<in> set gone) s
      in s1\<lparr>solutions := filter (\<lambda>r. \<not> p r) (solutions s1),
            solution_votes := filter (\<lambda>r. vr_target_id r \<notin> set gone) (solution_votes s1)\<rparr>)"

definition delete_issue :: "uuid \<Rightarrow> bool repo" where
  "delete_issue i = (\<lambda>s.
     let k = uuid_str i in
     if k \<in> set (map ir_id (issues s)) then
       (Inr True,
        let s1 = drop_solutions (\<lambda>r. sr_issue_id r = k) s
        in s1\<lparr>issues := filter (\<lambda>r. ir_id r \<noteq> k) (issues s1),
              issue_votes := filter (\<lambda>r. vr_target_id r \<noteq> k) (issue_votes s1)\<rparr>)
     else (Inr False, s))"

definition delete_solution :: "uuid \<Rightarrow> bool repo" where
  "delete_solution i = (\<lambda>s.
     let k = uuid_str i in
     (Inr (k \<in> set (map sr_id (solutions s))), drop_solutions (\<lambda>r. sr_id r = k) s))"

text \<open>
  An update of the key conflicts with another row that has it, and with rows that refer to the
  old key.
\<close>

definition replace_issue :: "string \<Rightarrow> uuid \<Rightarrow> issue \<Rightarrow> bool repo" where
  "replace_issue now i x = (\<lambda>s.
     let k = uuid_str i; r = issue_to_row x; found = k \<in> set (map ir_id (issues s)) in
     case check_constraints
            [(found \<and> ir_id r \<noteq> k \<and> ir_id r \<in> set (map ir_id (issues s)),
              ''UNIQUE constraint failed: issues.id''),
             (found \<and> ir_id r \<noteq> k \<and>
               (k \<in> set (map vr_target_id (issue_votes s)) \<or> k \<in> set (map sr_issue_id (solutions s))),
              FK_FAILED)] of
       Inl e \<Rightarrow> (Inl e, s)
     | Inr _ \<Rightarrow>
         (Inr found,
          let s1 = store_text_content now (iss_description x) s
          in s1\<lparr>issues := map (\<lambda>q. if ir_id q = k then r else q) (issues s1)\<rparr>))"

definition replace_solution :: "string \<Rightarrow> uuid \<Rightarrow> solution \<Rightarrow> bool repo" where
  "replace_solution now i x = (\<lambda>s.
     let k = uuid_str i; r = solution_to_row x; found = k \<in> set (map sr_id (solutions s)) in
     case check_constraints
            [(found \<and> sr_id r \<noteq> k \<and> sr_id r \<in> set (map sr_id (solutions s)),
              ''UNIQUE constraint failed: solutions.id''),
             (found \<and> (sr_issue_id r \<notin> set (map ir_id (issues s)) \<or>
                sr_id r \<noteq> k \<and> (k \<in> set (map vr_target_id (solution_votes s)) \<or>
                               k \<in> set (map car_solution_id (campaigns s)))),
              FK_FAILED)] of
       Inl e \<Rightarrow> (Inl e, s)
     | Inr _ \<Rightarrow>
         (Inr found,
          let s1 = store_text_content now (sol_description x) s
          in s1\<lparr>solutions := map (\<lambda>q. if sr_id q = k then r else q) (solutions s1)\<rparr>))"

end
