(* ===== verification/Repository_Inv.thy ===== *)
theory Repository_Inv
  imports Repository "HOL-Library.Multiset"
begin

text \<open>
  The invariant of the repository and its preservation by every write: rows convert back to
  models, keys and the unique columns have no duplicates, foreign keys resolve, and every stored
  text is under its own hash. The contract that the replication layer relies on is the locale
  \<open>object_store\<close>, interpreted on the six tables in the theory Replication.
\<close>

section \<open>Tables as keyed collections of models\<close>

text \<open>Every row converts to a model whose id is its key, and keys are distinct.\<close>

definition table_ok :: "('r \<Rightarrow> 'm res option) \<Rightarrow> ('r \<Rightarrow> string) \<Rightarrow> ('m \<Rightarrow> uuid) \<Rightarrow> 'r list \<Rightarrow> bool" where
  "table_ok f key oid rows \<longleftrightarrow>
     distinct (map key rows) \<and> (\<forall>r \<in> set rows. \<exists>m. f r = Some (Inr m) \<and> key r = uuid_str (oid m))"

definition lookup_row :: "('r \<Rightarrow> 'm res option) \<Rightarrow> ('r \<Rightarrow> string) \<Rightarrow> string \<Rightarrow> 'r list \<Rightarrow> 'm option res" where
  "lookup_row f key k rows = fetch_one (List.map_filter f (filter (\<lambda>r. key r = k) rows))"

lemma map_filter_Some [simp]: "List.map_filter (\<lambda>r. Some (g r)) xs = map g xs"
  by (induction xs) (auto simp: List.map_filter_simps)

lemma gets_as_lookup:
  "get_issue i s = lookup_row (issue_of_row s) ir_id (uuid_str i) (issues s)"
  "get_issue_vote i s = lookup_row (\<lambda>r. Some (row_to_issue_vote r)) vr_id (uuid_str i) (issue_votes s)"
  "get_solution i s = lookup_row (solution_of_row s) sr_id (uuid_str i) (solutions s)"
  "get_solution_vote i s = lookup_row (\<lambda>r. Some (row_to_solution_vote r)) vr_id (uuid_str i) (solution_votes s)"
  "get_campaign i s = lookup_row (\<lambda>r. Some (row_to_campaign r)) car_id (uuid_str i) (campaigns s)"
  "get_pledge i s = lookup_row (\<lambda>r. Some (row_to_pledge r)) pr_id (uuid_str i) (pledges s)"
  by (simp_all add: lookup_row_def get_issue_def get_issue_vote_def get_solution_def
      get_solution_vote_def get_campaign_def get_pledge_def)

lemma fetch_one_Cons [simp]: "fetch_one (Inr m # rows) = Inr (Some m)"
  and fetch_one_Nil [simp]: "fetch_one [] = Inr None"
  by (simp_all add: fetch_one_def)

lemma filter_key_singleton:
  "distinct (map key rows) \<Longrightarrow> r \<in> set rows \<Longrightarrow> filter (\<lambda>x. key x = key r) rows = [r]"
proof (induction rows)
  case (Cons a rows)
  then show ?case
  proof (cases "a = r")
    case True
    then have "key r \<notin> key ` set rows" using Cons.prems by simp
    then have "\<forall>x \<in> set rows. key x \<noteq> key r" by (metis imageI)
    then have "filter (\<lambda>x. key x = key r) rows = []" by (simp add: filter_empty_conv)
    with True show ?thesis by simp
  next
    case False
    then have "key a \<noteq> key r" using Cons.prems by (auto simp: image_iff)
    with False Cons show ?thesis by auto
  qed
qed simp

lemma lookup_row_absent: "k \<notin> key ` set rows \<Longrightarrow> lookup_row f key k rows = Inr None"
proof -
  assume "k \<notin> key ` set rows"
  then have "filter (\<lambda>r. key r = k) rows = []" by (auto simp: filter_empty_conv)
  then show ?thesis by (simp add: lookup_row_def List.map_filter_simps)
qed

lemma lookup_row_present:
  "table_ok f key oid rows \<Longrightarrow> r \<in> set rows \<Longrightarrow> f r = Some (Inr m) \<Longrightarrow>
     lookup_row f key (key r) rows = Inr (Some m)"
  by (simp add: lookup_row_def table_ok_def filter_key_singleton List.map_filter_simps)

lemma lookup_row_Some_iff:
  assumes "table_ok f key oid rows"
  shows "lookup_row f key k rows = Inr (Some m) \<longleftrightarrow> (\<exists>r \<in> set rows. key r = k \<and> f r = Some (Inr m))"
proof
  assume l: "lookup_row f key k rows = Inr (Some m)"
  then obtain r where r: "r \<in> set rows" "key r = k"
    using lookup_row_absent [of k key rows f] by (cases "k \<in> key ` set rows") auto
  with assms obtain m' where "f r = Some (Inr m')" by (auto simp: table_ok_def)
  with lookup_row_present [OF assms r(1) this] r l show "\<exists>r \<in> set rows. key r = k \<and> f r = Some (Inr m)"
    by auto
next
  assume "\<exists>r \<in> set rows. key r = k \<and> f r = Some (Inr m)"
  then show "lookup_row f key k rows = Inr (Some m)" using lookup_row_present [OF assms] by auto
qed

lemma lookup_row_None_iff:
  assumes "table_ok f key oid rows"
  shows "lookup_row f key k rows = Inr None \<longleftrightarrow> k \<notin> key ` set rows"
proof
  assume l: "lookup_row f key k rows = Inr None"
  show "k \<notin> key ` set rows"
  proof
    assume "k \<in> key ` set rows"
    then obtain r m where "r \<in> set rows" "key r = k" "f r = Some (Inr m)"
      using assms by (auto simp: table_ok_def)
    with lookup_row_present [OF assms] l show False by fastforce
  qed
qed (rule lookup_row_absent)

lemma lookup_row_total:
  assumes "table_ok f key oid rows" shows "\<exists>x. lookup_row f key k rows = Inr x"
proof (cases "k \<in> key ` set rows")
  case True
  then obtain r m where "r \<in> set rows" "k = key r" "f r = Some (Inr m)"
    using assms by (auto simp: table_ok_def)
  with lookup_row_present [OF assms] show ?thesis by blast
qed (auto simp: lookup_row_absent)

lemma lookup_row_id:
  assumes "table_ok f key oid rows" "lookup_row f key (uuid_str i) rows = Inr (Some m)"
  shows "oid m = i"
proof -
  obtain r where r: "r \<in> set rows" "key r = uuid_str i" "f r = Some (Inr m)"
    using assms by (auto simp: lookup_row_Some_iff)
  then obtain m' where "f r = Some (Inr m')" "key r = uuid_str (oid m')"
    using assms(1) unfolding table_ok_def by blast
  with r show ?thesis by (simp add: uuid_str_inj)
qed

text \<open>A conversion that agrees on the old rows keeps the table; a new row joins it.\<close>

lemma table_ok_cong:
  "table_ok f key oid rows \<Longrightarrow> (\<And>r. r \<in> set rows \<Longrightarrow> f r = g r) \<Longrightarrow> table_ok g key oid rows"
  by (auto simp: table_ok_def)

lemma table_ok_mono:
  "table_ok f key oid rows \<Longrightarrow> (\<And>r x. f r = Some x \<Longrightarrow> g r = Some x) \<Longrightarrow> table_ok g key oid rows"
  unfolding table_ok_def by blast

lemma table_ok_snoc:
  assumes "table_ok f key oid rows" "key r \<notin> key ` set rows" "f r = Some (Inr m)" "key r = uuid_str (oid m)"
  shows "table_ok f key oid (rows @ [r])"
  using assms by (auto simp: table_ok_def)

lemma table_ok_filter: "table_ok f key oid rows \<Longrightarrow> table_ok f key oid (filter p rows)"
  by (auto simp: table_ok_def distinct_map_filter)

lemma lookup_row_snoc_other:
  "k \<noteq> key r \<Longrightarrow> lookup_row f key k (rows @ [r]) = lookup_row f key k rows"
  by (simp add: lookup_row_def)

lemma lookup_row_cong:
  "(\<And>r. r \<in> set rows \<Longrightarrow> f r = g r) \<Longrightarrow> lookup_row f key k rows = lookup_row g key k rows"
proof -
  assume "\<And>r. r \<in> set rows \<Longrightarrow> f r = g r"
  then have "List.map_filter f (filter (\<lambda>r. key r = k) rows) = List.map_filter g (filter (\<lambda>r. key r = k) rows)"
    by (induction rows) (auto simp: List.map_filter_simps split: option.splits)
  then show ?thesis by (simp add: lookup_row_def)
qed

text \<open>\<^verbatim>\<open>fetchall\<close> returns every model once.\<close>

lemma set_order_by_desc [simp]: "set (order_by_desc c rows) = set rows"
  by (simp add: order_by_desc_def)

lemma mset_order_by_desc [simp]: "mset (order_by_desc c rows) = mset rows"
  by (simp add: order_by_desc_def)

lemma fetch_all_table:
  assumes "table_ok f key oid rows"
  shows "\<exists>ms. fetch_all (List.map_filter f (order_by_desc c rows)) = Inr ms \<and> distinct (map oid ms) \<and>
           (\<forall>m. m \<in> set ms \<longleftrightarrow> (\<exists>r \<in> set rows. f r = Some (Inr m)))"
proof -
  let ?rs = "order_by_desc c rows"
  define g where "g r = projr (the (f r))" for r
  have g: "f r = Some (Inr (g r)) \<and> key r = uuid_str (oid (g r))" if "r \<in> set rows" for r
    using assms that by (fastforce simp: table_ok_def g_def)
  have mf: "List.map_filter f rs = map (\<lambda>r. Inr (g r)) rs" if "set rs \<subseteq> set rows" for rs
    using that g by (induction rs) (auto simp: List.map_filter_simps)
  have "map_res id (map (\<lambda>r. Inr (g r)) rs) = Inr (map g rs)" for rs
    by (induction rs) auto
  then have "fetch_all (List.map_filter f ?rs) = Inr (map g ?rs)"
    unfolding fetch_all_def by (subst mf) simp_all
  moreover have "distinct (map oid (map g ?rs))"
  proof -
    have "mset (map key ?rs) = mset (map key rows)" by simp
    then have "distinct (map key ?rs)"
      using assms by (simp only: table_ok_def mset_eq_imp_distinct_iff [of "map key ?rs" "map key rows"])
    moreover have "map key ?rs = map uuid_str (map oid (map g ?rs))" using g by simp
    ultimately show ?thesis by (simp only: distinct_map)
  qed
  moreover have "m \<in> set (map g ?rs) \<longleftrightarrow> (\<exists>r \<in> set rows. f r = Some (Inr m))" for m
    using g by force
  ultimately show ?thesis by blast
qed

section \<open>The invariant\<close>

definition contents_ok :: "db \<Rightarrow> bool" where
  "contents_ok s \<longleftrightarrow> distinct (map cr_hash (contents s)) \<and>
     (\<forall>r \<in> set (contents s). cr_hash r = compute_content_hash (utf8 (cr_text_content r)) \<and>
        cr_size_bytes r = length (utf8 (cr_text_content r)))"

definition rows_ok :: "db \<Rightarrow> bool" where
  "rows_ok s \<longleftrightarrow>
     table_ok (issue_of_row s) ir_id iss_id (issues s) \<and>
     table_ok (\<lambda>r. Some (row_to_issue_vote r)) vr_id iv_id (issue_votes s) \<and>
     table_ok (solution_of_row s) sr_id sol_id (solutions s) \<and>
     table_ok (\<lambda>r. Some (row_to_solution_vote r)) vr_id sv_id (solution_votes s) \<and>
     table_ok (\<lambda>r. Some (row_to_campaign r)) car_id camp_id (campaigns s) \<and>
     table_ok (\<lambda>r. Some (row_to_pledge r)) pr_id pl_id (pledges s)"

definition vote_pair :: "vote_row \<Rightarrow> string \<times> string" where
  "vote_pair r = (vr_target_id r, vr_voter_id r)"

definition unique_ok :: "db \<Rightarrow> bool" where
  "unique_ok s \<longleftrightarrow> distinct (map vote_pair (issue_votes s)) \<and> distinct (map vote_pair (solution_votes s)) \<and>
     distinct (map car_solution_id (campaigns s)) \<and> distinct (map pledge_key (pledges s))"

definition refs_ok :: "db \<Rightarrow> bool" where
  "refs_ok s \<longleftrightarrow>
     vr_target_id ` set (issue_votes s) \<subseteq> ir_id ` set (issues s) \<and>
     sr_issue_id ` set (solutions s) \<subseteq> ir_id ` set (issues s) \<and>
     vr_target_id ` set (solution_votes s) \<subseteq> sr_id ` set (solutions s) \<and>
     car_solution_id ` set (campaigns s) \<subseteq> sr_id ` set (solutions s) \<and>
     pr_campaign_id ` set (pledges s) \<subseteq> car_id ` set (campaigns s)"

definition db_ok :: "db \<Rightarrow> bool" where
  "db_ok s \<longleftrightarrow> contents_ok s \<and> rows_ok s \<and> unique_ok s \<and> refs_ok s"

lemmas db_ok_parts = db_ok_def contents_ok_def rows_ok_def unique_ok_def refs_ok_def

lemma db_ok_empty: "db_ok empty_db"
  by (simp add: db_ok_parts table_ok_def empty_db_def)

section \<open>Contents\<close>

lemma get_content_Some_iff:
  "distinct (map cr_hash (contents s)) \<Longrightarrow>
     get_content h s = Some t \<longleftrightarrow> (\<exists>r \<in> set (contents s). cr_hash r = h \<and> cr_text_content r = t)"
proof -
  have "distinct (map cr_hash cs) \<Longrightarrow>
      map_option cr_text_content (find (\<lambda>r. cr_hash r = h) cs) = Some t \<longleftrightarrow>
      (\<exists>r \<in> set cs. cr_hash r = h \<and> cr_text_content r = t)" for cs
  proof (induction cs)
    case (Cons a cs)
    then show ?case by (cases "cr_hash a = h") (auto intro: rev_image_eqI)
  qed simp
  then show "distinct (map cr_hash (contents s)) \<Longrightarrow> ?thesis" by (simp add: get_content_def)
qed

lemma contents_ok_hash:
  "contents_ok s \<Longrightarrow> get_content h s = Some t \<Longrightarrow> compute_content_hash (utf8 t) = h"
  by (auto simp: contents_ok_def get_content_Some_iff)

lemma get_content_None_iff: "get_content h s = None \<longleftrightarrow> h \<notin> set (map cr_hash (contents s))"
  by (auto simp: get_content_def find_None_iff)

lemma find_snoc: "find p (xs @ [x]) = (case find p xs of None \<Rightarrow> if p x then Some x else None | r \<Rightarrow> r)"
  by (induction xs) auto

text \<open>Storing a text keeps every other text.\<close>

lemma get_content_store_keep:
  "get_content h s = Some t \<Longrightarrow> get_content h (store_text_content now u s) = Some t"
  by (auto simp: store_text_content_def get_content_def Let_def find_snoc split: option.splits)

text \<open>No other text with the same SHA-256 digest is stored.\<close>

definition no_collision :: "string \<Rightarrow> db \<Rightarrow> bool" where
  "no_collision t s \<longleftrightarrow> get_content (compute_content_hash (utf8 t)) s \<in> {None, Some t}"

lemma get_content_store_new:
  "no_collision t s \<Longrightarrow> get_content (compute_content_hash (utf8 t)) (store_text_content now t s) = Some t"
proof (cases "get_content (compute_content_hash (utf8 t)) s")
  case None
  then show ?thesis
    by (auto simp: store_text_content_def Let_def get_content_None_iff [symmetric] get_content_def
        find_snoc simp del: set_map list.set_map)
next
  case (Some u)
  then show "no_collision t s \<Longrightarrow> ?thesis" by (auto simp: no_collision_def intro: get_content_store_keep)
qed

lemma store_text_content_tables [simp]:
  "issues (store_text_content now t s) = issues s"
  "issue_votes (store_text_content now t s) = issue_votes s"
  "solutions (store_text_content now t s) = solutions s"
  "solution_votes (store_text_content now t s) = solution_votes s"
  "campaigns (store_text_content now t s) = campaigns s"
  "pledges (store_text_content now t s) = pledges s"
  by (simp_all add: store_text_content_def Let_def)

lemma contents_ok_store: "contents_ok s \<Longrightarrow> contents_ok (store_text_content now t s)"
  by (auto simp: contents_ok_def store_text_content_def Let_def)

text \<open>Conversions only look at the contents.\<close>

lemma of_row_contents_cong:
  "contents s' = contents s \<Longrightarrow> issue_of_row s' = issue_of_row s \<and> solution_of_row s' = solution_of_row s"
  by (simp add: issue_of_row_def solution_of_row_def get_content_def fun_eq_iff)

lemma issue_of_row_store:
  "issue_of_row s r = Some x \<Longrightarrow> issue_of_row (store_text_content now t s) r = Some x"
  by (auto simp: issue_of_row_def dest: get_content_store_keep)

lemma solution_of_row_store:
  "solution_of_row s r = Some x \<Longrightarrow> solution_of_row (store_text_content now t s) r = Some x"
  by (auto simp: solution_of_row_def dest: get_content_store_keep)

lemma table_ok_issue_store:
  "table_ok (issue_of_row s) k oid rows \<Longrightarrow> table_ok (issue_of_row (store_text_content now t s)) k oid rows"
  by (erule table_ok_mono) (rule issue_of_row_store)

lemma table_ok_solution_store:
  "table_ok (solution_of_row s) k oid rows \<Longrightarrow> table_ok (solution_of_row (store_text_content now t s)) k oid rows"
  by (erule table_ok_mono) (rule solution_of_row_store)

lemma db_ok_store: "db_ok s \<Longrightarrow> db_ok (store_text_content now t s)"
  by (simp add: db_ok_def contents_ok_store rows_ok_def unique_ok_def refs_ok_def
      table_ok_issue_store table_ok_solution_store)

section \<open>Models that can be stored\<close>

definition issue_adm :: "issue \<Rightarrow> db \<Rightarrow> bool" where
  "issue_adm i s \<longleftrightarrow> valid_timestamp (iss_created_at i) \<and> no_collision (iss_description i) s"

definition solution_adm :: "solution \<Rightarrow> db \<Rightarrow> bool" where
  "solution_adm x s \<longleftrightarrow> valid_timestamp (sol_created_at x) \<and> no_collision (sol_description x) s"

definition issue_vote_adm :: "issue_vote \<Rightarrow> db \<Rightarrow> bool" where
  "issue_vote_adm v s \<longleftrightarrow> valid_timestamp (iv_created_at v)"

definition solution_vote_adm :: "solution_vote \<Rightarrow> db \<Rightarrow> bool" where
  "solution_vote_adm v s \<longleftrightarrow> valid_timestamp (sv_created_at v)"

definition campaign_adm :: "funding_campaign \<Rightarrow> db \<Rightarrow> bool" where
  "campaign_adm c s \<longleftrightarrow> valid_timestamp (camp_created_at c) \<and> campaign_ok c"

definition pledge_adm :: "funding_pledge \<Rightarrow> db \<Rightarrow> bool" where
  "pledge_adm p s \<longleftrightarrow> valid_timestamp (pl_created_at p) \<and> pledge_ok p"

lemmas adm_defs = issue_adm_def solution_adm_def issue_vote_adm_def solution_vote_adm_def
  campaign_adm_def pledge_adm_def

text \<open>A row converts back to the model it was made from.\<close>

lemma record_surjective [simp]:
  "\<lparr>camp_id = camp_id c, camp_solution_id = camp_solution_id c, camp_solution_hash = camp_solution_hash c,
    camp_payout_address = camp_payout_address c, camp_asking_price = camp_asking_price c,
    camp_deadline = camp_deadline c, camp_created_at = camp_created_at c\<rparr> = c"
  "\<lparr>pl_id = pl_id p, pl_campaign_id = pl_campaign_id p, pl_pledger_id = pl_pledger_id p,
    pl_txid = pl_txid p, pl_vout = pl_vout p, pl_value_sats = pl_value_sats p,
    pl_signed_psbt = pl_signed_psbt p, pl_created_at = pl_created_at p\<rparr> = p"
  by (cases c, simp, cases p, simp)

lemma row_round_trips:
  "valid_timestamp (iss_created_at i) \<Longrightarrow> row_to_issue (issue_to_row i) (iss_description i) = Inr i"
  "valid_timestamp (sol_created_at x) \<Longrightarrow> row_to_solution (solution_to_row x) (sol_description x) = Inr x"
  "valid_timestamp (iv_created_at v) \<Longrightarrow> row_to_issue_vote (issue_vote_to_row v) = Inr v"
  "valid_timestamp (sv_created_at w) \<Longrightarrow> row_to_solution_vote (solution_vote_to_row w) = Inr w"
  "valid_timestamp (camp_created_at c) \<Longrightarrow> campaign_ok c \<Longrightarrow> row_to_campaign (campaign_to_row c) = Inr c"
  "valid_timestamp (pl_created_at p) \<Longrightarrow> pledge_ok p \<Longrightarrow> row_to_pledge (pledge_to_row p) = Inr p"
  by (simp_all add: row_to_issue_def issue_to_row_def row_to_solution_def solution_to_row_def
      row_to_issue_vote_def issue_vote_to_row_def row_to_solution_vote_def solution_vote_to_row_def
      row_to_campaign_def campaign_to_row_def row_to_pledge_def pledge_to_row_def
      datetime_storage_round_trip campaign_post_init_ok pledge_post_init_ok)

lemma row_keys [simp]:
  "ir_id (issue_to_row i) = uuid_str (iss_id i)"
  "sr_id (solution_to_row x) = uuid_str (sol_id x)"
  "sr_issue_id (solution_to_row x) = uuid_str (sol_issue_id x)"
  "vr_id (issue_vote_to_row v) = uuid_str (iv_id v)"
  "vr_id (solution_vote_to_row w) = uuid_str (sv_id w)"
  "car_id (campaign_to_row c) = uuid_str (camp_id c)"
  "car_solution_id (campaign_to_row c) = uuid_str (camp_solution_id c)"
  "pr_id (pledge_to_row p) = uuid_str (pl_id p)"
  "pr_campaign_id (pledge_to_row p) = uuid_str (pl_campaign_id p)"
  by (simp_all add: issue_to_row_def solution_to_row_def issue_vote_to_row_def
      solution_vote_to_row_def campaign_to_row_def pledge_to_row_def)

lemma issue_of_row_new:
  "issue_adm i s \<Longrightarrow> issue_of_row (store_text_content now (iss_description i) s) (issue_to_row i) = Some (Inr i)"
  by (simp add: issue_adm_def issue_of_row_def issue_to_row_def get_content_store_new
      row_round_trips(1) [unfolded issue_to_row_def])

lemma solution_of_row_new:
  "solution_adm x s \<Longrightarrow>
     solution_of_row (store_text_content now (sol_description x) s) (solution_to_row x) = Some (Inr x)"
  by (simp add: solution_adm_def solution_of_row_def solution_to_row_def get_content_store_new
      row_round_trips(2) [unfolded solution_to_row_def])

section \<open>What a write does\<close>

lemma transaction_iff:
  "transaction r upd s = (Inr u, s') \<longleftrightarrow> r = Inr () \<and> s' = upd s"
  "transaction r upd s = (Inl e, s') \<longleftrightarrow> r = Inl e \<and> s' = s"
  by (auto simp: transaction_def split: sum.splits)

lemma check_constraints_Inr_iff: "check_constraints cs = Inr u \<longleftrightarrow> (\<forall>c \<in> set cs. \<not> fst c)"
  by (induction cs rule: check_constraints.induct) auto

lemma check_constraints_Inl: "check_constraints cs = Inl e \<Longrightarrow> \<exists>m. e = IntegrityError m"
  by (induction cs rule: check_constraints.induct) (auto split: if_splits)

text \<open>A write that raises changes nothing.\<close>

lemma add_error:
  "add_issue now i s = (Inl e, s') \<Longrightarrow> s' = s"
  "add_issue_vote v s = (Inl e, s') \<Longrightarrow> s' = s"
  "add_solution now x s = (Inl e, s') \<Longrightarrow> s' = s"
  "add_solution_vote w s = (Inl e, s') \<Longrightarrow> s' = s"
  "add_campaign c s = (Inl e, s') \<Longrightarrow> s' = s"
  "add_pledge p s = (Inl e, s') \<Longrightarrow> s' = s"
  by (auto simp: add_issue_def add_issue_vote_def add_solution_def add_solution_vote_def
      add_campaign_def add_pledge_def Let_def transaction_iff)

lemma add_issue_Inr_iff:
  "add_issue now i s = (Inr u, s') \<longleftrightarrow>
     uuid_str (iss_id i) \<notin> ir_id ` set (issues s) \<and>
     s' = (store_text_content now (iss_description i) s)\<lparr>issues := issues s @ [issue_to_row i]\<rparr>"
  by (auto simp: add_issue_def transaction_iff check_constraints_Inr_iff Let_def)

lemma add_issue_vote_Inr_iff:
  "add_issue_vote v s = (Inr u, s') \<longleftrightarrow>
     vote_pair (issue_vote_to_row v) \<notin> vote_pair ` set (issue_votes s) \<and>
     uuid_str (iv_id v) \<notin> vr_id ` set (issue_votes s) \<and>
     vr_target_id (issue_vote_to_row v) \<in> ir_id ` set (issues s) \<and>
     s' = s\<lparr>issue_votes := issue_votes s @ [issue_vote_to_row v]\<rparr>"
  by (auto simp: add_issue_vote_def transaction_iff check_constraints_Inr_iff Let_def vote_pair_def)

lemma add_solution_Inr_iff:
  "add_solution now x s = (Inr u, s') \<longleftrightarrow>
     uuid_str (sol_id x) \<notin> sr_id ` set (solutions s) \<and>
     uuid_str (sol_issue_id x) \<in> ir_id ` set (issues s) \<and>
     s' = (store_text_content now (sol_description x) s)\<lparr>solutions := solutions s @ [solution_to_row x]\<rparr>"
  by (auto simp: add_solution_def transaction_iff check_constraints_Inr_iff Let_def)

lemma add_solution_vote_Inr_iff:
  "add_solution_vote v s = (Inr u, s') \<longleftrightarrow>
     vote_pair (solution_vote_to_row v) \<notin> vote_pair ` set (solution_votes s) \<and>
     uuid_str (sv_id v) \<notin> vr_id ` set (solution_votes s) \<and>
     vr_target_id (solution_vote_to_row v) \<in> sr_id ` set (solutions s) \<and>
     s' = s\<lparr>solution_votes := solution_votes s @ [solution_vote_to_row v]\<rparr>"
  by (auto simp: add_solution_vote_def transaction_iff check_constraints_Inr_iff Let_def vote_pair_def)

lemma add_campaign_Inr:
  "add_campaign c s = (Inr u, s') \<Longrightarrow>
     uuid_str (camp_solution_id c) \<notin> car_solution_id ` set (campaigns s) \<and>
     uuid_str (camp_id c) \<notin> car_id ` set (campaigns s) \<and>
     uuid_str (camp_solution_id c) \<in> sr_id ` set (solutions s) \<and>
     s' = s\<lparr>campaigns := campaigns s @ [campaign_to_row c]\<rparr>"
  by (auto simp: add_campaign_def transaction_iff check_constraints_Inr_iff Let_def res_simps
      simp del: check_constraints.simps)

lemma add_pledge_Inr:
  "add_pledge p s = (Inr u, s') \<Longrightarrow>
     pledge_key (pledge_to_row p) \<notin> pledge_key ` set (pledges s) \<and>
     uuid_str (pl_id p) \<notin> pr_id ` set (pledges s) \<and>
     uuid_str (pl_campaign_id p) \<in> car_id ` set (campaigns s) \<and>
     s' = s\<lparr>pledges := pledges s @ [pledge_to_row p]\<rparr>"
  by (auto simp: add_pledge_def transaction_iff check_constraints_Inr_iff Let_def res_simps
      simp del: check_constraints.simps)

section \<open>Every write keeps the invariant\<close>

lemma of_row_update [simp]:
  "issue_of_row (s\<lparr>issues := a\<rparr>) = issue_of_row s" "solution_of_row (s\<lparr>issues := a\<rparr>) = solution_of_row s"
  "issue_of_row (s\<lparr>issue_votes := b\<rparr>) = issue_of_row s" "solution_of_row (s\<lparr>issue_votes := b\<rparr>) = solution_of_row s"
  "issue_of_row (s\<lparr>solutions := c\<rparr>) = issue_of_row s" "solution_of_row (s\<lparr>solutions := c\<rparr>) = solution_of_row s"
  "issue_of_row (s\<lparr>solution_votes := b\<rparr>) = issue_of_row s" "solution_of_row (s\<lparr>solution_votes := b\<rparr>) = solution_of_row s"
  "issue_of_row (s\<lparr>campaigns := d\<rparr>) = issue_of_row s" "solution_of_row (s\<lparr>campaigns := d\<rparr>) = solution_of_row s"
  "issue_of_row (s\<lparr>pledges := e\<rparr>) = issue_of_row s" "solution_of_row (s\<lparr>pledges := e\<rparr>) = solution_of_row s"
  by (simp_all add: issue_of_row_def solution_of_row_def get_content_def fun_eq_iff)

lemma add_issue_db_ok:
  assumes "db_ok s" "issue_adm i s" "add_issue now i s = (Inr u, s')"
  shows "db_ok s'"
proof -
  let ?s1 = "store_text_content now (iss_description i) s"
  have ok: "db_ok ?s1" using assms(1) by (rule db_ok_store)
  have new: "uuid_str (iss_id i) \<notin> ir_id ` set (issues ?s1)"
    and s': "s' = ?s1\<lparr>issues := issues ?s1 @ [issue_to_row i]\<rparr>"
    using assms(3) by (auto simp: add_issue_Inr_iff)
  have "table_ok (issue_of_row ?s1) ir_id iss_id (issues ?s1 @ [issue_to_row i])"
    using ok new issue_of_row_new [OF assms(2)] by (intro table_ok_snoc) (auto simp: db_ok_parts)
  with ok show ?thesis unfolding s' by (auto simp: db_ok_parts)
qed

lemma add_solution_db_ok:
  assumes "db_ok s" "solution_adm x s" "add_solution now x s = (Inr u, s')"
  shows "db_ok s'"
proof -
  let ?s1 = "store_text_content now (sol_description x) s"
  have ok: "db_ok ?s1" using assms(1) by (rule db_ok_store)
  have new: "uuid_str (sol_id x) \<notin> sr_id ` set (solutions ?s1)"
      "uuid_str (sol_issue_id x) \<in> ir_id ` set (issues ?s1)"
    and s': "s' = ?s1\<lparr>solutions := solutions ?s1 @ [solution_to_row x]\<rparr>"
    using assms(3) by (auto simp: add_solution_Inr_iff)
  have "table_ok (solution_of_row ?s1) sr_id sol_id (solutions ?s1 @ [solution_to_row x])"
    using ok new solution_of_row_new [OF assms(2)] by (intro table_ok_snoc) (auto simp: db_ok_parts)
  with ok new(2) show ?thesis unfolding s' by (auto simp: db_ok_parts)
qed

lemma add_issue_vote_db_ok:
  assumes "db_ok s" "issue_vote_adm v s" "add_issue_vote v s = (Inr u, s')"
  shows "db_ok s'"
proof -
  let ?r = "issue_vote_to_row v"
  have "table_ok (\<lambda>r. Some (row_to_issue_vote r)) vr_id iv_id (issue_votes s @ [?r])"
    using assms row_round_trips(3) [of v]
    by (intro table_ok_snoc) (auto simp: db_ok_parts add_issue_vote_Inr_iff issue_vote_adm_def)
  with assms(1,3) show ?thesis by (auto simp: db_ok_parts add_issue_vote_Inr_iff)
qed

lemma add_solution_vote_db_ok:
  assumes "db_ok s" "solution_vote_adm v s" "add_solution_vote v s = (Inr u, s')"
  shows "db_ok s'"
proof -
  let ?r = "solution_vote_to_row v"
  have "table_ok (\<lambda>r. Some (row_to_solution_vote r)) vr_id sv_id (solution_votes s @ [?r])"
    using assms row_round_trips(4) [of v]
    by (intro table_ok_snoc) (auto simp: db_ok_parts add_solution_vote_Inr_iff solution_vote_adm_def)
  with assms(1,3) show ?thesis by (auto simp: db_ok_parts add_solution_vote_Inr_iff)
qed

lemma add_campaign_db_ok:
  assumes "db_ok s" "campaign_adm c s" "add_campaign c s = (Inr u, s')"
  shows "db_ok s'"
proof -
  note i = add_campaign_Inr [OF assms(3)]
  have "table_ok (\<lambda>r. Some (row_to_campaign r)) car_id camp_id (campaigns s @ [campaign_to_row c])"
    using assms i row_round_trips(5) [of c]
    by (intro table_ok_snoc) (auto simp: db_ok_parts campaign_adm_def)
  with assms(1) i show ?thesis by (auto simp: db_ok_parts)
qed

lemma add_pledge_db_ok:
  assumes "db_ok s" "pledge_adm p s" "add_pledge p s = (Inr u, s')"
  shows "db_ok s'"
proof -
  note i = add_pledge_Inr [OF assms(3)]
  have "table_ok (\<lambda>r. Some (row_to_pledge r)) pr_id pl_id (pledges s @ [pledge_to_row p])"
    using assms i row_round_trips(6) [of p]
    by (intro table_ok_snoc) (auto simp: db_ok_parts pledge_adm_def)
  with assms(1) i show ?thesis by (auto simp: db_ok_parts)
qed

lemmas add_db_ok = add_issue_db_ok add_solution_db_ok add_issue_vote_db_ok add_solution_vote_db_ok
  add_campaign_db_ok add_pledge_db_ok

text \<open>Recording a vote is adding it, with the duplicate turned into a result.\<close>

lemma record_vote_cases:
  assumes "record_vote dup add s = (r, s')"
  shows "(\<exists>u. add s = (Inr u, s') \<and> r = Inr CREATED) \<or>
         (\<exists>m. add s = (Inl (IntegrityError m), s') \<and> dup m \<and> r = Inr ALREADY_VOTED) \<or>
         (\<exists>e. add s = (Inl e, s') \<and> r = Inl e)"
  using assms
  by (auto simp: record_vote_def scatch_def sbind_def split: prod.splits sum.splits option.splits
      py_exn.splits if_splits)

lemma record_issue_vote_db_ok:
  "db_ok s \<Longrightarrow> issue_vote_adm v s \<Longrightarrow> record_issue_vote v s = (r, s') \<Longrightarrow> db_ok s'"
  unfolding record_issue_vote_def
  by (drule record_vote_cases) (metis add_error(2) add_issue_vote_db_ok)

lemma record_solution_vote_db_ok:
  "db_ok s \<Longrightarrow> solution_vote_adm v s \<Longrightarrow> record_solution_vote v s = (r, s') \<Longrightarrow> db_ok s'"
  unfolding record_solution_vote_def
  by (drule record_vote_cases) (metis add_error(4) add_solution_vote_db_ok)

section \<open>Deletions and replacements keep the invariant\<close>

lemma map_replace_absent: "k \<notin> key ` set rows \<Longrightarrow> map (\<lambda>q. if key q = k then r else q) rows = rows"
  by (rule map_idI) (metis imageI)

lemma store_update_same:
  "(store_text_content now t s)\<lparr>issues := issues s\<rparr> = store_text_content now t s"
  "(store_text_content now t s)\<lparr>solutions := solutions s\<rparr> = store_text_content now t s"
  by (simp_all add: store_text_content_def Let_def)

text \<open>References that survive a deletion still resolve.\<close>

lemma refs_filter:
  "f ` X \<subseteq> g ` A \<Longrightarrow> f ` {x \<in> X. f x \<notin> g ` {a \<in> A. P a}} \<subseteq> g ` {a \<in> A. \<not> P a}"
  by blast

lemma refs_disjoint:
  "f ` X \<subseteq> g ` A \<Longrightarrow> f ` X \<inter> g ` {a \<in> A. P a} = {} \<Longrightarrow> f ` X \<subseteq> g ` {a \<in> A. \<not> P a}"
  by blast

lemma refs_other:
  "f ` X \<subseteq> g ` A \<Longrightarrow> f ` {x \<in> X. f x \<noteq> k} \<subseteq> g ` {a \<in> A. g a \<noteq> k}"
  by blast

lemma refs_okD:
  assumes "refs_ok s"
  shows "vr_target_id ` set (issue_votes s) \<subseteq> ir_id ` set (issues s)"
    and "sr_issue_id ` set (solutions s) \<subseteq> ir_id ` set (issues s)"
    and "vr_target_id ` set (solution_votes s) \<subseteq> sr_id ` set (solutions s)"
    and "car_solution_id ` set (campaigns s) \<subseteq> sr_id ` set (solutions s)"
    and "pr_campaign_id ` set (pledges s) \<subseteq> car_id ` set (campaigns s)"
  using assms by (simp_all add: refs_ok_def)

lemma db_ok_refs: "db_ok s \<Longrightarrow> refs_ok s"
  by (simp add: db_ok_def)

lemma drop_campaigns_db_ok:
  assumes "db_ok s" shows "db_ok (drop_campaigns p s)"
proof -
  have "pr_campaign_id ` set (pledges s) \<subseteq> car_id ` set (campaigns s)"
    using assms by (simp add: db_ok_def refs_ok_def)
  from refs_filter [OF this, of "\<lambda>r. p (car_solution_id r)"] assms show ?thesis
    by (auto simp: db_ok_parts drop_campaigns_def Let_def table_ok_filter distinct_map_filter)
qed

lemma drop_campaigns_tables [simp]:
  "issues (drop_campaigns p s) = issues s" "issue_votes (drop_campaigns p s) = issue_votes s"
  "solutions (drop_campaigns p s) = solutions s" "solution_votes (drop_campaigns p s) = solution_votes s"
  by (simp_all add: drop_campaigns_def Let_def)

lemma drop_solutions_tables [simp]:
  "issues (drop_solutions p s) = issues s" "issue_votes (drop_solutions p s) = issue_votes s"
  "solutions (drop_solutions p s) = filter (\<lambda>r. \<not> p r) (solutions s)"
  by (simp_all add: drop_solutions_def Let_def)

lemma drop_solutions_db_ok:
  assumes "db_ok s" shows "db_ok (drop_solutions p s)"
proof -
  let ?gone = "set (map sr_id (filter p (solutions s)))"
  let ?s1 = "drop_campaigns (\<lambda>i. i \<in> ?gone) s"
  have ok: "db_ok ?s1" using assms by (rule drop_campaigns_db_ok)
  have gone: "car_solution_id ` set (campaigns ?s1) \<inter> ?gone = {}"
    by (auto simp: drop_campaigns_def Let_def)
  have "car_solution_id ` set (campaigns ?s1) \<subseteq> sr_id ` {r \<in> set (solutions s). \<not> p r}"
    using refs_disjoint [OF refs_okD(4) [OF db_ok_refs [OF ok]]] gone by simp
  moreover note refs_filter [OF refs_okD(3) [OF db_ok_refs [OF assms]], of p]
  moreover have "sr_issue_id ` {r \<in> set (solutions s). \<not> p r} \<subseteq> ir_id ` set (issues s)"
    using refs_okD(2) [OF db_ok_refs [OF assms]] by blast
  ultimately have "refs_ok (drop_solutions p s)"
    using ok by (simp add: drop_solutions_def Let_def db_ok_def refs_ok_def)
  with ok show ?thesis
    by (simp add: drop_solutions_def Let_def db_ok_def contents_ok_def rows_ok_def unique_ok_def
        table_ok_filter distinct_map_filter)
qed

lemma delete_solution_db_ok: "db_ok s \<Longrightarrow> delete_solution i s = (r, s') \<Longrightarrow> db_ok s'"
  by (auto simp: delete_solution_def Let_def intro: drop_solutions_db_ok)

lemma delete_issue_db_ok:
  assumes "db_ok s" "delete_issue i s = (r, s')" shows "db_ok s'"
proof -
  let ?k = "uuid_str i"
  let ?s1 = "drop_solutions (\<lambda>r. sr_issue_id r = ?k) s"
  have ok: "db_ok ?s1" using assms(1) by (rule drop_solutions_db_ok)
  have sub: "\<forall>r \<in> set (solutions ?s1). sr_issue_id r \<noteq> ?k" by simp
  show ?thesis
  proof (cases "?k \<in> set (map ir_id (issues s))")
    case True
    then have "s' = ?s1\<lparr>issues := filter (\<lambda>r. ir_id r \<noteq> ?k) (issues ?s1),
        issue_votes := filter (\<lambda>r. vr_target_id r \<noteq> ?k) (issue_votes ?s1)\<rparr>"
      using assms(2) by (auto simp: delete_issue_def Let_def)
    moreover have "{r \<in> set (solutions ?s1). sr_issue_id r \<noteq> ?k} = set (solutions ?s1)"
      using sub by blast
    then have "sr_issue_id ` set (solutions ?s1) \<subseteq> ir_id ` {r \<in> set (issues ?s1). ir_id r \<noteq> ?k}"
      using refs_other [OF refs_okD(2) [OF db_ok_refs [OF ok]], of ?k] by (simp only:)
    then have "refs_ok s'"
      using refs_other [OF refs_okD(1) [OF db_ok_refs [OF ok]], of ?k] refs_okD(3-5) [OF db_ok_refs [OF ok]]
      unfolding calculation by (simp add: refs_ok_def)
    ultimately show ?thesis
      using ok by (simp add: db_ok_def contents_ok_def rows_ok_def unique_ok_def table_ok_filter
          distinct_map_filter)
  next
    case False
    with assms show ?thesis by (auto simp: delete_issue_def Let_def)
  qed
qed

lemma table_ok_replace:
  assumes t: "table_ok f key oid rows" and new: "key r = k \<or> key r \<notin> key ` set rows"
    and f: "f r = Some (Inr m)" "key r = uuid_str (oid m)"
  shows "table_ok f key oid (map (\<lambda>q. if key q = k then r else q) rows)"
proof -
  have "distinct (map key rows) \<Longrightarrow> key r = k \<or> key r \<notin> key ` set rows \<Longrightarrow>
      distinct (map key (map (\<lambda>q. if key q = k then r else q) rows))"
    by (induction rows) (auto simp: image_iff split: if_splits)
  then show ?thesis using assms by (auto simp: table_ok_def)
qed

lemma replace_keys:
  "key ` set (map (\<lambda>q. if key q = k then r else q) rows) =
     (if k \<in> key ` set rows then insert (key r) (key ` set rows - {k}) else key ` set rows)"
  by (auto simp: image_iff)

lemma replace_refs:
  "X \<subseteq> key ` set rows \<Longrightarrow> k \<in> key ` set rows \<Longrightarrow> key r = k \<or> k \<notin> X \<Longrightarrow>
     X \<subseteq> key ` set (map (\<lambda>q. if key q = k then r else q) rows)"
  unfolding replace_keys by auto

lemma replace_image:
  "g ` set (map (\<lambda>q. if P q then r else q) rows) \<subseteq> insert (g r) (g ` set rows)"
  by auto

lemma replace_issue_db_ok:
  assumes "db_ok s" "issue_adm x s" "replace_issue now i x s = (Inr b, s')"
  shows "db_ok s'"
proof -
  let ?k = "uuid_str i" and ?r = "issue_to_row x"
  let ?s1 = "store_text_content now (iss_description x) s"
  let ?new = "map (\<lambda>q. if ir_id q = ?k then ?r else q) (issues s)"
  have ok: "db_ok ?s1" using assms(1) by (rule db_ok_store)
  have s': "s' = ?s1\<lparr>issues := ?new\<rparr>"
    and c: "?k \<in> ir_id ` set (issues s) \<Longrightarrow> ir_id ?r \<noteq> ?k \<Longrightarrow> ir_id ?r \<notin> ir_id ` set (issues s) \<and>
        ?k \<notin> vr_target_id ` set (issue_votes s) \<and> ?k \<notin> sr_issue_id ` set (solutions s)"
    using assms(3)
    by (auto simp: replace_issue_def Let_def split: sum.splits if_splits)
  show ?thesis
  proof (cases "?k \<in> ir_id ` set (issues s)")
    case False
    then have "?new = issues s" by (rule map_replace_absent)
    with ok show ?thesis by (simp add: s' store_update_same)
  next
    case True
    have "table_ok (issue_of_row ?s1) ir_id iss_id ?new"
      using ok c [OF True] issue_of_row_new [OF assms(2)]
      by (intro table_ok_replace) (auto simp: db_ok_parts)
    moreover have "refs_ok s'"
    proof -
      have r: "refs_ok s" using assms(1) by (rule db_ok_refs)
      have "vr_target_id ` set (issue_votes s) \<subseteq> ir_id ` set ?new"
        by (rule replace_refs [OF refs_okD(1) [OF r] True]) (use c [OF True] in blast)
      moreover have "sr_issue_id ` set (solutions s) \<subseteq> ir_id ` set ?new"
        by (rule replace_refs [OF refs_okD(2) [OF r] True]) (use c [OF True] in blast)
      ultimately show ?thesis using r by (simp add: refs_ok_def s' del: set_map)
    qed
    ultimately show ?thesis using ok by (simp add: s' db_ok_def rows_ok_def unique_ok_def contents_ok_def)
  qed
qed

lemma replace_solution_db_ok:
  assumes "db_ok s" "solution_adm x s" "replace_solution now i x s = (Inr b, s')"
  shows "db_ok s'"
proof -
  let ?k = "uuid_str i" and ?r = "solution_to_row x"
  let ?s1 = "store_text_content now (sol_description x) s"
  let ?new = "map (\<lambda>q. if sr_id q = ?k then ?r else q) (solutions s)"
  have ok: "db_ok ?s1" using assms(1) by (rule db_ok_store)
  have s': "s' = ?s1\<lparr>solutions := ?new\<rparr>"
    and c: "?k \<in> sr_id ` set (solutions s) \<Longrightarrow> sr_issue_id ?r \<in> ir_id ` set (issues s) \<and>
       (sr_id ?r \<noteq> ?k \<longrightarrow> sr_id ?r \<notin> sr_id ` set (solutions s) \<and>
        ?k \<notin> vr_target_id ` set (solution_votes s) \<and> ?k \<notin> car_solution_id ` set (campaigns s))"
    using assms(3)
    by (auto simp: replace_solution_def Let_def split: sum.splits if_splits)
  show ?thesis
  proof (cases "?k \<in> sr_id ` set (solutions s)")
    case False
    then have "?new = solutions s" by (rule map_replace_absent)
    with ok show ?thesis by (simp add: s' store_update_same)
  next
    case True
    have "table_ok (solution_of_row ?s1) sr_id sol_id ?new"
      using ok c [OF True] solution_of_row_new [OF assms(2)]
      by (intro table_ok_replace) (auto simp: db_ok_parts)
    moreover have "refs_ok s'"
    proof -
      have r: "refs_ok s" using assms(1) by (rule db_ok_refs)
      have "vr_target_id ` set (solution_votes s) \<subseteq> sr_id ` set ?new"
        by (rule replace_refs [OF refs_okD(3) [OF r] True]) (use c [OF True] in blast)
      moreover have "car_solution_id ` set (campaigns s) \<subseteq> sr_id ` set ?new"
        by (rule replace_refs [OF refs_okD(4) [OF r] True]) (use c [OF True] in blast)
      moreover have "sr_issue_id ` set ?new \<subseteq> ir_id ` set (issues s)"
        using r c [OF True] replace_image [of sr_issue_id "\<lambda>q. sr_id q = ?k" ?r "solutions s"]
        unfolding refs_ok_def by (meson insert_subset order_trans subset_insertI2)
      ultimately show ?thesis using r by (simp add: refs_ok_def s' del: set_map)
    qed
    ultimately show ?thesis using ok by (simp add: s' db_ok_def rows_ok_def unique_ok_def contents_ok_def)
  qed
qed

section \<open>Canonical rows\<close>

text \<open>
  Every row is the image of a model that satisfies the rules of its constructor and has a valid time
  stamp: identifiers are written in one way only, and what is read back can be sent.
\<close>

definition rows_of :: "('m \<Rightarrow> 'r) \<Rightarrow> ('m \<Rightarrow> bool) \<Rightarrow> 'r list \<Rightarrow> bool" where
  "rows_of to_row p rows \<longleftrightarrow> (\<forall>r \<in> set rows. \<exists>m. r = to_row m \<and> p m)"

lemma rows_ofD: "rows_of to_row p rows \<Longrightarrow> r \<in> set rows \<Longrightarrow> \<exists>m. r = to_row m \<and> p m"
  by (simp add: rows_of_def)

lemma rows_of_Nil [simp]: "rows_of to_row p []"
  by (simp add: rows_of_def)

lemma rows_of_snoc: "rows_of to_row p rows \<Longrightarrow> p m \<Longrightarrow> rows_of to_row p (rows @ [to_row m])"
  by (auto simp: rows_of_def)

lemma rows_of_filter: "rows_of to_row p rows \<Longrightarrow> rows_of to_row p (filter q rows)"
  by (simp add: rows_of_def)

lemma rows_of_replace:
  "rows_of to_row p rows \<Longrightarrow> p m \<Longrightarrow> rows_of to_row p (map (\<lambda>r. if q r then to_row m else r) rows)"
  by (auto simp: rows_of_def)

definition canon_ok :: "db \<Rightarrow> bool" where
  "canon_ok s \<longleftrightarrow>
     rows_of issue_to_row (\<lambda>m. valid_timestamp (iss_created_at m)) (issues s) \<and>
     rows_of issue_vote_to_row (\<lambda>m. valid_timestamp (iv_created_at m)) (issue_votes s) \<and>
     rows_of solution_to_row (\<lambda>m. valid_timestamp (sol_created_at m)) (solutions s) \<and>
     rows_of solution_vote_to_row (\<lambda>m. valid_timestamp (sv_created_at m)) (solution_votes s) \<and>
     rows_of campaign_to_row (\<lambda>m. valid_timestamp (camp_created_at m) \<and> campaign_ok m) (campaigns s) \<and>
     rows_of pledge_to_row (\<lambda>m. valid_timestamp (pl_created_at m) \<and> pledge_ok m) (pledges s)"

definition store_ok :: "db \<Rightarrow> bool" where
  "store_ok s \<longleftrightarrow> db_ok s \<and> canon_ok s"

lemma store_ok_empty: "store_ok empty_db"
  unfolding store_ok_def using db_ok_empty by (simp add: canon_ok_def) (simp add: empty_db_def)

lemma canon_ok_adds:
  assumes "canon_ok s"
  shows "issue_adm i s \<Longrightarrow> add_issue now i s = (Inr u, s') \<Longrightarrow> canon_ok s'"
    and "issue_vote_adm v s \<Longrightarrow> add_issue_vote v s = (Inr u, s') \<Longrightarrow> canon_ok s'"
    and "solution_adm x s \<Longrightarrow> add_solution now x s = (Inr u, s') \<Longrightarrow> canon_ok s'"
    and "solution_vote_adm w s \<Longrightarrow> add_solution_vote w s = (Inr u, s') \<Longrightarrow> canon_ok s'"
    and "campaign_adm c s \<Longrightarrow> add_campaign c s = (Inr u, s') \<Longrightarrow> canon_ok s'"
    and "pledge_adm p s \<Longrightarrow> add_pledge p s = (Inr u, s') \<Longrightarrow> canon_ok s'"
  using assms
  by (simp_all add: canon_ok_def adm_defs rows_of_snoc add_issue_Inr_iff add_issue_vote_Inr_iff
      add_solution_Inr_iff add_solution_vote_Inr_iff)
    (auto simp: rows_of_snoc dest!: add_campaign_Inr add_pledge_Inr)

lemma canon_ok_records:
  assumes "canon_ok s"
  shows "issue_vote_adm v s \<Longrightarrow> record_issue_vote v s = (r, s') \<Longrightarrow> canon_ok s'"
    and "solution_vote_adm w s \<Longrightarrow> record_solution_vote w s = (r', s') \<Longrightarrow> canon_ok s'"
  unfolding record_issue_vote_def record_solution_vote_def
  by (drule record_vote_cases, metis canon_ok_adds(2,4) [OF assms] add_error(2,4) assms)+

lemma canon_ok_drop:
  "canon_ok s \<Longrightarrow> canon_ok (drop_campaigns f s)"
  "canon_ok s \<Longrightarrow> canon_ok (drop_solutions g s)"
  by (simp_all add: canon_ok_def drop_campaigns_def drop_solutions_def Let_def rows_of_filter)

lemma canon_ok_delete:
  "canon_ok s \<Longrightarrow> delete_solution i s = (r, s') \<Longrightarrow> canon_ok s'"
  "canon_ok s \<Longrightarrow> delete_issue i s = (r, s') \<Longrightarrow> canon_ok s'"
proof -
  show "canon_ok s \<Longrightarrow> delete_solution i s = (r, s') \<Longrightarrow> canon_ok s'"
    by (auto simp: delete_solution_def Let_def intro: canon_ok_drop)
  assume c: "canon_ok s" "delete_issue i s = (r, s')"
  have "canon_ok (drop_solutions (\<lambda>r. sr_issue_id r = uuid_str i) s)" using c(1) by (rule canon_ok_drop)
  with c show "canon_ok s'"
    by (auto simp: delete_issue_def Let_def canon_ok_def rows_of_filter split: if_splits)
qed

lemma canon_ok_replace:
  assumes "canon_ok s"
  shows "issue_adm i s \<Longrightarrow> replace_issue now k i s = (r, s') \<Longrightarrow> canon_ok s'"
    and "solution_adm x s \<Longrightarrow> replace_solution now k x s = (r, s') \<Longrightarrow> canon_ok s'"
  using assms
  by (auto simp: replace_issue_def replace_solution_def Let_def canon_ok_def adm_defs
      simp del: check_constraints.simps split: sum.splits intro!: rows_of_replace)

end
