(* ===== verification/Replication.thy ===== *)
theory Replication
  imports Messages Repository_Inv
begin

text \<open>
  democracy/network/replication.py: storing objects that arrive from peers. The handler of an object
  type is the tuple of repository operations it was built with; \<^verbatim>\<open>handlers_by_type\<close> is the case
  distinction on the object type. The laws that the handlers rely on are the locale \<open>object_store\<close>,
  which every table of the repository is shown to meet.
\<close>

section \<open>Storing a remote object\<close>

datatype store_status = STORED | ALREADY_PRESENT | REJECTED

text \<open>\<^verbatim>\<open>except sqlite3.IntegrityError: return StoreStatus.REJECTED\<close>.\<close>

definition reject_integrity_error :: "py_exn \<Rightarrow> store_status repo option" where
  "reject_integrity_error e =
     (case e of IntegrityError msg \<Rightarrow> Some (sreturn REJECTED) | _ \<Rightarrow> None)"

definition store_remote ::
    "(uuid \<Rightarrow> db \<Rightarrow> 'm option res) \<Rightarrow> ('m \<Rightarrow> uuid) \<Rightarrow> ('m \<Rightarrow> unit repo) \<Rightarrow> 'm \<Rightarrow> store_status repo" where
  "store_remote get_one oid add_one m = (\<lambda>s.
     case get_one (oid m) s of
       Inl e \<Rightarrow> (Inl e, s)
     | Inr (Some _) \<Rightarrow> (Inr ALREADY_PRESENT, s)
     | Inr None \<Rightarrow>
         scatch (sbind (add_one m) (\<lambda>_. sreturn STORED)) reject_integrity_error s)"

definition store_remote_vote ::
    "(uuid \<Rightarrow> db \<Rightarrow> 'm option res) \<Rightarrow> ('m \<Rightarrow> uuid) \<Rightarrow> ('m \<Rightarrow> vote_record_result repo) \<Rightarrow> 'm \<Rightarrow> store_status repo" where
  "store_remote_vote get_one oid record_one m = (\<lambda>s.
     case get_one (oid m) s of
       Inl e \<Rightarrow> (Inl e, s)
     | Inr (Some _) \<Rightarrow> (Inr ALREADY_PRESENT, s)
     | Inr None \<Rightarrow>
         scatch (sbind (record_one m) (\<lambda>result.
             sreturn (if result = ALREADY_VOTED then ALREADY_PRESENT else STORED)))
           reject_integrity_error s)"

section \<open>The handlers\<close>

text \<open>\<open>now\<close> is the clock reading that the repository stores with a new description.\<close>

fun handler_store_remote :: "string \<Rightarrow> model \<Rightarrow> store_status repo" where
  "handler_store_remote now (MIssue x) = store_remote get_issue iss_id (add_issue now) x"
| "handler_store_remote now (MIssueVote x) = store_remote_vote get_issue_vote iv_id record_issue_vote x"
| "handler_store_remote now (MSolution x) = store_remote get_solution sol_id (add_solution now) x"
| "handler_store_remote now (MSolutionVote x) = store_remote_vote get_solution_vote sv_id record_solution_vote x"
| "handler_store_remote now (MCampaign x) = store_remote get_campaign camp_id add_campaign x"
| "handler_store_remote now (MPledge x) = store_remote get_pledge pl_id add_pledge x"

fun handler_add_one :: "string \<Rightarrow> model \<Rightarrow> unit repo" where
  "handler_add_one now (MIssue x) = add_issue now x"
| "handler_add_one now (MIssueVote x) = add_issue_vote x"
| "handler_add_one now (MSolution x) = add_solution now x"
| "handler_add_one now (MSolutionVote x) = add_solution_vote x"
| "handler_add_one now (MCampaign x) = add_campaign x"
| "handler_add_one now (MPledge x) = add_pledge x"

fun handler_get_one :: "object_type \<Rightarrow> uuid \<Rightarrow> db \<Rightarrow> model option res" where
  "handler_get_one ISSUE i s = map_sum id (map_option MIssue) (get_issue i s)"
| "handler_get_one ISSUE_VOTE i s = map_sum id (map_option MIssueVote) (get_issue_vote i s)"
| "handler_get_one SOLUTION i s = map_sum id (map_option MSolution) (get_solution i s)"
| "handler_get_one SOLUTION_VOTE i s = map_sum id (map_option MSolutionVote) (get_solution_vote i s)"
| "handler_get_one FUNDING_CAMPAIGN i s = map_sum id (map_option MCampaign) (get_campaign i s)"
| "handler_get_one FUNDING_PLEDGE i s = map_sum id (map_option MPledge) (get_pledge i s)"

fun handler_get_all :: "object_type \<Rightarrow> db \<Rightarrow> model list res" where
  "handler_get_all ISSUE s = map_sum id (map MIssue) (get_all_issues s)"
| "handler_get_all ISSUE_VOTE s = map_sum id (map MIssueVote) (get_all_issue_votes s)"
| "handler_get_all SOLUTION s = map_sum id (map MSolution) (get_all_solutions s)"
| "handler_get_all SOLUTION_VOTE s = map_sum id (map MSolutionVote) (get_all_solution_votes s)"
| "handler_get_all FUNDING_CAMPAIGN s = map_sum id (map MCampaign) (get_all_campaigns s)"
| "handler_get_all FUNDING_PLEDGE s = map_sum id (map MPledge) (get_all_pledges s)"

definition build_item :: "model \<Rightarrow> gossip_item" where
  "build_item m = \<lparr>gi_type = model_type m, gi_uuid = model_id m\<rparr>"

definition get_stored_model :: "gossip_item \<Rightarrow> db \<Rightarrow> model option res" where
  "get_stored_model item s = handler_get_one (gi_type item) (gi_uuid item) s"

text \<open>The order of \<^verbatim>\<open>build_replication_handlers\<close>.\<close>

definition replication_handlers :: "object_type list" where
  "replication_handlers = [ISSUE, ISSUE_VOTE, SOLUTION, SOLUTION_VOTE, FUNDING_CAMPAIGN, FUNDING_PLEDGE]"

section \<open>The interface of a table\<close>

text \<open>
  What the handlers rely on: \<open>inv\<close> is the invariant of the database, \<open>adm\<close> says which objects may
  be stored in it. Reads succeed, a write that raises changes nothing, and after a write the new
  object is found under its identifier and every other one as before.
\<close>

locale object_store =
  fixes inv :: "db \<Rightarrow> bool" and adm :: "'m \<Rightarrow> db \<Rightarrow> bool" and oid :: "'m \<Rightarrow> uuid"
    and get_one :: "uuid \<Rightarrow> db \<Rightarrow> 'm option res" and get_all :: "db \<Rightarrow> 'm list res"
    and add_one :: "'m \<Rightarrow> unit repo"
  assumes get_total: "inv s \<Longrightarrow> \<exists>x. get_one i s = Inr x"
    and get_oid: "inv s \<Longrightarrow> get_one i s = Inr (Some m) \<Longrightarrow> oid m = i"
    and get_all_iff: "inv s \<Longrightarrow> \<exists>ms. get_all s = Inr ms \<and> distinct (map oid ms) \<and>
          (\<forall>m. m \<in> set ms \<longleftrightarrow> get_one (oid m) s = Inr (Some m))"
    and add_error_keeps: "add_one m s = (Inl e, s') \<Longrightarrow> s' = s"
    and add_fresh: "inv s \<Longrightarrow> add_one m s = (Inr u, s') \<Longrightarrow> get_one (oid m) s = Inr None"
    and add_inv: "inv s \<Longrightarrow> adm m s \<Longrightarrow> add_one m s = (Inr u, s') \<Longrightarrow> inv s'"
    and get_add: "inv s \<Longrightarrow> adm m s \<Longrightarrow> add_one m s = (Inr u, s') \<Longrightarrow> get_one (oid m) s' = Inr (Some m)"
    and get_add_other: "inv s \<Longrightarrow> add_one m s = (Inr u, s') \<Longrightarrow> i \<noteq> oid m \<Longrightarrow> get_one i s' = get_one i s"
begin

lemma store_remote_cases:
  assumes "inv s" "store_remote get_one oid add_one m s = (r, s')"
  obtains (present) m' where "r = Inr ALREADY_PRESENT" "s' = s" "get_one (oid m) s = Inr (Some m')"
  | (stored) "r = Inr STORED" "get_one (oid m) s = Inr None" "add_one m s = (Inr (), s')"
  | (rejected) msg where "r = Inr REJECTED" "s' = s" "get_one (oid m) s = Inr None"
      "add_one m s = (Inl (IntegrityError msg), s)"
  | (raised) e where "r = Inl e" "s' = s" "get_one (oid m) s = Inr None" "add_one m s = (Inl e, s)"
      "\<And>msg. e \<noteq> IntegrityError msg"
proof -
  obtain x where x: "get_one (oid m) s = Inr x" using get_total [OF assms(1)] by blast
  show thesis
  proof (cases x)
    case (Some m')
    with x assms(2) present show ?thesis by (auto simp: store_remote_def)
  next
    case None
    obtain a s1 where a: "add_one m s = (a, s1)" by (cases "add_one m s")
    show ?thesis
    proof (cases a)
      case (Inr u)
      with x None a assms(2) stored show ?thesis
        by (auto simp: store_remote_def scatch_def sbind_def sreturn_def)
    next
      case (Inl e)
      have "s1 = s" using a Inl add_error_keeps by blast
      show ?thesis
      proof (cases "\<exists>msg. e = IntegrityError msg")
        case True
        then obtain msg where "e = IntegrityError msg" by blast
        with x None a Inl \<open>s1 = s\<close> assms(2) rejected show ?thesis
          by (auto simp: store_remote_def scatch_def sbind_def sreturn_def reject_integrity_error_def)
      next
        case False
        with x None a Inl \<open>s1 = s\<close> assms(2) raised [of e] show ?thesis
          by (auto simp: store_remote_def scatch_def sbind_def reject_integrity_error_def split: py_exn.splits)
      qed
    qed
  qed
qed

lemma store_remote_inv:
  assumes "inv s" "adm m s" "store_remote get_one oid add_one m s = (r, s')" shows "inv s'"
  by (rule store_remote_cases [OF assms(1,3)]) (auto intro: add_inv [OF assms(1,2)] assms(1))

lemma store_remote_lookup:
  assumes "inv s" "adm m s" "store_remote get_one oid add_one m s = (r, s')"
  shows "get_one i s' = (if r = Inr STORED \<and> i = oid m then Inr (Some m) else get_one i s)"
  by (rule store_remote_cases [OF assms(1,3)])
    (auto simp: get_add [OF assms(1,2)] get_add_other [OF assms(1)])

lemma store_remote_again:
  assumes "inv s" "adm m s" "store_remote get_one oid add_one m s = (Inr STORED, s')"
  shows "store_remote get_one oid add_one m s' = (Inr ALREADY_PRESENT, s')"
  using store_remote_lookup [OF assms, of "oid m"] by (simp add: store_remote_def)

end

text \<open>A table of votes also records: a second vote of the same voter is not an error.\<close>

locale vote_store = object_store +
  fixes dup :: "string \<Rightarrow> bool" and record_one :: "'m \<Rightarrow> vote_record_result repo"
  assumes record_one: "record_one m = record_vote dup (add_one m)"
begin

lemma store_vote_cases:
  assumes "inv s" "store_remote_vote get_one oid record_one m s = (r, s')"
  obtains (present) m' where "r = Inr ALREADY_PRESENT" "s' = s" "get_one (oid m) s = Inr (Some m')"
  | (voted) msg where "r = Inr ALREADY_PRESENT" "s' = s" "get_one (oid m) s = Inr None"
      "add_one m s = (Inl (IntegrityError msg), s)" "dup msg"
  | (stored) "r = Inr STORED" "get_one (oid m) s = Inr None" "add_one m s = (Inr (), s')"
  | (rejected) msg where "r = Inr REJECTED" "s' = s" "get_one (oid m) s = Inr None"
      "add_one m s = (Inl (IntegrityError msg), s)" "\<not> dup msg"
  | (raised) e where "r = Inl e" "s' = s" "get_one (oid m) s = Inr None" "add_one m s = (Inl e, s)"
      "\<And>msg. e \<noteq> IntegrityError msg"
proof -
  obtain x where x: "get_one (oid m) s = Inr x" using get_total [OF assms(1)] by blast
  show thesis
  proof (cases x)
    case (Some m')
    with x assms(2) present show ?thesis by (auto simp: store_remote_vote_def)
  next
    case None
    note defs = store_remote_vote_def record_one record_vote_def scatch_def sbind_def sreturn_def
      reject_integrity_error_def
    obtain a s1 where a: "add_one m s = (a, s1)" by (cases "add_one m s")
    show ?thesis
    proof (cases a)
      case (Inr u)
      with x None a assms(2) stored show ?thesis by (auto simp: defs)
    next
      case (Inl e)
      have "s1 = s" using a Inl add_error_keeps by blast
      show ?thesis
      proof (cases "\<exists>msg. e = IntegrityError msg")
        case True
        then obtain msg where "e = IntegrityError msg" by blast
        with x None a Inl \<open>s1 = s\<close> assms(2) rejected [of msg] voted [of msg] show ?thesis
          by (cases "dup msg") (auto simp: defs)
      next
        case False
        with x None a Inl \<open>s1 = s\<close> assms(2) raised [of e] show ?thesis
          by (auto simp: defs split: py_exn.splits)
      qed
    qed
  qed
qed

lemma store_vote_inv:
  assumes "inv s" "adm m s" "store_remote_vote get_one oid record_one m s = (r, s')" shows "inv s'"
  by (rule store_vote_cases [OF assms(1,3)]) (auto intro: add_inv [OF assms(1,2)] assms(1))

lemma store_vote_lookup:
  assumes "inv s" "adm m s" "store_remote_vote get_one oid record_one m s = (r, s')"
  shows "get_one i s' = (if r = Inr STORED \<and> i = oid m then Inr (Some m) else get_one i s)"
  by (rule store_vote_cases [OF assms(1,3)])
    (auto simp: get_add [OF assms(1,2)] get_add_other [OF assms(1)])

lemma store_vote_again:
  assumes "inv s" "adm m s" "store_remote_vote get_one oid record_one m s = (Inr STORED, s')"
  shows "store_remote_vote get_one oid record_one m s' = (Inr ALREADY_PRESENT, s')"
  using store_vote_lookup [OF assms, of "oid m"] by (simp add: store_remote_vote_def)

end

section \<open>Every table meets the interface\<close>

lemma get_all_as_fetch:
  "get_all_issues s = fetch_all (List.map_filter (issue_of_row s) (order_by_desc ir_created_at (issues s)))"
  "get_all_issue_votes s = fetch_all (List.map_filter (\<lambda>r. Some (row_to_issue_vote r)) (order_by_desc vr_created_at (issue_votes s)))"
  "get_all_solutions s = fetch_all (List.map_filter (solution_of_row s) (order_by_desc sr_created_at (solutions s)))"
  "get_all_solution_votes s = fetch_all (List.map_filter (\<lambda>r. Some (row_to_solution_vote r)) (order_by_desc vr_created_at (solution_votes s)))"
  "get_all_campaigns s = fetch_all (List.map_filter (\<lambda>r. Some (row_to_campaign r)) (order_by_desc car_created_at (campaigns s)))"
  "get_all_pledges s = fetch_all (List.map_filter (\<lambda>r. Some (row_to_pledge r)) (order_by_desc pr_created_at (pledges s)))"
  by (simp_all add: get_all_issues_def get_all_issue_votes_def get_all_solutions_def
      get_all_solution_votes_def get_all_campaigns_def get_all_pledges_def)

lemma fetch_all_lookup:
  assumes "table_ok f key oid rows"
  shows "\<exists>ms. fetch_all (List.map_filter f (order_by_desc c rows)) = Inr ms \<and> distinct (map oid ms) \<and>
           (\<forall>m. m \<in> set ms \<longleftrightarrow> lookup_row f key (uuid_str (oid m)) rows = Inr (Some m))"
proof -
  have "(\<exists>r \<in> set rows. f r = Some (Inr m)) \<longleftrightarrow> (\<exists>r \<in> set rows. key r = uuid_str (oid m) \<and> f r = Some (Inr m))" for m
    using assms by (auto simp: table_ok_def) (metis Inr_inject option.inject)
  with fetch_all_table [OF assms, of c] show ?thesis by (simp add: lookup_row_Some_iff [OF assms])
qed

lemma db_ok_tables:
  assumes "db_ok s"
  shows "table_ok (issue_of_row s) ir_id iss_id (issues s)"
    and "table_ok (\<lambda>r. Some (row_to_issue_vote r)) vr_id iv_id (issue_votes s)"
    and "table_ok (solution_of_row s) sr_id sol_id (solutions s)"
    and "table_ok (\<lambda>r. Some (row_to_solution_vote r)) vr_id sv_id (solution_votes s)"
    and "table_ok (\<lambda>r. Some (row_to_campaign r)) car_id camp_id (campaigns s)"
    and "table_ok (\<lambda>r. Some (row_to_pledge r)) pr_id pl_id (pledges s)"
  using assms by (simp_all add: db_ok_def rows_ok_def)

text \<open>The row that a write appends is found under its key, the other keys are unaffected.\<close>

lemma lookup_row_snoc_new:
  "key r \<notin> key ` set rows \<Longrightarrow> f r = Some (Inr m) \<Longrightarrow> lookup_row f key (key r) (rows @ [r]) = Inr (Some m)"
proof -
  assume "key r \<notin> key ` set rows" "f r = Some (Inr m)"
  moreover from this have "filter (\<lambda>x. key x = key r) rows = []"
    by (metis (mono_tags, lifting) filter_False imageI)
  ultimately show ?thesis by (simp add: lookup_row_def List.map_filter_simps)
qed

text \<open>Storing a description does not change what the existing rows convert to.\<close>

lemma lookup_issue_store:
  "db_ok s \<Longrightarrow> lookup_row (issue_of_row (store_text_content now t s)) ir_id k (issues s) =
     lookup_row (issue_of_row s) ir_id k (issues s)"
  by (rule lookup_row_cong) (metis db_ok_tables(1) issue_of_row_store table_ok_def)

lemma lookup_solution_store:
  "db_ok s \<Longrightarrow> lookup_row (solution_of_row (store_text_content now t s)) sr_id k (solutions s) =
     lookup_row (solution_of_row s) sr_id k (solutions s)"
  by (rule lookup_row_cong) (metis db_ok_tables(3) solution_of_row_store table_ok_def)

interpretation issue_store: object_store db_ok issue_adm iss_id get_issue get_all_issues "add_issue now"
proof (unfold_locales, goal_cases)
  case (1 s i) then show ?case by (simp add: gets_as_lookup lookup_row_total [OF db_ok_tables(1)])
next
  case (2 s i m) then show ?case by (auto simp: gets_as_lookup intro: lookup_row_id [OF db_ok_tables(1)])
next
  case (3 s) then show ?case unfolding gets_as_lookup get_all_as_fetch by (rule fetch_all_lookup [OF db_ok_tables(1)])
next
  case (4 m s e s') then show ?case by (rule add_error(1))
next
  case (5 s m u s') then show ?case by (simp add: gets_as_lookup add_issue_Inr_iff lookup_row_absent)
next
  case (6 s m u s') then show ?case by (rule add_issue_db_ok)
next
  case (7 s m u s')
  then show ?case
    using issue_of_row_new [of m s now] lookup_row_snoc_new [of ir_id "issue_to_row m" "issues s"]
    by (auto simp: gets_as_lookup add_issue_Inr_iff)
next
  case (8 s m u s' i)
  then show ?case
    by (auto simp: gets_as_lookup add_issue_Inr_iff lookup_row_snoc_other lookup_issue_store uuid_str_inj)
qed

interpretation solution_store: object_store db_ok solution_adm sol_id get_solution get_all_solutions "add_solution now"
proof (unfold_locales, goal_cases)
  case (1 s i) then show ?case by (simp add: gets_as_lookup lookup_row_total [OF db_ok_tables(3)])
next
  case (2 s i m) then show ?case by (auto simp: gets_as_lookup intro: lookup_row_id [OF db_ok_tables(3)])
next
  case (3 s) then show ?case unfolding gets_as_lookup get_all_as_fetch by (rule fetch_all_lookup [OF db_ok_tables(3)])
next
  case (4 m s e s') then show ?case by (rule add_error(3))
next
  case (5 s m u s') then show ?case by (simp add: gets_as_lookup add_solution_Inr_iff lookup_row_absent)
next
  case (6 s m u s') then show ?case by (rule add_solution_db_ok)
next
  case (7 s m u s')
  then show ?case
    using solution_of_row_new [of m s now] lookup_row_snoc_new [of sr_id "solution_to_row m" "solutions s"]
    by (auto simp: gets_as_lookup add_solution_Inr_iff)
next
  case (8 s m u s' i)
  then show ?case
    by (auto simp: gets_as_lookup add_solution_Inr_iff lookup_row_snoc_other lookup_solution_store uuid_str_inj)
qed

interpretation issue_vote_store: vote_store db_ok issue_vote_adm iv_id get_issue_vote get_all_issue_votes
  add_issue_vote is_duplicate_issue_vote_error record_issue_vote
proof (unfold_locales, goal_cases)
  case (1 s i) then show ?case by (simp add: gets_as_lookup lookup_row_total [OF db_ok_tables(2)])
next
  case (2 s i m) then show ?case by (auto simp: gets_as_lookup intro: lookup_row_id [OF db_ok_tables(2)])
next
  case (3 s) then show ?case unfolding gets_as_lookup get_all_as_fetch by (rule fetch_all_lookup [OF db_ok_tables(2)])
next
  case (4 m s e s') then show ?case by (rule add_error(2))
next
  case (5 s m u s') then show ?case by (simp add: gets_as_lookup add_issue_vote_Inr_iff lookup_row_absent)
next
  case (6 s m u s') then show ?case by (rule add_issue_vote_db_ok)
next
  case (7 s m u s')
  then show ?case
    using row_round_trips(3) [of m] 
      lookup_row_snoc_new [of vr_id "issue_vote_to_row m" "issue_votes s" "\<lambda>r. Some (row_to_issue_vote r)" m]
    by (auto simp: gets_as_lookup add_issue_vote_Inr_iff issue_vote_adm_def)
next
  case (8 s m u s' i)
  then show ?case by (auto simp: gets_as_lookup add_issue_vote_Inr_iff lookup_row_snoc_other uuid_str_inj)
next
  case (9 m) show ?case by (simp add: record_issue_vote_def)
qed

interpretation solution_vote_store: vote_store db_ok solution_vote_adm sv_id get_solution_vote get_all_solution_votes
  add_solution_vote is_duplicate_solution_vote_error record_solution_vote
proof (unfold_locales, goal_cases)
  case (1 s i) then show ?case by (simp add: gets_as_lookup lookup_row_total [OF db_ok_tables(4)])
next
  case (2 s i m) then show ?case by (auto simp: gets_as_lookup intro: lookup_row_id [OF db_ok_tables(4)])
next
  case (3 s) then show ?case unfolding gets_as_lookup get_all_as_fetch by (rule fetch_all_lookup [OF db_ok_tables(4)])
next
  case (4 m s e s') then show ?case by (rule add_error(4))
next
  case (5 s m u s') then show ?case by (simp add: gets_as_lookup add_solution_vote_Inr_iff lookup_row_absent)
next
  case (6 s m u s') then show ?case by (rule add_solution_vote_db_ok)
next
  case (7 s m u s')
  then show ?case
    using row_round_trips(4) [of m] 
      lookup_row_snoc_new [of vr_id "solution_vote_to_row m" "solution_votes s" "\<lambda>r. Some (row_to_solution_vote r)" m]
    by (auto simp: gets_as_lookup add_solution_vote_Inr_iff solution_vote_adm_def)
next
  case (8 s m u s' i)
  then show ?case by (auto simp: gets_as_lookup add_solution_vote_Inr_iff lookup_row_snoc_other uuid_str_inj)
next
  case (9 m) show ?case by (simp add: record_solution_vote_def)
qed

interpretation campaign_store: object_store db_ok campaign_adm camp_id get_campaign get_all_campaigns add_campaign
proof (unfold_locales, goal_cases)
  case (1 s i) then show ?case by (simp add: gets_as_lookup lookup_row_total [OF db_ok_tables(5)])
next
  case (2 s i m) then show ?case by (auto simp: gets_as_lookup intro: lookup_row_id [OF db_ok_tables(5)])
next
  case (3 s) then show ?case unfolding gets_as_lookup get_all_as_fetch by (rule fetch_all_lookup [OF db_ok_tables(5)])
next
  case (4 m s e s') then show ?case by (rule add_error(5))
next
  case (5 s m u s')
  from add_campaign_Inr [OF 5(2)] show ?case by (simp add: gets_as_lookup lookup_row_absent)
next
  case (6 s m u s') then show ?case by (rule add_campaign_db_ok)
next
  case (7 s m u s')
  from 7(2) add_campaign_Inr [OF 7(3)] show ?case
    using row_round_trips(5) [of m] 
      lookup_row_snoc_new [of car_id "campaign_to_row m" "campaigns s" "\<lambda>r. Some (row_to_campaign r)" m]
    by (auto simp: gets_as_lookup campaign_adm_def)
next
  case (8 s m u s' i)
  from 8(3) add_campaign_Inr [OF 8(2)] show ?case by (auto simp: gets_as_lookup lookup_row_snoc_other uuid_str_inj)
qed

interpretation pledge_store: object_store db_ok pledge_adm pl_id get_pledge get_all_pledges add_pledge
proof (unfold_locales, goal_cases)
  case (1 s i) then show ?case by (simp add: gets_as_lookup lookup_row_total [OF db_ok_tables(6)])
next
  case (2 s i m) then show ?case by (auto simp: gets_as_lookup intro: lookup_row_id [OF db_ok_tables(6)])
next
  case (3 s) then show ?case unfolding gets_as_lookup get_all_as_fetch by (rule fetch_all_lookup [OF db_ok_tables(6)])
next
  case (4 m s e s') then show ?case by (rule add_error(6))
next
  case (5 s m u s')
  from add_pledge_Inr [OF 5(2)] show ?case by (simp add: gets_as_lookup lookup_row_absent)
next
  case (6 s m u s') then show ?case by (rule add_pledge_db_ok)
next
  case (7 s m u s')
  from 7(2) add_pledge_Inr [OF 7(3)] show ?case
    using row_round_trips(6) [of m] 
      lookup_row_snoc_new [of pr_id "pledge_to_row m" "pledges s" "\<lambda>r. Some (row_to_pledge r)" m]
    by (auto simp: gets_as_lookup pledge_adm_def)
next
  case (8 s m u s' i)
  from 8(3) add_pledge_Inr [OF 8(2)] show ?case by (auto simp: gets_as_lookup lookup_row_snoc_other uuid_str_inj)
qed

section \<open>All object types together\<close>

text \<open>
  A model that may be stored: it satisfies the rules of its constructor, and no other stored text
  has the digest of its description.
\<close>

fun model_adm :: "model \<Rightarrow> db \<Rightarrow> bool" where
  "model_adm (MIssue x) s \<longleftrightarrow> issue_adm x s"
| "model_adm (MIssueVote x) s \<longleftrightarrow> issue_vote_adm x s"
| "model_adm (MSolution x) s \<longleftrightarrow> solution_adm x s"
| "model_adm (MSolutionVote x) s \<longleftrightarrow> solution_vote_adm x s"
| "model_adm (MCampaign x) s \<longleftrightarrow> campaign_adm x s"
| "model_adm (MPledge x) s \<longleftrightarrow> pledge_adm x s"

fun texts_of :: "model \<Rightarrow> string list" where
  "texts_of (MIssue x) = [iss_description x]"
| "texts_of (MSolution x) = [sol_description x]"
| "texts_of m = []"

lemma model_adm_iff: "model_adm m s \<longleftrightarrow> model_ok m \<and> (\<forall>t \<in> set (texts_of m). no_collision t s)"
  by (cases m) (auto simp: adm_defs)

lemma model_adm_ok: "model_adm m s \<Longrightarrow> model_ok m"
  by (simp add: model_adm_iff)

lemma get_stored_model_total: "db_ok s \<Longrightarrow> \<exists>x. get_stored_model item s = Inr x"
  by (cases "gi_type item")
    (auto simp: get_stored_model_def issue_store.get_total issue_vote_store.get_total
      solution_store.get_total solution_vote_store.get_total campaign_store.get_total pledge_store.get_total)

lemma get_stored_model_item:
  "db_ok s \<Longrightarrow> get_stored_model item s = Inr (Some m) \<Longrightarrow> build_item m = item"
  by (cases item, cases "gi_type item")
    (auto simp: get_stored_model_def build_item_def dest: issue_store.get_oid issue_vote_store.get_oid
      solution_store.get_oid solution_vote_store.get_oid campaign_store.get_oid pledge_store.get_oid)

text \<open>A write only touches the objects of its own type.\<close>

lemma handler_add_frame:
  assumes "db_ok s" "handler_add_one now m s = (Inr u, s')" "t \<noteq> model_type m"
  shows "handler_get_one t i s' = handler_get_one t i s"
proof (cases m)
  case (MIssue x)
  with assms show ?thesis
    by (cases t) (auto simp: gets_as_lookup add_issue_Inr_iff lookup_solution_store)
next
  case (MSolution x)
  with assms show ?thesis
    by (cases t) (auto simp: gets_as_lookup add_solution_Inr_iff lookup_issue_store)
next
  case (MIssueVote x)
  with assms show ?thesis by (cases t) (auto simp: gets_as_lookup add_issue_vote_Inr_iff)
next
  case (MSolutionVote x)
  with assms show ?thesis by (cases t) (auto simp: gets_as_lookup add_solution_vote_Inr_iff)
next
  case (MCampaign x)
  with assms add_campaign_Inr [of x s u s'] show ?thesis by (cases t) (auto simp: gets_as_lookup)
next
  case (MPledge x)
  with assms add_pledge_Inr [of x s u s'] show ?thesis by (cases t) (auto simp: gets_as_lookup)
qed

lemma handler_add_db_ok:
  "db_ok s \<Longrightarrow> model_adm m s \<Longrightarrow> handler_add_one now m s = (Inr u, s') \<Longrightarrow> db_ok s'"
  by (cases m) (auto intro: add_db_ok)

lemma handler_add_lookup:
  assumes "db_ok s" "model_adm m s" "handler_add_one now m s = (Inr u, s')"
  shows "get_stored_model item s' = (if item = build_item m then Inr (Some m) else get_stored_model item s)"
proof (cases "gi_type item = model_type m")
  case False
  then show ?thesis using handler_add_frame [OF assms(1,3)] by (auto simp: get_stored_model_def build_item_def)
next
  case True
  with assms show ?thesis
    by (cases item; cases m)
      (auto simp: get_stored_model_def build_item_def
        issue_store.get_add issue_store.get_add_other issue_vote_store.get_add issue_vote_store.get_add_other
        solution_store.get_add solution_store.get_add_other solution_vote_store.get_add
        solution_vote_store.get_add_other campaign_store.get_add campaign_store.get_add_other
        pledge_store.get_add pledge_store.get_add_other)
qed

lemma handler_add_error: "handler_add_one now m s = (Inl e, s') \<Longrightarrow> s' = s"
  by (cases m) (auto dest: add_error)

lemma handler_store_cases:
  assumes "db_ok s" "handler_store_remote now m s = (r, s')"
  shows "(r = Inr ALREADY_PRESENT \<and> s' = s \<and>
            ((\<exists>m'. get_stored_model (build_item m) s = Inr (Some m')) \<or>
             (\<exists>msg. handler_add_one now m s = (Inl (IntegrityError msg), s)))) \<or>
         (r = Inr STORED \<and> get_stored_model (build_item m) s = Inr None \<and> handler_add_one now m s = (Inr (), s')) \<or>
         (r = Inr REJECTED \<and> s' = s \<and> get_stored_model (build_item m) s = Inr None \<and>
            (\<exists>msg. handler_add_one now m s = (Inl (IntegrityError msg), s))) \<or>
         (\<exists>e. r = Inl e \<and> s' = s \<and> handler_add_one now m s = (Inl e, s) \<and> (\<forall>msg. e \<noteq> IntegrityError msg))"
proof (cases m)
  case (MIssue x)
  with assms(2) have "store_remote get_issue iss_id (add_issue now) x s = (r, s')" by simp
  from issue_store.store_remote_cases [OF assms(1) this] MIssue show ?thesis
    by cases (auto simp: get_stored_model_def build_item_def)
next
  case (MIssueVote x)
  with assms(2) have "store_remote_vote get_issue_vote iv_id record_issue_vote x s = (r, s')" by simp
  from issue_vote_store.store_vote_cases [OF assms(1) this] MIssueVote show ?thesis
    by cases (auto simp: get_stored_model_def build_item_def)
next
  case (MSolution x)
  with assms(2) have "store_remote get_solution sol_id (add_solution now) x s = (r, s')" by simp
  from solution_store.store_remote_cases [OF assms(1) this] MSolution show ?thesis
    by cases (auto simp: get_stored_model_def build_item_def)
next
  case (MSolutionVote x)
  with assms(2) have "store_remote_vote get_solution_vote sv_id record_solution_vote x s = (r, s')" by simp
  from solution_vote_store.store_vote_cases [OF assms(1) this] MSolutionVote show ?thesis
    by cases (auto simp: get_stored_model_def build_item_def)
next
  case (MCampaign x)
  with assms(2) have "store_remote get_campaign camp_id add_campaign x s = (r, s')" by simp
  from campaign_store.store_remote_cases [OF assms(1) this] MCampaign show ?thesis
    by cases (auto simp: get_stored_model_def build_item_def)
next
  case (MPledge x)
  with assms(2) have "store_remote get_pledge pl_id add_pledge x s = (r, s')" by simp
  from pledge_store.store_remote_cases [OF assms(1) this] MPledge show ?thesis
    by cases (auto simp: get_stored_model_def build_item_def)
qed

section \<open>The abstract object store\<close>

text \<open>The database as a finite map from references to objects.\<close>

definition abs_store :: "db \<Rightarrow> gossip_item \<Rightarrow> model option" where
  "abs_store s item = (case get_stored_model item s of Inr x \<Rightarrow> x | Inl e \<Rightarrow> None)"

lemma abs_store_eq: "db_ok s \<Longrightarrow> get_stored_model item s = Inr (abs_store s item)"
  using get_stored_model_total [of s item] by (auto simp: abs_store_def)

lemma abs_store_item: "db_ok s \<Longrightarrow> abs_store s item = Some m \<Longrightarrow> build_item m = item"
  using abs_store_eq [of s item] get_stored_model_item by simp

lemma handler_store_db_ok:
  assumes "db_ok s" "model_adm m s" "handler_store_remote now m s = (r, s')"
  shows "db_ok s'"
  using handler_store_cases [OF assms(1,3)] assms(1) handler_add_db_ok [OF assms(1,2)] by blast

lemma abs_store_add:
  assumes "db_ok s" "model_adm m s" "handler_add_one now m s = (Inr u, s')"
  shows "abs_store s' = (abs_store s)(build_item m \<mapsto> m)"
  by (rule ext) (simp add: abs_store_def handler_add_lookup [OF assms])

lemma store_remote_abs:
  assumes "db_ok s" "model_adm m s" "handler_store_remote now m s = (r, s')"
  shows "abs_store s' = (if r = Inr STORED then (abs_store s)(build_item m \<mapsto> m) else abs_store s)"
    and "r = Inr STORED \<Longrightarrow> abs_store s (build_item m) = None"
  using handler_store_cases [OF assms(1,3)] abs_store_add [OF assms(1,2)] abs_store_eq [OF assms(1)]
  by auto

lemma handler_get_all_items:
  assumes "db_ok s"
  shows "\<exists>ms. handler_get_all t s = Inr ms \<and>
     (\<forall>m. m \<in> set ms \<longleftrightarrow> model_type m = t \<and> abs_store s (build_item m) = Some m)"
proof -
  have Some: "abs_store s item = Some m \<longleftrightarrow> get_stored_model item s = Inr (Some m)" for item m
    using abs_store_eq [OF assms, of item] by auto
  note ms = issue_store.get_all_iff [OF assms] issue_vote_store.get_all_iff [OF assms]
    solution_store.get_all_iff [OF assms] solution_vote_store.get_all_iff [OF assms]
    campaign_store.get_all_iff [OF assms] pledge_store.get_all_iff [OF assms]
  have type: "model_type m = ISSUE \<longleftrightarrow> (\<exists>x. m = MIssue x)" "model_type m = ISSUE_VOTE \<longleftrightarrow> (\<exists>x. m = MIssueVote x)"
    "model_type m = SOLUTION \<longleftrightarrow> (\<exists>x. m = MSolution x)" "model_type m = SOLUTION_VOTE \<longleftrightarrow> (\<exists>x. m = MSolutionVote x)"
    "model_type m = FUNDING_CAMPAIGN \<longleftrightarrow> (\<exists>x. m = MCampaign x)" "model_type m = FUNDING_PLEDGE \<longleftrightarrow> (\<exists>x. m = MPledge x)" for m
    by (cases m; simp)+
  show ?thesis
    using ms by (cases t) (fastforce simp: Some get_stored_model_def build_item_def type image_iff)+
qed

section \<open>Stored objects can be sent\<close>

lemma row_to_issue_text:
  assumes "valid_timestamp (iss_created_at i)"
  shows "row_to_issue (issue_to_row i) t = Inr (i\<lparr>iss_description := t\<rparr>)"
  using assms by (cases i) (simp add: row_to_issue_def issue_to_row_def datetime_storage_round_trip)

lemma row_to_solution_text:
  assumes "valid_timestamp (sol_created_at x)"
  shows "row_to_solution (solution_to_row x) t = Inr (x\<lparr>sol_description := t\<rparr>)"
  using assms by (cases x) (simp add: row_to_solution_def solution_to_row_def datetime_storage_round_trip)

lemma stored_issue:
  assumes "store_ok s" "r \<in> set (issues s)" "issue_of_row s r = Some (Inr x)"
  shows "valid_timestamp (iss_created_at x) \<and> r = issue_to_row x"
proof -
  have db: "db_ok s" and c: "canon_ok s" using assms(1) by (simp_all add: store_ok_def)
  obtain m where m: "r = issue_to_row m" "valid_timestamp (iss_created_at m)"
    using c assms(2) by (auto simp: canon_ok_def dest: rows_ofD)
  obtain t where t: "get_content (ir_description_hash r) s = Some t" "row_to_issue r t = Inr x"
    using assms(3) by (auto simp: issue_of_row_def)
  have "compute_content_hash (utf8 t) = ir_description_hash r"
    using contents_ok_hash [OF _ t(1)] db by (simp add: db_ok_def)
  moreover have "x = m\<lparr>iss_description := t\<rparr>" using t(2) m row_to_issue_text by simp
  ultimately show ?thesis using m by (simp add: issue_to_row_def)
qed

lemma stored_solution:
  assumes "store_ok s" "r \<in> set (solutions s)" "solution_of_row s r = Some (Inr x)"
  shows "valid_timestamp (sol_created_at x) \<and> r = solution_to_row x"
proof -
  have db: "db_ok s" and c: "canon_ok s" using assms(1) by (simp_all add: store_ok_def)
  obtain m where m: "r = solution_to_row m" "valid_timestamp (sol_created_at m)"
    using c assms(2) by (auto simp: canon_ok_def dest: rows_ofD)
  obtain t where t: "get_content (sr_description_hash r) s = Some t" "row_to_solution r t = Inr x"
    using assms(3) by (auto simp: solution_of_row_def)
  have "compute_content_hash (utf8 t) = sr_description_hash r"
    using contents_ok_hash [OF _ t(1)] db by (simp add: db_ok_def)
  moreover have "x = m\<lparr>sol_description := t\<rparr>" using t(2) m row_to_solution_text by simp
  ultimately show ?thesis using m by (simp add: solution_to_row_def)
qed

text \<open>The rows of a canonical database and the objects it stores.\<close>

fun model_row_in :: "model \<Rightarrow> db \<Rightarrow> bool" where
  "model_row_in (MIssue x) s \<longleftrightarrow> issue_to_row x \<in> set (issues s)"
| "model_row_in (MIssueVote x) s \<longleftrightarrow> issue_vote_to_row x \<in> set (issue_votes s)"
| "model_row_in (MSolution x) s \<longleftrightarrow> solution_to_row x \<in> set (solutions s)"
| "model_row_in (MSolutionVote x) s \<longleftrightarrow> solution_vote_to_row x \<in> set (solution_votes s)"
| "model_row_in (MCampaign x) s \<longleftrightarrow> campaign_to_row x \<in> set (campaigns s)"
| "model_row_in (MPledge x) s \<longleftrightarrow> pledge_to_row x \<in> set (pledges s)"

lemma lookup_SomeD:
  "table_ok f key oid rows \<Longrightarrow> lookup_row f key k rows = Inr (Some m) \<Longrightarrow>
     \<exists>r \<in> set rows. key r = k \<and> f r = Some (Inr m)"
  by (simp add: lookup_row_Some_iff)

lemma lookup_canon:
  assumes "table_ok (\<lambda>r. Some (f r)) key oid rows" "rows_of to_row p rows"
    and "\<And>m. p m \<Longrightarrow> f (to_row m) = Inr m" and "lookup_row (\<lambda>r. Some (f r)) key k rows = Inr (Some m)"
  shows "p m \<and> to_row m \<in> set rows"
proof -
  obtain r where r: "r \<in> set rows" "f r = Inr m" using lookup_SomeD [OF assms(1,4)] by auto
  obtain m' where "r = to_row m'" "p m'" using rows_ofD [OF assms(2) r(1)] by auto
  with r assms(3) show ?thesis by auto
qed

lemma canon_okD:
  assumes "canon_ok s"
  shows "rows_of issue_vote_to_row (\<lambda>m. valid_timestamp (iv_created_at m)) (issue_votes s)"
    and "rows_of solution_vote_to_row (\<lambda>m. valid_timestamp (sv_created_at m)) (solution_votes s)"
    and "rows_of campaign_to_row (\<lambda>m. valid_timestamp (camp_created_at m) \<and> campaign_ok m) (campaigns s)"
    and "rows_of pledge_to_row (\<lambda>m. valid_timestamp (pl_created_at m) \<and> pledge_ok m) (pledges s)"
  using assms by (simp_all add: canon_ok_def)

lemma stored_row:
  assumes "store_ok s" "abs_store s item = Some m"
  shows "model_ok m \<and> model_row_in m s"
proof -
  have db: "db_ok s" and c: "canon_ok s" using assms(1) by (simp_all add: store_ok_def)
  have g: "get_stored_model item s = Inr (Some m)" using assms(2) abs_store_eq [OF db] by simp
  show ?thesis
  proof (cases "gi_type item")
    case ISSUE
    with g db show ?thesis using stored_issue [OF assms(1)]
      by (auto simp: get_stored_model_def gets_as_lookup dest!: lookup_SomeD [OF db_ok_tables(1)])
  next
    case ISSUE_VOTE
    with g show ?thesis
      using lookup_canon [OF db_ok_tables(2) [OF db] canon_okD(1) [OF c]] row_round_trips(3)
      by (auto simp: get_stored_model_def gets_as_lookup)
  next
    case SOLUTION
    with g db show ?thesis using stored_solution [OF assms(1)]
      by (auto simp: get_stored_model_def gets_as_lookup dest!: lookup_SomeD [OF db_ok_tables(3)])
  next
    case SOLUTION_VOTE
    with g show ?thesis
      using lookup_canon [OF db_ok_tables(4) [OF db] canon_okD(2) [OF c]] row_round_trips(4)
      by (auto simp: get_stored_model_def gets_as_lookup)
  next
    case FUNDING_CAMPAIGN
    with g show ?thesis
      using lookup_canon [OF db_ok_tables(5) [OF db] canon_okD(3) [OF c]] row_round_trips(5)
      by (auto simp: get_stored_model_def gets_as_lookup)
  next
    case FUNDING_PLEDGE
    with g show ?thesis
      using lookup_canon [OF db_ok_tables(6) [OF db] canon_okD(4) [OF c]] row_round_trips(6)
      by (auto simp: get_stored_model_def gets_as_lookup)
  qed
qed

lemma handler_add_store_ok:
  assumes "store_ok s" "model_adm m s" "handler_add_one now m s = (Inr u, s')"
  shows "store_ok s'"
proof -
  have "db_ok s" "canon_ok s" using assms(1) by (simp_all add: store_ok_def)
  moreover from this have "db_ok s'" using handler_add_db_ok assms(2,3) by blast
  moreover have "canon_ok s'" using assms(2,3) \<open>canon_ok s\<close> by (cases m) (auto intro: canon_ok_adds)
  ultimately show ?thesis by (simp add: store_ok_def)
qed

lemma handler_store_ok:
  assumes "store_ok s" "model_adm m s" "handler_store_remote now m s = (r, s')"
  shows "store_ok s'"
  using handler_store_cases [OF _ assms(3)] assms(1) handler_add_store_ok [OF assms(1,2)]
  by (auto simp: store_ok_def)

end
