(* ===== verification/Funding_Service.thy ===== *)
theory Funding_Service
  imports Bitcoin_Tx Rpc_Client Replication
begin

text \<open>
  democracy/funding/service.py: campaigns, pledges and the final funding transaction. The state of the
  service is the repository and the RPC client; the Bitcoin node is a parameter, as are the
  identifier and the time stamp of a new object.
\<close>

section \<open>Data\<close>

definition PLEDGE_SIGHASH_TYPE :: string where "PLEDGE_SIGHASH_TYPE = ''ALL|ANYONECANPAY''"
definition PLEDGE_INPUT_SEQUENCE :: int where "PLEDGE_INPUT_SEQUENCE = 0xFFFFFFFD"
definition PLEDGE_LOCKTIME :: int where "PLEDGE_LOCKTIME = 0"

record pledge_request =
  prq_campaign_id :: uuid
  prq_pledger_id :: uuid
  prq_txid :: string
  prq_vout :: int
  prq_value_sats :: int
  prq_psbt :: string
  prq_sighash_type :: string
  prq_commitment_hex :: string
  prq_payout_address :: "string option"
  prq_asking_price :: int
  prq_deadline :: "int option"

record pledge_validation_result =
  pv_valid :: bool
  pv_reason :: "string option"

record funding_status =
  fst_campaign_id :: uuid
  fst_asking_price :: int
  fst_valid_total :: int
  fst_required_total :: int
  fst_valid_count :: nat
  fst_is_expired :: bool
  fst_is_fundable :: bool

record prepared_pledge =
  pp_pledge :: funding_pledge
  pp_raw_tx_hex :: string

record final_transaction_plan =
  ftp_campaign_id :: uuid
  ftp_selected :: "funding_pledge list"
  ftp_selected_total :: int
  ftp_required_total :: int
  ftp_raw_tx_hex :: string

record funding_config =
  network_id :: bytes
  min_confirmations :: int

record funding_state =
  fs_db :: db
  fs_rpc :: rpc_client

type_synonym 'a funding_op = "(funding_state, py_exn, 'a) sm"

text \<open>The constructor of the service.\<close>

definition funding_init :: "bytes \<Rightarrow> int \<Rightarrow> funding_config res" where
  "funding_init nid confs =
     (if nid = [] then Inl (ValueError ''network_id must be non-empty bytes.'')
      else if confs < 0 then Inl (ValueError ''min_confirmations must be non-negative.'')
      else Inr \<lparr>network_id = nid, min_confirmations = confs\<rparr>)"

definition on_rpc :: "'a rpc \<Rightarrow> 'a funding_op" where
  "on_rpc f = (\<lambda>s. case f (fs_rpc s) of (r, c) \<Rightarrow> (r, s\<lparr>fs_rpc := c\<rparr>))"

definition on_repo :: "'a repo \<Rightarrow> 'a funding_op" where
  "on_repo f = (\<lambda>s. case f (fs_db s) of (r, d) \<Rightarrow> (r, s\<lparr>fs_db := d\<rparr>))"

definition read_repo :: "(db \<Rightarrow> 'a res) \<Rightarrow> 'a funding_op" where
  "read_repo f = (\<lambda>s. (f (fs_db s), s))"

definition invalid :: "string \<Rightarrow> pledge_validation_result" where
  "invalid reason = \<lparr>pv_valid = False, pv_reason = Some reason\<rparr>"

section \<open>Helpers\<close>

definition require_campaign :: "uuid \<Rightarrow> funding_campaign funding_op" where
  "require_campaign campaign_id =
     sbind (read_repo (get_campaign campaign_id)) (\<lambda>campaign.
     case campaign of
       None \<Rightarrow> sraise (CampaignNotFoundError ''Unknown campaign'')
     | Some c \<Rightarrow> sreturn c)"

definition require_active_campaign :: "funding_campaign \<Rightarrow> unit res" where
  "require_active_campaign c = guard_res (is_active c) (ValueError ''Campaign is inactive.'')"

text \<open>
  \<^verbatim>\<open>current_height > campaign.deadline_height\<close>; comparing with \<^verbatim>\<open>None\<close> raises \<^verbatim>\<open>TypeError\<close>.
\<close>

definition past_deadline :: "funding_campaign \<Rightarrow> int \<Rightarrow> bool res" where
  "past_deadline c height =
     (case camp_deadline c of
        None \<Rightarrow> Inl (TypeError ''int and NoneType are not comparable'')
      | Some d \<Rightarrow> Inr (d < height))"

definition ensure_campaign_not_expired_at_height :: "funding_campaign \<Rightarrow> int \<Rightarrow> unit res" where
  "ensure_campaign_not_expired_at_height c height =
     rbind (require_active_campaign c) (\<lambda>_.
     rbind (past_deadline c height) (\<lambda>past.
     guard_res (\<not> past) (ValueError ''Campaign expired'')))"

definition ensure_campaign_not_expired :: "rpc_node \<Rightarrow> funding_campaign \<Rightarrow> unit funding_op" where
  "ensure_campaign_not_expired node c =
     sbind (slift (require_active_campaign c)) (\<lambda>_.
     sbind (on_rpc (get_block_count node)) (\<lambda>height.
     slift (ensure_campaign_not_expired_at_height c height)))"

definition ensure_utxo_has_min_confirmations ::
    "funding_config \<Rightarrow> (string \<times> json) list \<Rightarrow> int res" where
  "ensure_utxo_has_min_confirmations cfg utxo =
     rbind (py_int_of (jget ''confirmations'' utxo (JInt 0))) (\<lambda>confirmations.
     if confirmations < min_confirmations cfg
     then Inl (ValueError ''UTXO has too few confirmations'') else Inr confirmations)"

text \<open>\<^verbatim>\<open>utxo["value"]\<close>, converted.\<close>

definition utxo_value_sats :: "(string \<times> json) list \<Rightarrow> int res" where
  "utxo_value_sats utxo =
     (case map_of utxo ''value'' of
        None \<Rightarrow> Inl (KeyError ''value'')
      | Some v \<Rightarrow> btc_value_to_sats (BJson v))"

definition build_pledge_inputs :: "string \<Rightarrow> int \<Rightarrow> json" where
  "build_pledge_inputs tx_id vout =
     JList [JObj [(''txid'', JStr tx_id), (''vout'', JInt vout), (''sequence'', JInt PLEDGE_INPUT_SEQUENCE)]]"

definition build_campaign_outputs :: "funding_campaign \<Rightarrow> string \<Rightarrow> json res" where
  "build_campaign_outputs c commitment_hex =
     (if \<not> is_active c then Inl (ValueError ''Cannot build outputs for an inactive campaign.'')
      else case camp_payout_address c of
        None \<Rightarrow> Inl (ValueError ''Active campaigns must define a payout address.'')
      | Some payout_address \<Rightarrow>
          rbind (sats_to_btc_string (camp_asking_price c)) (\<lambda>amount.
          Inr (JList [JObj [(payout_address, JStr amount)], JObj [(''data'', JStr commitment_hex)]])))"

definition build_unsigned_pledge_transaction ::
    "funding_config \<Rightarrow> rpc_node \<Rightarrow> funding_campaign \<Rightarrow> string \<Rightarrow> int \<Rightarrow> string funding_op" where
  "build_unsigned_pledge_transaction cfg node c tx_id vout =
     sbind (slift (compute_campaign_commitment_hex (network_id cfg) c)) (\<lambda>commitment.
     sbind (slift (build_campaign_outputs c commitment)) (\<lambda>outputs.
     on_rpc (create_raw_transaction node (build_pledge_inputs tx_id vout) outputs
       (JInt PLEDGE_LOCKTIME) (JBool True))))"

text \<open>\<^verbatim>\<open>x.get(key)\<close> on a decoded value: only an object has the method.\<close>

definition py_get :: "string \<Rightarrow> json \<Rightarrow> json res" where
  "py_get key x = (case x of JObj m \<Rightarrow> Inr (jget key m JNull)
     | _ \<Rightarrow> Inl (AttributeError ''object has no attribute get''))"

text \<open>\<^verbatim>\<open>isinstance(sequence, int)\<close> also holds for a bool.\<close>

definition extract_single_input_sequence :: "(string \<times> json) list \<Rightarrow> int res" where
  "extract_single_input_sequence decoded_tx =
     (case jget ''vin'' decoded_tx JNull of
        JList [vin] \<Rightarrow>
          rbind (py_get ''sequence'' vin) (\<lambda>sequence.
          case sequence of
            JInt i \<Rightarrow> Inr i
          | JBool b \<Rightarrow> Inr (if b then 1 else 0)
          | _ \<Rightarrow> Inl (ValueError ''Transaction input does not contain an integer sequence.''))
      | _ \<Rightarrow> Inl (ValueError ''Transaction must have exactly one input.''))"

section \<open>Validation\<close>

definition validate_finalized_pledge_transaction ::
    "funding_config \<Rightarrow> rpc_node \<Rightarrow> funding_pledge \<Rightarrow> funding_campaign \<Rightarrow> (string \<times> json) list
      \<Rightarrow> pledge_validation_result option funding_op" where
  "validate_finalized_pledge_transaction cfg node pledge c decoded =
     (case jget ''vin'' decoded JNull of
        JList [vin] \<Rightarrow>
          sbind (slift (py_get ''txid'' vin)) (\<lambda>input_txid.
          sbind (slift (py_get ''vout'' vin)) (\<lambda>input_vout.
          sbind (if input_txid \<noteq> JStr (pl_txid pledge) then sreturn True
                 else sbind (slift (py_int_of input_vout)) (\<lambda>v. sreturn (v \<noteq> pl_vout pledge))) (\<lambda>wrong.
          if wrong then sreturn (Some (invalid ''Pledge transaction spends wrong UTXO.''))
          else
            sbind (build_unsigned_pledge_transaction cfg node c (pl_txid pledge) (pl_vout pledge)) (\<lambda>expected_raw.
            sbind (on_rpc (decode_raw_transaction node (JStr expected_raw))) (\<lambda>expected.
            if \<not> json_eq (jget ''vout'' decoded JNull) (jget ''vout'' expected JNull)
            then sreturn (Some (invalid ''Pledge transaction has wrong outputs.''))
            else
              sbind (slift (extract_single_input_sequence expected)) (\<lambda>expected_sequence.
              sbind (slift (extract_single_input_sequence decoded)) (\<lambda>actual_sequence.
              sreturn (if actual_sequence \<noteq> expected_sequence
                then Some (invalid ''Pledge transaction uses wrong input sequence.'') else None))))))))
      | _ \<Rightarrow> sreturn (Some (invalid ''Pledge transaction must have exactly one input.'')))"

text \<open>An optional height snapshot: \<open>None\<close> asks the node.\<close>

definition height_or_ask :: "rpc_node \<Rightarrow> int option \<Rightarrow> int funding_op" where
  "height_or_ask node h = (case h of Some n \<Rightarrow> sreturn n | None \<Rightarrow> on_rpc (get_block_count node))"

definition catch_value_error :: "'a \<Rightarrow> 'a funding_op \<Rightarrow> 'a funding_op" where
  "catch_value_error x m = scatch m (\<lambda>e. if is_value_error e then Some (sreturn x) else None)"

definition validate_pledge_against_chain ::
    "funding_config \<Rightarrow> rpc_node \<Rightarrow> funding_pledge \<Rightarrow> funding_campaign \<Rightarrow> int option
      \<Rightarrow> pledge_validation_result option funding_op" where
  "validate_pledge_against_chain cfg node pledge c height =
     (if \<not> is_active c then sreturn (Some (invalid ''Campaign is inactive.''))
      else
        sbind (height_or_ask node height) (\<lambda>current_height.
        sbind (slift (past_deadline c current_height)) (\<lambda>past.
        if past then sreturn (Some (invalid ''Campaign deadline has passed.''))
        else
          sbind (on_rpc (get_tx_out node (JStr (pl_txid pledge)) (JInt (pl_vout pledge)) (JBool True))) (\<lambda>utxo.
          case utxo of
            None \<Rightarrow> sreturn (Some (invalid ''Pledged UTXO is spent or unknown.''))
          | Some u \<Rightarrow>
              sbind (catch_value_error False
                  (sbind (slift (ensure_utxo_has_min_confirmations cfg u)) (\<lambda>_. sreturn True))) (\<lambda>confirmed.
              if \<not> confirmed then sreturn (Some (invalid ''Pledged UTXO has too few confirmations.''))
              else
                sbind (slift (utxo_value_sats u)) (\<lambda>chain_value_sats.
                sreturn (if chain_value_sats \<noteq> pl_value_sats pledge
                  then Some (invalid ''Stored pledge value does not match UTXO.'') else None)))))))"

text \<open>\<^verbatim>\<open>x or f()\<close> for an optional argument: an empty string or dictionary counts as missing.\<close>

definition given_or :: "'a list option \<Rightarrow> 'a list funding_op \<Rightarrow> 'a list funding_op" where
  "given_or x f = (case x of Some y \<Rightarrow> if y = [] then f else sreturn y | None \<Rightarrow> f)"

definition validate_pledge_for_campaign ::
    "funding_config \<Rightarrow> rpc_node \<Rightarrow> funding_pledge \<Rightarrow> funding_campaign \<Rightarrow> string option
      \<Rightarrow> (string \<times> json) list option \<Rightarrow> int option \<Rightarrow> pledge_validation_result funding_op" where
  "validate_pledge_for_campaign cfg node pledge c raw_tx decoded_tx height =
     sbind (validate_pledge_against_chain cfg node pledge c height) (\<lambda>chain_validation.
     case chain_validation of
       Some v \<Rightarrow> sreturn v
     | None \<Rightarrow>
         sbind (scatch
           (sbind (given_or raw_tx (on_rpc (finalize_psbt_extract_tx_hex node (JStr (pl_signed_psbt pledge))))) (\<lambda>raw_tx_hex.
            sbind (given_or decoded_tx (on_rpc (decode_raw_transaction node (JStr raw_tx_hex)))) (\<lambda>decoded.
            sreturn (Inr decoded))))
           (\<lambda>e. if is_rpc_error e \<or> is_value_error e
                then Some (sreturn (Inl (invalid ''Cannot process pledge PSBT''))) else None)) (\<lambda>processed.
         case processed of
           Inl v \<Rightarrow> sreturn v
         | Inr decoded \<Rightarrow>
             sbind (validate_finalized_pledge_transaction cfg node pledge c decoded) (\<lambda>tx_validation.
             sreturn (case tx_validation of
                Some v \<Rightarrow> v
              | None \<Rightarrow> \<lparr>pv_valid = True, pv_reason = None\<rparr>))))"

definition validate_pledge ::
    "funding_config \<Rightarrow> rpc_node \<Rightarrow> funding_pledge \<Rightarrow> string option \<Rightarrow> pledge_validation_result funding_op" where
  "validate_pledge cfg node pledge raw_tx =
     sbind (read_repo (get_campaign (pl_campaign_id pledge))) (\<lambda>campaign.
     case campaign of
       None \<Rightarrow> sreturn (invalid ''Unknown campaign.'')
     | Some c \<Rightarrow>
         if \<not> is_active c then sreturn (invalid ''Campaign is inactive.'')
         else validate_pledge_for_campaign cfg node pledge c raw_tx None None)"

section \<open>Preparing the pledges of a campaign\<close>

text \<open>The exception that replaces one raised while a stored pledge is finalized and decoded.\<close>

fun stored_pledge_error :: "py_exn \<Rightarrow> py_exn" where
  "stored_pledge_error (BitcoinRpcError m c t) = BitcoinRpcError m c (JStr ''Cannot process stored pledge'')"
| "stored_pledge_error e = (if is_value_error e then ValueError ''Cannot process stored pledge'' else e)"

definition finalize_stored_pledge ::
    "rpc_node \<Rightarrow> funding_pledge \<Rightarrow> (string \<times> (string \<times> json) list) funding_op" where
  "finalize_stored_pledge node pledge =
     scatch
       (sbind (on_rpc (finalize_psbt_extract_tx_hex node (JStr (pl_signed_psbt pledge)))) (\<lambda>raw_tx_hex.
        sbind (on_rpc (decode_raw_transaction node (JStr raw_tx_hex))) (\<lambda>decoded.
        sreturn (raw_tx_hex, decoded))))
       (\<lambda>e. Some (sraise (stored_pledge_error e)))"

fun prepare_loop ::
    "funding_config \<Rightarrow> rpc_node \<Rightarrow> funding_campaign \<Rightarrow> int \<Rightarrow> funding_pledge list \<Rightarrow> prepared_pledge list funding_op" where
  "prepare_loop cfg node c height [] = sreturn []"
| "prepare_loop cfg node c height (p # ps) =
     sbind (finalize_stored_pledge node p) (\<lambda>(raw_tx_hex, decoded).
     sbind (validate_pledge_for_campaign cfg node p c (Some raw_tx_hex) (Some decoded) (Some height)) (\<lambda>validation.
     sbind (prepare_loop cfg node c height ps) (\<lambda>rest.
     sreturn (if pv_valid validation then \<lparr>pp_pledge = p, pp_raw_tx_hex = raw_tx_hex\<rparr> # rest else rest))))"

definition prepare_valid_pledges_for_campaign ::
    "funding_config \<Rightarrow> rpc_node \<Rightarrow> funding_campaign \<Rightarrow> int option \<Rightarrow> prepared_pledge list funding_op" where
  "prepare_valid_pledges_for_campaign cfg node c height =
     (if \<not> is_active c then sreturn []
      else
        sbind (height_or_ask node height) (\<lambda>current_height.
        sbind (slift (past_deadline c current_height)) (\<lambda>past.
        if past then sreturn []
        else sbind (read_repo (get_pledges_for_campaign (camp_id c))) (\<lambda>pledges.
          prepare_loop cfg node c current_height pledges))))"

definition prepare_valid_pledges_for_open_campaign ::
    "funding_config \<Rightarrow> rpc_node \<Rightarrow> funding_campaign \<Rightarrow> int option \<Rightarrow> prepared_pledge list funding_op" where
  "prepare_valid_pledges_for_open_campaign cfg node c height =
     sbind (height_or_ask node height) (\<lambda>current_height.
     sbind (slift (ensure_campaign_not_expired_at_height c current_height)) (\<lambda>_.
     prepare_valid_pledges_for_campaign cfg node c (Some current_height)))"

definition get_valid_pledges ::
    "funding_config \<Rightarrow> rpc_node \<Rightarrow> uuid \<Rightarrow> funding_pledge list funding_op" where
  "get_valid_pledges cfg node campaign_id =
     sbind (require_campaign campaign_id) (\<lambda>c.
     sbind (slift (require_active_campaign c)) (\<lambda>_.
     sbind (prepare_valid_pledges_for_campaign cfg node c None) (\<lambda>prepared.
     sreturn (map pp_pledge prepared))))"

section \<open>Selecting pledges\<close>

text \<open>\<^verbatim>\<open>==\<close> and \<^verbatim>\<open><\<close> on \<^verbatim>\<open>created_at\<close> attributes.\<close>

fun timestamp_eq :: "timestamp \<Rightarrow> timestamp \<Rightarrow> bool" where
  "timestamp_eq (DT a) (DT b) \<longleftrightarrow> datetime_eq a b"
| "timestamp_eq (RawText a) (RawText b) \<longleftrightarrow> a = b"
| "timestamp_eq _ _ \<longleftrightarrow> False"

fun timestamp_less :: "timestamp \<Rightarrow> timestamp \<Rightarrow> bool res" where
  "timestamp_less (DT a) (DT b) = datetime_less a b"
| "timestamp_less (RawText a) (RawText b) = Inr (text_key a < text_key b)"
| "timestamp_less _ _ = Inl (TypeError ''str and datetime are not comparable'')"

text \<open>\<^verbatim>\<open><\<close> on the key tuples: the first components that differ decide.\<close>

definition key_less :: "int \<times> timestamp \<times> string \<times> int \<Rightarrow> int \<times> timestamp \<times> string \<times> int \<Rightarrow> bool res" where
  "key_less k l =
     (let (v, t, x, n) = k; (v', t', x', n') = l in
      if v \<noteq> v' then Inr (v < v')
      else if \<not> timestamp_eq t t' then timestamp_less t t'
      else if x \<noteq> x' then Inr (text_key x < text_key x')
      else Inr (n < n'))"

abbreviation pp_value :: "prepared_pledge \<Rightarrow> int" where
  "pp_value p \<equiv> pl_value_sats (pp_pledge p)"

definition smallest_first_key :: "prepared_pledge \<Rightarrow> int \<times> timestamp \<times> string \<times> int" where
  "smallest_first_key p = (pp_value p, pl_created_at (pp_pledge p), pl_txid (pp_pledge p), pl_vout (pp_pledge p))"

definition largest_first_key :: "prepared_pledge \<Rightarrow> int \<times> timestamp \<times> string \<times> int" where
  "largest_first_key p = (- pp_value p, pl_created_at (pp_pledge p), pl_txid (pp_pledge p), pl_vout (pp_pledge p))"

text \<open>\<^verbatim>\<open>min(xs, key=...)\<close>: the first item whose key no later key is below.\<close>

fun min_from :: "('a \<Rightarrow> 'a \<Rightarrow> bool res) \<Rightarrow> 'a \<Rightarrow> 'a list \<Rightarrow> 'a res" where
  "min_from lt best [] = Inr best"
| "min_from lt best (x # xs) = rbind (lt x best) (\<lambda>b. min_from lt (if b then x else best) xs)"

definition py_min :: "('a \<Rightarrow> 'k) \<Rightarrow> ('k \<Rightarrow> 'k \<Rightarrow> bool res) \<Rightarrow> 'a list \<Rightarrow> 'a res" where
  "py_min key lt xs =
     (case xs of
        [] \<Rightarrow> Inl (ValueError ''min() arg is an empty sequence'')
      | x # rest \<Rightarrow> min_from (\<lambda>a b. lt (key a) (key b)) x rest)"

text \<open>Equality of the data classes: field by field, time stamps by \<^verbatim>\<open>==\<close>.\<close>

definition pledge_eq :: "funding_pledge \<Rightarrow> funding_pledge \<Rightarrow> bool" where
  "pledge_eq p q \<longleftrightarrow>
     p\<lparr>pl_created_at := pl_created_at q\<rparr> = q \<and> timestamp_eq (pl_created_at p) (pl_created_at q)"

definition prepared_eq :: "prepared_pledge \<Rightarrow> prepared_pledge \<Rightarrow> bool" where
  "prepared_eq p q \<longleftrightarrow> p = q \<or> pledge_eq (pp_pledge p) (pp_pledge q) \<and> pp_raw_tx_hex p = pp_raw_tx_hex q"

text \<open>\<^verbatim>\<open>xs.remove(x)\<close>.\<close>

fun py_remove :: "prepared_pledge \<Rightarrow> prepared_pledge list \<Rightarrow> prepared_pledge list res" where
  "py_remove x [] = Inl (ValueError ''list.remove(x): x not in list'')"
| "py_remove x (y # ys) = (if prepared_eq y x then Inr ys else rbind (py_remove x ys) (\<lambda>zs. Inr (y # zs)))"

lemma py_remove_length: "py_remove x ys = Inr zs \<Longrightarrow> length ys = Suc (length zs)"
  by (induction ys arbitrary: zs) (auto simp: res_simps split: if_splits)

lemma rbind_cong [fundef_cong]:
  "m = m' \<Longrightarrow> (\<And>x. m' = Inr x \<Longrightarrow> f x = g x) \<Longrightarrow> rbind m f = rbind m' g"
  by (cases m') auto

function select_loop ::
    "int \<Rightarrow> prepared_pledge list \<Rightarrow> prepared_pledge list \<Rightarrow> int \<Rightarrow> (prepared_pledge list \<times> int) res" where
  "select_loop required remaining selected so_far =
     (if so_far < required \<and> remaining \<noteq> [] then
        let shortfall = required - so_far;
            finishing = filter (\<lambda>p. shortfall \<le> pp_value p) remaining
        in rbind (if finishing \<noteq> [] then py_min smallest_first_key key_less finishing
                  else py_min largest_first_key key_less remaining) (\<lambda>next_prepared.
           rbind (py_remove next_prepared remaining) (\<lambda>rest.
           select_loop required rest (selected @ [next_prepared]) (so_far + pp_value next_prepared)))
      else Inr (selected, so_far))"
  by pat_completeness auto
termination
  by (relation "measure (\<lambda>(required, remaining, selected, so_far). length remaining)") (auto dest: py_remove_length)

declare select_loop.simps [simp del]

definition select_pledges ::
    "funding_campaign \<Rightarrow> prepared_pledge list \<Rightarrow> int \<Rightarrow> prepared_pledge list res" where
  "select_pledges c prepared fee_buffer_sats =
     (if fee_buffer_sats < 0 then Inl (ValueError ''fee_buffer_sats must be non-negative.'')
      else let required = camp_asking_price c + fee_buffer_sats in
        rbind (select_loop required prepared [] 0) (\<lambda>(selected, so_far).
        if so_far < required then Inl (ValueError ''Not enough valid pledges.'') else Inr selected))"

section \<open>Status, plan and broadcast\<close>

definition compute_funding_status ::
    "funding_config \<Rightarrow> rpc_node \<Rightarrow> uuid \<Rightarrow> int \<Rightarrow> funding_status funding_op" where
  "compute_funding_status cfg node campaign_id fee_buffer_sats =
     sbind (swhen_raise (fee_buffer_sats < 0) (ValueError ''fee_buffer_sats must be non-negative.'')) (\<lambda>_.
     sbind (require_campaign campaign_id) (\<lambda>c.
     sbind (slift (require_active_campaign c)) (\<lambda>_.
     sbind (on_rpc (get_block_count node)) (\<lambda>current_height.
     sbind (slift (past_deadline c current_height)) (\<lambda>is_expired.
     let required_total = camp_asking_price c + fee_buffer_sats in
     if is_expired then
       sreturn \<lparr>fst_campaign_id = camp_id c, fst_asking_price = camp_asking_price c, fst_valid_total = 0,
                fst_required_total = required_total, fst_valid_count = 0, fst_is_expired = True,
                fst_is_fundable = False\<rparr>
     else
       sbind (prepare_valid_pledges_for_campaign cfg node c (Some current_height)) (\<lambda>prepared.
       let valid_total = sum_list (map pp_value prepared) in
       sreturn \<lparr>fst_campaign_id = camp_id c, fst_asking_price = camp_asking_price c,
                fst_valid_total = valid_total, fst_required_total = required_total,
                fst_valid_count = length prepared, fst_is_expired = False,
                fst_is_fundable = (required_total \<le> valid_total)\<rparr>))))))"

definition prepare_final_transaction ::
    "funding_config \<Rightarrow> rpc_node \<Rightarrow> uuid \<Rightarrow> int \<Rightarrow> final_transaction_plan funding_op" where
  "prepare_final_transaction cfg node campaign_id fee_buffer_sats =
     sbind (swhen_raise (fee_buffer_sats < 0) (ValueError ''fee_buffer_sats must be non-negative.'')) (\<lambda>_.
     sbind (require_campaign campaign_id) (\<lambda>c.
     sbind (slift (require_active_campaign c)) (\<lambda>_.
     sbind (on_rpc (get_block_count node)) (\<lambda>current_height.
     sbind (prepare_valid_pledges_for_open_campaign cfg node c (Some current_height)) (\<lambda>prepared.
     sbind (slift (select_pledges c prepared fee_buffer_sats)) (\<lambda>selected.
     sbind (slift (combine_anyonecanpay_pledges (map pp_raw_tx_hex selected))) (\<lambda>final_raw_tx_hex.
     let selected_pledges = map pp_pledge selected in
     sreturn \<lparr>ftp_campaign_id = camp_id c, ftp_selected = selected_pledges,
              ftp_selected_total = sum_list (map pl_value_sats selected_pledges),
              ftp_required_total = camp_asking_price c + fee_buffer_sats,
              ftp_raw_tx_hex = final_raw_tx_hex\<rparr>)))))))"

definition build_final_transaction ::
    "funding_config \<Rightarrow> rpc_node \<Rightarrow> uuid \<Rightarrow> int \<Rightarrow> string funding_op" where
  "build_final_transaction cfg node campaign_id fee_buffer_sats =
     sbind (prepare_final_transaction cfg node campaign_id fee_buffer_sats) (\<lambda>plan.
     sreturn (ftp_raw_tx_hex plan))"

definition broadcast_final_transaction ::
    "funding_config \<Rightarrow> rpc_node \<Rightarrow> uuid \<Rightarrow> int \<Rightarrow> string funding_op" where
  "broadcast_final_transaction cfg node campaign_id fee_buffer_sats =
     sbind (build_final_transaction cfg node campaign_id fee_buffer_sats) (\<lambda>final_raw_tx_hex.
     sbind (on_rpc (test_mempool_accept node (JStr final_raw_tx_hex))) (\<lambda>acceptance.
     sbind (swhen_raise (\<not> truthy (jget ''allowed'' acceptance (JBool False)))
              (ValueError ''Final transaction rejected by mempool policy'')) (\<lambda>_.
     on_rpc (send_raw_transaction node (JStr final_raw_tx_hex)))))"

section \<open>Creating campaigns and pledges\<close>

text \<open>\<open>raise ... from exc\<close> for the two constraint violations that have a message of their own.\<close>

definition translate_integrity_error :: "(string \<times> string) list \<Rightarrow> py_exn \<Rightarrow> 'a funding_op option" where
  "translate_integrity_error table e =
     (case e of
        IntegrityError message \<Rightarrow>
          map_option (\<lambda>(_, m). sraise (ValueError m)) (find (\<lambda>(part, _). contains part message) table)
      | _ \<Rightarrow> None)"

definition create_campaign ::
    "rpc_node \<Rightarrow> uuid \<Rightarrow> datetime \<Rightarrow> solution \<Rightarrow> string option \<Rightarrow> int \<Rightarrow> int option \<Rightarrow> funding_campaign funding_op" where
  "create_campaign node new_id created_at sol payout_address asking_price offset =
     (let payout = normalize_payout payout_address in
      sbind (swhen_raise (asking_price < 0) (ValueError ''asking_price_sats must be non-negative.'')) (\<lambda>_.
      sbind
        (if asking_price = 0 then
           sbind (swhen_raise (payout \<noteq> None)
              (ValueError ''developer_payout_address must be omitted when asking_price_sats is 0.'')) (\<lambda>_.
           sbind (swhen_raise (offset \<noteq> None)
              (ValueError ''deadline_height_offset must be omitted when asking_price_sats is 0.'')) (\<lambda>_.
           sreturn None))
         else
           sbind (swhen_raise (payout = None)
              (ValueError ''developer_payout_address is required when asking_price_sats is positive.'')) (\<lambda>_.
           case offset of
             None \<Rightarrow> sraise (ValueError ''deadline_height_offset is required when asking_price_sats is positive.'')
           | Some n \<Rightarrow>
               sbind (swhen_raise (n \<le> 0) (ValueError ''deadline_height_offset must be positive.'')) (\<lambda>_.
               sbind (on_rpc (get_block_count node)) (\<lambda>current_height.
               sreturn (Some (current_height + n)))))) (\<lambda>deadline_height.
      sbind (slift (compute_hash sol)) (\<lambda>solution_hash.
      sbind (slift (campaign_post_init
               \<lparr>camp_id = new_id, camp_solution_id = sol_id sol, camp_solution_hash = solution_hash,
                camp_payout_address = payout, camp_asking_price = asking_price,
                camp_deadline = deadline_height, camp_created_at = DT created_at\<rparr>)) (\<lambda>campaign.
      sbind (scatch (on_repo (add_campaign campaign))
               (translate_integrity_error
                  [(''UNIQUE constraint failed: funding_campaigns.solution_id'', ''Campaign already exists for solution''),
                   (FK_FAILED, ''Cannot create campaign for unknown solution'')])) (\<lambda>_.
      sreturn campaign))))))"

definition create_pledge_request ::
    "funding_config \<Rightarrow> rpc_node \<Rightarrow> uuid \<Rightarrow> uuid \<Rightarrow> string \<Rightarrow> int \<Rightarrow> pledge_request funding_op" where
  "create_pledge_request cfg node campaign_id pledger_id txid_arg vout =
     sbind (slift (validate_txid (JStr txid_arg))) (\<lambda>txid.
     sbind (require_campaign campaign_id) (\<lambda>c.
     sbind (slift (require_active_campaign c)) (\<lambda>_.
     sbind (ensure_campaign_not_expired node c) (\<lambda>_.
     sbind (on_rpc (get_tx_out node (JStr txid) (JInt vout) (JBool True))) (\<lambda>utxo.
     case utxo of
       None \<Rightarrow> sraise (ValueError ''Cannot pledge a spent or unknown UTXO.'')
     | Some u \<Rightarrow>
         sbind (slift (ensure_utxo_has_min_confirmations cfg u)) (\<lambda>_.
         sbind (slift (utxo_value_sats u)) (\<lambda>value_sats.
         sbind (slift (compute_campaign_commitment_hex (network_id cfg) c)) (\<lambda>commitment.
         sbind (slift (build_campaign_outputs c commitment)) (\<lambda>outputs.
         sbind (on_rpc (create_psbt node (build_pledge_inputs txid vout) outputs
                  (JInt PLEDGE_LOCKTIME) (JBool True))) (\<lambda>psbt.
         sreturn \<lparr>prq_campaign_id = camp_id c, prq_pledger_id = pledger_id, prq_txid = txid,
                  prq_vout = vout, prq_value_sats = value_sats, prq_psbt = psbt,
                  prq_sighash_type = PLEDGE_SIGHASH_TYPE, prq_commitment_hex = commitment,
                  prq_payout_address = camp_payout_address c, prq_asking_price = camp_asking_price c,
                  prq_deadline = camp_deadline c\<rparr>))))))))))"

definition submit_signed_pledge ::
    "funding_config \<Rightarrow> rpc_node \<Rightarrow> uuid \<Rightarrow> datetime \<Rightarrow> uuid \<Rightarrow> uuid \<Rightarrow> string \<Rightarrow> int \<Rightarrow> string \<Rightarrow> funding_pledge funding_op" where
  "submit_signed_pledge cfg node new_id created_at campaign_id pledger_id txid_arg vout signed_psbt =
     sbind (slift (validate_txid (JStr txid_arg))) (\<lambda>txid.
     sbind (require_campaign campaign_id) (\<lambda>c.
     sbind (slift (require_active_campaign c)) (\<lambda>_.
     sbind (ensure_campaign_not_expired node c) (\<lambda>_.
     sbind (on_rpc (get_tx_out node (JStr txid) (JInt vout) (JBool True))) (\<lambda>utxo.
     case utxo of
       None \<Rightarrow> sraise (ValueError ''Cannot submit pledge for a spent or unknown UTXO.'')
     | Some u \<Rightarrow>
         sbind (slift (ensure_utxo_has_min_confirmations cfg u)) (\<lambda>_.
         sbind (slift (utxo_value_sats u)) (\<lambda>value_sats.
         sbind (on_rpc (finalize_psbt_extract_tx_hex node (JStr signed_psbt))) (\<lambda>raw_tx_hex.
         sbind (slift (pledge_post_init
                  \<lparr>pl_id = new_id, pl_campaign_id = camp_id c, pl_pledger_id = pledger_id, pl_txid = txid,
                   pl_vout = vout, pl_value_sats = value_sats, pl_signed_psbt = signed_psbt,
                   pl_created_at = DT created_at\<rparr>)) (\<lambda>pledge.
         sbind (validate_pledge cfg node pledge (Some raw_tx_hex)) (\<lambda>validation.
         sbind (swhen_raise (\<not> pv_valid validation) (ValueError ''Invalid signed pledge'')) (\<lambda>_.
         sbind (scatch (on_repo (add_pledge pledge))
                  (translate_integrity_error
                     [(''UNIQUE constraint failed: funding_pledges.campaign_id, funding_pledges.txid, funding_pledges.vout'',
                       ''Pledge already exists for outpoint''),
                      (FK_FAILED, ''Cannot submit pledge for unknown campaign'')])) (\<lambda>_.
         sreturn pledge))))))))))))"

end
