(* ===== verification/Funding_Selection.thy ===== *)
theory Funding_Selection
  imports Funding_Service "HOL-Library.Multiset"
begin

text \<open>
  The selection of pledges (\<^verbatim>\<open>_select_pledges\<close> of democracy/funding/service.py): what it returns, that it
  always stops, when it succeeds, and the time stamps on which it raises \<^verbatim>\<open>TypeError\<close>.
\<close>

section \<open>Minima\<close>

text \<open>
  The result of \<^verbatim>\<open>min\<close> is an item whose measure \<open>f\<close> is least, for a comparison that decides by \<open>f\<close>
  first.
\<close>

lemma min_from_least:
  assumes "min_from lt b xs = Inr m"
    and "\<And>x y. lt x y = Inr True \<Longrightarrow> (f x :: int) \<le> f y" "\<And>x y. lt x y = Inr False \<Longrightarrow> f y \<le> f x"
  shows "m \<in> set (b # xs) \<and> (\<forall>x \<in> set (b # xs). f m \<le> f x)"
  using assms(1)
proof (induction xs arbitrary: b)
  case Nil
  then show ?case by simp
next
  case (Cons x xs)
  from Cons.prems obtain c where c: "lt x b = Inr c" "min_from lt (if c then x else b) xs = Inr m"
    by (auto simp: res_simps)
  from Cons.IH [OF c(2)] assms(2,3) c(1) show ?case by (cases c) (auto intro: order_trans)
qed

lemma key_less_first:
  "key_less (a, r) (b, q) = Inr True \<Longrightarrow> a \<le> b" "key_less (a, r) (b, q) = Inr False \<Longrightarrow> b \<le> a"
  by (cases r; cases q; auto simp: key_less_def split: if_splits)+

lemma py_min_smallest:
  assumes "py_min smallest_first_key key_less ps = Inr p"
  shows "p \<in> set ps \<and> (\<forall>q \<in> set ps. pp_value p \<le> pp_value q)"
proof (cases ps)
  case (Cons x xs)
  then have "min_from (\<lambda>a b. key_less (smallest_first_key a) (smallest_first_key b)) x xs = Inr p"
    using assms by (simp add: py_min_def)
  from min_from_least [OF this, of pp_value] key_less_first Cons show ?thesis
    by (simp add: smallest_first_key_def)
qed (use assms in \<open>simp add: py_min_def\<close>)

lemma py_min_largest:
  assumes "py_min largest_first_key key_less ps = Inr p"
  shows "p \<in> set ps \<and> (\<forall>q \<in> set ps. pp_value q \<le> pp_value p)"
proof (cases ps)
  case (Cons x xs)
  then have "min_from (\<lambda>a b. key_less (largest_first_key a) (largest_first_key b)) x xs = Inr p"
    using assms by (simp add: py_min_def)
  from min_from_least [OF this, of "\<lambda>p. - pp_value p"] Cons show ?thesis
    unfolding largest_first_key_def by (metis key_less_first neg_le_iff_le)
qed (use assms in \<open>simp add: py_min_def\<close>)

section \<open>Removal\<close>

abbreviation pp_id :: "prepared_pledge \<Rightarrow> uuid" where
  "pp_id p \<equiv> pl_id (pp_pledge p)"

lemma prepared_eq_id: "prepared_eq p q \<Longrightarrow> pp_id p = pp_id q"
  by (cases "pp_pledge p"; cases "pp_pledge q") (auto simp: prepared_eq_def pledge_eq_def)

lemma prepared_eq_refl [simp]: "prepared_eq p p"
  by (simp add: prepared_eq_def)

text \<open>With distinct identifiers the removed item is the chosen one.\<close>

lemma py_remove_remove1:
  "x \<in> set ys \<Longrightarrow> distinct (map pp_id ys) \<Longrightarrow> py_remove x ys = Inr (remove1 x ys)"
proof (induction ys)
  case (Cons y ys)
  show ?case
  proof (cases "y = x")
    case False
    with Cons.prems have x: "x \<in> set ys" by simp
    then have "pp_id y \<noteq> pp_id x" using Cons.prems(2) by force
    then have "\<not> prepared_eq y x" using prepared_eq_id by blast
    with False x Cons show ?thesis by simp
  qed simp
qed simp

lemma distinct_remove1_map: "distinct (map f xs) \<Longrightarrow> distinct (map f (remove1 x xs))"
  by (induction xs) (auto dest: in_set_remove1 [THEN iffD1, rotated] notin_set_remove1 dest!: set_remove1_subset [THEN subsetD])

section \<open>The loop\<close>

text \<open>One round: the chosen item is among the remaining ones; if some of them can finish, it is the
  smallest that can.\<close>

definition choose_next :: "int \<Rightarrow> prepared_pledge list \<Rightarrow> prepared_pledge res" where
  "choose_next shortfall remaining =
     (let finishing = filter (\<lambda>p. shortfall \<le> pp_value p) remaining
      in if finishing \<noteq> [] then py_min smallest_first_key key_less finishing
         else py_min largest_first_key key_less remaining)"

lemma choose_spec:
  assumes "choose_next shortfall remaining = Inr p"
  shows "p \<in> set remaining"
    and "q \<in> set remaining \<Longrightarrow> shortfall \<le> pp_value q \<Longrightarrow> shortfall \<le> pp_value p \<and> pp_value p \<le> pp_value q"
proof -
  show "p \<in> set remaining"
    using assms by (auto simp: choose_next_def Let_def split: if_splits dest!: py_min_smallest py_min_largest)
  assume q: "q \<in> set remaining" "shortfall \<le> pp_value q"
  then have "filter (\<lambda>p. shortfall \<le> pp_value p) remaining \<noteq> []" by (auto simp: filter_empty_conv)
  with assms have "py_min smallest_first_key key_less (filter (\<lambda>p. shortfall \<le> pp_value p) remaining) = Inr p"
    by (simp add: choose_next_def)
  from py_min_smallest [OF this] q show "shortfall \<le> pp_value p \<and> pp_value p \<le> pp_value q" by auto
qed

lemma select_loop_unfold:
  "select_loop required remaining selected so_far =
     (if so_far < required \<and> remaining \<noteq> [] then
        rbind (choose_next (required - so_far) remaining) (\<lambda>p.
        rbind (py_remove p remaining) (\<lambda>rest.
        select_loop required rest (selected @ [p]) (so_far + pp_value p)))
      else Inr (selected, so_far))"
  by (subst select_loop.simps) (simp add: choose_next_def Let_def)

text \<open>What the loop adds to the selection.\<close>

definition greedy :: "int \<Rightarrow> int \<Rightarrow> prepared_pledge list \<Rightarrow> prepared_pledge list \<Rightarrow> bool" where
  "greedy required so_far remaining new \<longleftrightarrow>
     mset new \<subseteq># mset remaining \<and>
     (\<forall>k < length new. so_far + sum_list (map pp_value (take k new)) < required) \<and>
     (so_far + sum_list (map pp_value new) < required \<longrightarrow> mset new = mset remaining) \<and>
     (new \<noteq> [] \<longrightarrow> (\<forall>q \<in> set remaining - set new.
        required - so_far - sum_list (map pp_value (butlast new)) \<le> pp_value q \<longrightarrow>
        pp_value (last new) \<le> pp_value q))"

lemma greedy_step:
  assumes p: "choose_next (required - so_far) remaining = Inr p" and lt: "so_far < required"
    and g: "greedy required (so_far + pp_value p) (remove1 p remaining) new"
  shows "greedy required so_far remaining (p # new)"
proof -
  have mem: "p \<in> set remaining" using choose_spec(1) [OF p] .
  have sub: "mset new \<subseteq># mset remaining - {#p#}" using g by (simp add: greedy_def mset_remove1)
  have a: "mset (p # new) \<subseteq># mset remaining"
    using sub mem by (simp add: insert_subset_eq_iff)
  have b: "so_far + sum_list (map pp_value (take k (p # new))) < required" if "k < length (p # new)" for k
    using that lt g by (cases k) (auto simp: greedy_def algebra_simps)
  have c: "mset (p # new) = mset remaining" if "so_far + sum_list (map pp_value (p # new)) < required"
  proof -
    have "mset new = mset remaining - {#p#}" using g that by (simp add: greedy_def mset_remove1 algebra_simps)
    then show ?thesis using mem by simp
  qed
  have d: "pp_value (last (p # new)) \<le> pp_value q"
    if q: "q \<in> set remaining - set (p # new)"
      "required - so_far - sum_list (map pp_value (butlast (p # new))) \<le> pp_value q" for q
  proof (cases "new = []")
    case True
    with q choose_spec(2) [OF p, of q] show ?thesis by simp
  next
    case False
    have "q \<in> set (remove1 p remaining) - set new" using q(1) by auto
    with False g q(2) show ?thesis by (auto simp: greedy_def algebra_simps)
  qed
  from a b c d show ?thesis unfolding greedy_def by blast
qed

lemma select_loop_greedy:
  assumes "select_loop required remaining selected so_far = Inr (selected', so_far')" "distinct (map pp_id remaining)"
  shows "\<exists>new. selected' = selected @ new \<and> so_far' = so_far + sum_list (map pp_value new) \<and>
    greedy required so_far remaining new"
  using assms
proof (induction "length remaining" arbitrary: remaining selected so_far)
  case 0
  then show ?case by (auto simp: select_loop_unfold greedy_def)
next
  case (Suc n)
  show ?case
  proof (cases "so_far < required")
    case False
    with Suc.prems have "selected' = selected" "so_far' = so_far" by (subst (asm) select_loop_unfold, auto)+
    with False show ?thesis by (auto simp: greedy_def)
  next
    case True
    have "remaining \<noteq> []" using Suc.hyps(2) by auto
    with True Suc.prems(1) obtain p rest where p: "choose_next (required - so_far) remaining = Inr p"
      "py_remove p remaining = Inr rest"
      "select_loop required rest (selected @ [p]) (so_far + pp_value p) = Inr (selected', so_far')"
      by (subst (asm) select_loop_unfold) (auto simp: res_simps)
    have rest: "rest = remove1 p remaining"
      using py_remove_remove1 [OF choose_spec(1) [OF p(1)] Suc.prems(2)] p(2) by simp
    have "distinct (map pp_id rest)" "n = length rest"
      using Suc.prems(2) Suc.hyps(2) py_remove_length [OF p(2)] unfolding rest by (simp_all add: distinct_remove1_map)
    from Suc.hyps(1) [OF this(2) p(3) this(1)] greedy_step [OF p(1) True] show ?thesis
      unfolding rest by fastforce
  qed
qed

section \<open>Success\<close>

text \<open>Time stamps that can all be compared: parsed, and all with or all without an offset.\<close>

definition comparable :: "prepared_pledge list \<Rightarrow> bool" where
  "comparable ps \<longleftrightarrow> (\<exists>aware. \<forall>p \<in> set ps. \<exists>d. pl_created_at (pp_pledge p) = DT d \<and> is_aware d = aware)"

lemma key_less_total:
  assumes "comparable ps" "p \<in> set ps" "q \<in> set ps"
  shows "\<exists>b. key_less (smallest_first_key p) (smallest_first_key q) = Inr b"
    and "\<exists>b. key_less (largest_first_key p) (largest_first_key q) = Inr b"
proof -
  obtain d e where "pl_created_at (pp_pledge p) = DT d" "pl_created_at (pp_pledge q) = DT e" "is_aware d = is_aware e"
    using assms unfolding comparable_def by metis
  then show "\<exists>b. key_less (smallest_first_key p) (smallest_first_key q) = Inr b"
    "\<exists>b. key_less (largest_first_key p) (largest_first_key q) = Inr b"
    by (auto simp: key_less_def smallest_first_key_def largest_first_key_def datetime_less_def)
qed

lemma min_from_total:
  "(\<And>x y. x \<in> set (b # xs) \<Longrightarrow> y \<in> set (b # xs) \<Longrightarrow> \<exists>c. lt x y = Inr c) \<Longrightarrow> \<exists>m. min_from lt b xs = Inr m"
proof (induction xs arbitrary: b)
  case (Cons x xs)
  obtain c where "lt x b = Inr c" using Cons.prems by force
  moreover obtain m where "min_from lt (if c then x else b) xs = Inr m"
    using Cons.IH [of "if c then x else b"] Cons.prems by fastforce
  ultimately show ?case by simp
qed simp

lemma choose_total:
  assumes "comparable remaining" "remaining \<noteq> []"
  shows "\<exists>p. choose_next shortfall remaining = Inr p"
proof -
  have t: "\<exists>p. py_min key key_less ps = Inr p"
    if "ps \<noteq> []" "\<And>x y. x \<in> set ps \<Longrightarrow> y \<in> set ps \<Longrightarrow> \<exists>b. key_less (key x) (key y) = Inr b"
    for ps and key :: "prepared_pledge \<Rightarrow> _"
    using that min_from_total [of "hd ps" "tl ps" "\<lambda>a b. key_less (key a) (key b)"]
    by (cases ps) (auto simp: py_min_def)
  let ?f = "filter (\<lambda>p. shortfall \<le> pp_value p) remaining"
  have "?f \<noteq> [] \<Longrightarrow> \<exists>p. py_min smallest_first_key key_less ?f = Inr p"
    by (rule t) (use key_less_total(1) [OF assms(1)] in auto)
  moreover have "\<exists>p. py_min largest_first_key key_less remaining = Inr p"
    by (rule t [OF assms(2)]) (use key_less_total(2) [OF assms(1)] in auto)
  ultimately show ?thesis by (auto simp: choose_next_def Let_def simp del: filter_empty_conv)
qed

lemma select_loop_total:
  assumes "comparable remaining" "distinct (map pp_id remaining)"
  shows "\<exists>r. select_loop required remaining selected so_far = Inr r"
  using assms
proof (induction "length remaining" arbitrary: remaining selected so_far)
  case 0
  then show ?case by (simp add: select_loop_unfold)
next
  case (Suc n)
  then have ne: "remaining \<noteq> []" by auto
  obtain p where p: "choose_next (required - so_far) remaining = Inr p" using choose_total [OF Suc.prems(1) ne] by blast
  have r: "py_remove p remaining = Inr (remove1 p remaining)"
    by (rule py_remove_remove1 [OF choose_spec(1) [OF p] Suc.prems(2)])
  have "comparable (remove1 p remaining)" "distinct (map pp_id (remove1 p remaining))" "n = length (remove1 p remaining)"
    using Suc.prems Suc.hyps(2) choose_spec(1) [OF p] set_remove1_subset [of p remaining]
    by (auto simp: comparable_def distinct_remove1_map length_remove1)
  from Suc.hyps(1) [OF this(3,1,2)] p r show ?case by (subst select_loop_unfold) auto
qed

lemma sum_list_submset:
  assumes "mset xs \<subseteq># mset ys" "\<forall>y \<in> set ys. (0 :: int) \<le> f y"
  shows "sum_list (map f xs) \<le> sum_list (map f ys)"
proof -
  obtain z where z: "mset ys = mset xs + z" using assms(1) by (metis subset_mset.le_iff_add)
  have "sum_list (map f ys) = (\<Sum>x\<in>#mset ys. f x)" for ys :: "'a list"
    by (metis mset_map sum_mset_sum_list)
  then have "sum_list (map f ys) = sum_list (map f xs) + (\<Sum>x\<in>#z. f x)" by (simp add: z)
  moreover have "set_mset z \<subseteq> set ys" by (metis z set_mset_mset mset_subset_eq_add_right set_mset_mono)
  then have "\<forall>x \<in># z. 0 \<le> f x" using assms(2) by auto
  then have "0 \<le> (\<Sum>x\<in>#z. f x)" by (induction z) auto
  ultimately show ?thesis by simp
qed

lemma sum_list_mset: "mset xs = mset ys \<Longrightarrow> sum_list (map f xs) = sum_list (map (f :: _ \<Rightarrow> int) ys)"
  by (metis mset_map sum_mset_sum_list)

lemma select_pledges_Inr:
  assumes "select_pledges c ps fee = Inr sel" "distinct (map pp_id ps)"
  shows "0 \<le> fee \<and> camp_asking_price c + fee \<le> sum_list (map pp_value sel) \<and>
    greedy (camp_asking_price c + fee) 0 ps sel"
  using assms select_loop_greedy [OF _ assms(2), of "camp_asking_price c + fee" "[]" 0]
  by (auto simp: select_pledges_def Let_def res_simps split: if_splits prod.splits)

lemma select_pledges_decided:
  assumes "comparable ps" "distinct (map pp_id ps)" "0 \<le> fee" "\<forall>p \<in> set ps. 0 \<le> pp_value p"
  shows "if camp_asking_price c + fee \<le> sum_list (map pp_value ps)
         then \<exists>sel. select_pledges c ps fee = Inr sel
         else select_pledges c ps fee = Inl (ValueError ''Not enough valid pledges.'')"
proof -
  let ?req = "camp_asking_price c + fee"
  obtain sel tot where l: "select_loop ?req ps [] 0 = Inr (sel, tot)"
    using select_loop_total [OF assms(1,2), of ?req "[]" 0] by auto
  from select_loop_greedy [OF this assms(2)] have tot: "tot = sum_list (map pp_value sel)" and g: "greedy ?req 0 ps sel"
    by auto
  have "?req \<le> sum_list (map pp_value ps) \<Longrightarrow> ?req \<le> tot"
    using g tot sum_list_mset [of sel ps pp_value] by (force simp: greedy_def)
  moreover have "?req \<le> tot \<Longrightarrow> ?req \<le> sum_list (map pp_value ps)"
    using g tot sum_list_submset [of sel ps pp_value] assms(4) by (auto simp: greedy_def)
  ultimately show ?thesis using l assms(3) by (auto simp: select_pledges_def)
qed

lemma select_pledges_iff:
  assumes "comparable ps" "distinct (map pp_id ps)" "0 \<le> fee" "\<forall>p \<in> set ps. 0 \<le> pp_value p"
  shows "(\<exists>sel. select_pledges c ps fee = Inr sel) \<longleftrightarrow> camp_asking_price c + fee \<le> sum_list (map pp_value ps)"
  using select_pledges_decided [OF assms, of c] by (auto split: if_splits)

section \<open>Examples\<close>

lemma pad_numeral:
  "pad 2 v = [char_of (48 + v div 10 mod 10), char_of (48 + v mod 10)]"
  "pad 4 v = [char_of (48 + v div 10 div 10 div 10 mod 10), char_of (48 + v div 10 div 10 mod 10),
     char_of (48 + v div 10 mod 10), char_of (48 + v mod 10)]"
proof -
  have "(2 :: nat) = Suc (Suc 0)" "(4 :: nat) = Suc (Suc (Suc (Suc 0)))" by simp_all
  then show "pad 2 v = [char_of (48 + v div 10 mod 10), char_of (48 + v mod 10)]"
    "pad 4 v = [char_of (48 + v div 10 div 10 div 10 mod 10), char_of (48 + v div 10 div 10 mod 10),
     char_of (48 + v div 10 mod 10), char_of (48 + v mod 10)]"
    by (simp_all only: pad.simps append.simps)
qed

definition example_campaign :: funding_campaign where
  "example_campaign = \<lparr>camp_id = 1, camp_solution_id = 2, camp_solution_hash = ''00'',
     camp_payout_address = Some ''bcrt1q'', camp_asking_price = 900, camp_deadline = Some 100,
     camp_created_at = DT \<lparr>dt_year = 2025, dt_month = 1, dt_day = 1, dt_hour = 0, dt_minute = 0,
       dt_second = 0, dt_microsecond = 0, dt_utcoffset = Some 0\<rparr>\<rparr>"

definition example_prepared :: "uuid \<Rightarrow> int \<Rightarrow> int option \<Rightarrow> prepared_pledge" where
  "example_prepared i v offset =
     \<lparr>pp_pledge = \<lparr>pl_id = i, pl_campaign_id = 1, pl_pledger_id = 5, pl_txid = ''aa'', pl_vout = uint i,
        pl_value_sats = v, pl_signed_psbt = ''AA=='',
        pl_created_at = DT \<lparr>dt_year = 2025, dt_month = 2, dt_day = 1, dt_hour = 0, dt_minute = 0,
          dt_second = 0, dt_microsecond = 0, dt_utcoffset = offset\<rparr>\<rparr>,
      pp_raw_tx_hex = ''00''\<rparr>"

lemma example_selection:
  "select_pledges example_campaign
     [example_prepared 1 300 (Some 0), example_prepared 2 700 (Some 0), example_prepared 3 500 (Some 0)] 100 =
   Inr [example_prepared 2 700 (Some 0), example_prepared 1 300 (Some 0)]"
  by (simp add: select_pledges_def example_campaign_def select_loop_unfold choose_next_def py_min_def
      key_less_def smallest_first_key_def largest_first_key_def example_prepared_def prepared_eq_def
      pledge_eq_def)

section \<open>Properties\<close>

text \<open>
  C23. A selection is a sub-multiset of the prepared pledges that covers the asking price and the fee
  buffer; no proper prefix of it does, and the last pledge is the smallest unselected one that
  covers what was still missing.
\<close>

theorem selection_sound:
  assumes "select_pledges c ps fee = Inr sel" and "distinct (map (\<lambda>p. pl_id (pp_pledge p)) ps)"
  shows "mset sel \<subseteq># mset ps \<and> camp_asking_price c + fee \<le> sum_list (map pp_value sel) \<and>
    (\<forall>k < length sel. sum_list (map pp_value (take k sel)) < camp_asking_price c + fee) \<and>
    (sel \<noteq> [] \<longrightarrow> (\<forall>q \<in> set ps - set sel.
       camp_asking_price c + fee - sum_list (map pp_value (butlast sel)) \<le> pp_value q \<longrightarrow> pp_value (last sel) \<le> pp_value q))"
  using select_pledges_Inr [OF assms] by (simp add: greedy_def)

theorem selection_sound_witness:
  "\<exists>sel. select_pledges example_campaign
       [example_prepared 1 300 (Some 0), example_prepared 2 700 (Some 0), example_prepared 3 500 (Some 0)] 100 = Inr sel \<and>
     1000 \<le> sum_list (map pp_value sel) \<and> (\<forall>k < length sel. sum_list (map pp_value (take k sel)) < 1000)"
proof -
  have "camp_asking_price example_campaign + 100 = 1000" by (simp add: example_campaign_def)
  then show ?thesis
    using selection_sound [OF example_selection] by (simp add: example_selection) (simp add: example_prepared_def)
qed

text \<open>
  C24. The selection always returns, when the time stamps can be compared: it succeeds exactly when
  the prepared pledges cover the required total, and otherwise raises \<^verbatim>\<open>ValueError\<close>.
\<close>

theorem selection_complete:
  assumes "comparable ps" "distinct (map (\<lambda>p. pl_id (pp_pledge p)) ps)" "0 \<le> fee" "\<forall>p \<in> set ps. 0 \<le> pp_value p"
  shows "if camp_asking_price c + fee \<le> sum_list (map pp_value ps)
         then \<exists>sel. select_pledges c ps fee = Inr sel
         else select_pledges c ps fee = Inl (ValueError ''Not enough valid pledges.'')"
  using assms by (rule select_pledges_decided)

theorem selection_complete_witness:
  "\<exists>sel. select_pledges example_campaign [example_prepared 1 300 (Some 0), example_prepared 2 700 (Some 0)] 50 = Inr sel"
proof -
  have "comparable [example_prepared 1 300 (Some 0), example_prepared 2 700 (Some 0)]"
    by (auto simp: comparable_def example_prepared_def is_aware_def)
  from selection_complete [OF this, of 50 example_campaign] show ?thesis
    by (simp add: example_campaign_def example_prepared_def)
qed

text \<open>
  Two pledges of the same value, one with an aware and one with a naive time stamp, make the
  selection raise \<^verbatim>\<open>TypeError\<close> although either would cover the required total. Both time stamps
  are accepted by \<^verbatim>\<open>parse_datetime\<close> from a peer's message.
\<close>

theorem selection_mixed_timestamps:
  "select_pledges example_campaign [example_prepared 1 1000 (Some 0), example_prepared 2 1000 None] 100 =
     Inl (TypeError ''can't compare offset-naive and offset-aware datetimes'') \<and>
   parse_datetime (JStr ''2025-02-01T00:00:00'') =
     Inr \<lparr>dt_year = 2025, dt_month = 2, dt_day = 1, dt_hour = 0, dt_minute = 0, dt_second = 0,
          dt_microsecond = 0, dt_utcoffset = None\<rparr>"
proof
  show "select_pledges example_campaign [example_prepared 1 1000 (Some 0), example_prepared 2 1000 None] 100 =
     Inl (TypeError ''can't compare offset-naive and offset-aware datetimes'')"
    by (simp add: select_pledges_def example_campaign_def select_loop_unfold choose_next_def py_min_def
      key_less_def smallest_first_key_def example_prepared_def datetime_eq_def datetime_less_def is_aware_def)
  show "parse_datetime (JStr ''2025-02-01T00:00:00'') =
     Inr \<lparr>dt_year = 2025, dt_month = 2, dt_day = 1, dt_hour = 0, dt_minute = 0, dt_second = 0,
          dt_microsecond = 0, dt_utcoffset = None\<rparr>"
    using parse_datetime_isoformat [of "\<lparr>dt_year = 2025, dt_month = 2, dt_day = 1, dt_hour = 0, dt_minute = 0,
        dt_second = 0, dt_microsecond = 0, dt_utcoffset = None\<rparr>"]
    by (simp add: isoformat_def iso_time_def valid_datetime_def days_in_month_def pad_numeral digit_chars del: pad.simps)
qed

end
