(* ===== verification/Funding_Props.thy ===== *)
theory Funding_Props
  imports Funding_Selection "HOL-Library.Sublist"
begin

text \<open>
  Properties of the funding service: which operations write, what a stored pledge and a new campaign
  satisfy, what the final plan contains, and that nothing is broadcast before the node accepts it.
\<close>

section \<open>Operations that do not write\<close>

definition keeps_db :: "'a funding_op \<Rightarrow> bool" where
  "keeps_db f \<longleftrightarrow> (\<forall>s. fs_db (snd (f s)) = fs_db s)"

lemma keeps_dbD: "keeps_db f \<Longrightarrow> f s = (r, s') \<Longrightarrow> fs_db s' = fs_db s"
  by (metis keeps_db_def snd_conv)

lemma keeps_db_sbind:
  "keeps_db f \<Longrightarrow> (\<And>x. keeps_db (g x)) \<Longrightarrow> keeps_db (sbind f g)"
  unfolding keeps_db_def sbind_def by (auto split: prod.splits sum.splits) (metis snd_conv)+

lemma keeps_db_basic:
  "keeps_db (sreturn x)" "keeps_db (sraise e)" "keeps_db (slift r)" "keeps_db (swhen_raise b e')"
  "keeps_db (on_rpc f)" "keeps_db (read_repo g)"
  by (simp_all add: keeps_db_def on_rpc_def read_repo_def swhen_raise_def split: prod.splits)

lemma keeps_db_scatch:
  "keeps_db m \<Longrightarrow> (\<And>e k. h e = Some k \<Longrightarrow> keeps_db k) \<Longrightarrow> keeps_db (scatch m h)"
  unfolding keeps_db_def scatch_def by (auto split: prod.splits sum.splits option.splits) (metis snd_conv)+

lemma keeps_db_if: "keeps_db f \<Longrightarrow> keeps_db g \<Longrightarrow> keeps_db (if b then f else g)"
  by simp

lemma keeps_db_option: "keeps_db f \<Longrightarrow> (\<And>x. keeps_db (g x)) \<Longrightarrow> keeps_db (case y of None \<Rightarrow> f | Some x \<Rightarrow> g x)"
  by (cases y) simp_all

lemma keeps_db_sum: "(\<And>x. keeps_db (f x)) \<Longrightarrow> (\<And>x. keeps_db (g x)) \<Longrightarrow> keeps_db (case y of Inl x \<Rightarrow> f x | Inr x \<Rightarrow> g x)"
  by (cases y) simp_all

lemma keeps_db_prod: "(\<And>a b. keeps_db (f a b)) \<Longrightarrow> keeps_db (case p of (a, b) \<Rightarrow> f a b)"
  by (cases p) simp

lemmas keeps_db_intros = keeps_db_sbind keeps_db_basic keeps_db_if keeps_db_option keeps_db_sum keeps_db_prod

lemma keeps_db_require [intro]: "keeps_db (require_campaign i)"
  unfolding require_campaign_def by (intro keeps_db_intros)

lemma keeps_db_height [intro]: "keeps_db (height_or_ask node h)"
  unfolding height_or_ask_def by (intro keeps_db_intros)

lemma keeps_db_ensure [intro]: "keeps_db (ensure_campaign_not_expired node c)"
  unfolding ensure_campaign_not_expired_def by (intro keeps_db_intros)

lemma keeps_db_unsigned [intro]: "keeps_db (build_unsigned_pledge_transaction cfg node c t v)"
  unfolding build_unsigned_pledge_transaction_def by (intro keeps_db_intros)

lemma keeps_db_finalized [intro]: "keeps_db (validate_finalized_pledge_transaction cfg node p c d)"
  unfolding validate_finalized_pledge_transaction_def
  by (auto intro!: keeps_db_intros split: json.splits list.splits)

lemma keeps_db_chain [intro]: "keeps_db (validate_pledge_against_chain cfg node p c h)"
  unfolding validate_pledge_against_chain_def catch_value_error_def
  by (intro keeps_db_intros keeps_db_height keeps_db_scatch) (auto intro!: keeps_db_intros split: if_splits)

lemma keeps_db_given_or: "keeps_db f \<Longrightarrow> keeps_db (given_or x f)"
  by (auto simp: given_or_def intro!: keeps_db_intros split: option.splits)

lemma keeps_db_validate [intro]: "keeps_db (validate_pledge_for_campaign cfg node p c r d h)"
  unfolding validate_pledge_for_campaign_def
  by (intro keeps_db_intros keeps_db_chain keeps_db_finalized keeps_db_scatch keeps_db_given_or)
    (auto intro!: keeps_db_intros split: if_splits)

lemma keeps_db_validate_pledge [intro]: "keeps_db (validate_pledge cfg node p r)"
  unfolding validate_pledge_def by (intro keeps_db_intros keeps_db_validate)

lemma keeps_db_finalize [intro]: "keeps_db (finalize_stored_pledge node p)"
  unfolding finalize_stored_pledge_def
  by (intro keeps_db_scatch keeps_db_intros) (auto intro!: keeps_db_intros)

lemma keeps_db_prepare_loop [intro]: "keeps_db (prepare_loop cfg node c h ps)"
proof (induction ps)
  case Nil
  then show ?case by (simp add: keeps_db_def)
next
  case (Cons p ps)
  then show ?case
    unfolding prepare_loop.simps by (intro keeps_db_intros keeps_db_finalize keeps_db_validate)
qed

lemma keeps_db_prepare [intro]:
  "keeps_db (prepare_valid_pledges_for_campaign cfg node c h)"
  "keeps_db (prepare_valid_pledges_for_open_campaign cfg node c h)"
  unfolding prepare_valid_pledges_for_open_campaign_def prepare_valid_pledges_for_campaign_def
  by (intro keeps_db_intros keeps_db_height keeps_db_prepare_loop)+

lemma keeps_db_reads:
  "keeps_db (get_valid_pledges cfg node i)"
  "keeps_db (compute_funding_status cfg node i fee)"
  "keeps_db (prepare_final_transaction cfg node i fee)"
  "keeps_db (create_pledge_request cfg node i pledger t v)"
  unfolding get_valid_pledges_def compute_funding_status_def prepare_final_transaction_def
    create_pledge_request_def Let_def
  by (intro keeps_db_intros keeps_db_require keeps_db_prepare keeps_db_ensure)+

lemma keeps_db_build [intro]: "keeps_db (build_final_transaction cfg node i fee)"
  unfolding build_final_transaction_def by (intro keeps_db_intros keeps_db_reads)

lemma keeps_db_broadcast [intro]: "keeps_db (broadcast_final_transaction cfg node i fee)"
  unfolding broadcast_final_transaction_def by (intro keeps_db_intros keeps_db_build)

section \<open>Sequencing\<close>

text \<open>After a first part that does not write, an operation has failed without a write or goes on
  from the same database.\<close>

lemma sbind_read:
  assumes "keeps_db f" "sbind f g s = (r, s')"
  obtains (failed) e where "f s = (Inl e, s')" "r = Inl e" "fs_db s' = fs_db s"
  | (continued) x s1 where "f s = (Inr x, s1)" "fs_db s1 = fs_db s" "g x s1 = (r, s')"
  using assms keeps_dbD [OF assms(1)]
  by (cases "f s"; cases "fst (f s)") (auto simp: sbind_def)

text \<open>A write at the end, from a database \<open>d\<close>: it either succeeds or leaves the database alone.\<close>

definition writes_at :: "db \<Rightarrow> 'a funding_op \<Rightarrow> ('a \<Rightarrow> db \<Rightarrow> bool) \<Rightarrow> bool" where
  "writes_at d f Q \<longleftrightarrow> (\<forall>s r s'. fs_db s = d \<longrightarrow> f s = (r, s') \<longrightarrow>
     (case r of Inl e \<Rightarrow> fs_db s' = d | Inr x \<Rightarrow> Q x (fs_db s')))"

lemma writes_atI:
  "(\<And>s r s'. fs_db s = d \<Longrightarrow> f s = (r, s') \<Longrightarrow> case r of Inl e \<Rightarrow> fs_db s' = d | Inr x \<Rightarrow> Q x (fs_db s')) \<Longrightarrow>
     writes_at d f Q"
  unfolding writes_at_def by blast

lemma writes_atD:
  "writes_at d f Q \<Longrightarrow> fs_db s = d \<Longrightarrow> f s = (r, s') \<Longrightarrow>
     case r of Inl e \<Rightarrow> fs_db s' = d | Inr x \<Rightarrow> Q x (fs_db s')"
  unfolding writes_at_def by blast

lemma writes_at_sbind:
  assumes f: "keeps_db f" and g: "\<And>x s s1. fs_db s = d \<Longrightarrow> f s = (Inr x, s1) \<Longrightarrow> writes_at d (g x) Q"
  shows "writes_at d (sbind f g) Q"
proof (rule writes_atI)
  fix s r s'
  assume d: "fs_db s = d" and "sbind f g s = (r, s')"
  from f this(2) show "case r of Inl e \<Rightarrow> fs_db s' = d | Inr x \<Rightarrow> Q x (fs_db s')"
  proof (cases rule: sbind_read)
    case (continued x s1)
    then show ?thesis using writes_atD [OF g [OF d continued(1)]] d by blast
  qed (simp add: d)
qed

lemma writes_at_raise: "writes_at d (sraise e) Q"
  by (simp add: writes_at_def)

lemma writes_at_option:
  "(y = None \<Longrightarrow> writes_at d f Q) \<Longrightarrow> (\<And>x. y = Some x \<Longrightarrow> writes_at d (g x) Q) \<Longrightarrow>
     writes_at d (case y of None \<Rightarrow> f | Some x \<Rightarrow> g x) Q"
  by (cases y) auto

text \<open>The final write of \<open>create_campaign\<close> and \<open>submit_signed_pledge\<close>.\<close>

lemma translate_raises: "translate_integrity_error t e = Some k \<Longrightarrow> \<exists>m. k = sraise (ValueError m)"
  by (auto simp: translate_integrity_error_def split: py_exn.splits)

lemma writes_at_store:
  assumes "\<And>e d'. add d = (Inl e, d') \<Longrightarrow> d' = d" "\<And>d'. add d = (Inr (), d') \<Longrightarrow> Q x d'"
  shows "writes_at d (sbind (scatch (on_repo add) (translate_integrity_error t)) (\<lambda>_. sreturn x)) Q"
proof (rule writes_atI)
  fix s r s'
  assume a: "fs_db s = d" "sbind (scatch (on_repo add) (translate_integrity_error t)) (\<lambda>_. sreturn x) s = (r, s')"
  obtain q d' where q: "add d = (q, d')" by (cases "add d")
  show "case r of Inl e \<Rightarrow> fs_db s' = d | Inr y \<Rightarrow> Q y (fs_db s')"
  proof (cases q)
    case (Inl e)
    with assms(1) q have "d' = d" by blast
    show ?thesis
    proof (cases "translate_integrity_error t e :: unit funding_op option")
      case None
      with a q Inl \<open>d' = d\<close> show ?thesis by (auto simp: sbind_def scatch_def on_repo_def)
    next
      case (Some k)
      then obtain m where "k = sraise (ValueError m)" using translate_raises by blast
      with Some a q Inl \<open>d' = d\<close> show ?thesis by (auto simp: sbind_def scatch_def on_repo_def)
    qed
  next
    case (Inr u)
    with a q assms(2) show ?thesis by (auto simp: sbind_def scatch_def on_repo_def)
  qed
qed

lemma require_campaign_Inr:
  "require_campaign i s = (Inr c, s') \<longleftrightarrow> get_campaign i (fs_db s) = Inr (Some c) \<and> s' = s"
  by (auto simp: require_campaign_def sbind_def read_repo_def split: sum.splits option.splits)

section \<open>Creating a campaign\<close>

text \<open>The part of \<open>create_campaign\<close> that checks the terms and computes the deadline.\<close>

definition campaign_deadline :: "rpc_node \<Rightarrow> string option \<Rightarrow> int \<Rightarrow> int option \<Rightarrow> int option funding_op" where
  "campaign_deadline node payout asking_price offset =
     (if asking_price = 0 then
        sbind (swhen_raise (payout \<noteq> None)
           (ValueError ''developer_payout_address must be omitted when asking_price_sats is 0.'')) (\<lambda>_.
        sbind (swhen_raise (offset \<noteq> None)
           (ValueError ''deadline_height_offset must be omitted when asking_price_sats is 0.'')) (\<lambda>_.
        sreturn None))
      else
        sbind (swhen_raise (payout = None)
           (ValueError ''developer_payout_address is required when asking_price_sats is positive.'')) (\<lambda>_.
        case offset of
          None \<Rightarrow> sraise (ValueError ''deadline_height_offset is required when asking_price_sats is positive.'')
        | Some n \<Rightarrow>
            sbind (swhen_raise (n \<le> 0) (ValueError ''deadline_height_offset must be positive.'')) (\<lambda>_.
            sbind (on_rpc (get_block_count node)) (\<lambda>current_height.
            sreturn (Some (current_height + n))))))"

lemma keeps_db_deadline: "keeps_db (campaign_deadline node payout asking offset)"
  unfolding campaign_deadline_def by (intro keeps_db_intros)

lemma on_rpc_Inr: "on_rpc f s = (Inr x, s') \<Longrightarrow> f (fs_rpc s) = (Inr x, fs_rpc s') \<and> fs_db s' = fs_db s"
  by (auto simp: on_rpc_def split: prod.splits)

lemma campaign_deadline_Inr:
  assumes "campaign_deadline node payout asking offset s = (Inr dl, s')"
  shows "if asking = 0 then dl = None
    else \<exists>n h c c'. offset = Some n \<and> 0 < n \<and> get_block_count node c = (Inr h, c') \<and> dl = Some (h + n)"
  using assms
  by (auto simp: campaign_deadline_def res_simps split: if_splits option.splits dest!: on_rpc_Inr)

definition created_campaign ::
    "rpc_node \<Rightarrow> solution \<Rightarrow> int \<Rightarrow> int option \<Rightarrow> db \<Rightarrow> funding_campaign \<Rightarrow> db \<Rightarrow> bool" where
  "created_campaign node sol asking offset d c d' \<longleftrightarrow>
     add_campaign c d = (Inr (), d') \<and> campaign_ok c \<and> camp_solution_id c = sol_id sol \<and>
     compute_hash sol = Inr (camp_solution_hash c) \<and> camp_asking_price c = asking \<and>
     (if asking = 0 then camp_deadline c = None
      else \<exists>n h rc rc'. offset = Some n \<and> 0 < n \<and> get_block_count node rc = (Inr h, rc') \<and>
             camp_deadline c = Some (h + n))"

lemma create_campaign_writes:
  "writes_at d (create_campaign node new_id t sol payout asking offset)
     (\<lambda>c d'. created_campaign node sol asking offset d c d' \<and> camp_id c = new_id \<and> camp_created_at c = DT t)"
  unfolding create_campaign_def Let_def campaign_deadline_def [symmetric]
proof (intro writes_at_store writes_at_sbind keeps_db_basic keeps_db_deadline, goal_cases)
  case (1 x s s1 dl sa s1a h sb s1b c sc s1c e d')
  then show ?case by (blast dest: add_error)
next
  case (2 x s s1 dl sa s1a h sb s1b c sc s1c d')
  have "campaign_ok c" "camp_solution_id c = sol_id sol" "camp_solution_hash c = h" "camp_asking_price c = asking"
    "camp_deadline c = dl" "camp_id c = new_id" "camp_created_at c = DT t"
    using 2 by (auto dest!: campaign_post_init_Inr)
  moreover have "compute_hash sol = Inr h" "add_campaign c d = (Inr (), d')" using 2 by simp_all
  moreover have "campaign_deadline node (normalize_payout payout) asking offset sa = (Inr dl, s1a)" using 2 by simp
  ultimately show ?case using campaign_deadline_Inr unfolding created_campaign_def by blast
qed

section \<open>Valid pledges\<close>

definition on_chain :: "funding_config \<Rightarrow> rpc_node \<Rightarrow> funding_pledge \<Rightarrow> funding_campaign \<Rightarrow> int \<Rightarrow> bool" where
  "on_chain cfg node p c height \<longleftrightarrow>
     is_active c \<and> past_deadline c height = Inr False \<and>
     (\<exists>u rc rc' k. get_tx_out node (JStr (pl_txid p)) (JInt (pl_vout p)) (JBool True) rc = (Inr (Some u), rc') \<and>
        ensure_utxo_has_min_confirmations cfg u = Inr k \<and> min_confirmations cfg \<le> k \<and>
        utxo_value_sats u = Inr (pl_value_sats p))"

definition matches_template ::
    "funding_config \<Rightarrow> rpc_node \<Rightarrow> funding_pledge \<Rightarrow> funding_campaign \<Rightarrow> (string \<times> json) list \<Rightarrow> bool" where
  "matches_template cfg node p c decoded \<longleftrightarrow>
     (\<exists>vin v. jget ''vin'' decoded JNull = JList [vin] \<and> py_get ''txid'' vin = Inr (JStr (pl_txid p)) \<and>
        py_get ''vout'' vin = Inr v \<and> py_int_of v = Inr (pl_vout p)) \<and>
     (\<exists>s raw s' rc expected rc' sequence.
        build_unsigned_pledge_transaction cfg node c (pl_txid p) (pl_vout p) s = (Inr raw, s') \<and>
        decode_raw_transaction node (JStr raw) rc = (Inr expected, rc') \<and>
        json_eq (jget ''vout'' decoded JNull) (jget ''vout'' expected JNull) \<and>
        extract_single_input_sequence expected = Inr sequence \<and>
        extract_single_input_sequence decoded = Inr sequence)"

lemma catch_confirmed:
  "catch_value_error False (sbind (slift r) (\<lambda>_. sreturn True)) s = (Inr True, s') \<longleftrightarrow> (\<exists>k. r = Inr k) \<and> s' = s"
  by (cases r) (auto simp: catch_value_error_def scatch_def sbind_def)

text \<open>The height that a validation uses: the snapshot, or an answer of the node.\<close>

definition height_used :: "rpc_node \<Rightarrow> int option \<Rightarrow> int \<Rightarrow> bool" where
  "height_used node snapshot h \<longleftrightarrow>
     (case snapshot of Some n \<Rightarrow> h = n | None \<Rightarrow> \<exists>rc rc'. get_block_count node rc = (Inr h, rc'))"

lemma height_or_ask_Inr: "height_or_ask node ho s = (Inr h, s') \<Longrightarrow> height_used node ho h"
  by (auto simp: height_or_ask_def height_used_def split: option.splits dest!: on_rpc_Inr)

lemma against_chain_None:
  assumes "validate_pledge_against_chain cfg node p c ho s = (Inr None, s')"
  shows "\<exists>h. height_used node ho h \<and> on_chain cfg node p c h"
proof -
  have a: "is_active c" using assms by (auto simp: validate_pledge_against_chain_def split: if_splits)
  obtain h s0 where h: "height_or_ask node ho s = (Inr h, s0)"
    using assms a by (auto simp: validate_pledge_against_chain_def res_simps)
  obtain past where past: "past_deadline c h = Inr past"
    using assms a h by (auto simp: validate_pledge_against_chain_def res_simps)
  with assms a h have np: "\<not> past"
    by (auto simp: validate_pledge_against_chain_def res_simps split: if_splits)
  obtain utxo s2 where u: "on_rpc (get_tx_out node (JStr (pl_txid p)) (JInt (pl_vout p)) (JBool True)) s0 = (Inr utxo, s2)"
    "(case utxo of
            None \<Rightarrow> sreturn (Some (invalid ''Pledged UTXO is spent or unknown.''))
          | Some u \<Rightarrow>
              sbind (catch_value_error False
                  (sbind (slift (ensure_utxo_has_min_confirmations cfg u)) (\<lambda>_. sreturn True))) (\<lambda>confirmed.
              if \<not> confirmed then sreturn (Some (invalid ''Pledged UTXO has too few confirmations.''))
              else
                sbind (slift (utxo_value_sats u)) (\<lambda>chain_value_sats.
                sreturn (if chain_value_sats \<noteq> pl_value_sats p
                  then Some (invalid ''Stored pledge value does not match UTXO.'') else None)))) s2 = (Inr None, s')"
    using assms a h past np by (auto simp: validate_pledge_against_chain_def res_simps)
  from u(2) obtain x where x: "utxo = Some x" by (cases utxo) auto
  with u(2) obtain k where "ensure_utxo_has_min_confirmations cfg x = Inr k" "utxo_value_sats x = Inr (pl_value_sats p)"
    by (auto simp: sbind_Inr_iff catch_confirmed split: if_splits)
  moreover from this have "min_confirmations cfg \<le> k"
    by (auto simp: ensure_utxo_has_min_confirmations_def res_simps split: if_splits)
  moreover have "past_deadline c h = Inr False" using past np by simp
  ultimately show ?thesis
    unfolding on_chain_def using a on_rpc_Inr [OF u(1)] x height_or_ask_Inr [OF h] by blast
qed

lemma finalized_None:
  assumes "validate_finalized_pledge_transaction cfg node p c decoded s = (Inr None, s')"
  shows "matches_template cfg node p c decoded"
proof -
  obtain vin where vin: "jget ''vin'' decoded JNull = JList [vin]"
    using assms by (auto simp: validate_finalized_pledge_transaction_def split: json.splits list.splits)
  obtain t where t: "py_get ''txid'' vin = Inr t"
    using assms vin by (auto simp: validate_finalized_pledge_transaction_def res_simps)
  obtain v where v: "py_get ''vout'' vin = Inr v"
    using assms vin t by (auto simp: validate_finalized_pledge_transaction_def res_simps)
  have same: "t = JStr (pl_txid p)" "py_int_of v = Inr (pl_vout p)"
    using assms vin t v
    by (auto simp: validate_finalized_pledge_transaction_def sbind_Inr_iff split: if_splits)
  obtain raw s1 expected s2 where e: "build_unsigned_pledge_transaction cfg node c (pl_txid p) (pl_vout p) s = (Inr raw, s1)"
    "on_rpc (decode_raw_transaction node (JStr raw)) s1 = (Inr expected, s2)"
    "(if \<not> json_eq (jget ''vout'' decoded JNull) (jget ''vout'' expected JNull)
            then sreturn (Some (invalid ''Pledge transaction has wrong outputs.''))
            else
              sbind (slift (extract_single_input_sequence expected)) (\<lambda>expected_sequence.
              sbind (slift (extract_single_input_sequence decoded)) (\<lambda>actual_sequence.
              sreturn (if actual_sequence \<noteq> expected_sequence
                then Some (invalid ''Pledge transaction uses wrong input sequence.'') else None)))) s2 = (Inr None, s')"
    using assms vin t v same by (auto simp: validate_finalized_pledge_transaction_def sbind_Inr_iff)
  from e(3) obtain q where "json_eq (jget ''vout'' decoded JNull) (jget ''vout'' expected JNull)"
    "extract_single_input_sequence expected = Inr q" "extract_single_input_sequence decoded = Inr q"
    by (auto simp: sbind_Inr_iff split: if_splits)
  with e(1) on_rpc_Inr [OF e(2)] vin t v same show ?thesis unfolding matches_template_def by blast
qed

text \<open>A pledge that the service counts: its finalized transaction \<open>raw\<close> decodes to the template.\<close>

definition valid_pledge ::
    "funding_config \<Rightarrow> rpc_node \<Rightarrow> funding_campaign \<Rightarrow> int \<Rightarrow> prepared_pledge \<Rightarrow> bool" where
  "valid_pledge cfg node c height pp \<longleftrightarrow>
     on_chain cfg node (pp_pledge pp) c height \<and>
     (\<exists>rc rc'. finalize_psbt_extract_tx_hex node (JStr (pl_signed_psbt (pp_pledge pp))) rc = (Inr (pp_raw_tx_hex pp), rc')) \<and>
     (\<exists>decoded rc rc'. decode_raw_transaction node (JStr (pp_raw_tx_hex pp)) rc = (Inr decoded, rc') \<and>
        matches_template cfg node (pp_pledge pp) c decoded)"

lemma validate_valid:
  assumes "validate_pledge_for_campaign cfg node p c (Some raw) dec ho s = (Inr v, s')" "pv_valid v"
    and raw: "raw \<noteq> []" and dec: "\<And>d. dec = Some d \<Longrightarrow> \<exists>rc rc'. decode_raw_transaction node (JStr raw) rc = (Inr d, rc')"
  shows "\<exists>h. height_used node ho h \<and> on_chain cfg node p c h \<and>
    (\<exists>decoded rc rc'. decode_raw_transaction node (JStr raw) rc = (Inr decoded, rc') \<and> matches_template cfg node p c decoded)"
proof -
  obtain cv s1 where cv: "validate_pledge_against_chain cfg node p c ho s = (Inr cv, s1)"
    using assms(1) by (auto simp: validate_pledge_for_campaign_def sbind_Inr_iff)
  have "pv_valid x \<Longrightarrow> cv \<noteq> Some x" for x
    using cv by (auto simp: validate_pledge_against_chain_def invalid_def sbind_Inr_iff
        split: if_splits option.splits)
  with assms cv have "cv = None"
    by (cases cv) (auto simp: validate_pledge_for_campaign_def sbind_Inr_iff)
  with assms cv obtain decoded tv s2 s3 where d: "given_or dec (on_rpc (decode_raw_transaction node (JStr raw))) s2 = (Inr decoded, s3)"
    "validate_finalized_pledge_transaction cfg node p c decoded s3 = (Inr tv, s')"
    "v = (case tv of Some v \<Rightarrow> v | None \<Rightarrow> \<lparr>pv_valid = True, pv_reason = None\<rparr>)"
    by (auto simp: validate_pledge_for_campaign_def sbind_Inr_iff scatch_def sbind_def invalid_def given_or_def [of "Some raw"]
        split: prod.splits sum.splits if_splits)
  have "pv_valid x \<Longrightarrow> tv \<noteq> Some x" for x
    using d(2) by (auto simp: validate_finalized_pledge_transaction_def invalid_def sbind_Inr_iff
        split: if_splits json.splits list.splits)
  with d(3) assms(2) have "tv = None" by (cases tv) auto
  moreover have "\<exists>rc rc'. decode_raw_transaction node (JStr raw) rc = (Inr decoded, rc')"
    using d(1) dec by (auto simp: given_or_def split: if_splits option.splits dest!: on_rpc_Inr)
  ultimately show ?thesis using d(2) finalized_None against_chain_None cv \<open>cv = None\<close> by blast
qed

lemma finalize_stored_pledge_Inr:
  assumes "finalize_stored_pledge node p s = (Inr (raw, dec), s')"
  shows "(\<exists>rc rc'. finalize_psbt_extract_tx_hex node (JStr (pl_signed_psbt p)) rc = (Inr raw, rc')) \<and>
    (\<exists>rc rc'. decode_raw_transaction node (JStr raw) rc = (Inr dec, rc')) \<and> raw \<noteq> []"
proof -
  obtain s1 where s1: "on_rpc (finalize_psbt_extract_tx_hex node (JStr (pl_signed_psbt p))) s = (Inr raw, s1)"
    "on_rpc (decode_raw_transaction node (JStr raw)) s1 = (Inr dec, s')"
    using assms
    by (auto simp: finalize_stored_pledge_def scatch_def sbind_def split: prod.splits sum.splits)
  moreover have "raw \<noteq> []"
    using on_rpc_Inr [OF s1(1)]
    by (auto simp: finalize_psbt_extract_tx_hex_def sbind_Inr_iff validate_raw_tx_hex_Inr_iff)
  ultimately show ?thesis using on_rpc_Inr [OF s1(1)] on_rpc_Inr [OF s1(2)] by blast
qed

lemma prepare_loop_valid:
  assumes "prepare_loop cfg node c h ps s = (Inr prepared, s')"
  shows "subseq (map pp_pledge prepared) ps \<and> (\<forall>pp \<in> set prepared. valid_pledge cfg node c h pp)"
  using assms
proof (induction ps arbitrary: prepared s)
  case Nil
  then show ?case by simp
next
  case (Cons p ps)
  obtain raw dec s1 v s2 rest where x: "finalize_stored_pledge node p s = (Inr (raw, dec), s1)"
    "validate_pledge_for_campaign cfg node p c (Some raw) (Some dec) (Some h) s1 = (Inr v, s2)"
    "prepare_loop cfg node c h ps s2 = (Inr rest, s')"
    "prepared = (if pv_valid v then \<lparr>pp_pledge = p, pp_raw_tx_hex = raw\<rparr> # rest else rest)"
    using Cons.prems by (auto simp: sbind_Inr_iff split: prod.splits)
  from Cons.IH [OF x(3)] validate_valid [OF x(2)] finalize_stored_pledge_Inr [OF x(1)] show ?case
    by (auto simp: x(4) valid_pledge_def height_used_def)
qed

text \<open>
  A pledge that the service leaves out: at some moment the node reported its output as spent, with too few
  confirmations or with another value, or its finalized transaction was not the template's, or could not
  be decoded again.
\<close>

definition off_chain :: "funding_config \<Rightarrow> rpc_node \<Rightarrow> funding_pledge \<Rightarrow> bool" where
  "off_chain cfg node p \<longleftrightarrow> (\<exists>utxo rc rc'.
     get_tx_out node (JStr (pl_txid p)) (JInt (pl_vout p)) (JBool True) rc = (Inr utxo, rc') \<and>
     (case utxo of None \<Rightarrow> True
      | Some u \<Rightarrow> (\<exists>e. ensure_utxo_has_min_confirmations cfg u = Inl e) \<or>
          (\<exists>v. utxo_value_sats u = Inr v \<and> v \<noteq> pl_value_sats p)))"

definition deviates :: "funding_config \<Rightarrow> rpc_node \<Rightarrow> funding_pledge \<Rightarrow> funding_campaign \<Rightarrow> (string \<times> json) list \<Rightarrow> bool" where
  "deviates cfg node p c decoded \<longleftrightarrow>
     (\<nexists>vin. jget ''vin'' decoded JNull = JList [vin]) \<or>
     (\<exists>vin t v. jget ''vin'' decoded JNull = JList [vin] \<and> py_get ''txid'' vin = Inr t \<and> py_get ''vout'' vin = Inr v \<and>
        (t \<noteq> JStr (pl_txid p) \<or> (\<exists>n. py_int_of v = Inr n \<and> n \<noteq> pl_vout p))) \<or>
     (\<exists>s raw s' rc expected rc'.
        build_unsigned_pledge_transaction cfg node c (pl_txid p) (pl_vout p) s = (Inr raw, s') \<and>
        decode_raw_transaction node (JStr raw) rc = (Inr expected, rc') \<and>
        (\<not> json_eq (jget ''vout'' decoded JNull) (jget ''vout'' expected JNull) \<or>
         (\<exists>a b. extract_single_input_sequence expected = Inr a \<and> extract_single_input_sequence decoded = Inr b \<and> a \<noteq> b)))"

definition refused :: "funding_config \<Rightarrow> rpc_node \<Rightarrow> funding_campaign \<Rightarrow> funding_pledge \<Rightarrow> bool" where
  "refused cfg node c p \<longleftrightarrow> off_chain cfg node p \<or>
     (\<exists>raw rc rc'. finalize_psbt_extract_tx_hex node (JStr (pl_signed_psbt p)) rc = (Inr raw, rc') \<and>
        ((\<exists>decoded rc rc'. decode_raw_transaction node (JStr raw) rc = (Inr decoded, rc') \<and> deviates cfg node p c decoded) \<or>
         (\<exists>e rc rc'. decode_raw_transaction node (JStr raw) rc = (Inl e, rc'))))"

lemma catch_refused:
  "catch_value_error False (sbind (slift r) (\<lambda>_. sreturn True)) s = (Inr False, s') \<Longrightarrow> (\<exists>e. r = Inl e) \<and> s' = s"
  by (cases r) (auto simp: catch_value_error_def scatch_def sbind_def split: if_splits)

lemma against_chain_Some:
  assumes "validate_pledge_against_chain cfg node p c (Some h) s = (Inr (Some v), s')" "is_active c" "past_deadline c h = Inr False"
  shows "off_chain cfg node p"
proof -
  obtain utxo s2 where u: "on_rpc (get_tx_out node (JStr (pl_txid p)) (JInt (pl_vout p)) (JBool True)) s = (Inr utxo, s2)"
    "(case utxo of
            None \<Rightarrow> sreturn (Some (invalid ''Pledged UTXO is spent or unknown.''))
          | Some u \<Rightarrow>
              sbind (catch_value_error False
                  (sbind (slift (ensure_utxo_has_min_confirmations cfg u)) (\<lambda>_. sreturn True))) (\<lambda>confirmed.
              if \<not> confirmed then sreturn (Some (invalid ''Pledged UTXO has too few confirmations.''))
              else
                sbind (slift (utxo_value_sats u)) (\<lambda>chain_value_sats.
                sreturn (if chain_value_sats \<noteq> pl_value_sats p
                  then Some (invalid ''Stored pledge value does not match UTXO.'') else None)))) s2 = (Inr (Some v), s')"
    using assms by (auto simp: validate_pledge_against_chain_def height_or_ask_def res_simps)
  note g = on_rpc_Inr [OF u(1)]
  show ?thesis
  proof (cases utxo)
    case None
    then show ?thesis using g unfolding off_chain_def by fastforce
  next
    case (Some x)
    with u(2) have "(\<exists>e. ensure_utxo_has_min_confirmations cfg x = Inl e) \<or> (\<exists>v. utxo_value_sats x = Inr v \<and> v \<noteq> pl_value_sats p)"
      by (auto simp: sbind_Inr_iff dest!: catch_refused split: if_splits)
    then show ?thesis using g Some unfolding off_chain_def by fastforce
  qed
qed

lemma finalized_Some:
  assumes "validate_finalized_pledge_transaction cfg node p c decoded s = (Inr (Some v), s')"
  shows "deviates cfg node p c decoded"
proof (cases "\<exists>vin. jget ''vin'' decoded JNull = JList [vin]")
  case True
  then obtain vin where vin: "jget ''vin'' decoded JNull = JList [vin]" by blast
  obtain t where t: "py_get ''txid'' vin = Inr t"
    using assms vin by (auto simp: validate_finalized_pledge_transaction_def res_simps)
  obtain x where x: "py_get ''vout'' vin = Inr x"
    using assms vin t by (auto simp: validate_finalized_pledge_transaction_def res_simps)
  show ?thesis
  proof (cases "t = JStr (pl_txid p) \<and> py_int_of x = Inr (pl_vout p)")
    case False
    then have "t \<noteq> JStr (pl_txid p) \<or> (\<exists>n. py_int_of x = Inr n \<and> n \<noteq> pl_vout p)"
      using assms vin t x by (auto simp: validate_finalized_pledge_transaction_def sbind_Inr_iff split: if_splits)
    then show ?thesis using vin t x unfolding deviates_def by blast
  next
    case same: True
    obtain raw s1 expected s2 where e: "build_unsigned_pledge_transaction cfg node c (pl_txid p) (pl_vout p) s = (Inr raw, s1)"
      "on_rpc (decode_raw_transaction node (JStr raw)) s1 = (Inr expected, s2)"
      "(if \<not> json_eq (jget ''vout'' decoded JNull) (jget ''vout'' expected JNull)
            then sreturn (Some (invalid ''Pledge transaction has wrong outputs.''))
            else
              sbind (slift (extract_single_input_sequence expected)) (\<lambda>expected_sequence.
              sbind (slift (extract_single_input_sequence decoded)) (\<lambda>actual_sequence.
              sreturn (if actual_sequence \<noteq> expected_sequence
                then Some (invalid ''Pledge transaction uses wrong input sequence.'') else None)))) s2 = (Inr (Some v), s')"
      using assms vin t x same by (auto simp: validate_finalized_pledge_transaction_def sbind_Inr_iff)
    from e(3) have "\<not> json_eq (jget ''vout'' decoded JNull) (jget ''vout'' expected JNull) \<or>
        (\<exists>a b. extract_single_input_sequence expected = Inr a \<and> extract_single_input_sequence decoded = Inr b \<and> a \<noteq> b)"
      by (auto simp: sbind_Inr_iff split: if_splits)
    then show ?thesis using e(1) on_rpc_Inr [OF e(2)] unfolding deviates_def by blast
  qed
qed (simp add: deviates_def)

lemma validate_invalid:
  assumes "finalize_stored_pledge node p s0 = (Inr (raw, dec), s)"
    and "validate_pledge_for_campaign cfg node p c (Some raw) (Some dec) (Some h) s = (Inr v, s')" "\<not> pv_valid v"
    and "is_active c" "past_deadline c h = Inr False"
  shows "refused cfg node c p"
proof -
  obtain rc1 rc2 where fin: "finalize_psbt_extract_tx_hex node (JStr (pl_signed_psbt p)) rc1 = (Inr raw, rc2)" "raw \<noteq> []"
    and dec: "\<exists>rc rc'. decode_raw_transaction node (JStr raw) rc = (Inr dec, rc')"
    using finalize_stored_pledge_Inr [OF assms(1)] by blast
  obtain cv s1 where cv: "validate_pledge_against_chain cfg node p c (Some h) s = (Inr cv, s1)"
    using assms(2) by (auto simp: validate_pledge_for_campaign_def sbind_Inr_iff)
  show ?thesis
  proof (cases cv)
    case (Some x)
    then show ?thesis using against_chain_Some [OF _ assms(4,5)] cv by (auto simp: refused_def)
  next
    case None
    obtain q s2 where q: "given_or (Some dec) (on_rpc (decode_raw_transaction node (JStr raw))) s1 = (q, s2)"
      by (rule prod.exhaust)
    show ?thesis
    proof (cases q)
      case (Inl e)
      then have "\<exists>rc rc'. decode_raw_transaction node (JStr raw) rc = (Inl e, rc')"
        using q by (auto simp: given_or_def on_rpc_def split: if_splits prod.splits)
      then show ?thesis using fin(1) unfolding refused_def by blast
    next
      case (Inr decoded)
      have d: "\<exists>rc rc'. decode_raw_transaction node (JStr raw) rc = (Inr decoded, rc')"
        using q Inr dec by (auto simp: given_or_def split: if_splits dest!: on_rpc_Inr)
      obtain tv where "validate_finalized_pledge_transaction cfg node p c decoded s2 = (Inr tv, s')"
        "v = (case tv of Some v \<Rightarrow> v | None \<Rightarrow> \<lparr>pv_valid = True, pv_reason = None\<rparr>)"
        using assms(2) cv None q Inr fin(2)
        by (auto simp: validate_pledge_for_campaign_def sbind_Inr_iff scatch_def sbind_def given_or_def [of "Some raw"]
            split: prod.splits sum.splits)
      then have "deviates cfg node p c decoded" using assms(3) finalized_Some by (cases tv) auto
      then show ?thesis using d fin(1) unfolding refused_def by blast
    qed
  qed
qed

lemma prepare_loop_refused:
  assumes "prepare_loop cfg node c h ps s = (Inr prepared, s')" "is_active c" "past_deadline c h = Inr False"
    and "p \<in> set ps" "p \<notin> pp_pledge ` set prepared"
  shows "refused cfg node c p"
  using assms
proof (induction ps arbitrary: prepared s)
  case (Cons q ps)
  obtain raw dec s1 v s2 rest where x: "finalize_stored_pledge node q s = (Inr (raw, dec), s1)"
    "validate_pledge_for_campaign cfg node q c (Some raw) (Some dec) (Some h) s1 = (Inr v, s2)"
    "prepare_loop cfg node c h ps s2 = (Inr rest, s')"
    "prepared = (if pv_valid v then \<lparr>pp_pledge = q, pp_raw_tx_hex = raw\<rparr> # rest else rest)"
    using Cons.prems(1) by (auto simp: sbind_Inr_iff split: prod.splits)
  show ?case
  proof (cases "p \<in> set ps")
    case True
    then show ?thesis using Cons.IH [OF x(3) Cons.prems(2,3)] Cons.prems(5) x(4) by (auto split: if_splits)
  next
    case False
    then have "p = q" "\<not> pv_valid v" using Cons.prems(4,5) x(4) by (auto split: if_splits)
    then show ?thesis using validate_invalid [OF x(1,2) _ Cons.prems(2,3)] by simp
  qed
qed simp

lemma map_res_Inr_id: "map_res id (map (\<lambda>r. Inr (g r)) rs) = Inr (map g rs)"
  by (induction rs) auto

lemma get_pledges_for_campaign_spec:
  assumes "store_ok d"
  shows "\<exists>ps. get_pledges_for_campaign i d = Inr ps \<and> distinct (map pl_id ps) \<and>
    (\<forall>p. p \<in> set ps \<longleftrightarrow> get_pledge (pl_id p) d = Inr (Some p) \<and> pl_campaign_id p = i) \<and>
    (\<forall>p \<in> set ps. pledge_ok p)"
proof -
  have db: "db_ok d" and c: "canon_ok d" using assms by (simp_all add: store_ok_def)
  note t = db_ok_tables(6) [OF db]
  let ?rows = "filter (\<lambda>r. pr_campaign_id r = uuid_str i) (pledges d)"
  let ?rs = "order_by_asc pr_created_at ?rows"
  define g where "g r = projr (row_to_pledge r)" for r
  have row: "row_to_pledge r = Inr (g r) \<and> r = pledge_to_row (g r) \<and> pledge_ok (g r)" if "r \<in> set (pledges d)" for r
    using rows_ofD [OF canon_okD(4) [OF c] that] row_round_trips(6) by (auto simp: g_def)
  have mset: "mset ?rs = mset ?rows" by (simp add: order_by_asc_def)
  then have set: "set ?rs = set ?rows" by (rule mset_eq_setD)
  have keys: "pr_id r = uuid_str (pl_id (g r))" "pr_campaign_id r = uuid_str (pl_campaign_id (g r))"
    if "r \<in> set (pledges d)" for r
    using row [OF that] by (metis pledge_to_row_def pledge_row.select_convs(1), metis pledge_to_row_def pledge_row.select_convs(2))
  have "map row_to_pledge ?rs = map (\<lambda>r. Inr (g r)) ?rs" using row set by (intro map_cong) auto
  then have "fetch_all (map row_to_pledge ?rs) = Inr (map g ?rs)"
    by (simp only: fetch_all_def map_res_Inr_id)
  moreover have "distinct (map pl_id (map g ?rs))"
  proof -
    have "distinct (map pr_id ?rows)" using t by (simp add: table_ok_def distinct_map_filter)
    then have "distinct (map pr_id ?rs)"
      using mset mset_eq_imp_distinct_iff [of "map pr_id ?rs" "map pr_id ?rows"] by (metis mset_map)
    moreover have "map pr_id ?rs = map uuid_str (map pl_id (map g ?rs))" using keys set by simp
    ultimately show ?thesis by (simp only: distinct_map)
  qed
  moreover have "p \<in> set (map g ?rs) \<longleftrightarrow> get_pledge (pl_id p) d = Inr (Some p) \<and> pl_campaign_id p = i" for p
  proof -
    have "get_pledge (pl_id p) d = Inr (Some p) \<longleftrightarrow> (\<exists>r \<in> set (pledges d). row_to_pledge r = Inr p)"
      using keys row by (auto simp: gets_as_lookup lookup_row_Some_iff [OF t])
    also have "\<dots> \<longleftrightarrow> (\<exists>r \<in> set (pledges d). g r = p)" using row by auto
    finally show ?thesis using keys(2) set uuid_str_inj by (auto simp: image_iff)
  qed
  moreover have "\<forall>p \<in> set (map g ?rs). pledge_ok p" using row set by auto
  ultimately show ?thesis unfolding get_pledges_for_campaign_def by blast
qed

section \<open>Submitting a pledge\<close>

text \<open>What a successful submission has checked, and written to the database \<open>d\<close>.\<close>

definition submitted :: "funding_config \<Rightarrow> rpc_node \<Rightarrow> uuid \<Rightarrow> db \<Rightarrow> funding_pledge \<Rightarrow> db \<Rightarrow> bool" where
  "submitted cfg node campaign d p d' \<longleftrightarrow>
     add_pledge p d = (Inr (), d') \<and> pledge_ok p \<and>
     (\<exists>c. get_campaign campaign d = Inr (Some c) \<and> pl_campaign_id p = camp_id c) \<and>
     (\<exists>c h raw. get_campaign (pl_campaign_id p) d = Inr (Some c) \<and> height_used node None h \<and>
        valid_pledge cfg node c h \<lparr>pp_pledge = p, pp_raw_tx_hex = raw\<rparr>)"

lemma validate_pledge_valid:
  assumes "validate_pledge cfg node p (Some raw) s = (Inr v, s')" "pv_valid v" "raw \<noteq> []"
  shows "\<exists>c h. get_campaign (pl_campaign_id p) (fs_db s) = Inr (Some c) \<and> height_used node None h \<and>
    on_chain cfg node p c h \<and>
    (\<exists>decoded rc rc'. decode_raw_transaction node (JStr raw) rc = (Inr decoded, rc') \<and> matches_template cfg node p c decoded)"
proof -
  obtain c where "get_campaign (pl_campaign_id p) (fs_db s) = Inr (Some c)"
    "validate_pledge_for_campaign cfg node p c (Some raw) None None s = (Inr v, s')"
    using assms(1,2) by (auto simp: validate_pledge_def sbind_def read_repo_def invalid_def
        split: sum.splits option.splits if_splits)
  with validate_valid [OF this(2) assms(2,3)] show ?thesis by auto
qed

lemma finalize_raw:
  "finalize_psbt_extract_tx_hex node j rc = (Inr raw, rc') \<Longrightarrow> raw \<noteq> []"
  by (auto simp: finalize_psbt_extract_tx_hex_def sbind_Inr_iff validate_raw_tx_hex_Inr_iff)

lemma finalize_normalized:
  assumes "pledge_post_init p0 = Inr p"
  shows "finalize_psbt_extract_tx_hex node (JStr (pl_signed_psbt p)) =
    finalize_psbt_extract_tx_hex node (JStr (pl_signed_psbt p0))"
proof -
  have "validate_psbt_base64 (JStr (pl_signed_psbt p0)) = Inr (pl_signed_psbt p)"
    using assms by (auto simp: pledge_post_init_def res_simps split: if_splits)
  moreover from this have "validate_psbt_base64 (JStr (pl_signed_psbt p)) = Inr (pl_signed_psbt p)"
    by (rule validate_psbt_idem)
  ultimately show ?thesis by (simp add: finalize_psbt_extract_tx_hex_def finalize_psbt_def)
qed

lemma submit_writes:
  "writes_at d (submit_signed_pledge cfg node new_id t campaign pledger tx v psbt)
     (\<lambda>p d'. submitted cfg node campaign d p d' \<and> pl_id p = new_id \<and> pl_created_at p = DT t)"
  unfolding submit_signed_pledge_def
proof (intro writes_at_store writes_at_sbind writes_at_option writes_at_raise
    keeps_db_require keeps_db_basic keeps_db_ensure keeps_db_validate_pledge, goal_cases)
  case (1 x s s1 xa sa s1a xb sb s1b xc sc s1c xd sd s1d u xe se s1e xf sf s1f xg sg s1g p sh s1h xi si s1i xj sj s1j e d')
  then show ?case by (blast dest: add_error)
next
  case (2 x s s1 c sa s1a xb sb s1b xc sc s1c xd sd s1d u xe se s1e xf sf s1f raw sg s1g p sh s1h v si s1i xj sj s1j d')
  have p: "pledge_ok p" "pl_campaign_id p = camp_id c" "pl_id p = new_id" "pl_created_at p = DT t"
    using 2 by (auto dest!: pledge_post_init_Inr)
  have c: "get_campaign campaign d = Inr (Some c)" using 2 by (simp add: require_campaign_Inr)
  have f: "finalize_psbt_extract_tx_hex node (JStr psbt) (fs_rpc sg) = (Inr raw, fs_rpc s1g)"
    using 2 by (blast dest: on_rpc_Inr)
  obtain p0 where p0: "pledge_post_init p0 = Inr p" "pl_signed_psbt p0 = psbt" using 2 by fastforce
  from f have fp: "finalize_psbt_extract_tx_hex node (JStr (pl_signed_psbt p)) (fs_rpc sg) = (Inr raw, fs_rpc s1g)"
    by (simp add: finalize_normalized [OF p0(1)] p0(2))
  have "pv_valid v" using 2 by (auto simp: res_simps)
  moreover have "fs_db si = d" "validate_pledge cfg node p (Some raw) si = (Inr v, s1i)" "add_pledge p d = (Inr (), d')"
    using 2 by simp_all
  ultimately show ?case
    unfolding submitted_def valid_pledge_def
    using p c fp validate_pledge_valid [of cfg node p raw si v s1i] finalize_raw [OF f] by fastforce
qed

end
