(* ===== verification/Examples.thy ===== *)
theory Examples
  imports Funding_Props
begin

text \<open>
  A small concrete world for the witnesses: a database with one issue, one solution and one active
  campaign, and a Bitcoin node that knows one confirmed output and its signed pledge.
\<close>

section \<open>The database\<close>

definition example_time :: datetime where
  "example_time = \<lparr>dt_year = 2025, dt_month = 1, dt_day = 1, dt_hour = 0, dt_minute = 0, dt_second = 0,
     dt_microsecond = 0, dt_utcoffset = Some 0\<rparr>"

definition example_issue :: issue where
  "example_issue = \<lparr>iss_id = 3, iss_title = ''Bridge'', iss_creator_id = 4, iss_description = ''text'',
     iss_created_at = DT example_time\<rparr>"

definition example_solution :: solution where
  "example_solution = \<lparr>sol_id = 2, sol_issue_id = 3, sol_title = ''Rope'', sol_creator_id = 4,
     sol_description = ''text'', sol_created_at = DT example_time\<rparr>"

definition example_db :: db where
  "example_db = snd (add_campaign example_campaign (snd (add_solution [] example_solution
     (snd (add_issue [] example_issue empty_db)))))"

lemma example_time_valid: "valid_datetime example_time"
  by (simp add: example_time_def valid_datetime_def days_in_month_def us_per_day_def)

lemma example_models_ok:
  "model_ok (MIssue example_issue)" "model_ok (MSolution example_solution)" "model_ok (MCampaign example_campaign)"
  using example_time_valid
  by (simp_all add: example_issue_def example_solution_def example_campaign_def example_time_def
      valid_timestamp_DT campaign_ok_def strip_def strip_by_def is_py_space_def is_ascii_space_def)

abbreviation db_after_issue :: db where
  "db_after_issue \<equiv> snd (add_issue [] example_issue empty_db)"

abbreviation db_after_solution :: db where
  "db_after_solution \<equiv> snd (add_solution [] example_solution db_after_issue)"

lemma example_adds:
  "handler_add_one [] (MIssue example_issue) empty_db = (Inr (), db_after_issue)"
  "handler_add_one [] (MSolution example_solution) db_after_issue = (Inr (), db_after_solution)"
  "handler_add_one [] (MCampaign example_campaign) db_after_solution = (Inr (), example_db)"
  by (simp_all add: add_issue_def add_solution_def add_campaign_def transaction_def empty_db_def example_db_def
      example_issue_def example_solution_def example_campaign_def issue_to_row_def solution_to_row_def
      campaign_to_row_def bind_ints_def fits_int64_def guard_res_def Let_def)

lemma example_no_collision:
  "no_collision ''text'' empty_db" "no_collision ''text'' db_after_issue"
  by (simp_all add: no_collision_def get_content_def empty_db_def add_issue_def transaction_def
      example_issue_def store_text_content_def Let_def)

lemma example_adm:
  "model_adm (MIssue example_issue) empty_db" "model_adm (MSolution example_solution) db_after_issue"
  "model_adm (MCampaign example_campaign) db_after_solution"
  unfolding model_adm_iff using example_models_ok example_no_collision
  by (simp_all add: example_issue_def example_solution_def)

lemma example_store_ok:
  "store_ok db_after_issue" "store_ok db_after_solution" "store_ok example_db"
  using handler_add_store_ok [OF _ example_adm(1) example_adds(1)] store_ok_empty
    handler_add_store_ok [OF _ example_adm(2) example_adds(2)]
    handler_add_store_ok [OF _ example_adm(3) example_adds(3)] by blast+

lemma abs_store_empty: "abs_store empty_db = Map.empty"
proof (rule ext)
  show "abs_store empty_db item = None" for item
    by (cases "gi_type item")
      (simp_all add: abs_store_def get_stored_model_def gets_as_lookup lookup_row_absent empty_db_def)
qed

lemma example_abs:
  "abs_store example_db = [build_item (MIssue example_issue) \<mapsto> MIssue example_issue,
     build_item (MSolution example_solution) \<mapsto> MSolution example_solution,
     build_item (MCampaign example_campaign) \<mapsto> MCampaign example_campaign]"
proof -
  show ?thesis
    using abs_store_empty abs_store_add [OF _ example_adm(1) example_adds(1)] abs_store_add [OF _ example_adm(2) example_adds(2)]
      abs_store_add [OF _ example_adm(3) example_adds(3)] store_ok_empty example_store_ok
    by (simp add: store_ok_def)
qed

section \<open>The Bitcoin node\<close>

definition reply :: "int \<Rightarrow> json \<Rightarrow> http_outcome" where
  "reply k r = Response True (Some (JObj [(''result'', r), (''error'', JNull), (''id'', JInt k)]))"

definition example_txid :: string where
  "example_txid = ''1111111111111111111111111111111111111111111111111111111111111111''"

definition example_answer :: "string \<Rightarrow> json" where
  "example_answer m =
     (if m = ''getblockcount'' then JInt 90
      else if m = ''gettxout'' then JObj [(''confirmations'', JInt 6), (''value'', JFloat (Fin False 12 (- 6)))]
      else if m = ''createrawtransaction'' then JStr ''00''
      else if m = ''finalizepsbt'' then JObj [(''complete'', JBool True), (''hex'', JStr example_pledge_a)]
      else if m = ''decoderawtransaction'' then
        JObj [(''vin'', JList [JObj [(''txid'', JStr example_txid), (''vout'', JInt 0), (''sequence'', JInt PLEDGE_INPUT_SEQUENCE)]]),
              (''vout'', JList [])]
      else if m = ''testmempoolaccept'' then JList [JObj [(''allowed'', JBool True)]]
      else JStr example_txid)"

definition example_node :: rpc_node where
  "example_node k m ps = reply k (example_answer m)"

definition example_config :: funding_config where
  "example_config = \<lparr>network_id = [1], min_confirmations = 1\<rparr>"

text \<open>A call on this node gives the answer and counts one request.\<close>

lemma example_call:
  "strip m \<noteq> [] \<Longrightarrow> call example_node m ps c = (Inr (example_answer (strip m)), next_request (strip m) ps c)"
  by (simp add: call_Inr_iff example_node_def reply_def jget_def)

lemma example_txid_ok: "validate_txid (JStr example_txid) = Inr example_txid"
  unfolding example_txid_def by code_simp

lemma example_raw_ok: "validate_raw_tx_hex (JStr example_pledge_a) = Inr example_pledge_a"
  unfolding example_pledge_a_def by code_simp

lemma example_value: "btc_value_to_sats (BJson (JFloat (Fin False 12 (- 6)))) = Inr 1200"
  using btc_value_to_sats_exact [of "BJson (JFloat (Fin False 12 (- 6)))" False 12 "- 6"]
  by (simp add: exact_sats_def nat_str.simps)

lemma example_strip:
  "strip ''getblockcount'' = ''getblockcount''" "strip ''gettxout'' = ''gettxout''"
  "strip ''createrawtransaction'' = ''createrawtransaction''" "strip ''finalizepsbt'' = ''finalizepsbt''"
  "strip ''decoderawtransaction'' = ''decoderawtransaction''" "strip ''testmempoolaccept'' = ''testmempoolaccept''"
  "strip ''sendrawtransaction'' = ''sendrawtransaction''"
  by (simp_all add: strip_def strip_by_def is_py_space_def is_ascii_space_def)

lemma example_rpcs:
  "get_block_count example_node c = (Inr 90, next_request ''getblockcount'' [] c)"
  "get_tx_out example_node (JStr example_txid) (JInt 0) (JBool True) c =
     (Inr (Some [(''confirmations'', JInt 6), (''value'', JFloat (Fin False 12 (- 6)))]),
      next_request ''gettxout'' [JStr example_txid, JInt 0, JBool True] c)"
  "finalize_psbt_extract_tx_hex example_node (JStr ''AAAA'') c =
     (Inr example_pledge_a, next_request ''finalizepsbt'' [JStr ''AAAA'', JBool True] c)"
  "validate_raw_tx_hex (JStr h) = Inr h \<Longrightarrow> decode_raw_transaction example_node (JStr h) c =
     (Inr [(''vin'', JList [JObj [(''txid'', JStr example_txid), (''vout'', JInt 0), (''sequence'', JInt PLEDGE_INPUT_SEQUENCE)]]),
           (''vout'', JList [])], next_request ''decoderawtransaction'' [JStr h] c)"
  "create_raw_transaction example_node (JList i) (JList os) (JInt PLEDGE_LOCKTIME) (JBool True) c =
     (Inr ''00'', next_request ''createrawtransaction'' [JList i, JList os, JInt PLEDGE_LOCKTIME, JBool True] c)"
proof -
  have "validate_psbt_base64 (JStr ''AAAA'') = Inr ''AAAA''" by code_simp
  then show "finalize_psbt_extract_tx_hex example_node (JStr ''AAAA'') c =
     (Inr example_pledge_a, next_request ''finalizepsbt'' [JStr ''AAAA'', JBool True] c)"
    by (simp add: finalize_psbt_extract_tx_hex_def finalize_psbt_def sbind_def example_call example_strip
        example_answer_def json_object_def json_bool_def json_string_def jget_def example_raw_ok)
qed (simp_all add: get_block_count_def get_tx_out_def decode_raw_transaction_def create_raw_transaction_def
    sbind_def example_call example_strip example_answer_def json_int_def json_object_def json_bool_def
    json_string_def json_list_def example_txid_ok check_create_args_def guard_res_def PLEDGE_LOCKTIME_def)

section \<open>A run of the funding service\<close>

definition example_state :: "db \<Rightarrow> funding_state" where
  "example_state d = \<lparr>fs_db = d, fs_rpc = fresh_client\<rparr>"

definition example_signed :: funding_pledge where
  "example_signed = \<lparr>pl_id = 7, pl_campaign_id = 1, pl_pledger_id = 5, pl_txid = example_txid, pl_vout = 0,
     pl_value_sats = 1200, pl_signed_psbt = ''AAAA'', pl_created_at = DT example_time\<rparr>"

abbreviation asked :: "string \<Rightarrow> json list \<Rightarrow> funding_state \<Rightarrow> funding_state" where
  "asked m ps s \<equiv> s\<lparr>fs_rpc := next_request m ps (fs_rpc s)\<rparr>"

lemma example_on_rpc:
  "on_rpc (get_block_count example_node) s = (Inr 90, asked ''getblockcount'' [] s)"
  "on_rpc (get_tx_out example_node (JStr example_txid) (JInt 0) (JBool True)) s =
     (Inr (Some [(''confirmations'', JInt 6), (''value'', JFloat (Fin False 12 (- 6)))]),
      asked ''gettxout'' [JStr example_txid, JInt 0, JBool True] s)"
  "on_rpc (finalize_psbt_extract_tx_hex example_node (JStr ''AAAA'')) s =
     (Inr example_pledge_a, asked ''finalizepsbt'' [JStr ''AAAA'', JBool True] s)"
  "validate_raw_tx_hex (JStr h) = Inr h \<Longrightarrow> on_rpc (decode_raw_transaction example_node (JStr h)) s =
     (Inr [(''vin'', JList [JObj [(''txid'', JStr example_txid), (''vout'', JInt 0), (''sequence'', JInt PLEDGE_INPUT_SEQUENCE)]]),
           (''vout'', JList [])], asked ''decoderawtransaction'' [JStr h] s)"
  "on_rpc (create_raw_transaction example_node (JList i) (JList os) (JInt PLEDGE_LOCKTIME) (JBool True)) s =
     (Inr ''00'', asked ''createrawtransaction'' [JList i, JList os, JInt PLEDGE_LOCKTIME, JBool True] s)"
  by (simp_all add: on_rpc_def example_rpcs)

lemma example_active: "is_active example_campaign" "past_deadline example_campaign 90 = Inr False"
  "camp_id example_campaign = 1"
  by (simp_all add: is_active_def past_deadline_def example_campaign_def)

lemma example_commitment: "\<exists>h. compute_campaign_commitment_hex (network_id example_config) example_campaign = Inr h"
proof -
  have "fromhex ''00'' = Some [0]" by code_simp
  then show ?thesis
    by (simp add: compute_campaign_commitment_hex_def commitment_payload_def example_config_def
        example_campaign_def is_active_def length_prefix_def to_bytes_be_def utf8_def utf8_char_def)
qed

text \<open>The parameters of the request for the unsigned transaction.\<close>

definition example_template :: "string \<Rightarrow> int \<Rightarrow> json list" where
  "example_template t v = [build_pledge_inputs t v,
     projr (rbind (compute_campaign_commitment_hex (network_id example_config) example_campaign) (build_campaign_outputs example_campaign)),
     JInt PLEDGE_LOCKTIME, JBool True]"

lemma example_unsigned:
  "build_unsigned_pledge_transaction example_config example_node example_campaign t v s =
     (Inr ''00'', asked ''createrawtransaction'' (example_template t v) s)"
proof -
  obtain h where h: "compute_campaign_commitment_hex (network_id example_config) example_campaign = Inr h"
    using example_commitment by blast
  obtain a where "sats_to_btc_string (camp_asking_price example_campaign) = Inr a"
    using sats_to_btc_string_ok [of 900] by (simp add: example_campaign_def)
  then obtain os where "build_campaign_outputs example_campaign h = Inr (JList os)"
    using example_active(1) by (simp add: build_campaign_outputs_def) (simp add: example_campaign_def)
  with h show ?thesis
    by (simp add: build_unsigned_pledge_transaction_def build_pledge_inputs_def example_on_rpc example_template_def)
qed

lemma example_finalized:
  "validate_finalized_pledge_transaction example_config example_node example_signed example_campaign
     [(''vin'', JList [JObj [(''txid'', JStr example_txid), (''vout'', JInt 0), (''sequence'', JInt PLEDGE_INPUT_SEQUENCE)]]),
      (''vout'', JList [])] s = (Inr None, asked ''decoderawtransaction'' [JStr ''00''] (asked ''createrawtransaction'' (example_template example_txid 0) s))"
proof -
  have "validate_raw_tx_hex (JStr ''00'') = Inr ''00''" by code_simp
  note d = example_on_rpc(4) [OF this]
  show ?thesis
    by (simp add: validate_finalized_pledge_transaction_def jget_def py_get_def example_signed_def sbind_def
        example_unsigned d extract_single_input_sequence_def)
qed

lemma example_chain:
  "validate_pledge_against_chain example_config example_node example_signed example_campaign None s =
     (Inr None, asked ''gettxout'' [JStr example_txid, JInt 0, JBool True] (asked ''getblockcount'' [] s))"
  "validate_pledge_against_chain example_config example_node example_signed example_campaign (Some 90) s =
     (Inr None, asked ''gettxout'' [JStr example_txid, JInt 0, JBool True] s)"
  by (simp_all add: validate_pledge_against_chain_def height_or_ask_def example_active sbind_def example_on_rpc
      example_signed_def ensure_utxo_has_min_confirmations_def jget_def example_config_def catch_value_error_def
      scatch_def utxo_value_sats_def example_value)

lemma example_get_campaign: "get_campaign 1 example_db = Inr (Some example_campaign)"
proof -
  have "abs_store example_db (build_item (MCampaign example_campaign)) = Some (MCampaign example_campaign)"
    by (simp add: example_abs build_item_def)
  then have "get_stored_model (build_item (MCampaign example_campaign)) example_db = Inr (Some (MCampaign example_campaign))"
    using abs_store_eq example_store_ok(3) by (simp add: store_ok_def)
  then show ?thesis by (auto simp: get_stored_model_def build_item_def example_active(3))
qed

lemma example_signed_ok: "pledge_ok example_signed"
proof -
  have "validate_psbt_base64 (JStr ''AAAA'') = Inr ''AAAA''" by code_simp
  then show ?thesis by (simp add: pledge_ok_def example_signed_def example_txid_ok)
qed

definition example_pledged_db :: db where
  "example_pledged_db = snd (add_pledge example_signed example_db)"

lemma example_db_tables: "pledges example_db = []" "map car_id (campaigns example_db) = [uuid_str 1]"
  by (simp_all add: example_db_def add_campaign_def add_solution_def add_issue_def transaction_def empty_db_def
      bind_ints_def fits_int64_def guard_res_def Let_def campaign_to_row_def example_campaign_def
      example_issue_def example_solution_def issue_to_row_def solution_to_row_def)

lemma example_add_pledge: "add_pledge example_signed example_db = (Inr (), example_pledged_db)"
proof -
  have "uuid_str 1 \<in> car_id ` set (campaigns example_db)"
    using example_db_tables(2) by (metis list.set_intros(1) list.set_map)
  then show ?thesis
    by (simp add: example_pledged_db_def add_pledge_def transaction_def bind_ints_def fits_int64_def guard_res_def
        Let_def example_db_tables pledge_to_row_def example_signed_def)
qed

lemma example_validate:
  assumes "fs_db s = example_db"
  shows "\<exists>s'. validate_pledge example_config example_node example_signed (Some example_pledge_a) s =
     (Inr \<lparr>pv_valid = True, pv_reason = None\<rparr>, s') \<and> fs_db s' = fs_db s"
proof -
  have ne: "example_pledge_a \<noteq> []" by (simp add: example_pledge_a_def)
  have c: "get_campaign (pl_campaign_id example_signed) (fs_db s) = Inr (Some example_campaign)"
    using assms by (simp add: example_signed_def example_get_campaign)
  show ?thesis
    by (simp add: validate_pledge_def read_repo_def c sbind_def example_active validate_pledge_for_campaign_def
        example_chain given_or_def ne example_on_rpc example_raw_ok scatch_def example_finalized)
qed

lemma example_submit:
  "\<exists>s'. submit_signed_pledge example_config example_node 7 example_time 1 5 example_txid 0 ''AAAA''
     (example_state example_db) = (Inr example_signed, s') \<and> fs_db s' = example_pledged_db"
proof -
  let ?s = "example_state example_db"
  have c: "require_campaign 1 ?s = (Inr example_campaign, ?s)"
    by (simp add: require_campaign_Inr example_state_def example_get_campaign)
  have e: "ensure_campaign_not_expired example_node example_campaign ?s = (Inr (), asked ''getblockcount'' [] ?s)"
    by (simp add: ensure_campaign_not_expired_def require_active_campaign_def guard_res_def example_active
        ensure_campaign_not_expired_at_height_def example_on_rpc sbind_def)
  have p: "pledge_post_init \<lparr>pl_id = 7, pl_campaign_id = camp_id example_campaign, pl_pledger_id = 5, pl_txid = example_txid,
      pl_vout = 0, pl_value_sats = 1200, pl_signed_psbt = ''AAAA'', pl_created_at = DT example_time\<rparr> = Inr example_signed"
    using pledge_post_init_ok [OF example_signed_ok] by (simp add: example_signed_def example_active)
  let ?f = "asked ''finalizepsbt'' [JStr ''AAAA'', JBool True]
    (asked ''gettxout'' [JStr example_txid, JInt 0, JBool True] (asked ''getblockcount'' [] ?s))"
  obtain s' where "validate_pledge example_config example_node example_signed (Some example_pledge_a) ?f =
      (Inr \<lparr>pv_valid = True, pv_reason = None\<rparr>, s')" "fs_db s' = example_db"
    using example_validate [of ?f] by (auto simp: example_state_def)
  then show ?thesis
    unfolding submit_signed_pledge_def
    by (simp add: sbind_def example_txid_ok c e require_active_campaign_def guard_res_def example_active example_on_rpc
        ensure_utxo_has_min_confirmations_def jget_def utxo_value_sats_def example_value)
      (simp add: sbind_def p [unfolded example_active] scatch_def on_repo_def example_add_pledge example_config_def)
qed

lemma example_hash: "\<exists>h. compute_hash example_solution = Inr h"
  by (simp add: compute_hash_def solution_payload_def example_solution_def timestamp_isoformat_def)

lemma example_create:
  "\<exists>c s'. create_campaign example_node 9 example_time example_solution (Some ''bcrt1q'') 900 (Some 10)
     (example_state db_after_solution) = (Inr c, s')"
proof -
  obtain h where h: "compute_hash example_solution = Inr h" using example_hash by blast
  let ?c = "\<lparr>camp_id = 9, camp_solution_id = 2, camp_solution_hash = h, camp_payout_address = Some ''bcrt1q'',
    camp_asking_price = 900, camp_deadline = Some 100, camp_created_at = DT example_time\<rparr>"
  have "add_campaign ?c db_after_solution = (Inr (), snd (add_campaign ?c db_after_solution))"
    by (simp add: add_campaign_def add_solution_def add_issue_def transaction_def empty_db_def bind_ints_def
        fits_int64_def guard_res_def Let_def campaign_to_row_def example_issue_def example_solution_def
        issue_to_row_def solution_to_row_def)
  then obtain d where d: "add_campaign ?c db_after_solution = (Inr (), d)" by blast
  have n: "normalize_payout (Some ''bcrt1q'') = Some ''bcrt1q''"
    by (simp add: normalize_payout_def strip_def strip_by_def is_py_space_def is_ascii_space_def)
  have i: "campaign_post_init \<lparr>camp_id = 9, camp_solution_id = sol_id example_solution, camp_solution_hash = h,
      camp_payout_address = Some ''bcrt1q'', camp_asking_price = 900, camp_deadline = Some 100,
      camp_created_at = DT example_time\<rparr> = Inr ?c"
    by (simp add: campaign_post_init_def n Let_def example_solution_def)
  show ?thesis
    by (simp add: create_campaign_def n Let_def sbind_def example_on_rpc h i scatch_def on_repo_def example_state_def d)
qed

lemma example_pledged_tables:
  "pledges example_pledged_db = [pledge_to_row example_signed]" "campaigns example_pledged_db = campaigns example_db"
proof -
  have "example_pledged_db = example_db\<lparr>pledges := [pledge_to_row example_signed]\<rparr>"
    using add_pledge_Inr [OF example_add_pledge] by (simp add: example_db_tables)
  then show "pledges example_pledged_db = [pledge_to_row example_signed]" "campaigns example_pledged_db = campaigns example_db"
    by (metis db.simps db.update_convs db.select_convs db.surjective)+
qed

lemma example_pledged_ok: "store_ok example_pledged_db"
proof -
  have "model_adm (MPledge example_signed) example_db"
    using example_signed_ok example_time_valid by (simp add: pledge_adm_def example_signed_def valid_timestamp_DT)
  moreover have "handler_add_one [] (MPledge example_signed) example_db = (Inr (), example_pledged_db)"
    by (simp add: example_add_pledge)
  ultimately show ?thesis using handler_add_store_ok example_store_ok(3) by blast
qed

lemma example_pledged_reads:
  "get_campaign 1 example_pledged_db = Inr (Some example_campaign)"
  "get_pledges_for_campaign 1 example_pledged_db = Inr [example_signed]"
proof -
  show "get_campaign 1 example_pledged_db = Inr (Some example_campaign)"
    using example_get_campaign by (simp add: get_campaign_def example_pledged_tables)
  have "row_to_pledge (pledge_to_row example_signed) = Inr example_signed"
    using row_round_trips(6) example_signed_ok example_time_valid by (simp add: example_signed_def valid_timestamp_DT)
  then show "get_pledges_for_campaign 1 example_pledged_db = Inr [example_signed]"
    by (simp add: get_pledges_for_campaign_def example_pledged_tables pledge_to_row_def order_by_asc_def fetch_all_def)
      (simp add: example_signed_def)
qed

abbreviation example_single :: prepared_pledge where
  "example_single \<equiv> \<lparr>pp_pledge = example_signed, pp_raw_tx_hex = example_pledge_a\<rparr>"

lemma example_prepare:
  assumes "fs_db s = example_pledged_db"
  shows "\<exists>s'. prepare_valid_pledges_for_campaign example_config example_node example_campaign (Some 90) s =
    (Inr [example_single], s')"
proof -
  have ne: "example_pledge_a \<noteq> []" by (simp add: example_pledge_a_def)
  have f: "finalize_stored_pledge example_node example_signed s = (Inr (example_pledge_a,
      [(''vin'', JList [JObj [(''txid'', JStr example_txid), (''vout'', JInt 0), (''sequence'', JInt PLEDGE_INPUT_SEQUENCE)]]),
       (''vout'', JList [])]), asked ''decoderawtransaction'' [JStr example_pledge_a] (asked ''finalizepsbt'' [JStr ''AAAA'', JBool True] s))" for s
    by (simp add: finalize_stored_pledge_def scatch_def sbind_def example_signed_def example_on_rpc example_raw_ok)
  show ?thesis
    by (simp add: prepare_valid_pledges_for_campaign_def height_or_ask_def example_active read_repo_def assms
        example_pledged_reads sbind_def f validate_pledge_for_campaign_def example_chain given_or_def ne scatch_def
        example_finalized)
qed

lemma example_combine: "combine_anyonecanpay_pledges [example_pledge_a] = Inr example_pledge_a"
  unfolding example_pledge_a_def by code_simp

lemma example_select: "select_pledges example_campaign [example_single] 100 = Inr [example_single]"
  by (simp add: select_pledges_def example_campaign_def select_loop_unfold choose_next_def py_min_def
      example_signed_def)

lemma example_plan:
  "\<exists>plan s'. prepare_final_transaction example_config example_node 1 100 (example_state example_pledged_db) = (Inr plan, s') \<and>
     ftp_selected plan = [example_signed] \<and> ftp_raw_tx_hex plan = example_pledge_a"
proof -
  let ?s = "example_state example_pledged_db"
  have c: "require_campaign 1 ?s = (Inr example_campaign, ?s)"
    by (simp add: require_campaign_Inr example_state_def example_pledged_reads)
  obtain s' where "prepare_valid_pledges_for_campaign example_config example_node example_campaign (Some 90) (asked ''getblockcount'' [] ?s) =
      (Inr [example_single], s')" using example_prepare [of "asked ''getblockcount'' [] ?s"] by (auto simp: example_state_def)
  then have p: "prepare_valid_pledges_for_open_campaign example_config example_node example_campaign (Some 90) (asked ''getblockcount'' [] ?s) =
      (Inr [example_single], s')"
    by (simp add: prepare_valid_pledges_for_open_campaign_def height_or_ask_def ensure_campaign_not_expired_at_height_def
        require_active_campaign_def guard_res_def example_active)
  show ?thesis
    by (simp add: prepare_final_transaction_def sbind_def c require_active_campaign_def guard_res_def
        example_active example_on_rpc p example_select example_combine Let_def)
qed

end
