(* ===== verification/Funding_Requests.thy ===== *)
theory Funding_Requests
  imports Funding_Props
begin

text \<open>
  What the funding service asks of the Bitcoin node. Every request is recorded by the client, so that a
  statement about the record is a statement about the requests that were made, whatever becomes of their
  answers.
\<close>

section \<open>Requests of an operation\<close>

text \<open>
  \<open>asks log M f\<close>: \<open>f\<close> only extends the record that \<open>log\<close> reads from its state, by requests for methods in \<open>M\<close>.
\<close>

definition asks :: "('s \<Rightarrow> (string \<times> json list) list) \<Rightarrow> string set \<Rightarrow> ('s, 'e, 'a) sm \<Rightarrow> bool" where
  "asks log M f \<longleftrightarrow> (\<forall>s. \<exists>new. log (snd (f s)) = log s @ new \<and> fst ` set new \<subseteq> M)"

named_theorems asks_rules \<open>requests by the structure of an operation\<close>

lemma asksD: "asks log M f \<Longrightarrow> f s = (r, s') \<Longrightarrow> \<exists>new. log s' = log s @ new \<and> fst ` set new \<subseteq> M"
  unfolding asks_def by (metis snd_conv)

lemma asks_pure [asks_rules]:
  "asks log M (sreturn x)" "asks log M (sraise e)" "asks log M (slift r)" "asks log M (swhen_raise b e)"
  by (auto simp: asks_def swhen_raise_def)

lemma asks_trans:
  "l1 = l0 @ new \<Longrightarrow> fst ` set new \<subseteq> M \<Longrightarrow> \<exists>new. l2 = l1 @ new \<and> fst ` set new \<subseteq> M \<Longrightarrow> \<exists>new. l2 = l0 @ new \<and> fst ` set new \<subseteq> M"
  by (auto simp: image_Un)

lemma asks_sbind [asks_rules]:
  assumes f: "asks log M f" and g: "\<And>x. asks log M (g x)"
  shows "asks log M (sbind f g)"
  unfolding asks_def
proof
  fix s
  obtain q s1 where q: "f s = (q, s1)" by (cases "f s")
  obtain new where new: "log s1 = log s @ new" "fst ` set new \<subseteq> M" using asksD [OF f q] by blast
  show "\<exists>new. log (snd (sbind f g s)) = log s @ new \<and> fst ` set new \<subseteq> M"
  proof (cases q)
    case (Inr x)
    then show ?thesis using asks_trans [OF new, of "log (snd (g x s1))"] g [of x] q by (simp add: asks_def sbind_def)
  qed (use q new in \<open>auto simp: sbind_def\<close>)
qed

lemma asks_scatch [asks_rules]:
  assumes f: "asks log M f" and h: "\<And>e g. h e = Some g \<Longrightarrow> asks log M g"
  shows "asks log M (scatch f h)"
  unfolding asks_def
proof
  fix s
  obtain q s1 where q: "f s = (q, s1)" by (cases "f s")
  obtain new where new: "log s1 = log s @ new" "fst ` set new \<subseteq> M" using asksD [OF f q] by blast
  show "\<exists>new. log (snd (scatch f h s)) = log s @ new \<and> fst ` set new \<subseteq> M"
  proof (cases "\<exists>e g. q = Inl e \<and> h e = Some g")
    case True
    then obtain e g where g: "q = Inl e" "h e = Some g" by blast
    then show ?thesis using asks_trans [OF new, of "log (snd (g s1))"] h [OF g(2)] q by (simp add: asks_def scatch_def)
  qed (use q new in \<open>auto simp: scatch_def split: sum.splits option.splits\<close>)
qed

lemma asks_cases [asks_rules]:
  "asks log M f \<Longrightarrow> asks log M g \<Longrightarrow> asks log M (if b then f else g)"
  "asks log M f \<Longrightarrow> (\<And>x. asks log M (k x)) \<Longrightarrow> asks log M (case y of None \<Rightarrow> f | Some x \<Rightarrow> k x)"
  "(\<And>x. asks log M (h x)) \<Longrightarrow> (\<And>x. asks log M (k x)) \<Longrightarrow> asks log M (case z of Inl x \<Rightarrow> h x | Inr x \<Rightarrow> k x)"
  "(\<And>a b. asks log M (j a b)) \<Longrightarrow> asks log M (case p of (a, b) \<Rightarrow> j a b)"
  by (auto split: option.splits sum.splits prod.splits)

section \<open>The client\<close>

lemma asks_call: "strip m \<in> M \<Longrightarrow> asks posted M (call node m ps)"
  by (auto simp: asks_def call_def Let_def)

lemma strip_method:
  "strip ''getblockcount'' = ''getblockcount''" "strip ''gettxout'' = ''gettxout''" "strip ''createpsbt'' = ''createpsbt''"
  "strip ''createrawtransaction'' = ''createrawtransaction''" "strip ''finalizepsbt'' = ''finalizepsbt''"
  "strip ''decoderawtransaction'' = ''decoderawtransaction''" "strip ''testmempoolaccept'' = ''testmempoolaccept''"
  "strip ''sendrawtransaction'' = ''sendrawtransaction''"
  by (simp_all add: strip_def strip_by_def is_py_space_def is_ascii_space_def)

text \<open>The methods that the service uses without sending anything.\<close>

definition reading :: "string set" where
  "reading = {''getblockcount'', ''gettxout'', ''createpsbt'', ''createrawtransaction'', ''finalizepsbt'', ''decoderawtransaction''}"

lemma asks_wrappers:
  "asks posted reading (get_block_count node)" "asks posted reading (get_tx_out node t v b)"
  "asks posted reading (create_raw_transaction node i ou l r)" "asks posted reading (create_psbt node i ou l r)"
  "asks posted reading (finalize_psbt_extract_tx_hex node p)" "asks posted reading (decode_raw_transaction node h)"
  unfolding get_block_count_def get_tx_out_def create_raw_transaction_def create_psbt_def finalize_psbt_extract_tx_hex_def
    finalize_psbt_def decode_raw_transaction_def Let_def
  by (intro asks_rules asks_call; simp add: strip_method reading_def)+

section \<open>The service\<close>

abbreviation requests :: "funding_state \<Rightarrow> (string \<times> json list) list" where
  "requests s \<equiv> posted (fs_rpc s)"

lemma asks_on_rpc [asks_rules]: "asks posted M f \<Longrightarrow> asks requests M (on_rpc f)"
  by (auto simp: asks_def on_rpc_def split: prod.splits) (metis snd_conv)

lemma asks_repo [asks_rules]: "asks requests M (on_repo f)" "asks requests M (read_repo g)"
  by (auto simp: asks_def on_repo_def read_repo_def split: prod.splits)

lemma asks_parts [asks_rules]:
  "asks requests M (require_campaign i)" "asks requests reading (height_or_ask node h)"
  "asks requests reading (ensure_campaign_not_expired node c)" "asks requests reading (build_unsigned_pledge_transaction cfg node c t v)"
  unfolding require_campaign_def height_or_ask_def ensure_campaign_not_expired_def build_unsigned_pledge_transaction_def
  by (intro asks_rules asks_wrappers)+

lemma asks_given_or [asks_rules]: "asks log M f \<Longrightarrow> asks log M (given_or x f)"
  unfolding given_or_def by (intro asks_rules)

lemma asks_finalized [asks_rules]: "asks requests reading (validate_finalized_pledge_transaction cfg node p c d)"
  unfolding validate_finalized_pledge_transaction_def
  by (auto intro!: asks_rules asks_wrappers split: json.splits list.splits)

lemma asks_chain [asks_rules]: "asks requests reading (validate_pledge_against_chain cfg node p c h)"
  unfolding validate_pledge_against_chain_def catch_value_error_def
  by (intro asks_rules asks_wrappers) (auto intro!: asks_rules split: if_splits)

lemma asks_validate [asks_rules]:
  "asks requests reading (validate_pledge_for_campaign cfg node p c r d h)" "asks requests reading (validate_pledge cfg node p r)"
proof -
  show v: "asks requests reading (validate_pledge_for_campaign cfg node p c r d h)" for p c r d h
    unfolding validate_pledge_for_campaign_def by (intro asks_rules asks_wrappers) (auto intro!: asks_rules split: if_splits)
  show "asks requests reading (validate_pledge cfg node p r)"
    unfolding validate_pledge_def by (intro asks_rules v)
qed

lemma asks_prepare_loop [asks_rules]: "asks requests reading (prepare_loop cfg node c h ps)"
proof (induction ps)
  case (Cons p ps)
  show ?case unfolding prepare_loop.simps finalize_stored_pledge_def
    by (intro asks_rules asks_wrappers Cons) (auto intro!: asks_rules)
qed (unfold prepare_loop.simps, rule asks_pure)

lemma asks_prepare [asks_rules]:
  "asks requests reading (prepare_valid_pledges_for_campaign cfg node c h)"
  "asks requests reading (prepare_valid_pledges_for_open_campaign cfg node c h)"
  unfolding prepare_valid_pledges_for_open_campaign_def prepare_valid_pledges_for_campaign_def by (intro asks_rules)+

lemma asks_translated: "translate_integrity_error t e = Some g \<Longrightarrow> asks log M g"
  using translate_raises by (auto intro: asks_rules)

lemma asks_operations:
  "asks requests reading (create_campaign node new_id t sol payout asking offset)"
  "asks requests reading (create_pledge_request cfg node i pledger tx v)"
  "asks requests reading (submit_signed_pledge cfg node new_id t i pledger tx v psbt)"
  "asks requests reading (get_valid_pledges cfg node i)"
  "asks requests reading (compute_funding_status cfg node i fee)"
  "asks requests reading (prepare_final_transaction cfg node i fee)"
  "asks requests reading (build_final_transaction cfg node i fee)"
  unfolding create_campaign_def create_pledge_request_def submit_signed_pledge_def get_valid_pledges_def
    compute_funding_status_def build_final_transaction_def prepare_final_transaction_def Let_def
  by (intro asks_rules asks_wrappers asks_translated; assumption)+

text \<open>The requests to send a transaction.\<close>

definition sends :: "(string \<times> json list) list \<Rightarrow> (string \<times> json list) list" where
  "sends qs = filter (\<lambda>q. fst q = ''sendrawtransaction'') qs"

lemma reading_sends: "asks requests reading f \<Longrightarrow> f s = (r, s') \<Longrightarrow> sends (requests s') = sends (requests s)"
  by (auto simp: sends_def reading_def filter_empty_conv dest!: asksD) fastforce

lemma on_rpc_send: "on_rpc (send_raw_transaction node (JStr raw)) s = (r, s') \<Longrightarrow>
   (case validate_raw_tx_hex (JStr raw) of Inl e \<Rightarrow> r = Inl e \<and> requests s' = requests s
    | Inr h \<Rightarrow> requests s' = requests s @ [(''sendrawtransaction'', [JStr h])])"
  by (auto simp: on_rpc_def send_raw_transaction_def sbind_def call_def strip_method Let_def split: sum.splits prod.splits)

lemma on_rpc_dry_run: "on_rpc (test_mempool_accept node (JStr raw)) s = (r, s') \<Longrightarrow>
   (case validate_raw_tx_hex (JStr raw) of Inl e \<Rightarrow> r = Inl e \<and> requests s' = requests s
    | Inr h \<Rightarrow> requests s' = requests s @ [(''testmempoolaccept'', [JList [JStr h]])])"
  by (auto simp: on_rpc_def test_mempool_accept_def sbind_def call_def strip_method Let_def split: sum.splits prod.splits)

text \<open>A broadcast: nothing is sent, or the dry run of the same transaction came right before.\<close>

lemma broadcast_requests:
  "case broadcast_final_transaction cfg node i fee s of (r, s') \<Rightarrow>
     (\<exists>e. r = Inl e) \<and> sends (requests s') = sends (requests s) \<or>
     (\<exists>raw s1 answer s2 h. build_final_transaction cfg node i fee s = (Inr raw, s1) \<and>
        on_rpc (test_mempool_accept node (JStr raw)) s1 = (Inr answer, s2) \<and>
        truthy (jget ''allowed'' answer (JBool False)) \<and> validate_raw_tx_hex (JStr raw) = Inr h \<and>
        sends (requests s1) = sends (requests s) \<and>
        requests s' = requests s1 @ [(''testmempoolaccept'', [JList [JStr h]]), (''sendrawtransaction'', [JStr h])])"
proof -
  obtain q s1 where q: "build_final_transaction cfg node i fee s = (q, s1)" by (rule prod.exhaust)
  have none: "sends (requests s1) = sends (requests s)" using reading_sends [OF asks_operations(7) q] .
  show ?thesis
  proof (cases q)
    case (Inl e)
    then show ?thesis using q none by (simp add: broadcast_final_transaction_def sbind_def)
  next
    case (Inr raw)
    obtain a s2 where a: "on_rpc (test_mempool_accept node (JStr raw)) s1 = (a, s2)" by (rule prod.exhaust)
    have dry: "sends (requests s2) = sends (requests s)"
      using on_rpc_dry_run [OF a] none by (auto simp: sends_def split: sum.splits)
    show ?thesis
    proof (cases "\<exists>answer. a = Inr answer \<and> truthy (jget ''allowed'' answer (JBool False))")
      case False
      then show ?thesis using q Inr a dry
        by (cases a) (auto simp: broadcast_final_transaction_def sbind_def swhen_raise_def)
    next
      case True
      then obtain answer where answer: "a = Inr answer" "truthy (jget ''allowed'' answer (JBool False))" by blast
      obtain r s' where r: "on_rpc (send_raw_transaction node (JStr raw)) s2 = (r, s')" by (rule prod.exhaust)
      obtain h where h: "validate_raw_tx_hex (JStr raw) = Inr h"
        using on_rpc_dry_run [OF a] answer(1) by (auto split: sum.splits)
      have "requests s' = requests s1 @ [(''testmempoolaccept'', [JList [JStr h]]), (''sendrawtransaction'', [JStr h])]"
        using on_rpc_dry_run [OF a] on_rpc_send [OF r] h by simp
      then show ?thesis using q Inr a answer r h none
        by (simp add: broadcast_final_transaction_def sbind_def swhen_raise_def)
    qed
  qed
qed

end
