(* ===== verification/Funding_Plan.thy ===== *)
theory Funding_Plan
  imports Examples Funding_Requests
begin

text \<open>
  The theorems about democracy/funding/service.py: what submitting a pledge and creating a campaign
  store, what the status and the final transaction of a campaign are made of, and that only an
  accepted final transaction is ever sent.
\<close>

section \<open>The pledges of a campaign\<close>

text \<open>Stored, pairwise different pledges of the campaign that are valid at a height.\<close>

definition counted ::
    "funding_config \<Rightarrow> rpc_node \<Rightarrow> db \<Rightarrow> funding_campaign \<Rightarrow> int \<Rightarrow> prepared_pledge list \<Rightarrow> bool" where
  "counted cfg node d c h ps \<longleftrightarrow>
     distinct (map (\<lambda>pp. pl_id (pp_pledge pp)) ps) \<and>
     (\<forall>pp \<in> set ps. get_pledge (pl_id (pp_pledge pp)) d = Inr (Some (pp_pledge pp)) \<and>
        pl_campaign_id (pp_pledge pp) = camp_id c \<and> 0 < pp_value pp \<and> valid_pledge cfg node c h pp)"

lemma counted_Nil [simp]: "counted cfg node d c h []"
  by (simp add: counted_def)

lemma prepare_counted:
  assumes "store_ok (fs_db s)" "prepare_valid_pledges_for_campaign cfg node c (Some h) s = (Inr ps, s')"
  shows "counted cfg node (fs_db s) c h ps \<and> (is_active c \<and> past_deadline c h = Inr False \<longrightarrow>
    (\<forall>p. get_pledge (pl_id p) (fs_db s) = Inr (Some p) \<and> pl_campaign_id p = camp_id c \<and> p \<notin> pp_pledge ` set ps \<longrightarrow> refused cfg node c p))"
proof (cases "is_active c \<and> past_deadline c h = Inr False")
  case False
  with assms(2) have "ps = []"
    by (auto simp: prepare_valid_pledges_for_campaign_def height_or_ask_def sbind_Inr_iff split: if_splits)
  then show ?thesis using False by auto
next
  case True
  obtain stored where st: "get_pledges_for_campaign (camp_id c) (fs_db s) = Inr stored" "distinct (map pl_id stored)"
    "\<forall>p. p \<in> set stored \<longleftrightarrow> get_pledge (pl_id p) (fs_db s) = Inr (Some p) \<and> pl_campaign_id p = camp_id c"
    "\<forall>p \<in> set stored. pledge_ok p"
    using get_pledges_for_campaign_spec [OF assms(1), of "camp_id c"] by auto
  have loop: "prepare_loop cfg node c h stored s = (Inr ps, s')"
    using True assms(2) st(1)
    by (simp add: prepare_valid_pledges_for_campaign_def height_or_ask_def read_repo_def sbind_def)
  from prepare_loop_valid [OF loop] have sub: "subseq (map pp_pledge ps) stored"
    and v: "\<forall>pp \<in> set ps. valid_pledge cfg node c h pp" by auto
  have "distinct (map pl_id (map pp_pledge ps))"
    using subseq_map [OF sub, of pl_id] st(2) subseqs_distinctD in_set_subseqs by blast
  moreover have "pp_pledge pp \<in> set stored" if "pp \<in> set ps" for pp
    using list_emb_set [OF sub, of "pp_pledge pp"] that by auto
  ultimately show ?thesis
    using st v prepare_loop_refused [OF loop] True by (auto simp: counted_def comp_def pledge_ok_def)
qed

lemma prepare_open_counted:
  assumes "store_ok (fs_db s)" "prepare_valid_pledges_for_open_campaign cfg node c (Some h) s = (Inr ps, s')"
  shows "counted cfg node (fs_db s) c h ps \<and> is_active c \<and> past_deadline c h = Inr False"
proof -
  have "prepare_valid_pledges_for_campaign cfg node c (Some h) s = (Inr ps, s')"
    and "is_active c \<and> past_deadline c h = Inr False"
    using assms(2)
    by (auto simp: prepare_valid_pledges_for_open_campaign_def height_or_ask_def sbind_Inr_iff
        ensure_campaign_not_expired_at_height_def require_active_campaign_def res_simps)
  with prepare_counted [OF assms(1)] show ?thesis by blast
qed

lemma counted_subset:
  "counted cfg node d c h ps \<Longrightarrow> mset qs \<subseteq># mset ps \<Longrightarrow> counted cfg node d c h qs"
proof -
  assume a: "counted cfg node d c h ps" "mset qs \<subseteq># mset ps"
  obtain zs where "mset ps = mset (qs @ zs)"
    using a(2) by (metis ex_mset mset_append subset_mset.le_iff_add)
  then have "mset (map (\<lambda>pp. pl_id (pp_pledge pp)) ps) = mset (map (\<lambda>pp. pl_id (pp_pledge pp)) (qs @ zs))"
    by (metis mset_map)
  then have "distinct (map (\<lambda>pp. pl_id (pp_pledge pp)) (qs @ zs))"
    using a(1) mset_eq_imp_distinct_iff unfolding counted_def by blast
  then have "distinct (map (\<lambda>pp. pl_id (pp_pledge pp)) qs)" by simp
  moreover have "set qs \<subseteq> set ps" using a(2) by (metis set_mset_mono set_mset_mset)
  ultimately show ?thesis using a(1) by (auto simp: counted_def)
qed

section \<open>The plan\<close>

lemma plan_steps:
  assumes "prepare_final_transaction cfg node i fee s = (Inr plan, s')" "store_ok (fs_db s)"
  obtains c h ps sel where
    "get_campaign i (fs_db s) = Inr (Some c)" "height_used node None h" "is_active c" "past_deadline c h = Inr False"
    "counted cfg node (fs_db s) c h ps" "select_pledges c ps fee = Inr sel"
    "combine_anyonecanpay_pledges (map pp_raw_tx_hex sel) = Inr (ftp_raw_tx_hex plan)"
    "ftp_campaign_id plan = camp_id c" "ftp_selected plan = map pp_pledge sel"
    "ftp_selected_total plan = sum_list (map pp_value sel)" "ftp_required_total plan = camp_asking_price c + fee"
proof -
  from assms(1) obtain c s1 h s2 ps s3 sel raw where x:
    "require_campaign i s = (Inr c, s1)" "on_rpc (get_block_count node) s1 = (Inr h, s2)"
    "prepare_valid_pledges_for_open_campaign cfg node c (Some h) s2 = (Inr ps, s3)"
    "select_pledges c ps fee = Inr sel" "combine_anyonecanpay_pledges (map pp_raw_tx_hex sel) = Inr raw"
    "plan = \<lparr>ftp_campaign_id = camp_id c, ftp_selected = map pp_pledge sel,
              ftp_selected_total = sum_list (map pl_value_sats (map pp_pledge sel)),
              ftp_required_total = camp_asking_price c + fee, ftp_raw_tx_hex = raw\<rparr>"
    by (auto simp: prepare_final_transaction_def sbind_Inr_iff res_simps Let_def)
  have db: "s1 = s" "fs_db s2 = fs_db s" using x(1) on_rpc_Inr [OF x(2)] by (auto simp: require_campaign_Inr)
  have "height_used node None h" using on_rpc_Inr [OF x(2)] by (auto simp: height_used_def)
  moreover have "counted cfg node (fs_db s) c h ps \<and> is_active c \<and> past_deadline c h = Inr False"
    using prepare_open_counted [OF _ x(3)] assms(2) db by simp
  ultimately show ?thesis using that x by (auto simp: require_campaign_Inr comp_def)
qed

section \<open>A broadcast\<close>

lemma example_broadcasts:
  "\<exists>s'. broadcast_final_transaction example_config example_node 1 100 (example_state example_pledged_db) = (Inr example_txid, s')"
proof -
  let ?s = "example_state example_pledged_db"
  obtain s1 where p: "build_final_transaction example_config example_node 1 100 ?s = (Inr example_pledge_a, s1)"
    using example_plan by (auto simp: build_final_transaction_def sbind_def)
  have a: "on_rpc (test_mempool_accept example_node (JStr example_pledge_a)) s1 =
      (Inr [(''allowed'', JBool True)], asked ''testmempoolaccept'' [JList [JStr example_pledge_a]] s1)"
    by (simp add: on_rpc_def test_mempool_accept_def example_raw_ok sbind_def example_call example_strip
        example_answer_def json_object_def)
  have "on_rpc (send_raw_transaction example_node (JStr example_pledge_a)) s =
      (Inr example_txid, asked ''sendrawtransaction'' [JStr example_pledge_a] s)" for s
    by (simp add: on_rpc_def send_raw_transaction_def example_raw_ok sbind_def example_call example_strip
        example_answer_def json_string_def)
  then show ?thesis by (simp add: broadcast_final_transaction_def sbind_def p a jget_def)
qed

section \<open>Properties\<close>

text \<open>
  C5. Submitting a signed pledge either raises and leaves the database as it was, or stores exactly the
  returned pledge under its identifier, for the given campaign, in a database that is well-formed
  again. A stored pledge was checked: the campaign was active and not past its deadline at a height
  the node reported, the node reported the output as unspent with enough confirmations and the
  stored value, and the finalized transaction spends that output alone, with the outputs and the
  sequence of the campaign's template.
\<close>

theorem submit_pledge_stored:
  assumes "store_ok (fs_db s)" "valid_datetime t"
    and "submit_signed_pledge cfg node new_id t campaign pledger tx v psbt s = (r, s')"
  shows "case r of
      Inl e \<Rightarrow> fs_db s' = fs_db s
    | Inr p \<Rightarrow> store_ok (fs_db s') \<and> get_pledge new_id (fs_db s') = Inr (Some p) \<and> pl_campaign_id p = campaign \<and>
        (\<exists>c h raw. get_campaign campaign (fs_db s) = Inr (Some c) \<and> height_used node None h \<and>
           valid_pledge cfg node c h \<lparr>pp_pledge = p, pp_raw_tx_hex = raw\<rparr>)"
proof (cases r)
  case (Inl e)
  with writes_atD [OF submit_writes refl assms(3)] show ?thesis by simp
next
  case (Inr p)
  have p: "submitted cfg node campaign (fs_db s) p (fs_db s')" "pl_id p = new_id" "pl_created_at p = DT t"
    using writes_atD [OF submit_writes refl assms(3)] Inr by simp_all
  have db: "db_ok (fs_db s)" using assms(1) by (simp add: store_ok_def)
  have add: "handler_add_one [] (MPledge p) (fs_db s) = (Inr (), fs_db s')" using p(1) by (simp add: submitted_def)
  have adm: "model_adm (MPledge p) (fs_db s)"
    using p assms(2) by (simp add: submitted_def pledge_adm_def valid_timestamp_DT)
  have "pl_campaign_id p = campaign"
    using p(1) campaign_store.get_oid [OF db] by (auto simp: submitted_def)
  moreover have "get_pledge (pl_id p) (fs_db s') = Inr (Some p)"
    using pledge_store.get_add [OF db, of p] adm add by simp
  ultimately show ?thesis
    using Inr p handler_add_store_ok [OF assms(1) adm add] by (simp add: submitted_def)
qed

theorem submit_pledge_stored_witness:
  "\<exists>s'. submit_signed_pledge example_config example_node 7 example_time 1 5 example_txid 0 ''AAAA''
       (example_state example_db) = (Inr example_signed, s') \<and>
     store_ok (fs_db s') \<and> get_pledge 7 (fs_db s') = Inr (Some example_signed)"
proof -
  obtain s' where s': "submit_signed_pledge example_config example_node 7 example_time 1 5 example_txid 0 ''AAAA''
    (example_state example_db) = (Inr example_signed, s')" using example_submit by blast
  have "store_ok (fs_db (example_state example_db))" using example_store_ok(3) by (simp add: example_state_def)
  from submit_pledge_stored [OF this example_time_valid s'] s' show ?thesis by simp
qed

text \<open>
  Creating a campaign either raises and leaves the database as it was, or stores exactly the
  returned campaign. It then belongs to the solution and carries its hash; a solution with a
  campaign gets no second one; a campaign with a positive price expires the given number of blocks
  after a height the node reported, one without a price has no deadline.
\<close>

theorem create_campaign_stored:
  assumes "store_ok (fs_db s)" "valid_datetime t"
    and "create_campaign node new_id t sol payout asking offset s = (r, s')"
  shows "case r of
      Inl e \<Rightarrow> fs_db s' = fs_db s
    | Inr c \<Rightarrow> store_ok (fs_db s') \<and> get_campaign new_id (fs_db s') = Inr (Some c) \<and>
        camp_solution_id c = sol_id sol \<and> compute_hash sol = Inr (camp_solution_hash c) \<and>
        camp_asking_price c = asking \<and> campaign_ok c \<and>
        uuid_str (sol_id sol) \<notin> car_solution_id ` set (campaigns (fs_db s)) \<and>
        (if asking = 0 then camp_deadline c = None
         else \<exists>n h. offset = Some n \<and> 0 < n \<and> height_used node None h \<and> camp_deadline c = Some (h + n))"
proof (cases r)
  case (Inl e)
  with writes_atD [OF create_campaign_writes refl assms(3)] show ?thesis by simp
next
  case (Inr c)
  have c: "created_campaign node sol asking offset (fs_db s) c (fs_db s')" "camp_id c = new_id" "camp_created_at c = DT t"
    using writes_atD [OF create_campaign_writes refl assms(3)] Inr by simp_all
  have add: "handler_add_one [] (MCampaign c) (fs_db s) = (Inr (), fs_db s')" using c(1) by (simp add: created_campaign_def)
  have adm: "model_adm (MCampaign c) (fs_db s)"
    using c assms(2) by (simp add: created_campaign_def campaign_adm_def valid_timestamp_DT)
  have "get_campaign (camp_id c) (fs_db s') = Inr (Some c)"
    using campaign_store.get_add [of "fs_db s" c] adm add assms(1) by (simp add: store_ok_def)
  moreover have "uuid_str (sol_id sol) \<notin> car_solution_id ` set (campaigns (fs_db s))"
    using add_campaign_Inr c(1) unfolding created_campaign_def by metis
  ultimately show ?thesis
    using Inr c handler_add_store_ok [OF assms(1) adm add]
    by (auto simp: created_campaign_def height_used_def split: if_splits)
qed

theorem create_campaign_stored_witness:
  "\<exists>c s'. create_campaign example_node 9 example_time example_solution (Some ''bcrt1q'') 900 (Some 10)
       (example_state db_after_solution) = (Inr c, s') \<and>
     store_ok (fs_db s') \<and> get_campaign 9 (fs_db s') = Inr (Some c) \<and> (\<exists>h. camp_deadline c = Some (h + 10))"
proof -
  obtain c s' where s': "create_campaign example_node 9 example_time example_solution (Some ''bcrt1q'') 900 (Some 10)
    (example_state db_after_solution) = (Inr c, s')" using example_create by blast
  have "store_ok (fs_db (example_state db_after_solution))" using example_store_ok(2) by (simp add: example_state_def)
  from create_campaign_stored [OF this example_time_valid s'] s' show ?thesis by auto
qed

text \<open>
  C2. A final plan covers the asking price and the fee buffer of its campaign with pairwise different
  stored pledges of that campaign, each valid at the same reported height, before the deadline. Its
  transaction parses to exactly the inputs of the finalized transactions of these pledges, no
  outpoint twice. The bound is that of the length encoding.
\<close>

theorem final_plan_sound:
  assumes "store_ok (fs_db s)" "prepare_final_transaction cfg node i fee s = (Inr plan, s')"
    and "length (ftp_selected plan) < 2 ^ 63"
  shows "\<exists>c h sel txs tx. get_campaign i (fs_db s) = Inr (Some c) \<and> height_used node None h \<and>
      past_deadline c h = Inr False \<and> counted cfg node (fs_db s) c h sel \<and> ftp_selected plan = map pp_pledge sel \<and>
      ftp_required_total plan = camp_asking_price c + fee \<and> 0 \<le> fee \<and>
      ftp_selected_total plan = sum_list (map pl_value_sats (ftp_selected plan)) \<and>
      ftp_required_total plan \<le> ftp_selected_total plan \<and>
      map_res parse_transaction (map pp_raw_tx_hex sel) = Inr txs \<and> parse_transaction (ftp_raw_tx_hex plan) = Inr tx \<and>
      inputs tx = concat (map inputs txs) \<and> distinct (map outpoint_key (inputs tx))"
proof -
  obtain c h ps sel where x: "get_campaign i (fs_db s) = Inr (Some c)" "height_used node None h" "past_deadline c h = Inr False"
    "counted cfg node (fs_db s) c h ps" "select_pledges c ps fee = Inr sel"
    "combine_anyonecanpay_pledges (map pp_raw_tx_hex sel) = Inr (ftp_raw_tx_hex plan)"
    "ftp_selected plan = map pp_pledge sel" "ftp_selected_total plan = sum_list (map pp_value sel)"
    "ftp_required_total plan = camp_asking_price c + fee"
    using plan_steps [OF assms(2,1)] by metis
  have s: "0 \<le> fee" "camp_asking_price c + fee \<le> sum_list (map pp_value sel)" "mset sel \<subseteq># mset ps"
    using select_pledges_Inr [OF x(5)] x(4) by (auto simp: counted_def greedy_def)
  obtain txs tx where t: "map_res parse_transaction (map pp_raw_tx_hex sel) = Inr txs"
    "parse_transaction (ftp_raw_tx_hex plan) = Inr tx" "combines txs tx"
    using combine_correct [OF x(6)] assms(3) x(7) by auto
  have "inputs tx = concat (map inputs txs)" "distinct (map outpoint_key (inputs tx))"
    using t(3) concat_pledge_inputs [of txs] by (auto simp: combines_def)
  moreover have "sum_list (map pp_value sel) = sum_list (map pl_value_sats (ftp_selected plan))"
    by (simp add: x(7) comp_def)
  ultimately show ?thesis using x s t counted_subset [OF x(4) s(3)] by metis
qed

theorem final_plan_sound_witness:
  "\<exists>plan s' c tx. prepare_final_transaction example_config example_node 1 100 (example_state example_pledged_db) = (Inr plan, s') \<and>
     ftp_selected plan = [example_signed] \<and> get_campaign 1 example_pledged_db = Inr (Some c) \<and>
     camp_asking_price c + 100 \<le> ftp_selected_total plan \<and>
     parse_transaction (ftp_raw_tx_hex plan) = Inr tx \<and> distinct (map outpoint_key (inputs tx))"
proof -
  let ?s = "example_state example_pledged_db"
  obtain plan s' where p: "prepare_final_transaction example_config example_node 1 100 ?s = (Inr plan, s')"
    "ftp_selected plan = [example_signed]" using example_plan by blast
  have db: "fs_db ?s = example_pledged_db" by (simp add: example_state_def)
  then have ok: "store_ok (fs_db ?s)" using example_pledged_ok by simp
  have len: "length (ftp_selected plan) < 2 ^ 63" by (simp add: p(2))
  from final_plan_sound [OF ok p(1) len] p db show ?thesis by fastforce
qed

text \<open>
  C25. The status of a campaign counts the stored pledges of the campaign that are valid at the reported
  height, and no others: before the deadline every stored pledge of the campaign is counted unless the node
  showed a reason to refuse it (its output spent, unconfirmed or of another value, or a finalized transaction
  that is not the template's), and after the deadline none is. The campaign is called fundable exactly when
  it is not expired and the counted pledges cover the price and the fee buffer; when the time stamps of the
  counted pledges can be compared, this is exactly when the selection succeeds on them.
\<close>

theorem funding_status_correct:
  assumes "store_ok (fs_db s)" "compute_funding_status cfg node i fee s = (Inr st, s')"
  shows "\<exists>c h ps. get_campaign i (fs_db s) = Inr (Some c) \<and> height_used node None h \<and>
      past_deadline c h = Inr (fst_is_expired st) \<and> counted cfg node (fs_db s) c h ps \<and>
      (if fst_is_expired st then ps = []
       else \<forall>p. get_pledge (pl_id p) (fs_db s) = Inr (Some p) \<and> pl_campaign_id p = camp_id c \<and> p \<notin> pp_pledge ` set ps \<longrightarrow>
         refused cfg node c p) \<and>
      fst_valid_count st = length ps \<and> fst_valid_total st = sum_list (map pp_value ps) \<and>
      fst_required_total st = camp_asking_price c + fee \<and>
      (fst_is_fundable st \<longleftrightarrow> \<not> fst_is_expired st \<and> fst_required_total st \<le> fst_valid_total st) \<and>
      (\<not> fst_is_expired st \<longrightarrow> comparable ps \<longrightarrow> (fst_is_fundable st \<longleftrightarrow> (\<exists>sel. select_pledges c ps fee = Inr sel)))"
proof -
  from assms(2) obtain c h s2 ex where x: "0 \<le> fee" "get_campaign i (fs_db s) = Inr (Some c)" "is_active c"
    "on_rpc (get_block_count node) s = (Inr h, s2)" "past_deadline c h = Inr ex"
    "(if ex then sreturn \<lparr>fst_campaign_id = camp_id c, fst_asking_price = camp_asking_price c, fst_valid_total = 0,
                fst_required_total = camp_asking_price c + fee, fst_valid_count = 0, fst_is_expired = True,
                fst_is_fundable = False\<rparr>
      else sbind (prepare_valid_pledges_for_campaign cfg node c (Some h)) (\<lambda>prepared.
       let valid_total = sum_list (map pp_value prepared) in
       sreturn \<lparr>fst_campaign_id = camp_id c, fst_asking_price = camp_asking_price c,
                fst_valid_total = valid_total, fst_required_total = camp_asking_price c + fee,
                fst_valid_count = length prepared, fst_is_expired = False,
                fst_is_fundable = (camp_asking_price c + fee \<le> valid_total)\<rparr>)) s2 = (Inr st, s')"
    by (auto simp: compute_funding_status_def sbind_Inr_iff require_campaign_Inr require_active_campaign_def
        res_simps Let_def not_less)
  have h: "height_used node None h" and db: "fs_db s2 = fs_db s"
    using on_rpc_Inr [OF x(4)] by (auto simp: height_used_def)
  show ?thesis
  proof (cases ex)
    case True
    with x h show ?thesis by (intro exI [of _ c] exI [of _ h] exI [of _ "[]"]) auto
  next
    case False
    with x(6) obtain ps where ps: "prepare_valid_pledges_for_campaign cfg node c (Some h) s2 = (Inr ps, s')"
      and st: "st = \<lparr>fst_campaign_id = camp_id c, fst_asking_price = camp_asking_price c,
        fst_valid_total = sum_list (map pp_value ps), fst_required_total = camp_asking_price c + fee,
        fst_valid_count = length ps, fst_is_expired = False,
        fst_is_fundable = (camp_asking_price c + fee \<le> sum_list (map pp_value ps))\<rparr>"
      by (auto simp: sbind_Inr_iff Let_def)
    have cnt: "counted cfg node (fs_db s) c h ps"
      and all: "\<forall>p. get_pledge (pl_id p) (fs_db s) = Inr (Some p) \<and> pl_campaign_id p = camp_id c \<and> p \<notin> pp_pledge ` set ps \<longrightarrow>
        refused cfg node c p"
      using prepare_counted [OF _ ps] assms(1) db x(3,5) False by simp_all
    then have "distinct (map pp_id ps)" "\<forall>p \<in> set ps. 0 \<le> pp_value p"
      by (auto simp: counted_def intro: less_imp_le)
    then have "(camp_asking_price c + fee \<le> sum_list (map pp_value ps)) = (\<exists>sel. select_pledges c ps fee = Inr sel)"
      if "comparable ps"
      using select_pledges_iff [OF that _ x(1)] by simp
    with x h cnt all st False show ?thesis by (intro exI [of _ c] exI [of _ h] exI [of _ ps]) simp
  qed
qed

theorem funding_status_correct_witness:
  "\<exists>st s'. compute_funding_status example_config example_node 1 100 (example_state example_pledged_db) = (Inr st, s') \<and>
     fst_is_fundable st \<and> fst_required_total st \<le> fst_valid_total st"
proof -
  let ?s = "example_state example_pledged_db"
  have c: "require_campaign 1 ?s = (Inr example_campaign, ?s)"
    by (simp add: require_campaign_Inr example_state_def example_pledged_reads)
  obtain s1 where p: "prepare_valid_pledges_for_campaign example_config example_node example_campaign (Some 90)
      (asked ''getblockcount'' [] ?s) = (Inr [example_single], s1)"
    using example_prepare [of "asked ''getblockcount'' [] ?s"] by (auto simp: example_state_def)
  obtain st s' where st: "compute_funding_status example_config example_node 1 100 ?s = (Inr st, s')" "fst_is_fundable st"
    by (simp add: compute_funding_status_def sbind_def c require_active_campaign_def guard_res_def example_active
        example_on_rpc p Let_def) (simp add: example_signed_def example_campaign_def)
  have "store_ok (fs_db ?s)" using example_pledged_ok by (simp add: example_state_def)
  from funding_status_correct [OF this st(1)] st show ?thesis by blast
qed

text \<open>
  C6. Only accepted transactions are sent. No operation but the broadcast posts a request to send a transaction
  to the node, whatever becomes of the answer. A broadcast posts at most one: either it raises without having
  posted any, or its last two requests are the dry run and the sending of one and the same transaction, the
  one built from the plan, and the node had answered the dry run that the transaction is allowed.
\<close>

theorem only_accepted_transactions_sent:
  "sends (requests (snd (create_campaign node new_id t sol payout asking offset s))) = sends (requests s) \<and>
   sends (requests (snd (create_pledge_request cfg node i pledger tx v s))) = sends (requests s) \<and>
   sends (requests (snd (submit_signed_pledge cfg node new_id t i pledger tx v psbt s))) = sends (requests s) \<and>
   sends (requests (snd (get_valid_pledges cfg node i s))) = sends (requests s) \<and>
   sends (requests (snd (compute_funding_status cfg node i fee s))) = sends (requests s) \<and>
   sends (requests (snd (build_final_transaction cfg node i fee s))) = sends (requests s) \<and>
   (case broadcast_final_transaction cfg node i fee s of (r, s') \<Rightarrow>
      (\<exists>e. r = Inl e) \<and> sends (requests s') = sends (requests s) \<or>
      (\<exists>raw s1 answer s2 h. build_final_transaction cfg node i fee s = (Inr raw, s1) \<and>
         on_rpc (test_mempool_accept node (JStr raw)) s1 = (Inr answer, s2) \<and>
         truthy (jget ''allowed'' answer (JBool False)) \<and> validate_raw_tx_hex (JStr raw) = Inr h \<and>
         sends (requests s1) = sends (requests s) \<and>
         requests s' = requests s1 @ [(''testmempoolaccept'', [JList [JStr h]]), (''sendrawtransaction'', [JStr h])]))"
proof (intro conjI)
  show "case broadcast_final_transaction cfg node i fee s of (r, s') \<Rightarrow>
      (\<exists>e. r = Inl e) \<and> sends (requests s') = sends (requests s) \<or>
      (\<exists>raw s1 answer s2 h. build_final_transaction cfg node i fee s = (Inr raw, s1) \<and>
         on_rpc (test_mempool_accept node (JStr raw)) s1 = (Inr answer, s2) \<and>
         truthy (jget ''allowed'' answer (JBool False)) \<and> validate_raw_tx_hex (JStr raw) = Inr h \<and>
         sends (requests s1) = sends (requests s) \<and>
         requests s' = requests s1 @ [(''testmempoolaccept'', [JList [JStr h]]), (''sendrawtransaction'', [JStr h])])"
    by (rule broadcast_requests)
qed (rule reading_sends [OF _ prod.collapse [symmetric]], rule asks_operations)+

theorem only_accepted_transactions_sent_witness:
  "\<exists>s'. broadcast_final_transaction example_config example_node 1 100 (example_state example_pledged_db) = (Inr example_txid, s') \<and>
     last (requests s') = (''sendrawtransaction'', [JStr example_pledge_a])"
proof -
  obtain s' where s': "broadcast_final_transaction example_config example_node 1 100 (example_state example_pledged_db) =
    (Inr example_txid, s')" using example_broadcasts by blast
  moreover obtain s1 where "build_final_transaction example_config example_node 1 100 (example_state example_pledged_db) =
      (Inr example_pledge_a, s1)"
    using example_plan by (auto simp: build_final_transaction_def sbind_def)
  moreover note only_accepted_transactions_sent [of example_node 9 example_time example_solution None 0 None
      "example_state example_pledged_db" example_config 1 5 example_txid 0 "''AAAA''" 100, THEN conjunct2, THEN conjunct2,
      THEN conjunct2, THEN conjunct2, THEN conjunct2, THEN conjunct2]
  ultimately show ?thesis by (auto simp: example_raw_ok)
qed

end
