(* ===== verification/Community.thy ===== *)
theory Community
  imports Replication
begin

text \<open>
  democracy/network/community.py and community\_settings.py: the gossip node. Its state is the
  repository, the packets handed to IPv8 (in order, with their receivers) and the number of calls of
  the data-changed callback. The connected peers (\<^verbatim>\<open>self.get_peers()\<close>) are a parameter of the
  operations that ask for them; IPv8 delivers a packet to the handler of its message class with the
  payload unpacked.
\<close>

section \<open>Settings\<close>

text \<open>
  The attributes that \<^verbatim>\<open>from_base\<close> looks at: whether a repository is present, whether the callback
  (when present) is callable, whether the interval (when present) is a real number.
\<close>

record community_settings =
  cs_repository :: bool
  cs_data_changed :: "bool option"
  cs_interval :: "bool option"

definition from_base :: "community_settings \<Rightarrow> community_settings res" where
  "from_base c =
     (if \<not> cs_repository c
      then Inl (AttributeError ''DemocracyCommunity requires 'repository' in community settings.'')
      else case cs_data_changed c of
        None \<Rightarrow> Inl (AttributeError ''DemocracyCommunity requires 'data_changed' in community settings.'')
      | Some callable \<Rightarrow>
          if \<not> callable
          then Inl (TypeError ''DemocracyCommunity setting 'data_changed' must be callable.'')
          else case cs_interval c of
            None \<Rightarrow> Inl (AttributeError ''DemocracyCommunity requires 'communication_interval' in community settings.'')
          | Some real \<Rightarrow>
              if \<not> real
              then Inl (TypeError ''DemocracyCommunity setting 'communication_interval' must be a real number.'')
              else Inr c)"

section \<open>The node\<close>

record 'p node =
  node_db :: db
  node_outbox :: "('p \<times> payload) list"
  node_changed :: nat

type_synonym ('p, 'a) node_op = "('p node, py_exn, 'a) sm"

text \<open>A repository call made by the node.\<close>

definition on_db :: "'a repo \<Rightarrow> ('p, 'a) node_op" where
  "on_db f = (\<lambda>n. case f (node_db n) of (r, d) \<Rightarrow> (r, n\<lparr>node_db := d\<rparr>))"

text \<open>A loop over a list whose body may raise.\<close>

fun for_each :: "('x \<Rightarrow> ('s, 'e, unit) sm) \<Rightarrow> 'x list \<Rightarrow> ('s, 'e, unit) sm" where
  "for_each f [] = sreturn ()"
| "for_each f (x # xs) = sbind (f x) (\<lambda>_. for_each f xs)"

definition send_to_peer :: "'p \<Rightarrow> payload \<Rightarrow> ('p, unit) node_op" where
  "send_to_peer peer payload = (\<lambda>n. (Inr (), n\<lparr>node_outbox := node_outbox n @ [(peer, payload)]\<rparr>))"

definition multicast :: "'p list \<Rightarrow> payload \<Rightarrow> 'p set \<Rightarrow> ('p, unit) node_op" where
  "multicast peers payload skip_peers =
     for_each (\<lambda>peer. if peer \<in> skip_peers then sreturn () else send_to_peer peer payload) peers"

definition get_local_inventory :: "db \<Rightarrow> gossip_item list res" where
  "get_local_inventory s =
     rbind (map_res (\<lambda>t. handler_get_all t s) replication_handlers) (\<lambda>mss.
     Inr (map build_item (concat mss)))"

definition announce_inventory :: "'p list \<Rightarrow> gossip_item list \<Rightarrow> 'p set \<Rightarrow> ('p, unit) node_op" where
  "announce_inventory peers items skip_peers =
     sbind (slift (batch_gossip_items items)) (\<lambda>batches.
     for_each (\<lambda>batch. sbind (slift (encode_gossip_items batch)) (\<lambda>blob.
       multicast peers (IHave blob) skip_peers)) batches)"

definition announce_full_inventory :: "'p list \<Rightarrow> ('p, unit) node_op" where
  "announce_full_inventory peers = (\<lambda>n.
     sbind (slift (get_local_inventory (node_db n))) (\<lambda>items. announce_inventory peers items {}) n)"

definition broadcast_created_model :: "'p list \<Rightarrow> model \<Rightarrow> 'p set \<Rightarrow> ('p, unit) node_op" where
  "broadcast_created_model peers m skip_peers =
     sbind (slift (build_message m)) (\<lambda>msg. multicast peers (Object msg) skip_peers)"

definition has_object :: "gossip_item \<Rightarrow> db \<Rightarrow> bool res" where
  "has_object item s = rbind (get_stored_model item s) (\<lambda>m. Inr (m \<noteq> None))"

definition send_object :: "'p \<Rightarrow> gossip_item \<Rightarrow> ('p, unit) node_op" where
  "send_object peer item = (\<lambda>n.
     sbind (slift (get_stored_model item (node_db n))) (\<lambda>stored_model.
     case stored_model of
       None \<Rightarrow> sreturn ()
     | Some m \<Rightarrow> sbind (slift (build_message m)) (\<lambda>msg. send_to_peer peer (Object msg))) n)"

text \<open>\<^verbatim>\<open>[item for item in items if ... and not self._has_object(item)]\<close>.\<close>

fun missing_items :: "db \<Rightarrow> gossip_item list \<Rightarrow> gossip_item list res" where
  "missing_items s [] = Inr []"
| "missing_items s (i # items) =
     rbind (has_object i s) (\<lambda>known.
     rbind (missing_items s items) (\<lambda>rest. Inr (if known then rest else i # rest)))"

definition on_ihave_message :: "'p \<Rightarrow> bytes \<Rightarrow> ('p, unit) node_op" where
  "on_ihave_message peer blob = (\<lambda>n.
     sbind (slift (missing_items (node_db n) (decode_gossip_items blob))) (\<lambda>missing.
     if missing = [] then sreturn ()
     else sbind (slift (batch_gossip_items missing)) (\<lambda>batches.
       for_each (\<lambda>batch. sbind (slift (encode_gossip_items batch)) (\<lambda>b.
         send_to_peer peer (IWant b))) batches)) n)"

definition on_iwant_message :: "'p \<Rightarrow> bytes \<Rightarrow> ('p, unit) node_op" where
  "on_iwant_message peer blob = for_each (send_object peer) (decode_gossip_items blob)"

definition data_changed :: "('p, unit) node_op" where
  "data_changed = (\<lambda>n. (Inr (), n\<lparr>node_changed := node_changed n + 1\<rparr>))"

definition handle_object_message :: "string \<Rightarrow> 'p list \<Rightarrow> 'p \<Rightarrow> object_message \<Rightarrow> ('p, unit) node_op" where
  "handle_object_message now peers peer payload =
     sbind (slift (to_model payload)) (\<lambda>m.
     sbind (on_db (handler_store_remote now m)) (\<lambda>store_status.
     case store_status of
       ALREADY_PRESENT \<Rightarrow> sreturn ()
     | REJECTED \<Rightarrow> sreturn ()
     | STORED \<Rightarrow> sbind data_changed (\<lambda>_. announce_inventory peers [build_item m] {peer})))"

text \<open>The handlers that the constructor registers, by message class.\<close>

fun receive :: "string \<Rightarrow> 'p list \<Rightarrow> 'p \<Rightarrow> payload \<Rightarrow> ('p, unit) node_op" where
  "receive now peers peer (IHave blob) = on_ihave_message peer blob"
| "receive now peers peer (IWant blob) = on_iwant_message peer blob"
| "receive now peers peer (Object msg) = handle_object_message now peers peer msg"

section \<open>Lemmas: sending\<close>

text \<open>The packets that a multicast of several payloads adds.\<close>

abbreviation sends :: "'p list \<Rightarrow> 'p set \<Rightarrow> payload \<Rightarrow> ('p \<times> payload) list" where
  "sends peers skip payload \<equiv> map (\<lambda>p. (p, payload)) (filter (\<lambda>p. p \<notin> skip) peers)"

lemma multicast_eq:
  "multicast peers payload skip n = (Inr (), n\<lparr>node_outbox := node_outbox n @ sends peers skip payload\<rparr>)"
proof -
  have "for_each (\<lambda>p. if p \<in> skip then sreturn () else send_to_peer p payload) peers n =
      (Inr (), n\<lparr>node_outbox := node_outbox n @ sends peers skip payload\<rparr>)"
    by (induction peers arbitrary: n) (auto simp: sbind_def send_to_peer_def)
  then show ?thesis by (simp add: multicast_def)
qed

text \<open>A loop whose bodies only append to the outbox.\<close>

lemma for_each_sends:
  assumes "\<And>x n. x \<in> set xs \<Longrightarrow> f x n = (Inr (), n\<lparr>node_outbox := node_outbox n @ g x\<rparr>)"
  shows "for_each f xs n = (Inr (), n\<lparr>node_outbox := node_outbox n @ concat (map g xs)\<rparr>)"
  using assms by (induction xs arbitrary: n) (auto simp: sbind_def)

text \<open>The blobs of a list of items, one per batch.\<close>

definition batch_blobs :: "gossip_item list \<Rightarrow> bytes list" where
  "batch_blobs items = map (\<lambda>b. projr (encode_gossip_items b)) (projr (batch_gossip_items items))"

lemma batch_blobs_spec:
  "\<exists>bs. batch_gossip_items items = Inr bs \<and> (\<forall>b \<in> set bs. encode_gossip_items b = Inr (projr (encode_gossip_items b))) \<and>
     map decode_gossip_items (batch_blobs items) = bs \<and> concat bs = canonicalize_items items \<and>
     (\<forall>blob \<in> set (batch_blobs items). length blob \<le> MAX_GOSSIP_ITEMS_BLOB_BYTES)"
proof -
  let ?bs = "chunks 79 (canonicalize_items items)"
  have enc: "encode_gossip_items b = Inr (projr (encode_gossip_items b))" for b
    by (simp add: encode_gossip_items_eq)
  have "decode_gossip_items (projr (encode_gossip_items b)) = b" if "b \<in> set ?bs" for b
    using decode_encode [OF enc] batch_canonical [OF that] by simp
  moreover have "length (projr (encode_gossip_items b)) \<le> MAX_GOSSIP_ITEMS_BLOB_BYTES" if b: "b \<in> set ?bs" for b
  proof -
    have "length b \<le> 79" "b \<noteq> []" using chunks_bounds [OF b] by auto
    then show ?thesis using batch_canonical [OF b]
      by (auto simp: encode_gossip_items_eq encoded_size_for_item_count_def gossip_widths)
  qed
  ultimately show ?thesis using enc
    by (intro exI [of _ ?bs]) (auto simp: batch_blobs_def batch_gossip_items_eq concat_chunks map_idI)
qed

lemma concat_batch_blobs: "concat (map decode_gossip_items (batch_blobs items)) = canonicalize_items items"
  using batch_blobs_spec [of items] by auto

lemma announce_inventory_eq:
  "announce_inventory peers items skip n =
     (Inr (), n\<lparr>node_outbox := node_outbox n @ concat (map (\<lambda>b. sends peers skip (IHave b)) (batch_blobs items))\<rparr>)"
proof -
  obtain bs where bs: "batch_gossip_items items = Inr bs"
    "\<forall>b \<in> set bs. encode_gossip_items b = Inr (projr (encode_gossip_items b))" using batch_blobs_spec by metis
  have "for_each (\<lambda>batch. sbind (slift (encode_gossip_items batch)) (\<lambda>blob. multicast peers (IHave blob) skip)) bs n =
      (Inr (), n\<lparr>node_outbox := node_outbox n @ concat (map (\<lambda>b. sends peers skip (IHave (projr (encode_gossip_items b)))) bs)\<rparr>)"
    using bs(2) by (intro for_each_sends) (metis multicast_eq sbind_return_simps(3))
  with bs(1) show ?thesis by (simp add: announce_inventory_def batch_blobs_def comp_def)
qed

lemma missing_items_eq:
  "db_ok s \<Longrightarrow> missing_items s items = Inr (filter (\<lambda>i. abs_store s i = None) items)"
  by (induction items) (auto simp: has_object_def abs_store_eq)

lemma on_ihave_eq:
  assumes "db_ok (node_db n)"
  shows "on_ihave_message peer blob n = (Inr (), n\<lparr>node_outbox := node_outbox n @
     map (\<lambda>b. (peer, IWant b)) (batch_blobs (filter (\<lambda>i. abs_store (node_db n) i = None) (decode_gossip_items blob)))\<rparr>)"
proof -
  let ?m = "filter (\<lambda>i. abs_store (node_db n) i = None) (decode_gossip_items blob)"
  obtain bs where bs: "batch_gossip_items ?m = Inr bs"
    "\<forall>b \<in> set bs. encode_gossip_items b = Inr (projr (encode_gossip_items b))"
    "concat bs = canonicalize_items ?m" "map decode_gossip_items (batch_blobs ?m) = bs"
    using batch_blobs_spec [of ?m] by metis
  have l: "for_each (\<lambda>batch. sbind (slift (encode_gossip_items batch)) (\<lambda>b. send_to_peer peer (IWant b))) bs n =
      (Inr (), n\<lparr>node_outbox := node_outbox n @ concat (map (\<lambda>b. [(peer, IWant (projr (encode_gossip_items b)))]) bs)\<rparr>)"
    using bs(2) by (intro for_each_sends) (metis send_to_peer_def sbind_return_simps(3))
  have "batch_gossip_items [] = Inr []"
    by (simp add: batch_gossip_items_eq canonicalize_items_def deduplicate_items_def chunks.simps)
  with bs(1) have "?m = [] \<Longrightarrow> bs = []" by simp
  then show ?thesis
    using l bs(1) missing_items_eq [OF assms]
    by (auto simp: on_ihave_message_def batch_blobs_def comp_def)
qed

section \<open>Lemmas: handlers\<close>

text \<open>The message of a stored object.\<close>

definition message_of :: "model \<Rightarrow> object_message" where
  "message_of m = projr (build_message m)"

lemma message_of_ok: "model_ok m \<Longrightarrow> build_message m = Inr (message_of m) \<and> to_model (message_of m) = Inr m"
  using message_round_trip [of m] by (auto simp: message_of_def)

lemma send_object_eq:
  assumes "store_ok (node_db n)"
  shows "send_object peer item n = (Inr (), n\<lparr>node_outbox := node_outbox n @
     (case abs_store (node_db n) item of None \<Rightarrow> [] | Some m \<Rightarrow> [(peer, Object (message_of m))])\<rparr>)"
proof -
  have db: "db_ok (node_db n)" using assms by (simp add: store_ok_def)
  show ?thesis
    using message_of_ok stored_row [OF assms, of item]
    by (auto simp: send_object_def abs_store_eq [OF db] send_to_peer_def split: option.splits)
qed

lemma on_iwant_eq:
  assumes "store_ok (node_db n)"
  shows "on_iwant_message peer blob n = (Inr (), n\<lparr>node_outbox := node_outbox n @
     map (\<lambda>m. (peer, Object (message_of m))) (List.map_filter (abs_store (node_db n)) (decode_gossip_items blob))\<rparr>)"
proof -
  have "for_each (send_object peer) items n = (Inr (), n\<lparr>node_outbox := node_outbox n @
     map (\<lambda>m. (peer, Object (message_of m))) (List.map_filter (abs_store (node_db n)) items)\<rparr>)"
    if "store_ok (node_db n)" for items :: "gossip_item list" and n :: "'a node"
    using that
    by (induction items arbitrary: n)
      (auto simp: List.map_filter_simps sbind_def send_object_eq split: option.splits)
  with assms show ?thesis by (simp add: on_iwant_message_def)
qed

lemma on_db_eq: "on_db f n = (fst (f (node_db n)), n\<lparr>node_db := snd (f (node_db n))\<rparr>)"
  by (simp add: on_db_def split: prod.splits)

lemma handle_object_cases:
  assumes "handle_object_message now peers peer msg n = (r, n')"
  shows "(\<exists>e. to_model msg = Inl e \<and> r = Inl e \<and> n' = n) \<or>
         (\<exists>m st d. to_model msg = Inr m \<and> handler_store_remote now m (node_db n) = (st, d) \<and>
            (case st of
               Inl e \<Rightarrow> r = Inl e \<and> n' = n\<lparr>node_db := d\<rparr>
             | Inr STORED \<Rightarrow> r = Inr () \<and>
                 n' = n\<lparr>node_db := d, node_changed := node_changed n + 1,
                        node_outbox := node_outbox n @
                          concat (map (\<lambda>b. sends peers {peer} (IHave b)) (batch_blobs [build_item m]))\<rparr>
             | Inr _ \<Rightarrow> r = Inr () \<and> n' = n\<lparr>node_db := d\<rparr>))"
proof (cases "to_model msg")
  case (Inl e)
  with assms show ?thesis by (auto simp: handle_object_message_def)
next
  case (Inr m)
  obtain st d where st: "handler_store_remote now m (node_db n) = (st, d)"
    by (cases "handler_store_remote now m (node_db n)")
  with Inr assms show ?thesis
    by (cases st)
      (auto simp: handle_object_message_def sbind_def on_db_eq data_changed_def announce_inventory_eq
        split: store_status.splits)
qed

text \<open>No stored text has the digest of a text that the message carries.\<close>

fun message_texts :: "payload \<Rightarrow> string list" where
  "message_texts (Object (IssueMessage m)) = [im_description m]"
| "message_texts (Object (SolutionMessage m)) = [sm_description m]"
| "message_texts p = []"

lemma to_model_adm:
  assumes "to_model msg = Inr m" "\<forall>t \<in> set (message_texts (Object msg)). no_collision t s"
  shows "model_adm m s"
proof -
  have "texts_of m = message_texts (Object msg)"
    using assms(1) by (cases msg) (auto simp: to_model_defs Let_def res_simps)
  with assms to_model_ok [OF assms(1)] show ?thesis by (simp add: model_adm_iff)
qed

lemma handle_object_store_ok:
  assumes "store_ok (node_db n)" "\<forall>t \<in> set (message_texts (Object msg)). no_collision t (node_db n)"
    and "handle_object_message now peers peer msg n = (r, n')"
  shows "store_ok (node_db n')"
proof -
  consider "n' = n" | m st d where "to_model msg = Inr m" "handler_store_remote now m (node_db n) = (st, d)" "node_db n' = d"
    using handle_object_cases [OF assms(3)] by (fastforce split: sum.splits store_status.splits)
  then show ?thesis
    using assms(1) handler_store_ok [OF assms(1) to_model_adm] assms(2) by cases auto
qed

lemma receive_store_ok:
  assumes "store_ok (node_db n)" "\<forall>t \<in> set (message_texts pl). no_collision t (node_db n)"
    and "receive now peers peer pl n = (r, n')"
  shows "store_ok (node_db n')"
proof (cases pl)
  case (IHave b)
  have "db_ok (node_db n)" using assms(1) by (simp add: store_ok_def)
  with IHave assms show ?thesis by (auto simp: on_ihave_eq)
next
  case (IWant b)
  with assms show ?thesis by (auto simp: on_iwant_eq)
next
  case (Object m)
  with assms handle_object_store_ok show ?thesis by auto
qed

lemma get_local_inventory_set:
  assumes "db_ok s"
  shows "\<exists>items. get_local_inventory s = Inr items \<and> set items = dom (abs_store s)"
proof -
  have "\<exists>ms. handler_get_all t s = Inr ms \<and>
     (\<forall>m. m \<in> set ms \<longleftrightarrow> model_type m = t \<and> abs_store s (build_item m) = Some m)" for t
    by (rule handler_get_all_items [OF assms])
  then obtain f where f: "\<And>t. handler_get_all t s = Inr (f t)"
    "\<And>t m. m \<in> set (f t) \<longleftrightarrow> model_type m = t \<and> abs_store s (build_item m) = Some m" by metis
  have "t \<in> set replication_handlers" for t by (cases t) (simp_all add: replication_handlers_def)
  then have "m \<in> set (concat (map f replication_handlers)) \<longleftrightarrow> abs_store s (build_item m) = Some m" for m
    using f(2) by auto
  then have "item \<in> set (map build_item (concat (map f replication_handlers))) \<longleftrightarrow> item \<in> dom (abs_store s)" for item
    unfolding set_map image_iff Bex_def dom_def mem_Collect_eq
    using abs_store_item [OF assms, of item] by (metis option.distinct(1) option.exhaust)
  then have "set (map build_item (concat (map f replication_handlers))) = dom (abs_store s)" by blast
  moreover have "get_local_inventory s = Inr (map build_item (concat (map f replication_handlers)))"
    by (simp add: get_local_inventory_def map_res_all_Inr f(1))
  ultimately show ?thesis by blast
qed

end
