(* ===== verification/Democracy_Service.thy ===== *)
theory Democracy_Service
  imports Community
begin

text \<open>
  democracy/democracy\_service.py, event\_publisher.py and the broadcast queue of
  network/ipv8\_thread.py: the operations of the application, which write to the repository and hand
  what they created to the networking thread. The thread drops what arrives before its event loop
  exists, queues what arrives before the community is up, and broadcasts the rest; the Qt signal and
  the event loop run the handlers in the order of the calls.
\<close>

section \<open>State\<close>

record 'p system =
  sys_node :: "'p node"
  sys_attached :: bool
  sys_loop :: bool
  sys_overlay :: bool
  sys_pending :: "model list"

type_synonym ('p, 'a) system_op = "('p system, py_exn, 'a) sm"

definition on_node :: "('p, 'a) node_op \<Rightarrow> ('p, 'a) system_op" where
  "on_node f = (\<lambda>s. case f (sys_node s) of (r, n) \<Rightarrow> (r, s\<lparr>sys_node := n\<rparr>))"

definition on_repository :: "'a repo \<Rightarrow> ('p, 'a) system_op" where
  "on_repository f = on_node (on_db f)"

section \<open>The networking thread\<close>

text \<open>
  \<^verbatim>\<open>_on_broadcast_issue\<close> and its three siblings. An exception of the coroutine ends in its future,
  which nobody reads.
\<close>

definition on_broadcast :: "'p list \<Rightarrow> model \<Rightarrow> ('p, unit) system_op" where
  "on_broadcast peers m = (\<lambda>s.
     if \<not> sys_loop s then (Inr (), s)
     else if \<not> sys_overlay s then (Inr (), s\<lparr>sys_pending := sys_pending s @ [m]\<rparr>)
     else (Inr (), snd (on_node (broadcast_created_model peers m {}) s)))"

text \<open>The loop of \<^verbatim>\<open>_flush_pending\<close>: every queued model is taken off the queue, then broadcast.\<close>

fun flush_loop :: "'p list \<Rightarrow> model list \<Rightarrow> ('p, unit) system_op" where
  "flush_loop peers [] = sreturn ()"
| "flush_loop peers (m # rest) = (\<lambda>s.
     sbind (on_node (broadcast_created_model peers m {})) (\<lambda>_. flush_loop peers rest)
       (s\<lparr>sys_pending := rest\<rparr>))"

definition flush_pending :: "'p list \<Rightarrow> ('p, unit) system_op" where
  "flush_pending peers = (\<lambda>s.
     if \<not> sys_overlay s then (Inr (), s)
     else sbind (flush_loop peers (sys_pending s)) (\<lambda>_. on_node data_changed) s)"

text \<open>
  \<^verbatim>\<open>run\<close> creates the loop; its start-up task sets the overlay and flushes the queue. A failing
  start-up (\<open>started = False\<close>) clears the queue, as does an exception of the flush.
\<close>

definition run :: "('p, unit) system_op" where
  "run = (\<lambda>s. (Inr (), s\<lparr>sys_loop := True\<rparr>))"

definition start_community :: "'p list \<Rightarrow> bool \<Rightarrow> ('p, unit) system_op" where
  "start_community peers started = (\<lambda>s.
     if \<not> started then (Inr (), s\<lparr>sys_pending := []\<rparr>)
     else case flush_pending peers (s\<lparr>sys_overlay := True\<rparr>) of
       (Inr _, s1) \<Rightarrow> (Inr (), s1)
     | (Inl _, s1) \<Rightarrow> (Inr (), s1\<lparr>sys_pending := []\<rparr>))"

section \<open>The publisher\<close>

definition attach_worker :: "('p, unit) system_op" where
  "attach_worker = (\<lambda>s. (Inr (), s\<lparr>sys_attached := True\<rparr>))"

definition publish :: "'p list \<Rightarrow> model \<Rightarrow> ('p, unit) system_op" where
  "publish peers m = (\<lambda>s. if sys_attached s then on_broadcast peers m s else (Inr (), s))"

section \<open>The service\<close>

text \<open>
  The fresh identifier (\<^verbatim>\<open>uuid4()\<close>) and the time stamp (\<^verbatim>\<open>datetime.now(timezone.utc)\<close>) of a new object
  are parameters, as is the clock of the repository.
\<close>

definition create_issue ::
    "'p list \<Rightarrow> uuid \<Rightarrow> datetime \<Rightarrow> string \<Rightarrow> string \<Rightarrow> string \<Rightarrow> uuid \<Rightarrow> ('p, issue) system_op" where
  "create_issue peers new_id created_at now title description creator_id =
     (let issue = \<lparr>iss_id = new_id, iss_title = title, iss_creator_id = creator_id,
                   iss_description = description, iss_created_at = DT created_at\<rparr>
      in sbind (on_repository (add_issue now issue)) (\<lambda>_.
         sbind (publish peers (MIssue issue)) (\<lambda>_. sreturn issue)))"

definition vote_for_issue ::
    "'p list \<Rightarrow> uuid \<Rightarrow> datetime \<Rightarrow> uuid \<Rightarrow> uuid \<Rightarrow> ('p, issue_vote option) system_op" where
  "vote_for_issue peers new_id created_at voter_id issue_id =
     (let vote = \<lparr>iv_id = new_id, iv_voter_id = voter_id, iv_issue_id = issue_id, iv_created_at = DT created_at\<rparr>
      in sbind (on_repository (record_issue_vote vote)) (\<lambda>result.
         if result \<noteq> CREATED then sreturn None
         else sbind (publish peers (MIssueVote vote)) (\<lambda>_. sreturn (Some vote))))"

definition create_solution ::
    "'p list \<Rightarrow> uuid \<Rightarrow> datetime \<Rightarrow> string \<Rightarrow> string \<Rightarrow> string \<Rightarrow> uuid \<Rightarrow> uuid \<Rightarrow> ('p, solution) system_op" where
  "create_solution peers new_id created_at now title description creator_id issue_id =
     (let solution = \<lparr>sol_id = new_id, sol_issue_id = issue_id, sol_title = title,
                      sol_creator_id = creator_id, sol_description = description,
                      sol_created_at = DT created_at\<rparr>
      in sbind (on_repository (add_solution now solution)) (\<lambda>_.
         sbind (publish peers (MSolution solution)) (\<lambda>_. sreturn solution)))"

definition vote_for_solution ::
    "'p list \<Rightarrow> uuid \<Rightarrow> datetime \<Rightarrow> uuid \<Rightarrow> uuid \<Rightarrow> ('p, solution_vote option) system_op" where
  "vote_for_solution peers new_id created_at voter_id solution_id =
     (let vote = \<lparr>sv_id = new_id, sv_voter_id = voter_id, sv_solution_id = solution_id, sv_created_at = DT created_at\<rparr>
      in sbind (on_repository (record_solution_vote vote)) (\<lambda>result.
         if result \<noteq> CREATED then sreturn None
         else sbind (publish peers (MSolutionVote vote)) (\<lambda>_. sreturn (Some vote))))"

section \<open>Lemmas: the queue\<close>

abbreviation sys_db :: "'p system \<Rightarrow> db" where
  "sys_db s \<equiv> node_db (sys_node s)"

abbreviation sys_outbox :: "'p system \<Rightarrow> ('p \<times> payload) list" where
  "sys_outbox s \<equiv> node_outbox (sys_node s)"

lemma broadcast_db: "node_db (snd (broadcast_created_model peers m skip n)) = node_db n"
  by (cases "build_message m") (simp_all add: broadcast_created_model_def multicast_eq)

lemma broadcast_eq:
  assumes "model_ok m"
  shows "broadcast_created_model peers m {} n =
    (Inr (), n\<lparr>node_outbox := node_outbox n @ sends peers {} (Object (message_of m))\<rparr>)"
  using message_of_ok [OF assms] by (simp add: broadcast_created_model_def multicast_eq)

lemma on_node_simps [simp]:
  "on_node f s = (fst (f (sys_node s)), s\<lparr>sys_node := snd (f (sys_node s))\<rparr>)"
  by (simp add: on_node_def split: prod.splits)

lemma on_repository_eq:
  "on_repository f s =
     (fst (f (sys_db s)), s\<lparr>sys_node := (sys_node s)\<lparr>node_db := snd (f (sys_db s))\<rparr>\<rparr>)"
  by (simp add: on_repository_def on_db_eq)

lemma on_broadcast_db: "sys_db (snd (on_broadcast peers m s)) = sys_db s"
  by (simp add: on_broadcast_def broadcast_db)

lemma publish_db: "sys_db (snd (publish peers m s)) = sys_db s"
  by (simp add: publish_def on_broadcast_db)

lemma publish_returns: "fst (publish peers m s) = Inr ()"
  by (simp add: publish_def on_broadcast_def)

lemma flush_loop_eq:
  "list_all model_ok ms \<Longrightarrow> sys_pending s = ms \<Longrightarrow>
     flush_loop peers ms s = (Inr (), s\<lparr>sys_pending := [], sys_node := (sys_node s)\<lparr>node_outbox :=
       sys_outbox s @ concat (map (\<lambda>m. sends peers {} (Object (message_of m))) ms)\<rparr>\<rparr>)"
proof (induction ms arbitrary: s)
  case Nil
  then show ?case by (cases s) simp
next
  case (Cons m ms)
  let ?s1 = "s\<lparr>sys_pending := ms, sys_node := (sys_node s)\<lparr>node_outbox := sys_outbox s @ sends peers {} (Object (message_of m))\<rparr>\<rparr>"
  have "flush_loop peers (m # ms) s = flush_loop peers ms ?s1"
    using Cons.prems by (simp add: sbind_def broadcast_eq)
  with Cons show ?case by simp
qed

lemma flush_loop_db: "sys_db (snd (flush_loop peers ms s)) = sys_db s"
  by (induction ms arbitrary: s) (auto simp: sbind_def broadcast_db split: prod.splits sum.splits)

lemma flush_pending_db: "sys_db (snd (flush_pending peers s)) = sys_db s"
  using flush_loop_db [of peers "sys_pending s" s]
  by (auto simp: flush_pending_def sbind_def data_changed_def split: prod.splits sum.splits)

section \<open>Lemmas: the service keeps the invariant\<close>

lemma sbind_publish: "sbind (publish peers m) k s = k () (snd (publish peers m s))"
  using publish_returns [of peers m s] by (cases "publish peers m s") (simp add: sbind_def)

lemma repository_then:
  assumes "sbind (on_repository f) g s = (r, s')" and "\<And>x s1. sys_db (snd (g x s1)) = sys_db s1"
  shows "\<exists>x. f (sys_db s) = (x, sys_db s')"
proof (cases "f (sys_db s)")
  case (Pair x d)
  let ?s1 = "s\<lparr>sys_node := (sys_node s)\<lparr>node_db := d\<rparr>\<rparr>"
  have "on_repository f s = (x, ?s1)" using Pair by (simp add: on_repository_eq)
  then have "sys_db s' = sys_db ?s1" 
    using assms(1) assms(2) [of "projr x" ?s1] by (cases x) (auto simp: sbind_def)
  with Pair show ?thesis by simp
qed

text \<open>A service operation is a repository call, after which only the outbox changes.\<close>

lemma create_issue_repo:
  assumes "create_issue peers i t now title descr creator s = (r, s')"
  shows "\<exists>x. add_issue now \<lparr>iss_id = i, iss_title = title, iss_creator_id = creator,
      iss_description = descr, iss_created_at = DT t\<rparr> (sys_db s) = (x, sys_db s')"
  by (rule repository_then [OF assms [unfolded create_issue_def Let_def]]) (simp add: sbind_publish publish_db)

lemma create_solution_repo:
  assumes "create_solution peers i t now title descr creator issue s = (r, s')"
  shows "\<exists>x. add_solution now \<lparr>sol_id = i, sol_issue_id = issue, sol_title = title,
      sol_creator_id = creator, sol_description = descr, sol_created_at = DT t\<rparr> (sys_db s) = (x, sys_db s')"
  by (rule repository_then [OF assms [unfolded create_solution_def Let_def]]) (simp add: sbind_publish publish_db)

lemma vote_for_issue_repo:
  assumes "vote_for_issue peers i t voter issue s = (r, s')"
  shows "\<exists>x. record_issue_vote \<lparr>iv_id = i, iv_voter_id = voter, iv_issue_id = issue,
      iv_created_at = DT t\<rparr> (sys_db s) = (x, sys_db s')"
  by (rule repository_then [OF assms [unfolded vote_for_issue_def Let_def]]) (simp add: sbind_publish publish_db)

lemma vote_for_solution_repo:
  assumes "vote_for_solution peers i t voter solution s = (r, s')"
  shows "\<exists>x. record_solution_vote \<lparr>sv_id = i, sv_voter_id = voter, sv_solution_id = solution,
      sv_created_at = DT t\<rparr> (sys_db s) = (x, sys_db s')"
  by (rule repository_then [OF assms [unfolded vote_for_solution_def Let_def]]) (simp add: sbind_publish publish_db)

end
