(* ===== verification/Network.thy ===== *)
theory Network
  imports Examples Democracy_Service
begin

text \<open>
  The node as a whole: a step relation over everything that can touch its database (messages, periodic
  announcements, the application's operations, the networking thread, the funding service), the
  invariant of every reachable state, and what each message handler does.
\<close>

section \<open>Steps of a node\<close>

text \<open>
  One rule per kind of event. Peers, fresh identifiers, time stamps and the Bitcoin node are
  arbitrary. A text is only written when no other stored text has its SHA-256 digest.
\<close>

definition set_db :: "db \<Rightarrow> 'p system \<Rightarrow> 'p system" where
  "set_db d s = s\<lparr>sys_node := (sys_node s)\<lparr>node_db := d\<rparr>\<rparr>"

inductive system_step :: "'p system \<Rightarrow> 'p system \<Rightarrow> bool" where
  received: "\<forall>t \<in> set (message_texts pl). no_collision t (sys_db s) \<Longrightarrow>
    on_node (receive now peers peer pl) s = (r, s') \<Longrightarrow> system_step s s'"
| announced: "on_node (announce_full_inventory peers) s = (r, s') \<Longrightarrow> system_step s s'"
| issue_created: "valid_datetime t \<Longrightarrow> no_collision descr (sys_db s) \<Longrightarrow>
    create_issue peers i t now title descr creator s = (r, s') \<Longrightarrow> system_step s s'"
| solution_created: "valid_datetime t \<Longrightarrow> no_collision descr (sys_db s) \<Longrightarrow>
    create_solution peers i t now title descr creator issue s = (r, s') \<Longrightarrow> system_step s s'"
| issue_voted: "valid_datetime t \<Longrightarrow> vote_for_issue peers i t voter issue s = (r, s') \<Longrightarrow> system_step s s'"
| solution_voted: "valid_datetime t \<Longrightarrow> vote_for_solution peers i t voter solution s = (r, s') \<Longrightarrow> system_step s s'"
| attached: "attach_worker s = (r, s') \<Longrightarrow> system_step s s'"
| thread_started: "run s = (r, s') \<Longrightarrow> system_step s s'"
| community_started: "start_community peers ok s = (r, s') \<Longrightarrow> system_step s s'"
| campaign_created: "valid_datetime t \<Longrightarrow>
    create_campaign node i t sol payout asking offset \<lparr>fs_db = sys_db s, fs_rpc = c\<rparr> = (r, f) \<Longrightarrow>
    system_step s (set_db (fs_db f) s)"
| pledge_submitted: "valid_datetime t \<Longrightarrow>
    submit_signed_pledge cfg node i t campaign pledger tx v psbt \<lparr>fs_db = sys_db s, fs_rpc = c\<rparr> = (r, f) \<Longrightarrow>
    system_step s (set_db (fs_db f) s)"
| issue_deleted: "delete_issue i (sys_db s) = (r, d) \<Longrightarrow> system_step s (set_db d s)"
| solution_deleted: "delete_solution i (sys_db s) = (r, d) \<Longrightarrow> system_step s (set_db d s)"
| issue_replaced: "issue_adm i (sys_db s) \<Longrightarrow> replace_issue now k i (sys_db s) = (r, d) \<Longrightarrow> system_step s (set_db d s)"
| solution_replaced: "solution_adm x (sys_db s) \<Longrightarrow> replace_solution now k x (sys_db s) = (r, d) \<Longrightarrow> system_step s (set_db d s)"

definition initial_system :: "'p system" where
  "initial_system = \<lparr>sys_node = \<lparr>node_db = empty_db, node_outbox = [], node_changed = 0\<rparr>,
     sys_attached = False, sys_loop = False, sys_overlay = False, sys_pending = []\<rparr>"

inductive reachable :: "'p system \<Rightarrow> bool" where
  start: "reachable initial_system"
| step: "reachable s \<Longrightarrow> system_step s s' \<Longrightarrow> reachable s'"

section \<open>The invariant\<close>

text \<open>The integers of the database are those SQLite can hold.\<close>

definition ints_ok :: "db \<Rightarrow> bool" where
  "ints_ok d \<longleftrightarrow>
     (\<forall>r \<in> set (campaigns d). list_all fits_int64 (car_asking_price r # (case car_deadline_height r of None \<Rightarrow> [] | Some h \<Rightarrow> [h]))) \<and>
     (\<forall>r \<in> set (pledges d). list_all fits_int64 [pr_vout r, pr_value_sats r])"

definition node_inv :: "db \<Rightarrow> bool" where
  "node_inv d \<longleftrightarrow> store_ok d \<and> ints_ok d"

lemma node_inv_empty: "node_inv empty_db"
  by (simp add: node_inv_def store_ok_empty) (simp add: ints_ok_def empty_db_def)

lemma ints_ok_cong:
  "ints_ok d \<Longrightarrow> set (campaigns d') \<subseteq> set (campaigns d) \<Longrightarrow> set (pledges d') \<subseteq> set (pledges d) \<Longrightarrow> ints_ok d'"
  by (auto simp: ints_ok_def)

lemma ints_ok_add:
  assumes "ints_ok s" "handler_add_one now m s = (Inr u, s')"
  shows "ints_ok s'"
proof (cases m)
  case (MCampaign c)
  with assms show ?thesis
    by (auto simp: ints_ok_def add_campaign_def transaction_iff bind_ints_def res_simps Let_def
        simp del: check_constraints.simps)
next
  case (MPledge p)
  with assms show ?thesis
    by (auto simp: ints_ok_def add_pledge_def transaction_iff bind_ints_def res_simps Let_def
        simp del: check_constraints.simps)
qed (use assms in \<open>auto simp: ints_ok_def add_issue_Inr_iff add_issue_vote_Inr_iff add_solution_Inr_iff
    add_solution_vote_Inr_iff\<close>)

lemma node_inv_add:
  "node_inv s \<Longrightarrow> model_adm m s \<Longrightarrow> handler_add_one now m s = (r, s') \<Longrightarrow> node_inv s'"
  using handler_add_store_ok ints_ok_add handler_add_error
  by (cases r) (fastforce simp: node_inv_def)+

lemma node_inv_record:
  assumes "node_inv s"
  shows "issue_vote_adm v s \<Longrightarrow> record_issue_vote v s = (r, s') \<Longrightarrow> node_inv s'"
    and "solution_vote_adm w s \<Longrightarrow> record_solution_vote w s = (r, s') \<Longrightarrow> node_inv s'"
proof -
  assume "issue_vote_adm v s" "record_issue_vote v s = (r, s')"
  moreover from this(2) obtain x where "add_issue_vote v s = (x, s')"
    unfolding record_issue_vote_def by (blast dest: record_vote_cases)
  ultimately show "node_inv s'" using node_inv_add [OF assms, of "MIssueVote v"] by simp
next
  assume "solution_vote_adm w s" "record_solution_vote w s = (r, s')"
  moreover from this(2) obtain x where "add_solution_vote w s = (x, s')"
    unfolding record_solution_vote_def by (blast dest: record_vote_cases)
  ultimately show "node_inv s'" using node_inv_add [OF assms, of "MSolutionVote w"] by simp
qed

lemma drop_tables:
  "r \<in> set (campaigns (drop_solutions f s)) \<Longrightarrow> r \<in> set (campaigns s)"
  "q \<in> set (pledges (drop_solutions f s)) \<Longrightarrow> q \<in> set (pledges s)"
  by (auto simp: drop_solutions_def drop_campaigns_def Let_def)

lemma delete_tables:
  "delete_issue i s = (r, s') \<Longrightarrow> set (campaigns s') \<subseteq> set (campaigns s) \<and> set (pledges s') \<subseteq> set (pledges s)"
  "delete_solution i s = (r', s') \<Longrightarrow> set (campaigns s') \<subseteq> set (campaigns s) \<and> set (pledges s') \<subseteq> set (pledges s)"
  by (auto simp: delete_issue_def delete_solution_def Let_def split: if_splits dest: drop_tables)

lemma node_inv_delete:
  assumes "node_inv s"
  shows "delete_issue i s = (r, s') \<Longrightarrow> node_inv s'" "delete_solution i s = (r', s') \<Longrightarrow> node_inv s'"
  using assms canon_ok_delete delete_issue_db_ok delete_solution_db_ok delete_tables ints_ok_cong
  unfolding node_inv_def store_ok_def by metis+

lemma replace_tables:
  "replace_issue now k x s = (Inr b, s') \<Longrightarrow> campaigns s' = campaigns s \<and> pledges s' = pledges s"
  "replace_solution now k y s = (Inr b, s') \<Longrightarrow> campaigns s' = campaigns s \<and> pledges s' = pledges s"
  by (auto simp: replace_issue_def replace_solution_def Let_def simp del: check_constraints.simps split: sum.splits)

lemma replace_error:
  "replace_issue now k x s = (Inl e, s') \<Longrightarrow> s' = s"
  "replace_solution now k y s = (Inl e, s') \<Longrightarrow> s' = s"
  by (auto simp: replace_issue_def replace_solution_def Let_def simp del: check_constraints.simps split: sum.splits)

lemma node_inv_replace:
  assumes "node_inv s"
  shows "issue_adm x s \<Longrightarrow> replace_issue now k x s = (r, s') \<Longrightarrow> node_inv s'"
    and "solution_adm y s \<Longrightarrow> replace_solution now k y s = (r', s') \<Longrightarrow> node_inv s'"
proof -
  have i: "ints_ok s" "db_ok s" "canon_ok s" using assms by (auto simp: node_inv_def store_ok_def)
  show "node_inv s'" if "issue_adm x s" "replace_issue now k x s = (r, s')"
  proof (cases r)
    case (Inr b)
    then show ?thesis
      using that i replace_issue_db_ok [of s x now k b s'] canon_ok_replace(1) [OF i(3)] replace_tables(1) [of now k x s b s']
      by (auto simp: node_inv_def store_ok_def ints_ok_def)
  qed (use that assms replace_error in blast)
  show "node_inv s'" if "solution_adm y s" "replace_solution now k y s = (r', s')"
  proof (cases r')
    case (Inr b)
    then show ?thesis
      using that i replace_solution_db_ok [of s y now k b s'] canon_ok_replace(2) [OF i(3)] replace_tables(2) [of now k y s b s']
      by (auto simp: node_inv_def store_ok_def ints_ok_def)
  qed (use that assms replace_error in blast)
qed

lemma node_inv_receive:
  assumes "node_inv (node_db n)" "\<forall>t \<in> set (message_texts pl). no_collision t (node_db n)"
    and "receive now peers peer pl n = (r, n')"
  shows "node_inv (node_db n')"
proof -
  have ok: "store_ok (node_db n)" "db_ok (node_db n)" "ints_ok (node_db n)"
    using assms(1) by (auto simp: node_inv_def store_ok_def)
  have "ints_ok (node_db n')"
  proof (cases pl)
    case (Object msg)
    then have "handle_object_message now peers peer msg n = (r, n')" using assms(3) by simp
    from handle_object_cases [OF this]
    consider "n' = n" | m st d where "handler_store_remote now m (node_db n) = (st, d)" "node_db n' = d"
      by (fastforce split: sum.splits store_status.splits)
    then show ?thesis
    proof cases
      case 2
      from handler_store_cases [OF ok(2) 2(1)] have "d = node_db n \<or> handler_add_one now m (node_db n) = (Inr (), d)"
        by blast
      with 2(2) ok(3) ints_ok_add [OF ok(3)] show ?thesis by metis
    qed (simp add: ok)
  qed (use assms ok in \<open>auto simp: on_ihave_eq on_iwant_eq\<close>)
  with receive_store_ok [OF ok(1) assms(2,3)] show ?thesis by (simp add: node_inv_def)
qed

lemma start_community_db: "start_community peers ok s = (r, s') \<Longrightarrow> sys_db s' = sys_db s"
  using flush_pending_db [of peers "s\<lparr>sys_overlay := True\<rparr>"]
  by (auto simp: start_community_def split: prod.splits sum.splits if_splits)

lemma announce_full_db: "node_db (snd (announce_full_inventory peers n)) = node_db n"
  by (cases "get_local_inventory (node_db n)") (simp_all add: announce_full_inventory_def announce_inventory_eq)

lemma system_step_inv:
  assumes "system_step s s'" "node_inv (sys_db s)"
  shows "node_inv (sys_db s')"
  using assms
proof (induction rule: system_step.induct)
  case (received pl s now peers peer r s')
  then show ?case using node_inv_receive [of "sys_node s" pl now peers peer] by (cases "receive now peers peer pl (sys_node s)") auto
next
  case (announced peers s r s')
  then show ?case by (auto simp: announce_full_db)
next
  case (issue_created t descr s peers i now title creator r s')
  let ?m = "\<lparr>iss_id = i, iss_title = title, iss_creator_id = creator, iss_description = descr, iss_created_at = DT t\<rparr>"
  obtain x where "handler_add_one now (MIssue ?m) (sys_db s) = (x, sys_db s')"
    using create_issue_repo [OF issue_created(3)] by auto
  from node_inv_add [OF issue_created(4) _ this] issue_created(1,2) show ?case
    by (simp add: issue_adm_def valid_timestamp_DT)
next
  case (solution_created t descr s peers i now title creator issue r s')
  let ?m = "\<lparr>sol_id = i, sol_issue_id = issue, sol_title = title, sol_creator_id = creator,
    sol_description = descr, sol_created_at = DT t\<rparr>"
  obtain x where "handler_add_one now (MSolution ?m) (sys_db s) = (x, sys_db s')"
    using create_solution_repo [OF solution_created(3)] by auto
  from node_inv_add [OF solution_created(4) _ this] solution_created(1,2) show ?case
    by (simp add: solution_adm_def valid_timestamp_DT)
next
  case (issue_voted t peers i voter issue s r s')
  obtain x where x: "record_issue_vote \<lparr>iv_id = i, iv_voter_id = voter, iv_issue_id = issue, iv_created_at = DT t\<rparr> (sys_db s) = (x, sys_db s')"
    using vote_for_issue_repo [OF issue_voted(2)] by blast
  show ?case
    by (rule node_inv_record(1) [OF issue_voted(3) _ x]) (simp add: issue_vote_adm_def valid_timestamp_DT issue_voted(1))
next
  case (solution_voted t peers i voter solution s r s')
  obtain x where x: "record_solution_vote \<lparr>sv_id = i, sv_voter_id = voter, sv_solution_id = solution, sv_created_at = DT t\<rparr> (sys_db s) = (x, sys_db s')"
    using vote_for_solution_repo [OF solution_voted(2)] by blast
  show ?case
    by (rule node_inv_record(2) [OF solution_voted(3) _ x]) (simp add: solution_vote_adm_def valid_timestamp_DT solution_voted(1))
next
  case (campaign_created t node i sol payout asking offset s c r f)
  show ?case
  proof (cases r)
    case (Inr cam)
    with writes_atD [OF create_campaign_writes _ campaign_created(2)] campaign_created(1,3)
    show ?thesis using node_inv_add [OF campaign_created(3), of "MCampaign cam" "[]"]
      by (simp add: created_campaign_def campaign_adm_def valid_timestamp_DT set_db_def)
  qed (use writes_atD [OF create_campaign_writes _ campaign_created(2)] campaign_created(3) in \<open>simp add: set_db_def\<close>)
next
  case (pledge_submitted t cfg node i campaign pledger tx v psbt s c r f)
  show ?case
  proof (cases r)
    case (Inr p)
    with writes_atD [OF submit_writes _ pledge_submitted(2)] pledge_submitted(1,3)
    show ?thesis using node_inv_add [OF pledge_submitted(3), of "MPledge p" "[]"]
      by (simp add: submitted_def pledge_adm_def valid_timestamp_DT set_db_def)
  qed (use writes_atD [OF submit_writes _ pledge_submitted(2)] pledge_submitted(3) in \<open>simp add: set_db_def\<close>)
qed (auto simp: attach_worker_def run_def set_db_def dest: start_community_db node_inv_delete node_inv_replace)

section \<open>Examples\<close>

definition example_peer_node :: "db \<Rightarrow> 'p node" where
  "example_peer_node d = \<lparr>node_db = d, node_outbox = [], node_changed = 0\<rparr>"

definition example_unknown :: gossip_item where
  "example_unknown = \<lparr>gi_type = ISSUE, gi_uuid = 99\<rparr>"

lemma canonical_single: "canonicalize_items [i] = [i]"
  by (simp add: canonicalize_items_def deduplicate_items_def)

lemma example_blob: "\<exists>blob. decode_gossip_items blob = [build_item (MIssue example_issue), example_unknown]"
proof -
  let ?is = "[build_item (MIssue example_issue), example_unknown]"
  have c: "canonicalize_items ?is = ?is"
    by (simp add: canonicalize_items_def deduplicate_items_def build_item_def example_unknown_def example_issue_def
        item_key_def less_eq_prod_def)
  have "encode_gossip_items ?is = Inr (projr (encode_gossip_items ?is))" by (simp add: encode_gossip_items_eq)
  from decode_encode [OF this] c show ?thesis by metis
qed

lemma example_lookups:
  "get_stored_model (build_item (MIssue example_issue)) example_db = Inr (Some (MIssue example_issue))"
  "get_stored_model example_unknown example_db = Inr None"
  using example_store_ok(3)
  by (simp_all add: abs_store_eq store_ok_def example_abs build_item_def example_unknown_def example_issue_def)

lemma example_stored:
  "handler_store_remote [] (MSolution example_solution) db_after_issue = (Inr STORED, db_after_solution)"
proof -
  have ok: "db_ok db_after_issue" using example_store_ok(1) by (simp add: store_ok_def)
  have add: "add_solution [] example_solution db_after_issue = (Inr (), db_after_solution)" using example_adds(2) by simp
  then have "get_solution (sol_id example_solution) db_after_issue = Inr None" by (rule solution_store.add_fresh [OF ok])
  then have "add_solution [] example_solution db_after_issue = (Inr (), d) \<Longrightarrow>
      handler_store_remote [] (MSolution example_solution) db_after_issue = (Inr STORED, d)" for d
    by (simp add: store_remote_def scatch_def sbind_def)
  from this [OF add] show ?thesis .
qed

lemma example_message:
  "to_model (message_of (MSolution example_solution)) = Inr (MSolution example_solution)"
  "message_texts (Object (message_of (MSolution example_solution))) = [''text'']"
  using message_of_ok [OF example_models_ok(2)]
  by (auto simp: message_of_def solution_from_model_def timestamp_isoformat_def example_solution_def)

section \<open>Properties\<close>

lemma store_remote_present:
  "get_stored_model (build_item m) s = Inr (Some m') \<Longrightarrow> handler_store_remote now m s = (Inr ALREADY_PRESENT, s)"
  by (cases m) (auto simp: get_stored_model_def build_item_def store_remote_def store_remote_vote_def)

lemma reachable_inv: "reachable s \<Longrightarrow> node_inv (sys_db s)"
proof (induction rule: reachable.induct)
  case start
  then show ?case by (simp add: initial_system_def node_inv_empty)
next
  case (step s s')
  then show ?case by (blast intro: system_step_inv)
qed

text \<open>
  C1. Whatever messages arrive from whatever peers, whatever the user and the funding service do and in
  whatever order, the database stays well-formed: identifiers are unique, a voter has at most one
  vote per issue and per solution, a solution at most one campaign, a campaign no outpoint twice,
  every reference leads to a stored row, every description is stored under its digest, every row
  is the image of a valid object, and every integer fits the column.
\<close>

theorem reachable_database:
  assumes "reachable s"
  shows "node_inv (sys_db s) \<and>
    distinct (map vote_pair (issue_votes (sys_db s))) \<and> distinct (map vote_pair (solution_votes (sys_db s))) \<and>
    distinct (map car_solution_id (campaigns (sys_db s))) \<and> distinct (map pledge_key (pledges (sys_db s))) \<and>
    vr_target_id ` set (issue_votes (sys_db s)) \<subseteq> ir_id ` set (issues (sys_db s)) \<and>
    sr_issue_id ` set (solutions (sys_db s)) \<subseteq> ir_id ` set (issues (sys_db s)) \<and>
    vr_target_id ` set (solution_votes (sys_db s)) \<subseteq> sr_id ` set (solutions (sys_db s)) \<and>
    car_solution_id ` set (campaigns (sys_db s)) \<subseteq> sr_id ` set (solutions (sys_db s)) \<and>
    pr_campaign_id ` set (pledges (sys_db s)) \<subseteq> car_id ` set (campaigns (sys_db s))"
  using reachable_inv [OF assms] by (simp add: node_inv_def store_ok_def db_ok_parts)

theorem reachable_database_witness:
  "\<exists>s :: nat system. reachable s \<and> node_inv (sys_db s) \<and> issues (sys_db s) \<noteq> []"
proof -
  obtain r and s :: "nat system" where
    s: "create_issue [] 3 example_time [] ''Bridge'' ''text'' 4 initial_system = (r, s)"
    by fastforce
  have "no_collision ''text'' (sys_db (initial_system :: nat system))" using example_no_collision(1) by (simp add: initial_system_def)
  then have r: "reachable s"
    using reachable.step [OF reachable.start issue_created [OF example_time_valid _ s]] by simp
  have ne: "add_issue [] m empty_db = (x, d) \<Longrightarrow> issues d \<noteq> []" for m x d
    by (cases x) (auto simp: add_issue_Inr_iff add_issue_def transaction_iff empty_db_def)
  have d0: "sys_db (initial_system :: nat system) = empty_db" by (simp add: initial_system_def)
  obtain x where "add_issue [] \<lparr>iss_id = 3, iss_title = ''Bridge'', iss_creator_id = 4, iss_description = ''text'',
      iss_created_at = DT example_time\<rparr> empty_db = (x, sys_db s)"
    using create_issue_repo [OF s] unfolding d0 by blast
  then have "issues (sys_db s) \<noteq> []" by (rule ne)
  with r reachable_database [OF r, THEN conjunct1] show ?thesis by (intro exI [of _ s]) simp
qed

text \<open>
  C26. Storing a received object refines insertion into a map from references to objects: the answer is
  \<open>STORED\<close> only for a reference that was unknown, the object is then found under it and everything
  else is as before; any other outcome, an exception included, leaves the database as it is. An
  object that was stored is reported as present when it arrives again.
\<close>

theorem store_remote_refines:
  assumes "store_ok s" "model_adm m s" "handler_store_remote now m s = (r, s')"
  shows "store_ok s' \<and>
    (if r = Inr STORED
     then abs_store s (build_item m) = None \<and> abs_store s' = (abs_store s)(build_item m \<mapsto> m) \<and>
          handler_store_remote later m s' = (Inr ALREADY_PRESENT, s')
     else s' = s)"
proof -
  have db: "db_ok s" using assms(1) by (simp add: store_ok_def)
  have ok: "store_ok s'" by (rule handler_store_ok [OF assms])
  show ?thesis
  proof (cases "r = Inr STORED")
    case False
    with handler_store_cases [OF db assms(3)] ok show ?thesis by auto
  next
    case True
    note abs = store_remote_abs [OF db assms(2,3)]
    have "abs_store s' (build_item m) = Some m" using True abs(1) by simp
    then have "get_stored_model (build_item m) s' = Inr (Some m)"
      using abs_store_eq ok by (simp add: store_ok_def)
    with True abs ok show ?thesis by (simp add: store_remote_present)
  qed
qed

theorem store_remote_refines_witness:
  "\<exists>s'. handler_store_remote [] (MSolution example_solution) db_after_issue = (Inr STORED, s') \<and>
     abs_store s' = (abs_store db_after_issue)(build_item (MSolution example_solution) \<mapsto> MSolution example_solution) \<and>
     handler_store_remote [] (MSolution example_solution) s' = (Inr ALREADY_PRESENT, s')"
  using store_remote_refines [OF example_store_ok(1) example_adm(2) example_stored, of "[]"] example_stored
  by (simp only: if_True simp_thms) blast

text \<open>
  C27. A node answers an IHAVE message with requests for exactly the announced objects it does not store,
  each once and in canonical order, in packets of at most 1300 bytes; its database is unchanged.
\<close>

theorem ihave_requests_missing:
  assumes "store_ok (node_db n)" "on_ihave_message peer blob n = (r, n')"
  shows "r = Inr () \<and> node_db n' = node_db n \<and> node_changed n' = node_changed n \<and>
    (\<exists>blobs. node_outbox n' = node_outbox n @ map (\<lambda>b. (peer, IWant b)) blobs \<and>
       concat (map decode_gossip_items blobs) =
         canonicalize_items (filter (\<lambda>i. get_stored_model i (node_db n) = Inr None) (decode_gossip_items blob)) \<and>
       (\<forall>b \<in> set blobs. length b \<le> 1300))"
proof -
  have db: "db_ok (node_db n)" using assms(1) by (simp add: store_ok_def)
  let ?m = "filter (\<lambda>i. abs_store (node_db n) i = None) (decode_gossip_items blob)"
  have "filter (\<lambda>i. get_stored_model i (node_db n) = Inr None) (decode_gossip_items blob) = ?m"
    by (simp add: abs_store_eq [OF db])
  moreover have "\<forall>b \<in> set (batch_blobs ?m). length b \<le> 1300"
    using batch_blobs_spec [of ?m] by (auto simp: gossip_widths)
  ultimately show ?thesis
    using assms(2) concat_batch_blobs [of ?m] by (auto simp: on_ihave_eq [OF db])
qed

theorem ihave_requests_missing_witness:
  "\<exists>blob n' blobs. decode_gossip_items blob = [build_item (MIssue example_issue), example_unknown] \<and>
     on_ihave_message (1 :: nat) blob (example_peer_node example_db) = (Inr (), n') \<and>
     node_outbox n' = map (\<lambda>b. (1, IWant b)) blobs \<and> concat (map decode_gossip_items blobs) = [example_unknown]"
proof -
  let ?n = "example_peer_node example_db :: nat node"
  obtain blob where b: "decode_gossip_items blob = [build_item (MIssue example_issue), example_unknown]"
    using example_blob by blast
  obtain r n' where r: "on_ihave_message 1 blob ?n = (r, n')" by fastforce
  have "filter (\<lambda>i. get_stored_model i (node_db ?n) = Inr None) [build_item (MIssue example_issue), example_unknown] = [example_unknown]"
    using example_lookups by (simp add: example_peer_node_def)
  then show ?thesis
    using ihave_requests_missing [OF _ r] b r example_store_ok(3) by (auto simp: example_peer_node_def canonical_single)
qed

text \<open>
  C28. A node answers an IWANT message with the requested objects that it stores, in the order of the
  request, and with nothing else; what it sends reads back as the stored object.
\<close>

theorem iwant_sends_stored:
  assumes "store_ok (node_db n)" "on_iwant_message peer blob n = (r, n')"
  shows "r = Inr () \<and> node_db n' = node_db n \<and>
    (\<exists>msgs. node_outbox n' = node_outbox n @ map (\<lambda>m. (peer, Object m)) msgs \<and>
       map to_model msgs = map Inr (List.map_filter (abs_store (node_db n)) (decode_gossip_items blob)))"
proof -
  let ?ms = "List.map_filter (abs_store (node_db n)) (decode_gossip_items blob)"
  have "m \<in> set ?ms \<Longrightarrow> to_model (message_of m) = Inr m" for m
    using stored_row [OF assms(1)] message_of_ok by (auto simp: List.map_filter_def)
  then have "map to_model (map message_of ?ms) = map Inr ?ms" by simp
  moreover have "n' = n\<lparr>node_outbox := node_outbox n @ map (\<lambda>m. (peer, Object m)) (map message_of ?ms)\<rparr>" "r = Inr ()"
    using assms(2) by (auto simp: on_iwant_eq [OF assms(1)] comp_def)
  ultimately show ?thesis by (intro conjI exI [of _ "map message_of ?ms"]) simp_all
qed

theorem iwant_sends_stored_witness:
  "\<exists>blob n' msg. decode_gossip_items blob = [build_item (MIssue example_issue), example_unknown] \<and>
     on_iwant_message (1 :: nat) blob (example_peer_node example_db) = (Inr (), n') \<and>
     node_outbox n' = [(1, Object msg)] \<and> to_model msg = Inr (MIssue example_issue)"
proof -
  let ?n = "example_peer_node example_db :: nat node"
  obtain blob where b: "decode_gossip_items blob = [build_item (MIssue example_issue), example_unknown]"
    using example_blob by blast
  obtain r n' where r: "on_iwant_message 1 blob ?n = (r, n')" by fastforce
  have "List.map_filter (abs_store example_db) [build_item (MIssue example_issue), example_unknown] = [MIssue example_issue]"
    by (simp add: example_abs List.map_filter_simps build_item_def example_unknown_def example_issue_def)
  then show ?thesis
    using iwant_sends_stored [OF _ r] b r example_store_ok(3)
    by (auto simp: example_peer_node_def map_eq_Cons_conv)
qed

lemma batch_blobs_single: "\<exists>b. batch_blobs [i] = [b] \<and> decode_gossip_items b = [i]"
proof -
  have "batch_gossip_items [i] = Inr [[i]]" by (simp add: batch_gossip_items_eq canonical_single chunks.simps)
  with batch_blobs_spec [of "[i]"] show ?thesis by (auto simp: map_eq_Cons_conv)
qed

text \<open>
  C9. What a received object does. One that cannot be read raises \<^verbatim>\<open>ValueError\<close> and changes nothing. One
  that was unknown and satisfies the constraints is stored, the user interface is notified once, and
  every connected peer except the sender gets one announcement, of this object alone. Anything
  else changes nothing and is not passed on.
\<close>

theorem object_message_effect:
  assumes "store_ok (node_db n)" "\<forall>t \<in> set (message_texts (Object msg)). no_collision t (node_db n)"
    and "handle_object_message now peers peer msg n = (r, n')"
  shows "store_ok (node_db n') \<and>
    (case to_model msg of
       Inl e \<Rightarrow> r = Inl e \<and> is_value_error e \<and> n' = n
     | Inr m \<Rightarrow>
         if abs_store (node_db n) (build_item m) = None \<and> abs_store (node_db n') (build_item m) = Some m
         then r = Inr () \<and> abs_store (node_db n') = (abs_store (node_db n))(build_item m \<mapsto> m) \<and>
              node_changed n' = node_changed n + 1 \<and>
              (\<exists>b. decode_gossip_items b = [build_item m] \<and>
                 node_outbox n' = node_outbox n @ map (\<lambda>p. (p, IHave b)) (filter (\<lambda>p. p \<noteq> peer) peers))
         else n' = n)"
proof (cases "to_model msg")
  case (Inl e)
  with handle_object_cases [OF assms(3)] assms(1) to_model_value_error [OF Inl] show ?thesis by auto
next
  case (Inr m)
  have db: "db_ok (node_db n)" using assms(1) by (simp add: store_ok_def)
  have adm: "model_adm m (node_db n)" by (rule to_model_adm [OF Inr assms(2)])
  obtain st d where st: "handler_store_remote now m (node_db n) = (st, d)" by fastforce
  have n': "case st of
       Inl e \<Rightarrow> r = Inl e \<and> n' = n\<lparr>node_db := d\<rparr>
     | Inr STORED \<Rightarrow> r = Inr () \<and> n' = n\<lparr>node_db := d, node_changed := node_changed n + 1,
         node_outbox := node_outbox n @ concat (map (\<lambda>b. sends peers {peer} (IHave b)) (batch_blobs [build_item m]))\<rparr>
     | Inr _ \<Rightarrow> r = Inr () \<and> n' = n\<lparr>node_db := d\<rparr>"
    using handle_object_cases [OF assms(3)] Inr st by simp
  have ok: "store_ok (node_db n')" by (rule handle_object_store_ok [OF assms])
  show ?thesis
  proof (cases "st = Inr STORED")
    case True
    then have d: "abs_store d = (abs_store (node_db n))(build_item m \<mapsto> m)" "abs_store (node_db n) (build_item m) = None"
      using store_remote_abs [OF db adm st] by auto
    obtain b where b: "batch_blobs [build_item m] = [b]" "decode_gossip_items b = [build_item m]"
      using batch_blobs_single by blast
    have f: "filter (\<lambda>p. p \<notin> {peer}) peers = filter (\<lambda>p. p \<noteq> peer) peers" by simp
    show ?thesis using True n' d b f ok Inr by auto
  next
    case False
    then have "d = node_db n" using handler_store_cases [OF db st] by auto
    with False n' have "n' = n" by (cases st) (auto split: store_status.splits)
    with ok Inr show ?thesis by auto
  qed
qed

theorem object_message_effect_witness:
  "\<exists>n'. handle_object_message [] [1, 2, 3] (1 :: nat) (message_of (MSolution example_solution)) (example_peer_node db_after_issue) = (Inr (), n') \<and>
     abs_store (node_db n') (build_item (MSolution example_solution)) = Some (MSolution example_solution) \<and>
     (\<exists>b. decode_gossip_items b = [build_item (MSolution example_solution)] \<and> node_outbox n' = [(2, IHave b), (3, IHave b)])"
proof -
  let ?n = "example_peer_node db_after_issue :: nat node" and ?m = "MSolution example_solution"
  obtain r n' where r: "handle_object_message [] [1, 2, 3] 1 (message_of ?m) ?n = (r, n')" by fastforce
  have ok: "store_ok (node_db ?n)" "\<forall>t \<in> set (message_texts (Object (message_of ?m))). no_collision t (node_db ?n)"
    using example_store_ok(1) example_no_collision(2) by (simp_all add: example_peer_node_def example_message)
  have db: "db_ok db_after_issue" using example_store_ok(1) by (simp add: store_ok_def)
  note abs = store_remote_abs [OF db example_adm(2) example_stored]
  have "node_db n' = db_after_solution"
    using handle_object_cases [OF r] by (auto simp: example_message example_stored example_peer_node_def simp del: handler_store_remote.simps)
  then have known: "abs_store (node_db ?n) (build_item ?m) = None \<and> abs_store (node_db n') (build_item ?m) = Some ?m"
    using abs by (simp add: example_peer_node_def)
  from object_message_effect [OF ok r] known have "r = Inr () \<and> (\<exists>b. decode_gossip_items b = [build_item ?m] \<and>
      node_outbox n' = node_outbox ?n @ map (\<lambda>p. (p, IHave b)) (filter (\<lambda>p. p \<noteq> 1) [1, 2, 3]))"
    by (simp add: example_message)
  with r known show ?thesis by (auto simp: example_peer_node_def)
qed

end
