(* ===== verification/Sync.thy ===== *)
theory Sync
  imports Network
begin

text \<open>
  Two nodes that exchange gossip messages over a channel that keeps the order: one announces its
  inventory, the other requests what it misses, and gets the objects. A fresh node ends up with the
  same objects as its peer, because the canonical order of an inventory is compatible with the
  foreign keys of the database.
\<close>

section \<open>One exchange\<close>

text \<open>
  The packets of one direction, handled one after the other. An exception of a handler is logged
  by the overlay and does not stop the next packet.
\<close>

fun deliver :: "string \<Rightarrow> 'p list \<Rightarrow> 'p \<Rightarrow> payload list \<Rightarrow> 'p node \<Rightarrow> 'p node" where
  "deliver now peers from [] n = n"
| "deliver now peers from (pl # pls) n = deliver now peers from pls (snd (receive now peers from pl n))"

text \<open>What a node has put into its outbox for a peer between two moments.\<close>

definition sent :: "'p \<Rightarrow> 'p node \<Rightarrow> 'p node \<Rightarrow> payload list" where
  "sent p n n' = map snd (filter (\<lambda>x. fst x = p) (drop (length (node_outbox n)) (node_outbox n')))"

text \<open>The node \<open>na\<close>, called \<open>a\<close>, after an exchange with \<open>nb\<close>, called \<open>b\<close>.\<close>

definition exchange :: "string \<Rightarrow> 'p \<Rightarrow> 'p \<Rightarrow> 'p node \<Rightarrow> 'p node \<Rightarrow> 'p node" where
  "exchange now a b na nb =
     (let nb1 = snd (announce_full_inventory [a] nb);
          na1 = deliver now [b] b (sent a nb nb1) na;
          nb2 = deliver now [a] a (sent b na na1) nb1
      in deliver now [b] b (sent a nb1 nb2) na1)"

lemma deliver_append: "deliver now ps p (xs @ ys) n = deliver now ps p ys (deliver now ps p xs n)"
  by (induction xs arbitrary: n) simp_all

lemma sent_append:
  "node_outbox n' = node_outbox n @ map (\<lambda>x. (p, x)) pls \<Longrightarrow> sent p n n' = pls"
  by (simp add: sent_def filter_map comp_def)

lemma deliver_ihaves:
  assumes "db_ok (node_db n)"
  shows "deliver now ps b (map IHave blobs) n = n\<lparr>node_outbox := node_outbox n @ map (\<lambda>x. (b, IWant x))
    (concat (map (\<lambda>blob. batch_blobs (filter (\<lambda>i. abs_store (node_db n) i = None) (decode_gossip_items blob))) blobs))\<rparr>"
  using assms by (induction blobs arbitrary: n) (simp_all add: on_ihave_eq)

lemma deliver_iwants:
  assumes "store_ok (node_db n)"
  shows "deliver now ps a (map IWant blobs) n = n\<lparr>node_outbox := node_outbox n @
    map (\<lambda>m. (a, Object (message_of m))) (List.map_filter (abs_store (node_db n)) (concat (map decode_gossip_items blobs)))\<rparr>"
  using assms by (induction blobs arbitrary: n) (simp_all add: on_iwant_eq List.map_filter_def)

text \<open>The objects that travel: what \<open>b\<close> stores and \<open>a\<close> does not, in canonical order.\<close>

lemma canonical_filter:
  assumes "canonicalize_items xs = xs" shows "canonicalize_items (filter P xs) = filter P xs"
  using canonicalize_items_facts(2,3) [of xs] assms
  by (intro canonicalize_items_idem) (simp_all add: sorted_filter)

lemma concat_map_concat: "concat (map g (concat (map f xs))) = concat (map (\<lambda>x. concat (map g (f x))) xs)"
  by (induction xs) auto

lemma filter_batches:
  "concat (map (\<lambda>blob. concat (map decode_gossip_items (batch_blobs (filter P (decode_gossip_items blob))))) (batch_blobs items)) =
     filter P (canonicalize_items items)"
proof -
  obtain bs where bs: "batch_gossip_items items = Inr bs" "map decode_gossip_items (batch_blobs items) = bs"
    "concat bs = canonicalize_items items" using batch_blobs_spec [of items] by blast
  have "canonicalize_items (filter P b) = filter P b" if "b \<in> set bs" for b
    using that bs(1) batch_canonical [of b 79 items] by (intro canonical_filter) (simp add: batch_gossip_items_eq)
  then have "concat (map (\<lambda>b. canonicalize_items (filter P b)) bs) = concat (map (filter P) bs)"
    by (metis (no_types, lifting) map_eq_conv)
  then show ?thesis
    using bs(2,3) by (simp add: concat_batch_blobs comp_def filter_concat) (metis (no_types, lifting) list.map_comp comp_def filter_concat map_eq_conv)
qed

definition travelling :: "db \<Rightarrow> db \<Rightarrow> model list" where
  "travelling da db =
     map (\<lambda>i. the (abs_store db i)) (filter (\<lambda>i. abs_store da i = None) (canonicalize_items (projr (get_local_inventory db))))"

lemma travelling_eq:
  assumes "db_ok db"
  shows "travelling da db = List.map_filter (abs_store db)
    (filter (\<lambda>i. abs_store da i = None) (canonicalize_items (projr (get_local_inventory db))))"
proof -
  have "set (canonicalize_items (projr (get_local_inventory db))) = dom (abs_store db)"
    using get_local_inventory_set [OF assms] canonicalize_items_facts(1) by auto
  then show ?thesis by (force simp: travelling_def List.map_filter_def intro!: map_cong filter_cong)
qed

text \<open>The effect of the delivered objects on the database.\<close>

definition store_all :: "string \<Rightarrow> model list \<Rightarrow> db \<Rightarrow> db" where
  "store_all now ms d = foldl (\<lambda>d m. snd (handler_store_remote now m d)) d ms"

lemma deliver_objects:
  assumes "\<forall>m \<in> set ms. model_ok m"
  shows "node_db (deliver now ps p (map (\<lambda>m. Object (message_of m)) ms) n) = store_all now ms (node_db n)"
  using assms
proof (induction ms arbitrary: n)
  case Nil
  then show ?case by (simp add: store_all_def)
next
  case (Cons m ms)
  obtain r n' where n': "handle_object_message now ps p (message_of m) n = (r, n')" by fastforce
  obtain st d where st: "handler_store_remote now m (node_db n) = (st, d)" by fastforce
  have "to_model (message_of m) = Inr m" using message_of_ok Cons.prems by simp
  with handle_object_cases [OF n'] st have "node_db n' = d"
    by (cases st) (auto split: store_status.splits)
  with Cons n' st show ?case by (simp add: store_all_def)
qed

lemma exchange_db:
  assumes "store_ok (node_db na)" "store_ok (node_db nb)"
  shows "node_db (exchange now a b na nb) = store_all now (travelling (node_db na) (node_db nb)) (node_db na)"
proof -
  have db: "db_ok (node_db na)" "db_ok (node_db nb)" using assms by (simp_all add: store_ok_def)
  let ?items = "projr (get_local_inventory (node_db nb))"
  let ?P = "\<lambda>i. abs_store (node_db na) i = None"
  let ?nb1 = "nb\<lparr>node_outbox := node_outbox nb @ map (\<lambda>x. (a, x)) (map IHave (batch_blobs ?items))\<rparr>"
  have nb1: "snd (announce_full_inventory [a] nb) = ?nb1"
    using get_local_inventory_set [OF db(2)]
    by (auto simp: announce_full_inventory_def announce_inventory_eq comp_def)
  let ?wants = "concat (map (\<lambda>blob. batch_blobs (filter ?P (decode_gossip_items blob))) (batch_blobs ?items))"
  let ?na1 = "na\<lparr>node_outbox := node_outbox na @ map (\<lambda>x. (b, x)) (map IWant ?wants)\<rparr>"
  have "sent a nb ?nb1 = map IHave (batch_blobs ?items)" by (rule sent_append) simp
  then have na1: "deliver now [b] b (sent a nb ?nb1) na = ?na1"
    using deliver_ihaves [OF db(1), of now "[b]" b "batch_blobs ?items"] by (simp add: comp_def)
  have wants: "concat (map decode_gossip_items ?wants) = filter ?P (canonicalize_items ?items)"
    using filter_batches [of ?P ?items] by (simp only: concat_map_concat)
  let ?ms = "travelling (node_db na) (node_db nb)"
  let ?nb2 = "?nb1\<lparr>node_outbox := node_outbox ?nb1 @ map (\<lambda>x. (a, x)) (map (\<lambda>m. Object (message_of m)) ?ms)\<rparr>"
  have "sent b na ?na1 = map IWant ?wants" by (rule sent_append) simp
  then have nb2: "deliver now [a] a (sent b na ?na1) ?nb1 = ?nb2"
    using deliver_iwants [of ?nb1 now "[a]" a ?wants] assms(2) wants travelling_eq [OF db(2)]
    by (simp add: comp_def)
  have s: "sent a ?nb1 ?nb2 = map (\<lambda>m. Object (message_of m)) ?ms" by (rule sent_append) simp
  have "\<forall>m \<in> set ?ms. model_ok m"
    using stored_row [OF assms(2)] by (auto simp: travelling_eq [OF db(2)] List.map_filter_def)
  from deliver_objects [OF this, of now "[b]" b ?na1] show ?thesis
    unfolding exchange_def Let_def nb1 na1 nb2 s by simp
qed

section \<open>Texts\<close>

text \<open>The text of a stored object is stored under its digest.\<close>

lemma stored_text:
  assumes "store_ok s" "abs_store s i = Some m" "t \<in> set (texts_of m)"
  shows "get_content (compute_content_hash (utf8 t)) s = Some t"
proof -
  have db: "db_ok s" using assms(1) by (simp add: store_ok_def)
  have g: "get_stored_model i s = Inr (Some m)" using assms(2) abs_store_eq [OF db] by simp
  show ?thesis
  proof (cases "gi_type i")
    case ISSUE
    with g obtain x where x: "m = MIssue x" "get_issue (gi_uuid i) s = Inr (Some x)" by (auto simp: get_stored_model_def)
    then obtain r where r: "r \<in> set (issues s)" "issue_of_row s r = Some (Inr x)"
      using db by (auto simp: gets_as_lookup dest!: lookup_SomeD [OF db_ok_tables(1)])
    then obtain u where u: "get_content (ir_description_hash r) s = Some u" "row_to_issue r u = Inr x"
      by (auto simp: issue_of_row_def)
    have "r = issue_to_row x" using stored_issue [OF assms(1) r] by simp
    moreover have "iss_description x = u" using u(2) by (auto simp: row_to_issue_def res_simps)
    ultimately show ?thesis using u(1) x assms(3) by (simp add: issue_to_row_def)
  next
    case SOLUTION
    with g obtain x where x: "m = MSolution x" "get_solution (gi_uuid i) s = Inr (Some x)" by (auto simp: get_stored_model_def)
    then obtain r where r: "r \<in> set (solutions s)" "solution_of_row s r = Some (Inr x)"
      using db by (auto simp: gets_as_lookup dest!: lookup_SomeD [OF db_ok_tables(3)])
    then obtain u where u: "get_content (sr_description_hash r) s = Some u" "row_to_solution r u = Inr x"
      by (auto simp: solution_of_row_def)
    have "r = solution_to_row x" using stored_solution [OF assms(1) r] by simp
    moreover have "sol_description x = u" using u(2) by (auto simp: row_to_solution_def res_simps)
    ultimately show ?thesis using u(1) x assms(3) by (simp add: solution_to_row_def)
  qed (use g assms(3) in \<open>auto simp: get_stored_model_def\<close>)
qed

lemma get_content_store:
  "get_content h (store_text_content now t s) = Some u \<Longrightarrow>
     get_content h s = Some u \<or> (h = compute_content_hash (utf8 t) \<and> u = t)"
  by (auto simp: store_text_content_def get_content_def Let_def find_snoc split: option.splits if_splits)

lemma get_content_tables [simp]:
  "get_content h (s\<lparr>issues := a\<rparr>) = get_content h s" "get_content h (s\<lparr>issue_votes := b\<rparr>) = get_content h s"
  "get_content h (s\<lparr>solutions := c\<rparr>) = get_content h s" "get_content h (s\<lparr>solution_votes := b\<rparr>) = get_content h s"
  "get_content h (s\<lparr>campaigns := e\<rparr>) = get_content h s" "get_content h (s\<lparr>pledges := f\<rparr>) = get_content h s"
  by (simp_all add: get_content_def)

lemma add_contents:
  assumes "handler_add_one now m s = (Inr u, s')" "get_content h s' = Some t"
  shows "get_content h s = Some t \<or> (t \<in> set (texts_of m) \<and> h = compute_content_hash (utf8 t))"
proof (cases m)
  case (MIssue x)
  with assms show ?thesis by (auto simp: add_issue_Inr_iff dest: get_content_store)
next
  case (MSolution x)
  with assms show ?thesis by (auto simp: add_solution_Inr_iff dest: get_content_store)
next
  case (MCampaign c)
  with assms show ?thesis by (auto dest!: add_campaign_Inr)
next
  case (MPledge p)
  with assms show ?thesis by (auto dest!: add_pledge_Inr)
qed (use assms in \<open>auto simp: add_issue_vote_Inr_iff add_solution_vote_Inr_iff\<close>)

text \<open>No two different texts of the two databases have the same SHA-256 digest.\<close>

definition texts_agree :: "db \<Rightarrow> db \<Rightarrow> bool" where
  "texts_agree d e \<longleftrightarrow> (\<forall>h t u. get_content h d = Some t \<longrightarrow> get_content h e = Some u \<longrightarrow> t = u)"

lemma texts_agree_no_collision:
  "texts_agree d e \<Longrightarrow> get_content (compute_content_hash (utf8 t)) e = Some t \<Longrightarrow> no_collision t d"
  by (cases "get_content (compute_content_hash (utf8 t)) d") (auto simp: texts_agree_def no_collision_def)

lemma texts_agree_add:
  assumes "texts_agree d e" "handler_add_one now m d = (Inr u, d')" "store_ok e" "abs_store e i = Some m"
  shows "texts_agree d' e"
  using assms(1) add_contents [OF assms(2)] stored_text [OF assms(3,4)] unfolding texts_agree_def
  by (metis option.inject)

lemma stored_adm:
  assumes "texts_agree d e" "store_ok e" "abs_store e i = Some m"
  shows "model_adm m d"
  using stored_row [OF assms(2,3)] texts_agree_no_collision [OF assms(1)] stored_text [OF assms(2,3)]
  by (auto simp: model_adm_iff)

section \<open>An exchange only adds objects of the peer\<close>

lemma store_all_sound:
  assumes "store_ok d" "store_ok e" "texts_agree d e" "\<forall>m \<in> set ms. abs_store e (build_item m) = Some m"
  shows "store_ok (store_all now ms d) \<and> abs_store d \<subseteq>\<^sub>m abs_store (store_all now ms d) \<and>
    (\<forall>i m. abs_store (store_all now ms d) i = Some m \<longrightarrow> abs_store d i = Some m \<or> abs_store e i = Some m)"
  using assms
proof (induction ms arbitrary: d)
  case Nil
  then show ?case by (simp add: store_all_def)
next
  case (Cons m ms)
  obtain st d' where st: "handler_store_remote now m d = (st, d')" by fastforce
  have db: "db_ok d" using Cons.prems(1) by (simp add: store_ok_def)
  have e: "abs_store e (build_item m) = Some m" using Cons.prems by simp
  have adm: "model_adm m d" by (rule stored_adm [OF Cons.prems(3,2) e])
  have ok: "store_ok d'" by (rule handler_store_ok [OF Cons.prems(1) adm st])
  have "d' = d \<or> handler_add_one now m d = (Inr (), d')" using handler_store_cases [OF db st] by blast
  then have agree: "texts_agree d' e"
    using texts_agree_add [OF Cons.prems(3) _ Cons.prems(2) e] Cons.prems(3) by blast
  note abs = store_remote_abs [OF db adm st]
  have sub: "abs_store d \<subseteq>\<^sub>m abs_store d'" using abs by (auto simp: map_le_def)
  have src: "abs_store d' i = Some x \<Longrightarrow> abs_store d i = Some x \<or> abs_store e i = Some x" for i x
    using abs(1) e by (auto split: if_splits)
  have eq: "store_all now (m # ms) d = store_all now ms d'" by (simp add: store_all_def st)
  have "\<forall>m \<in> set ms. abs_store e (build_item m) = Some m" using Cons.prems(4) by simp
  from Cons.IH [OF ok Cons.prems(2) agree this] sub src show ?case
    unfolding eq by (meson map_le_trans)
qed

section \<open>A fresh node gets everything\<close>

text \<open>Rows and stored objects of a canonical database.\<close>

lemma stored_keys:
  assumes "db_ok s"
  shows "abs_store s \<lparr>gi_type = ISSUE, gi_uuid = i\<rparr> = None \<longleftrightarrow> uuid_str i \<notin> ir_id ` set (issues s)"
    and "abs_store s \<lparr>gi_type = ISSUE_VOTE, gi_uuid = i\<rparr> = None \<longleftrightarrow> uuid_str i \<notin> vr_id ` set (issue_votes s)"
    and "abs_store s \<lparr>gi_type = SOLUTION, gi_uuid = i\<rparr> = None \<longleftrightarrow> uuid_str i \<notin> sr_id ` set (solutions s)"
    and "abs_store s \<lparr>gi_type = SOLUTION_VOTE, gi_uuid = i\<rparr> = None \<longleftrightarrow> uuid_str i \<notin> vr_id ` set (solution_votes s)"
    and "abs_store s \<lparr>gi_type = FUNDING_CAMPAIGN, gi_uuid = i\<rparr> = None \<longleftrightarrow> uuid_str i \<notin> car_id ` set (campaigns s)"
    and "abs_store s \<lparr>gi_type = FUNDING_PLEDGE, gi_uuid = i\<rparr> = None \<longleftrightarrow> uuid_str i \<notin> pr_id ` set (pledges s)"
proof -
  have "abs_store s j = None \<longleftrightarrow> get_stored_model j s = Inr None" for j
    using abs_store_eq [OF assms, of j] by auto
  then show "abs_store s \<lparr>gi_type = ISSUE, gi_uuid = i\<rparr> = None \<longleftrightarrow> uuid_str i \<notin> ir_id ` set (issues s)"
    "abs_store s \<lparr>gi_type = ISSUE_VOTE, gi_uuid = i\<rparr> = None \<longleftrightarrow> uuid_str i \<notin> vr_id ` set (issue_votes s)"
    "abs_store s \<lparr>gi_type = SOLUTION, gi_uuid = i\<rparr> = None \<longleftrightarrow> uuid_str i \<notin> sr_id ` set (solutions s)"
    "abs_store s \<lparr>gi_type = SOLUTION_VOTE, gi_uuid = i\<rparr> = None \<longleftrightarrow> uuid_str i \<notin> vr_id ` set (solution_votes s)"
    "abs_store s \<lparr>gi_type = FUNDING_CAMPAIGN, gi_uuid = i\<rparr> = None \<longleftrightarrow> uuid_str i \<notin> car_id ` set (campaigns s)"
    "abs_store s \<lparr>gi_type = FUNDING_PLEDGE, gi_uuid = i\<rparr> = None \<longleftrightarrow> uuid_str i \<notin> pr_id ` set (pledges s)"
    using lookup_row_None_iff [OF db_ok_tables(1) [OF assms]] lookup_row_None_iff [OF db_ok_tables(2) [OF assms]]
      lookup_row_None_iff [OF db_ok_tables(3) [OF assms]] lookup_row_None_iff [OF db_ok_tables(4) [OF assms]]
      lookup_row_None_iff [OF db_ok_tables(5) [OF assms]] lookup_row_None_iff [OF db_ok_tables(6) [OF assms]]
    by (simp_all add: get_stored_model_def gets_as_lookup)
qed

text \<open>In a database whose objects are all stored in \<open>e\<close>, the rows of the tables with a second key are rows of \<open>e\<close>.\<close>

lemma rows_of_peer:
  assumes "store_ok d" "store_ok e" "abs_store d \<subseteq>\<^sub>m abs_store e"
  shows "set (issue_votes d) \<subseteq> set (issue_votes e)" "set (solution_votes d) \<subseteq> set (solution_votes e)"
    "set (campaigns d) \<subseteq> set (campaigns e)" "set (pledges d) \<subseteq> set (pledges e)"
proof -
  have db: "db_ok d" and c: "canon_ok d" using assms(1) by (simp_all add: store_ok_def)
  have in_e: "model_row_in m e" if "get_stored_model i d = Inr (Some m)" for i m
    using that stored_row [OF assms(2), of i m] assms(3) abs_store_eq [OF db, of i]
    by (auto simp: map_le_def dom_def)
  note look = lookup_row_Some_iff [OF db_ok_tables(2) [OF db]] lookup_row_Some_iff [OF db_ok_tables(4) [OF db]]
    lookup_row_Some_iff [OF db_ok_tables(5) [OF db]] lookup_row_Some_iff [OF db_ok_tables(6) [OF db]]
  show "set (issue_votes d) \<subseteq> set (issue_votes e)"
  proof
    fix r assume r: "r \<in> set (issue_votes d)"
    obtain v where v: "r = issue_vote_to_row v" "valid_timestamp (iv_created_at v)" using rows_ofD [OF canon_okD(1) [OF c] r] by blast
    have "get_stored_model \<lparr>gi_type = ISSUE_VOTE, gi_uuid = iv_id v\<rparr> d = Inr (Some (MIssueVote v))"
      using r v row_round_trips(3) look(1) by (force simp: get_stored_model_def gets_as_lookup)
    from in_e [OF this] v show "r \<in> set (issue_votes e)" by simp
  qed
  show "set (solution_votes d) \<subseteq> set (solution_votes e)"
  proof
    fix r assume r: "r \<in> set (solution_votes d)"
    obtain v where v: "r = solution_vote_to_row v" "valid_timestamp (sv_created_at v)" using rows_ofD [OF canon_okD(2) [OF c] r] by blast
    have "get_stored_model \<lparr>gi_type = SOLUTION_VOTE, gi_uuid = sv_id v\<rparr> d = Inr (Some (MSolutionVote v))"
      using r v row_round_trips(4) look(2) by (force simp: get_stored_model_def gets_as_lookup)
    from in_e [OF this] v show "r \<in> set (solution_votes e)" by simp
  qed
  show "set (campaigns d) \<subseteq> set (campaigns e)"
  proof
    fix r assume r: "r \<in> set (campaigns d)"
    obtain v where v: "r = campaign_to_row v" "valid_timestamp (camp_created_at v)" "campaign_ok v"
      using rows_ofD [OF canon_okD(3) [OF c] r] by blast
    have "get_stored_model \<lparr>gi_type = FUNDING_CAMPAIGN, gi_uuid = camp_id v\<rparr> d = Inr (Some (MCampaign v))"
      using r v row_round_trips(5) look(3) by (force simp: get_stored_model_def gets_as_lookup)
    from in_e [OF this] v show "r \<in> set (campaigns e)" by simp
  qed
  show "set (pledges d) \<subseteq> set (pledges e)"
  proof
    fix r assume r: "r \<in> set (pledges d)"
    obtain v where v: "r = pledge_to_row v" "valid_timestamp (pl_created_at v)" "pledge_ok v"
      using rows_ofD [OF canon_okD(4) [OF c] r] by blast
    have "get_stored_model \<lparr>gi_type = FUNDING_PLEDGE, gi_uuid = pl_id v\<rparr> d = Inr (Some (MPledge v))"
      using r v row_round_trips(6) look(4) by (force simp: get_stored_model_def gets_as_lookup)
    from in_e [OF this] v show "r \<in> set (pledges e)" by simp
  qed
qed

text \<open>A second key that is unique in \<open>e\<close> is free in a part of \<open>e\<close> that lacks the row.\<close>

lemma key_free:
  assumes "distinct (map f rows)" "set part \<subseteq> set rows" "r \<in> set rows" "key r \<notin> key ` set part"
  shows "f r \<notin> f ` set part"
proof
  assume "f r \<in> f ` set part"
  then obtain q where "q \<in> set part" "f r = f q" by auto
  with assms(1-3) have "r \<in> set part" by (metis distinct_map inj_onD subsetD)
  with assms(4) show False by blast
qed

text \<open>References of a row of \<open>e\<close> to objects that \<open>d\<close> already has.\<close>

lemma refs_found:
  assumes "db_ok d" "db_ok e"
  shows "abs_store d \<lparr>gi_type = ISSUE, gi_uuid = i\<rparr> \<noteq> None \<or> abs_store e \<lparr>gi_type = ISSUE, gi_uuid = i\<rparr> = None \<Longrightarrow>
      uuid_str i \<in> ir_id ` set (issues e) \<Longrightarrow> uuid_str i \<in> ir_id ` set (issues d)"
    and "abs_store d \<lparr>gi_type = SOLUTION, gi_uuid = i\<rparr> \<noteq> None \<or> abs_store e \<lparr>gi_type = SOLUTION, gi_uuid = i\<rparr> = None \<Longrightarrow>
      uuid_str i \<in> sr_id ` set (solutions e) \<Longrightarrow> uuid_str i \<in> sr_id ` set (solutions d)"
    and "abs_store d \<lparr>gi_type = FUNDING_CAMPAIGN, gi_uuid = i\<rparr> \<noteq> None \<or> abs_store e \<lparr>gi_type = FUNDING_CAMPAIGN, gi_uuid = i\<rparr> = None \<Longrightarrow>
      uuid_str i \<in> car_id ` set (campaigns e) \<Longrightarrow> uuid_str i \<in> car_id ` set (campaigns d)"
  unfolding stored_keys [OF assms(1)] stored_keys [OF assms(2)] by blast+

text \<open>An object of the peer can be stored once everything it refers to is there.\<close>

lemma peer_object_accepted:
  assumes d: "store_ok d" and e: "node_inv e" and sub: "abs_store d \<subseteq>\<^sub>m abs_store e"
    and m: "abs_store e (build_item m) = Some m" and new: "abs_store d (build_item m) = None"
    and lower: "\<And>i. object_type_int (gi_type i) < object_type_int (model_type m) \<Longrightarrow> abs_store d i \<noteq> None \<or> abs_store e i = None"
  shows "\<exists>d'. handler_add_one now m d = (Inr (), d')"
proof -
  have eok: "store_ok e" "ints_ok e" "db_ok e" "unique_ok e" "refs_ok e" and dok: "db_ok d"
    using d e by (auto simp: node_inv_def store_ok_def db_ok_def)
  have row: "model_row_in m e" using stored_row [OF eok(1) m] by simp
  note keys = stored_keys [OF dok] and rows = rows_of_peer [OF d eok(1) sub] and found = refs_found [OF dok eok(3)]
  show ?thesis
  proof (cases m)
    case (MIssue x)
    then show ?thesis using new keys(1) by (auto simp: build_item_def add_issue_Inr_iff)
  next
    case (MSolution x)
    have "uuid_str (sol_issue_id x) \<in> ir_id ` set (issues e)" using row MSolution eok(5) by (auto simp: refs_ok_def)
    then have "uuid_str (sol_issue_id x) \<in> ir_id ` set (issues d)" using lower MSolution by (intro found(1)) auto
    then show ?thesis using new MSolution keys(3) by (auto simp: build_item_def add_solution_Inr_iff)
  next
    case (MIssueVote v)
    let ?r = "issue_vote_to_row v"
    have t: "vr_target_id ?r = uuid_str (iv_issue_id v)" by (simp add: issue_vote_to_row_def)
    have r: "?r \<in> set (issue_votes e)" using row MIssueVote by simp
    then have "uuid_str (iv_issue_id v) \<in> ir_id ` set (issues e)" using subsetD [OF refs_okD(1) [OF eok(5)] imageI [OF r]] t by simp
    then have fk: "uuid_str (iv_issue_id v) \<in> ir_id ` set (issues d)" using lower MIssueVote by (intro found(1)) auto
    have id: "vr_id ?r \<notin> vr_id ` set (issue_votes d)" using new MIssueVote keys(2) by (simp add: build_item_def)
    with key_free [OF _ rows(1) r, of vote_pair vr_id] fk t MIssueVote eok(4) show ?thesis
      by (auto simp: add_issue_vote_Inr_iff unique_ok_def)
  next
    case (MSolutionVote v)
    let ?r = "solution_vote_to_row v"
    have t: "vr_target_id ?r = uuid_str (sv_solution_id v)" by (simp add: solution_vote_to_row_def)
    have r: "?r \<in> set (solution_votes e)" using row MSolutionVote by simp
    then have "uuid_str (sv_solution_id v) \<in> sr_id ` set (solutions e)" using subsetD [OF refs_okD(3) [OF eok(5)] imageI [OF r]] t by simp
    then have fk: "uuid_str (sv_solution_id v) \<in> sr_id ` set (solutions d)" using lower MSolutionVote by (intro found(2)) auto
    have id: "vr_id ?r \<notin> vr_id ` set (solution_votes d)" using new MSolutionVote keys(4) by (simp add: build_item_def)
    with key_free [OF _ rows(2) r, of vote_pair vr_id] fk t MSolutionVote eok(4) show ?thesis
      by (auto simp: add_solution_vote_Inr_iff unique_ok_def)
  next
    case (MCampaign c)
    let ?r = "campaign_to_row c"
    have r: "?r \<in> set (campaigns e)" using row MCampaign by simp
    then have "uuid_str (camp_solution_id c) \<in> sr_id ` set (solutions e)" using eok(5) by (auto simp: refs_ok_def)
    then have fk: "uuid_str (camp_solution_id c) \<in> sr_id ` set (solutions d)" using lower MCampaign by (intro found(2)) auto
    have id: "car_id ?r \<notin> car_id ` set (campaigns d)" using new MCampaign keys(5) by (simp add: build_item_def)
    have "bind_ints (car_asking_price ?r # (case car_deadline_height ?r of None \<Rightarrow> [] | Some d \<Rightarrow> [d])) = Inr ()"
      using eok(2) r by (auto simp: ints_ok_def bind_ints_def guard_res_def)
    with key_free [OF _ rows(3) r, of car_solution_id car_id] MCampaign fk id eok(4) show ?thesis
      by (auto simp: add_campaign_def Let_def transaction_iff check_constraints_Inr_iff unique_ok_def
          simp del: check_constraints.simps)
  next
    case (MPledge p)
    let ?r = "pledge_to_row p"
    have r: "?r \<in> set (pledges e)" using row MPledge by simp
    then have "uuid_str (pl_campaign_id p) \<in> car_id ` set (campaigns e)" using eok(5) by (auto simp: refs_ok_def)
    then have fk: "uuid_str (pl_campaign_id p) \<in> car_id ` set (campaigns d)" using lower MPledge by (intro found(3)) auto
    have id: "pr_id ?r \<notin> pr_id ` set (pledges d)" using new MPledge keys(6) by (simp add: build_item_def)
    have "bind_ints [pr_vout ?r, pr_value_sats ?r] = Inr ()"
      using eok(2) r by (auto simp: ints_ok_def bind_ints_def guard_res_def)
    with key_free [OF _ rows(4) r, of pledge_key pr_id] MPledge fk id eok(4) show ?thesis
      by (auto simp: add_pledge_def Let_def transaction_iff check_constraints_Inr_iff unique_ok_def
          simp del: check_constraints.simps)
  qed
qed

lemma store_all_fresh:
  assumes "node_inv e" "store_ok d" "texts_agree d e" "abs_store d = abs_store e |` set xs"
    and "set (xs @ ys) = dom (abs_store e)" "distinct (xs @ ys)" "sorted (map item_key (xs @ ys))"
  shows "store_ok (store_all now (map (\<lambda>i. the (abs_store e i)) ys) d) \<and>
    abs_store (store_all now (map (\<lambda>i. the (abs_store e i)) ys) d) = abs_store e"
  using assms(2-)
proof (induction ys arbitrary: xs d)
  case Nil
  then show ?case by (auto simp: store_all_def restrict_map_def dom_def fun_eq_iff)
next
  case (Cons i ys)
  have e: "store_ok e" "db_ok e" using assms(1) by (auto simp: node_inv_def store_ok_def)
  have db: "db_ok d" using Cons.prems(1) by (simp add: store_ok_def)
  obtain m where m: "abs_store e i = Some m" using Cons.prems(4) by auto
  have i: "build_item m = i" by (rule abs_store_item [OF e(2) m])
  have ty: "model_type m = gi_type i" using i by (auto simp: build_item_def)
  have new: "abs_store d (build_item m) = None" using Cons.prems(3,5) i by (simp add: restrict_map_def)
  have "abs_store d j \<noteq> None \<or> abs_store e j = None" if "object_type_int (gi_type j) < object_type_int (model_type m)" for j
  proof -
    have "item_key j < item_key i" using that ty by (simp add: item_key_def less_prod_def)
    then have "j \<notin> set (i # ys)" using Cons.prems(6) by (auto simp: sorted_append)
    then show ?thesis using Cons.prems(3,4) by (auto simp: restrict_map_def dom_def)
  qed
  then obtain d' where d': "handler_add_one now m d = (Inr (), d')"
    using peer_object_accepted [OF Cons.prems(1) assms(1) _ _ new] m i Cons.prems(3) by (auto simp: map_le_def)
  have adm: "model_adm m d" by (rule stored_adm [OF Cons.prems(2) e(1) m])
  obtain st d2 where st: "handler_store_remote now m d = (st, d2)" by fastforce
  have "d2 = d'" using handler_store_cases [OF db st] d' new abs_store_eq [OF db] by auto
  then have eq: "store_all now (map (\<lambda>i. the (abs_store e i)) (i # ys)) d = store_all now (map (\<lambda>i. the (abs_store e i)) ys) d'"
    using st m by (simp add: store_all_def)
  have "store_ok d'" by (rule handler_add_store_ok [OF Cons.prems(1) adm d'])
  moreover have "texts_agree d' e" by (rule texts_agree_add [OF Cons.prems(2) d' e(1) m])
  moreover have "abs_store d' = abs_store e |` set (xs @ [i])"
    using abs_store_add [OF db adm d'] Cons.prems(3) i m by (auto simp: restrict_map_def fun_eq_iff)
  ultimately show ?case unfolding eq using Cons.prems(4-6) Cons.IH [of d' "xs @ [i]"] by simp
qed

section \<open>Properties\<close>

text \<open>
  C29. An exchange is safe: the requesting node keeps every object it had, and everything new is an
  object of its peer, unchanged, under the same reference. Its database stays well-formed.
\<close>

theorem exchange_sound:
  assumes "store_ok (node_db na)" "store_ok (node_db nb)" "texts_agree (node_db na) (node_db nb)"
  shows "store_ok (node_db (exchange now a b na nb)) \<and>
    abs_store (node_db na) \<subseteq>\<^sub>m abs_store (node_db (exchange now a b na nb)) \<and>
    (\<forall>i m. abs_store (node_db (exchange now a b na nb)) i = Some m \<longrightarrow>
       abs_store (node_db na) i = Some m \<or> abs_store (node_db nb) i = Some m)"
proof -
  have db: "db_ok (node_db nb)" using assms(2) by (simp add: store_ok_def)
  have "\<forall>m \<in> set (travelling (node_db na) (node_db nb)). abs_store (node_db nb) (build_item m) = Some m"
    using abs_store_item [OF db] by (auto simp: travelling_eq [OF db] List.map_filter_def)
  from store_all_sound [OF assms this] show ?thesis unfolding exchange_db [OF assms(1,2)] .
qed

theorem exchange_sound_witness:
  "store_ok (node_db (exchange [] (1 :: nat) 2 (example_peer_node db_after_issue) (example_peer_node example_db))) \<and>
   abs_store db_after_issue \<subseteq>\<^sub>m
     abs_store (node_db (exchange [] (1 :: nat) 2 (example_peer_node db_after_issue) (example_peer_node example_db)))"
proof -
  have "texts_agree db_after_issue example_db"
    by (auto simp: texts_agree_def get_content_def example_db_def add_campaign_def add_solution_def add_issue_def
        transaction_def empty_db_def store_text_content_def example_issue_def example_solution_def Let_def
        split: sum.splits if_splits)
  then show ?thesis
    using exchange_sound [of "example_peer_node db_after_issue" "example_peer_node example_db" "[]" "1 :: nat" 2]
      example_store_ok by (simp add: example_peer_node_def)
qed

text \<open>
  C4. A fresh node that exchanges messages once with a peer ends up with exactly the objects of the peer:
  nothing is lost to the batching of the inventory, no object is refused for a missing reference,
  and no unique key is in the way.
\<close>

theorem exchange_complete:
  assumes "node_inv (node_db nb)" "node_db na = empty_db"
  shows "abs_store (node_db (exchange now a b na nb)) = abs_store (node_db nb)"
proof -
  let ?e = "node_db nb" and ?is = "canonicalize_items (projr (get_local_inventory (node_db nb)))"
  have e: "store_ok ?e" "db_ok ?e" using assms(1) by (auto simp: node_inv_def store_ok_def)
  have na: "store_ok (node_db na)" by (simp add: assms(2) store_ok_empty)
  have inventory: "set ?is = dom (abs_store ?e)"
    using get_local_inventory_set [OF e(2)] canonicalize_items_facts(1) by auto
  have "texts_agree empty_db ?e" by (simp add: texts_agree_def get_content_def empty_db_def)
  then have "abs_store (store_all now (map (\<lambda>i. the (abs_store ?e i)) ?is) empty_db) = abs_store ?e"
    using store_all_fresh [OF assms(1) store_ok_empty, of "[]" ?is now] inventory canonicalize_items_facts(2,3)
    by (simp add: abs_store_empty)
  moreover have "travelling empty_db ?e = map (\<lambda>i. the (abs_store ?e i)) ?is"
    by (simp add: travelling_def abs_store_empty)
  ultimately show ?thesis by (simp add: exchange_db [OF na e(1)] assms(2))
qed

theorem exchange_complete_witness:
  "abs_store (node_db (exchange [] (1 :: nat) 2 (example_peer_node empty_db) (example_peer_node example_pledged_db))) =
     abs_store example_pledged_db"
proof -
  have "ints_ok example_pledged_db"
    using ints_ok_add [of _ "[]" "MPledge example_signed"] ints_ok_add [of _ "[]" "MCampaign example_campaign"]
      ints_ok_add [of _ "[]" "MSolution example_solution"] ints_ok_add [of _ "[]" "MIssue example_issue"]
      example_adds example_add_pledge node_inv_empty
    unfolding node_inv_def handler_add_one.simps by metis
  then have "node_inv (node_db (example_peer_node example_pledged_db :: nat node))"
    using example_pledged_ok by (simp add: node_inv_def example_peer_node_def)
  from exchange_complete [OF this, of "example_peer_node empty_db" "[]" 1 2] show ?thesis
    by (simp add: example_peer_node_def)
qed

end
