(* ===== verification/Auth_Models.thy ===== *)
theory Auth_Models
  imports Rpc_Client Datetime Sha256
begin

text \<open>
  The data and the small helpers of authentication/: constants.py, hex_utils.py,
  registration_commitment_utils.py, the dataclasses of models/, identity/ and
  transaction_verification/models.py, and the key handling of crypto/. The Ed25519 primitives of the
  package \<^verbatim>\<open>cryptography\<close> are the fields of the parameter \<open>ed25519\<close>.
\<close>

section \<open>Constants\<close>

definition MIN_CONFIRMATIONS :: int where "MIN_CONFIRMATIONS = 1"

definition PROTOCOL_LABEL_PREFIX :: string where "PROTOCOL_LABEL_PREFIX = ''superorganism''"

definition REGISTRATION_PROTOCOL_LABEL :: string where
  "REGISTRATION_PROTOCOL_LABEL = PROTOCOL_LABEL_PREFIX @ ''-register-v1''"

definition AUTHENTICATION_PROTOCOL_LABEL :: string where
  "AUTHENTICATION_PROTOCOL_LABEL = PROTOCOL_LABEL_PREFIX @ ''-authenticate-v1''"

definition AUTHENTICATION_CHALLENGE_TTL_SECONDS :: int where
  "AUTHENTICATION_CHALLENGE_TTL_SECONDS = 300"

text \<open>config.NETWORK\_ID, an ASCII byte string.\<close>

definition NETWORK_ID :: string where "NETWORK_ID = ''regtest''"

section \<open>Hexadecimal text and the registration commitment\<close>

definition normalize_hex_string :: "string \<Rightarrow> string" where
  "normalize_hex_string value =
     (let normalized = lower (strip value)
      in if starts_with ''0x'' normalized then drop 2 normalized else normalized)"

definition compute_registration_commitment :: "bytes \<Rightarrow> string" where
  "compute_registration_commitment public_key_bytes =
     bytes_hex (sha256 (utf8 REGISTRATION_PROTOCOL_LABEL @ utf8 NETWORK_ID @ public_key_bytes))"

section \<open>Dataclasses\<close>

record verify_request =
  vr_public_key_hex :: string
  vr_txid :: string
  vr_signature :: bytes

record authentication_result =
  ar_success :: bool
  ar_reason :: "string option"

record stored_challenge =
  ch_public_key_hex :: string
  ch_message :: string
  ch_issued_at :: datetime

record registration_result =
  rr_success :: bool
  rr_public_key_hex :: "string option"
  rr_reason :: "string option"
  rr_txid :: "string option"
  rr_registered_at :: "datetime option"

record stored_registration =
  rg_public_key_hex :: string
  rg_private_key_hex :: string
  rg_txid :: string
  rg_registered_at :: datetime

record application_identity =
  id_public_key_hex :: string
  id_private_key_hex :: string

record tx_verification_request =
  vq_txid :: string
  vq_treasury_address :: string
  vq_fee_sats :: int
  vq_commitment :: string

record tx_verification_result =
  vs_success :: bool
  vs_reason :: "string option"
  vs_amount_paid_sats :: "int option"
  vs_confirmations :: "int option"

record normalized_output =
  no_value_sats :: int
  no_address :: "string option"
  no_script_hex :: string

record normalized_transaction =
  nt_txid :: string
  nt_confirmations :: int
  nt_outputs :: "normalized_output list"

text \<open>\<^verbatim>\<open>ApplicationIdentity.registration_commitment_hex\<close> raises when the key is not hexadecimal.\<close>

definition registration_commitment_hex :: "application_identity \<Rightarrow> string res" where
  "registration_commitment_hex identity =
     (case fromhex (id_public_key_hex identity) of
        None \<Rightarrow> Inl (ValueError ''non-hexadecimal number found in fromhex() arg'')
      | Some public_key_bytes \<Rightarrow> Inr (compute_registration_commitment public_key_bytes))"

section \<open>Expiry of a challenge\<close>

text \<open>
  \<^verbatim>\<open>now > issued_at + timedelta(seconds=300)\<close>: the sum raises \<^verbatim>\<open>OverflowError\<close> past the year 9999, the
  comparison raises \<^verbatim>\<open>TypeError\<close> between an aware and a naive time. The sum keeps the offset of
  \<^verbatim>\<open>issued_at\<close>, so it is later by the same amount on the UTC time line.
\<close>

definition MAX_LOCAL_US :: int where "MAX_LOCAL_US = 3652060 * us_per_day"

definition ttl_us :: int where "ttl_us = AUTHENTICATION_CHALLENGE_TTL_SECONDS * 1000000"

definition challenge_expired :: "datetime \<Rightarrow> stored_challenge \<Rightarrow> bool res" where
  "challenge_expired now c =
     (if MAX_LOCAL_US \<le> local_us (ch_issued_at c) + ttl_us
      then Inl (OverflowError ''date value out of range'')
      else if is_aware now \<noteq> is_aware (ch_issued_at c)
      then Inl (TypeError ''can't compare offset-naive and offset-aware datetimes'')
      else Inr (instant_us (ch_issued_at c) + ttl_us < instant_us now))"

section \<open>Ed25519 keys\<close>

text \<open>
  The calls into \<^verbatim>\<open>cryptography\<close>: loading a key from raw bytes, verification (which returns, raises
  \<^verbatim>\<open>InvalidSignature\<close> or raises another exception), signing, the public key of a private key and the
  raw encodings.
\<close>

datatype sig_outcome = SigValid | SigInvalid | SigError py_exn

record ('pk, 'sk) ed25519 =
  from_public_bytes :: "bytes \<Rightarrow> 'pk res"
  pk_verify :: "'pk \<Rightarrow> bytes \<Rightarrow> bytes \<Rightarrow> sig_outcome"
  from_private_bytes :: "bytes \<Rightarrow> 'sk res"
  sk_sign :: "'sk \<Rightarrow> bytes \<Rightarrow> bytes"
  sk_public_key :: "'sk \<Rightarrow> 'pk"
  public_bytes_raw :: "'pk \<Rightarrow> bytes"
  private_bytes_raw :: "'sk \<Rightarrow> bytes"

definition decode_ed25519_key_hex :: "(string \<Rightarrow> py_exn) \<Rightarrow> string \<Rightarrow> string \<Rightarrow> bytes res" where
  "decode_ed25519_key_hex error_type key_label key_hex =
     (case fromhex (normalize_hex_string key_hex) of
        None \<Rightarrow> Inl (error_type (key_label @ '' must be a valid hex string.''))
      | Some key_bytes \<Rightarrow>
          if length key_bytes \<noteq> 32
          then Inl (error_type (''Ed25519 '' @ lower key_label @
                      '' must be exactly 32 bytes (64 hex characters).''))
          else Inr key_bytes)"

definition from_private_key_hex :: "('pk, 'sk) ed25519 \<Rightarrow> string \<Rightarrow> 'sk res" where
  "from_private_key_hex E private_key_hex =
     rbind (decode_ed25519_key_hex InvalidPrivateKeyFormatError ''Private key'' private_key_hex)
       (from_private_bytes E)"

text \<open>The message is always \<^verbatim>\<open>bytes\<close> here, so the \<^verbatim>\<open>TypeError\<close> of \<^verbatim>\<open>sign_message\<close> cannot arise.\<close>

definition sign_message :: "('pk, 'sk) ed25519 \<Rightarrow> 'sk \<Rightarrow> bytes \<Rightarrow> bytes" where
  "sign_message E private_key message = sk_sign E private_key message"

definition from_public_key_hex :: "('pk, 'sk) ed25519 \<Rightarrow> string \<Rightarrow> 'pk res" where
  "from_public_key_hex E public_key_hex =
     rbind (decode_ed25519_key_hex InvalidPublicKeyFormatError ''Public key'' public_key_hex)
       (from_public_bytes E)"

definition verify_signature :: "('pk, 'sk) ed25519 \<Rightarrow> 'pk \<Rightarrow> bytes \<Rightarrow> bytes \<Rightarrow> bool res" where
  "verify_signature E public_key message signature =
     (case pk_verify E public_key signature message of
        SigValid \<Rightarrow> Inr True
      | SigInvalid \<Rightarrow> Inr False
      | SigError e \<Rightarrow> Inl e)"

text \<open>\<^verbatim>\<open>generate_identity\<close>, for the private key that \<^verbatim>\<open>Ed25519PrivateKey.generate()\<close> returned.\<close>

definition generate_identity :: "('pk, 'sk) ed25519 \<Rightarrow> 'sk \<Rightarrow> application_identity" where
  "generate_identity E private_key =
     \<lparr>id_public_key_hex = bytes_hex (public_bytes_raw E (sk_public_key E private_key)),
      id_private_key_hex = bytes_hex (private_bytes_raw E private_key)\<rparr>"

section \<open>Lemmas\<close>

lemma x_not_in_bytes_hex: "CHR ''x'' \<notin> set (bytes_hex bs)"
proof
  assume "CHR ''x'' \<in> set (bytes_hex bs)"
  then obtain n where "n < 16" "CHR ''x'' = hex_digit n" using set_bytes_hex by blast
  then have "hex_val (CHR ''x'') = Some n" by simp
  then show False by (simp add: hex_val_def)
qed

lemma normalize_bytes_hex [simp]: "normalize_hex_string (bytes_hex bs) = bytes_hex bs"
proof -
  have "\<not> starts_with ''0x'' (bytes_hex bs)"
  proof
    assume "starts_with ''0x'' (bytes_hex bs)"
    then have "set ''0x'' \<subseteq> set (bytes_hex bs)" by (metis set_take_subset starts_with_def)
    then show False using x_not_in_bytes_hex [of bs] by simp
  qed
  then show ?thesis by (simp add: normalize_hex_string_def)
qed

lemma challenge_expired_Inr_iff:
  "challenge_expired now c = Inr b \<longleftrightarrow>
     local_us (ch_issued_at c) + ttl_us < MAX_LOCAL_US \<and> is_aware now = is_aware (ch_issued_at c) \<and>
     b = (instant_us (ch_issued_at c) + ttl_us < instant_us now)"
  by (auto simp: challenge_expired_def)

lemma decode_ed25519_Inr_iff:
  "decode_ed25519_key_hex err lbl h = Inr k \<longleftrightarrow> fromhex (normalize_hex_string h) = Some k \<and> length k = 32"
  by (auto simp: decode_ed25519_key_hex_def split: option.splits)

end
