(* ===== verification/Auth_Store.thy ===== *)
theory Auth_Store
  imports Auth_Models "HOL-Library.AList"
begin

text \<open>
  The stores of authentication/storage. A challenge store promises its clients what the locale
  \<open>challenge_store_contract\<close> states (challenge_store.py); the in-memory store implements it. The JSON
  registration store is modelled on the decoded document of its file; it implements
  \<open>registration_store_contract\<close> (registration_store.py).
\<close>

section \<open>The clock\<close>

text \<open>\<open>clock n\<close> is what the reading number \<open>n\<close> of \<^verbatim>\<open>datetime.now(timezone.utc)\<close> returns.\<close>

record clock_state =
  clock_reads :: nat

definition utc_now :: "(nat \<Rightarrow> datetime) \<Rightarrow> ('a clock_state_scheme, py_exn, datetime) sm" where
  "utc_now clock = (\<lambda>s. (Inr (clock (clock_reads s)), s\<lparr>clock_reads := clock_reads s + 1\<rparr>))"

section \<open>The in-memory challenge store\<close>

text \<open>A dict keeps its items in insertion order: an association list.\<close>

record challenge_store = clock_state +
  cs_challenges :: "(string \<times> stored_challenge) list"
  cs_max_size :: int

type_synonym ('a, 'r) store_op = "('a challenge_store_scheme, py_exn, 'r) sm"

definition in_memory_challenge_store :: "int \<Rightarrow> challenge_store res" where
  "in_memory_challenge_store max_size =
     (if max_size \<le> 0 then Inl (ValueError ''max_size must be greater than zero.'')
      else Inr \<lparr>clock_reads = 0, cs_challenges = [], cs_max_size = max_size\<rparr>)"

definition is_expired :: "(nat \<Rightarrow> datetime) \<Rightarrow> stored_challenge \<Rightarrow> ('a, bool) store_op" where
  "is_expired clock challenge = sbind (utc_now clock) (\<lambda>now. slift (challenge_expired now challenge))"

text \<open>\<^verbatim>\<open>del self._challenges[k]\<close> and \<^verbatim>\<open>self._challenges.pop(k, None)\<close>.\<close>

definition store_delete :: "string \<Rightarrow> ('a, unit) store_op" where
  "store_delete public_key_hex =
     (\<lambda>s. (Inr (), s\<lparr>cs_challenges := AList.delete public_key_hex (cs_challenges s)\<rparr>))"

primrec cleanup_loop :: "(nat \<Rightarrow> datetime) \<Rightarrow> (string \<times> stored_challenge) list \<Rightarrow> ('a, unit) store_op" where
  "cleanup_loop clock [] = sreturn ()"
| "cleanup_loop clock (item # items) =
     sbind (is_expired clock (snd item)) (\<lambda>expired.
     sbind (if expired then store_delete (fst item) else sreturn ()) (\<lambda>_.
     cleanup_loop clock items))"

definition cleanup_expired :: "(nat \<Rightarrow> datetime) \<Rightarrow> ('a, unit) store_op" where
  "cleanup_expired clock = (\<lambda>s. cleanup_loop clock (cs_challenges s) s)"

definition store_full :: "'a challenge_store_scheme \<Rightarrow> bool" where
  "store_full s \<longleftrightarrow> cs_max_size s \<le> int (length (cs_challenges s))"

definition store_save :: "(nat \<Rightarrow> datetime) \<Rightarrow> stored_challenge \<Rightarrow> ('a, unit) store_op" where
  "store_save clock challenge = (\<lambda>s.
     sbind (if map_of (cs_challenges s) (ch_public_key_hex challenge) = None \<and> store_full s
            then sbind (cleanup_expired clock) (\<lambda>_ s1.
              swhen_raise (store_full s1) (ChallengeStoreFullError ''Challenge store is full'') s1)
            else sreturn ())
       (\<lambda>_ s2. (Inr (), s2\<lparr>cs_challenges :=
          AList.update (ch_public_key_hex challenge) challenge (cs_challenges s2)\<rparr>)) s)"

definition store_get :: "(nat \<Rightarrow> datetime) \<Rightarrow> string \<Rightarrow> ('a, stored_challenge option) store_op" where
  "store_get clock public_key_hex = (\<lambda>s.
     (case map_of (cs_challenges s) public_key_hex of
        None \<Rightarrow> (Inr None, s)
      | Some challenge \<Rightarrow>
          sbind (is_expired clock challenge) (\<lambda>expired.
            if expired then sbind (store_delete public_key_hex) (\<lambda>_. sreturn None)
            else sreturn (Some challenge)) s))"

section \<open>The contract of a challenge store\<close>

text \<open>
  \<open>view\<close> is the stored mapping, \<open>expiry s c\<close> what the next reading of the clock says of a challenge
  (or the exception that the comparison raises). A store may drop challenges, but it never invents
  or alters one: what is found under a key is the last challenge saved there.
\<close>

locale challenge_store_contract =
  fixes view :: "'s \<Rightarrow> string \<Rightarrow> stored_challenge option"
    and inv :: "'s \<Rightarrow> bool"
    and expiry :: "'s \<Rightarrow> stored_challenge \<Rightarrow> bool res"
    and save :: "stored_challenge \<Rightarrow> ('s, py_exn, unit) sm"
    and get :: "string \<Rightarrow> ('s, py_exn, stored_challenge option) sm"
    and remove :: "string \<Rightarrow> ('s, py_exn, unit) sm"
  assumes save_inv: "inv s \<Longrightarrow> save c s = (r, s') \<Longrightarrow> inv s'"
    and save_stored: "inv s \<Longrightarrow> save c s = (Inr (), s') \<Longrightarrow>
      view s' \<subseteq>\<^sub>m (view s)(ch_public_key_hex c \<mapsto> c) \<and> view s' (ch_public_key_hex c) = Some c"
    and save_raised: "inv s \<Longrightarrow> save c s = (Inl e, s') \<Longrightarrow> view s' \<subseteq>\<^sub>m view s"
    and get_inv: "inv s \<Longrightarrow> get k s = (q, s') \<Longrightarrow> inv s'"
    and get_result: "inv s \<Longrightarrow> fst (get k s) = (case view s k of None \<Rightarrow> Inr None
      | Some c \<Rightarrow> rbind (expiry s c) (\<lambda>b. Inr (if b then None else Some c)))"
    and get_view: "inv s \<Longrightarrow> get k s = (q, s') \<Longrightarrow>
      view s' = (if q = Inr None then (view s)(k := None) else view s)"
    and remove_inv: "inv s \<Longrightarrow> remove k s = (r, s') \<Longrightarrow> inv s'"
    and remove_view: "inv s \<Longrightarrow> remove k s = (r, s') \<Longrightarrow> r = Inr () \<and> view s' = (view s)(k := None)"
    and key_of_entry: "inv s \<Longrightarrow> view s k = Some c \<Longrightarrow> ch_public_key_hex c = k"
begin

text \<open>What a successful lookup means, and that the absence of a challenge is stable.\<close>

lemma get_Some:
  assumes "inv s" and "get k s = (Inr (Some c), s')"
  shows "view s k = Some c \<and> expiry s c = Inr False \<and> view s' = view s"
  using get_result [OF assms(1), of k] get_view [OF assms] assms(2)
  by (cases "view s k"; cases "expiry s (the (view s k))") (auto split: if_splits)

lemma get_absent:
  assumes "inv s" and "view s k = None"
  shows "\<exists>s'. get k s = (Inr None, s') \<and> view s' = view s \<and> inv s'"
proof (cases "get k s")
  case (Pair r s')
  then have "r = Inr None" using get_result [OF assms(1), of k] assms(2) by simp
  then show ?thesis using Pair get_view [OF assms(1) Pair] get_inv [OF assms(1) Pair] assms(2) by auto
qed

lemma get_fresh:
  assumes "inv s" and "view s k = Some c" and "expiry s c = Inr False"
  shows "\<exists>s'. get k s = (Inr (Some c), s') \<and> view s' = view s \<and> inv s'"
proof (cases "get k s")
  case (Pair r s')
  then have "r = Inr (Some c)" using get_result [OF assms(1), of k] assms(2,3) by simp
  then show ?thesis using Pair get_view [OF assms(1) Pair] get_inv [OF assms(1) Pair] by auto
qed

lemma removed_not_found:
  assumes "inv s" and "remove k s = (r, s1)"
  shows "\<exists>s2. get k s1 = (Inr None, s2) \<and> view s2 = (view s)(k := None)"
  using remove_view [OF assms] get_absent [OF remove_inv [OF assms], of k] by auto

lemma get_shrinks: "inv s \<Longrightarrow> get k s = (r, s') \<Longrightarrow> view s' \<subseteq>\<^sub>m view s"
  using get_view [of s k r s'] by (auto simp: map_le_def split: if_splits)

end

section \<open>The in-memory store keeps the contract\<close>

definition store_inv :: "'a challenge_store_scheme \<Rightarrow> bool" where
  "store_inv s \<longleftrightarrow>
     distinct (map fst (cs_challenges s)) \<and>
     list_all (\<lambda>(k, c). ch_public_key_hex c = k) (cs_challenges s) \<and>
     0 < cs_max_size s \<and> int (length (cs_challenges s)) \<le> cs_max_size s"

definition store_view :: "'a challenge_store_scheme \<Rightarrow> string \<Rightarrow> stored_challenge option" where
  "store_view s = map_of (cs_challenges s)"

definition store_expiry :: "(nat \<Rightarrow> datetime) \<Rightarrow> 'a challenge_store_scheme \<Rightarrow> stored_challenge \<Rightarrow> bool res" where
  "store_expiry clock s c = challenge_expired (clock (clock_reads s)) c"

lemma is_expired_apply:
  "is_expired clock c s = (store_expiry clock s c, s\<lparr>clock_reads := clock_reads s + 1\<rparr>)"
  by (simp add: is_expired_def utc_now_def store_expiry_def sbind_def split: sum.splits)

lemma delete_is_filter: "AList.delete k al = filter (\<lambda>x. fst x \<noteq> k) al"
  by (auto simp: AList.delete_eq intro!: filter_cong)

lemma map_of_filter_le: "distinct (map fst al) \<Longrightarrow> map_of (filter p al) \<subseteq>\<^sub>m map_of al"
  by (auto simp: map_le_def dest!: map_of_SomeD intro!: map_of_is_SomeI distinct_map_filter)

lemma length_update:
  "length (AList.update k v al) = (if map_of al k = None then Suc (length al) else length al)"
  by (induction al) auto

lemma set_update_subset: "set (AList.update k v al) \<subseteq> insert (k, v) (set al)"
  by (induction al) auto

text \<open>
  A store that only dropped items: same bound, a sublist of the items, any number of clock readings.
\<close>

definition dropped :: "'a challenge_store_scheme \<Rightarrow> 'a challenge_store_scheme \<Rightarrow> bool" where
  "dropped s s' \<longleftrightarrow> (\<exists>p n. s' = s\<lparr>clock_reads := n, cs_challenges := filter p (cs_challenges s)\<rparr>)"

lemma droppedI:
  "dropped s s" "dropped s (s\<lparr>clock_reads := n\<rparr>)"
  "dropped s (s\<lparr>clock_reads := n, cs_challenges := AList.delete k (cs_challenges s)\<rparr>)"
  "dropped s (s\<lparr>cs_challenges := AList.delete k (cs_challenges s)\<rparr>)"
proof -
  show "dropped s s" unfolding dropped_def
    by (rule exI [of _ "\<lambda>x. True"], rule exI [of _ "clock_reads s"]) simp
  show "dropped s (s\<lparr>clock_reads := n\<rparr>)" unfolding dropped_def
    by (rule exI [of _ "\<lambda>x. True"], rule exI [of _ n]) simp
  show "dropped s (s\<lparr>clock_reads := n, cs_challenges := AList.delete k (cs_challenges s)\<rparr>)"
    unfolding dropped_def delete_is_filter by blast
  show "dropped s (s\<lparr>cs_challenges := AList.delete k (cs_challenges s)\<rparr>)"
    unfolding dropped_def delete_is_filter
    by (rule exI [of _ "\<lambda>x. fst x \<noteq> k"], rule exI [of _ "clock_reads s"]) simp
qed

lemma dropped_trans:
  assumes "dropped s s1" and "dropped s1 s2"
  shows "dropped s s2"
proof -
  obtain p n q m where "s1 = s\<lparr>clock_reads := n, cs_challenges := filter p (cs_challenges s)\<rparr>"
    and "s2 = s1\<lparr>clock_reads := m, cs_challenges := filter q (cs_challenges s1)\<rparr>"
    using assms unfolding dropped_def by blast
  then have "s2 = s\<lparr>clock_reads := m, cs_challenges := filter (\<lambda>x. p x \<and> q x) (cs_challenges s)\<rparr>"
    by simp
  then show ?thesis unfolding dropped_def by blast
qed

lemma int_length_filter_le: "int (length xs) \<le> m \<Longrightarrow> int (length (filter p xs)) \<le> m"
  using length_filter_le [of p xs] by linarith

lemma dropped_inv: "dropped s s' \<Longrightarrow> store_inv s \<Longrightarrow> store_inv s'"
  by (auto simp: dropped_def store_inv_def list_all_iff distinct_map_filter int_length_filter_le)

lemma dropped_view: "dropped s s' \<Longrightarrow> store_inv s \<Longrightarrow> store_view s' \<subseteq>\<^sub>m store_view s"
  by (auto simp: dropped_def store_inv_def store_view_def map_of_filter_le)

lemma cleanup_loop_dropped: "cleanup_loop clock items s = (r, s') \<Longrightarrow> dropped s s'"
proof (induction items arbitrary: s)
  case Nil
  then show ?case by (simp add: droppedI)
next
  case (Cons item items)
  let ?s1 = "s\<lparr>clock_reads := clock_reads s + 1\<rparr>"
  show ?case
  proof (cases "store_expiry clock s (snd item)")
    case (Inl e)
    then show ?thesis using Cons.prems by (auto simp: sbind_def is_expired_apply droppedI)
  next
    case (Inr b)
    then have "cleanup_loop clock items
        (if b then ?s1\<lparr>cs_challenges := AList.delete (fst item) (cs_challenges s)\<rparr> else ?s1) = (r, s')"
      using Cons.prems by (cases b) (simp_all add: sbind_def is_expired_apply store_delete_def)
    then show ?thesis using Cons.IH droppedI(2,3) dropped_trans by (cases b) fastforce+
  qed
qed

lemma store_save_cases:
  assumes "store_save clock c s = (r, s')"
  obtains (full) e where "r = Inl e" "dropped s s'"
  | (stored) s1 where "r = Inr ()" "dropped s s1"
      "map_of (cs_challenges s) (ch_public_key_hex c) = None \<longrightarrow> \<not> store_full s1"
      "map_of (cs_challenges s) (ch_public_key_hex c) \<noteq> None \<longrightarrow> s1 = s"
      "s' = s1\<lparr>cs_challenges := AList.update (ch_public_key_hex c) c (cs_challenges s1)\<rparr>"
proof (cases "map_of (cs_challenges s) (ch_public_key_hex c) = None \<and> store_full s")
  case False
  then have "r = Inr ()"
    "s' = s\<lparr>cs_challenges := AList.update (ch_public_key_hex c) c (cs_challenges s)\<rparr>"
    using assms by (auto simp: store_save_def)
  with False show ?thesis using stored [of s] droppedI(1) by blast
next
  case True
  obtain q s1 where q: "cleanup_expired clock s = (q, s1)" by (cases "cleanup_expired clock s")
  then have d: "dropped s s1" unfolding cleanup_expired_def by (rule cleanup_loop_dropped)
  show ?thesis
  proof (cases "q = Inr () \<and> \<not> store_full s1")
    case ok: True
    then have "r = Inr ()"
      "s' = s1\<lparr>cs_challenges := AList.update (ch_public_key_hex c) c (cs_challenges s1)\<rparr>"
      using assms True q by (auto simp: store_save_def sbind_def)
    with ok True d show ?thesis using stored [of s1] by blast
  next
    case bad: False
    then have "\<exists>e. r = Inl e \<and> s' = s1"
      using assms True q by (cases q; cases "store_full s1") (auto simp: store_save_def sbind_def)
    with d show ?thesis using full by blast
  qed
qed

lemma store_save_inv:
  assumes "store_inv s" and "store_save clock c s = (r, s')"
  shows "store_inv s'"
  using assms(2)
proof (cases rule: store_save_cases)
  case (full e)
  then show ?thesis using assms(1) dropped_inv by blast
next
  case (stored s1)
  have i: "store_inv s1" using stored assms(1) dropped_inv by blast
  let ?u = "AList.update (ch_public_key_hex c) c (cs_challenges s1)"
  have "list_all (\<lambda>(k, c). ch_public_key_hex c = k) ?u"
    using i set_update_subset [of "ch_public_key_hex c" c "cs_challenges s1"]
    by (auto simp: store_inv_def list_all_iff)
  moreover have "int (length ?u) \<le> cs_max_size s1"
    using stored i by (auto simp: length_update store_full_def store_inv_def)
  ultimately show ?thesis using i stored by (simp add: store_inv_def distinct_update)
qed

lemma store_get_cases:
  "store_get clock k s =
     (case store_view s k of
        None \<Rightarrow> (Inr None, s)
      | Some c \<Rightarrow>
          let s1 = s\<lparr>clock_reads := clock_reads s + 1\<rparr> in
          (case store_expiry clock s c of
             Inl e \<Rightarrow> (Inl e, s1)
           | Inr True \<Rightarrow> (Inr None, s1\<lparr>cs_challenges := AList.delete k (cs_challenges s)\<rparr>)
           | Inr False \<Rightarrow> (Inr (Some c), s1)))"
  by (auto simp: store_get_def store_view_def sbind_def is_expired_apply store_delete_def Let_def
      split: option.splits sum.splits bool.splits)

lemma store_get_dropped: "store_get clock k s = (r, s') \<Longrightarrow> dropped s s'"
  unfolding store_get_cases Let_def
  by (auto split: option.splits sum.splits bool.splits intro: droppedI)

interpretation memory: challenge_store_contract
  "store_view" "store_inv" "store_expiry clock" "store_save clock" "store_get clock" "store_delete"
proof
  fix s s' :: "'a challenge_store_scheme" and c r q k u and e :: py_exn
  show "store_inv s \<Longrightarrow> store_save clock c s = (r, s') \<Longrightarrow> store_inv s'"
    by (rule store_save_inv)
  show "store_view s' \<subseteq>\<^sub>m (store_view s)(ch_public_key_hex c \<mapsto> c) \<and>
      store_view s' (ch_public_key_hex c) = Some c"
    if "store_inv s" "store_save clock c s = (Inr (), s')"
    using that(2) dropped_view [OF _ that(1)]
    by (cases rule: store_save_cases) (fastforce simp: store_view_def update_conv' map_le_def)+
  show "store_view s' \<subseteq>\<^sub>m store_view s" if "store_inv s" "store_save clock c s = (Inl e, s')"
    using that(2) dropped_view [OF _ that(1)] by (cases rule: store_save_cases) auto
  show "store_inv s \<Longrightarrow> store_get clock k s = (q, s') \<Longrightarrow> store_inv s'"
    using store_get_dropped dropped_inv by blast
  show "fst (store_get clock k s) = (case store_view s k of None \<Rightarrow> Inr None
      | Some c \<Rightarrow> rbind (store_expiry clock s c) (\<lambda>b. Inr (if b then None else Some c)))"
    by (auto simp: store_get_cases Let_def split: option.splits sum.splits bool.splits)
  show "store_view s' = (if q = Inr None then (store_view s)(k := None) else store_view s)"
    if "store_get clock k s = (q, s')"
    using that unfolding store_get_cases Let_def
    by (auto simp: store_view_def delete_conv' split: option.splits sum.splits bool.splits)
  show "store_inv s \<Longrightarrow> store_delete k s = (u, s') \<Longrightarrow> store_inv s'"
    using dropped_inv [OF droppedI(4)] by (auto simp: store_delete_def)
  show "store_delete k s = (u, s') \<Longrightarrow> u = Inr () \<and> store_view s' = (store_view s)(k := None)"
    by (auto simp: store_delete_def store_view_def delete_conv')
  show "store_inv s \<Longrightarrow> store_view s k = Some c \<Longrightarrow> ch_public_key_hex c = k"
    by (auto simp: store_inv_def store_view_def list_all_iff dest!: map_of_SomeD)
qed

section \<open>Capacity\<close>

text \<open>The keys of the items that a cleanup starting at clock reading \<open>n\<close> finds expired.\<close>

primrec expired_keys :: "(nat \<Rightarrow> datetime) \<Rightarrow> nat \<Rightarrow> (string \<times> stored_challenge) list \<Rightarrow> string list" where
  "expired_keys clock n [] = []"
| "expired_keys clock n (x # xs) =
     (if challenge_expired (clock n) (snd x) = Inr True then [fst x] else []) @ expired_keys clock (Suc n) xs"

text \<open>The challenge was issued by an aware clock, and its expiry time is representable.\<close>

definition datable :: "stored_challenge \<Rightarrow> bool" where
  "datable c \<longleftrightarrow> is_aware (ch_issued_at c) \<and> local_us (ch_issued_at c) + ttl_us < MAX_LOCAL_US"

lemma datable_expiry: "datable c \<Longrightarrow> is_aware now \<Longrightarrow> \<exists>b. challenge_expired now c = Inr b"
  by (auto simp: datable_def challenge_expired_def)

lemma set_expired_keys: "set (expired_keys clock n xs) \<subseteq> fst ` set xs"
  by (induction xs arbitrary: n) auto

lemma cleanup_loop_exact:
  assumes "\<forall>n. is_aware (clock n)" and "\<forall>x \<in> set items. datable (snd x)"
  shows "\<exists>n. cleanup_loop clock items s = (Inr (), s\<lparr>clock_reads := n,
    cs_challenges := filter (\<lambda>x. fst x \<notin> set (expired_keys clock (clock_reads s) items)) (cs_challenges s)\<rparr>)"
  using assms(2)
proof (induction items arbitrary: s)
  case Nil
  show ?case by (intro exI [of _ "clock_reads s"]) simp
next
  case (Cons x items)
  obtain b where b: "challenge_expired (clock (clock_reads s)) (snd x) = Inr b"
    using Cons.prems datable_expiry assms(1) by fastforce
  let ?s1 = "s\<lparr>clock_reads := clock_reads s + 1\<rparr>"
  let ?s2 = "if b then ?s1\<lparr>cs_challenges := AList.delete (fst x) (cs_challenges s)\<rparr> else ?s1"
  have step: "cleanup_loop clock (x # items) s = cleanup_loop clock items ?s2"
    using b by (simp add: sbind_def is_expired_apply store_expiry_def store_delete_def)
  obtain n where n: "cleanup_loop clock items ?s2 = (Inr (), ?s2\<lparr>clock_reads := n, cs_challenges :=
      filter (\<lambda>y. fst y \<notin> set (expired_keys clock (Suc (clock_reads s)) items)) (cs_challenges ?s2)\<rparr>)"
    using Cons.IH [of ?s2] Cons.prems by (auto split: if_splits)
  have "filter (\<lambda>y. fst y \<notin> set (expired_keys clock (Suc (clock_reads s)) items)) (cs_challenges ?s2) =
      filter (\<lambda>y. fst y \<notin> set (expired_keys clock (clock_reads s) (x # items))) (cs_challenges s)"
    using b by (auto simp: delete_is_filter intro!: filter_cong)
  then show ?case unfolding step n by (intro exI [of _ n]) simp
qed

lemma cleanup_frees:
  assumes "\<forall>n. is_aware (clock n)" and "\<forall>x \<in> set (cs_challenges s). datable (snd x)" and "store_inv s"
  shows "\<exists>s1. cleanup_expired clock s = (Inr (), s1) \<and> cs_max_size s1 = cs_max_size s \<and>
    (if expired_keys clock (clock_reads s) (cs_challenges s) = [] then cs_challenges s1 = cs_challenges s
     else length (cs_challenges s1) < length (cs_challenges s))"
proof -
  let ?ks = "expired_keys clock (clock_reads s) (cs_challenges s)"
  let ?f = "filter (\<lambda>x. fst x \<notin> set ?ks) (cs_challenges s)"
  obtain n where n: "cleanup_expired clock s = (Inr (), s\<lparr>clock_reads := n, cs_challenges := ?f\<rparr>)"
    using cleanup_loop_exact [OF assms(1,2), of s] by (auto simp: cleanup_expired_def)
  have "length ?f < length (cs_challenges s)" if ne: "?ks \<noteq> []"
  proof -
    have "hd ?ks \<in> set ?ks" using ne by simp
    moreover from this obtain x where "x \<in> set (cs_challenges s)" "fst x = hd ?ks"
      using set_expired_keys by fastforce
    ultimately show ?thesis by (intro length_filter_less [of x]) auto
  qed
  then show ?thesis using n by (intro exI [of _ "s\<lparr>clock_reads := n, cs_challenges := ?f\<rparr>"]) simp
qed

text \<open>
  C10. Capacity of the in-memory challenge store. On a well-formed store whose challenges are dated
  by an aware clock, saving a challenge is refused exactly when its key is new, the store holds
  \<^verbatim>\<open>max_size\<close> challenges and the cleanup finds none of them expired; the store then raises
  \<^verbatim>\<open>ChallengeStoreFullError\<close> and its content does not change. Otherwise the challenge is stored under
  its key. In every case at most \<^verbatim>\<open>max_size\<close> challenges are held, one per key.
\<close>

theorem store_capacity:
  assumes "store_inv s" and "\<forall>n. is_aware (clock n)" and "\<forall>x \<in> set (cs_challenges s). datable (snd x)"
  shows "store_inv (snd (store_save clock c s)) \<and>
    (if store_view s (ch_public_key_hex c) = None \<and> store_full s \<and>
        expired_keys clock (clock_reads s) (cs_challenges s) = []
     then fst (store_save clock c s) = Inl (ChallengeStoreFullError ''Challenge store is full'') \<and>
       cs_challenges (snd (store_save clock c s)) = cs_challenges s
     else fst (store_save clock c s) = Inr () \<and>
       store_view (snd (store_save clock c s)) (ch_public_key_hex c) = Some c)"
proof -
  obtain s1 where s1: "cleanup_expired clock s = (Inr (), s1)" "cs_max_size s1 = cs_max_size s"
    "if expired_keys clock (clock_reads s) (cs_challenges s) = [] then cs_challenges s1 = cs_challenges s
     else length (cs_challenges s1) < length (cs_challenges s)"
    using cleanup_frees [OF assms(2,3,1)] by blast
  have i: "store_inv (snd (store_save clock c s))"
    by (metis store_save_inv [OF assms(1)] prod.collapse)
  have "expired_keys clock (clock_reads s) (cs_challenges s) \<noteq> [] \<Longrightarrow> \<not> store_full s1"
    using s1(2,3) assms(1) by (auto simp: store_inv_def store_full_def)
  then show ?thesis using i s1
    by (auto simp: store_save_def sbind_def store_view_def update_conv' store_full_def split: if_splits)
qed

definition login_time :: "nat \<Rightarrow> datetime" where
  "login_time m = \<lparr>dt_year = 2025, dt_month = 6, dt_day = 1, dt_hour = 12, dt_minute = m, dt_second = 0,
     dt_microsecond = 0, dt_utcoffset = Some 0\<rparr>"

definition sample_challenge :: "string \<Rightarrow> stored_challenge" where
  "sample_challenge k = \<lparr>ch_public_key_hex = k, ch_message = ''m'', ch_issued_at = login_time 0\<rparr>"

definition sample_store :: challenge_store where
  "sample_store = \<lparr>clock_reads = 0, cs_challenges = [(''aa'', sample_challenge ''aa'')], cs_max_size = 1\<rparr>"

lemma login_time_aware [simp]: "is_aware (login_time m)"
  by (simp add: is_aware_def login_time_def)

lemma sample_facts:
  "datable (sample_challenge k)" "store_inv sample_store" "store_full sample_store"
  "challenge_expired (login_time 5) (sample_challenge k) = Inr False"
  "challenge_expired (login_time 6) (sample_challenge k) = Inr True"
  by (simp_all add: datable_def sample_challenge_def store_inv_def sample_store_def store_full_def
      challenge_expired_def local_us_def instant_us_def login_time_def is_aware_def ymd2ord_def days_before_year_def
      days_before_month_def days_in_month_def is_leap_def MAX_LOCAL_US_def ttl_us_def us_per_day_def
      AUTHENTICATION_CHALLENGE_TTL_SECONDS_def upt_rec)

theorem store_capacity_witness:
  "fst (store_save (\<lambda>n. login_time 5) (sample_challenge ''bb'') sample_store) =
     Inl (ChallengeStoreFullError ''Challenge store is full'') \<and>
   fst (store_save (\<lambda>n. login_time 6) (sample_challenge ''bb'') sample_store) = Inr ()"
  using store_capacity [of sample_store "\<lambda>n. login_time 5" "sample_challenge ''bb''"]
    store_capacity [of sample_store "\<lambda>n. login_time 6" "sample_challenge ''bb''"] sample_facts
  by (simp add: store_view_def sample_store_def sample_challenge_def [of "''bb''"])

text \<open>
  Life of a challenge. After a challenge was saved, a lookup of its key returns exactly that
  challenge as long as the clock is at most 300 seconds past its issuance; the first lookup after
  that returns nothing and removes it, and every later lookup returns nothing.
\<close>

theorem challenge_life:
  assumes "store_inv s" and "store_save clock c s = (Inr (), s1)" and "datable c"
    and "is_aware (clock (clock_reads s1))"
    and "store_get clock (ch_public_key_hex c) s1 = (r, s2)"
  shows "if instant_us (clock (clock_reads s1)) \<le> instant_us (ch_issued_at c) + 300000000
    then r = Inr (Some c) \<and> store_view s2 = store_view s1
    else r = Inr None \<and> store_view s2 = (store_view s1)(ch_public_key_hex c := None) \<and>
      fst (store_get clock (ch_public_key_hex c) s2) = Inr None"
proof -
  have i: "store_inv s1" and v: "store_view s1 (ch_public_key_hex c) = Some c"
    using memory.save_inv memory.save_stored assms(1,2) by blast+
  have x: "store_expiry clock s1 c = Inr (instant_us (ch_issued_at c) + 300000000 < instant_us (clock (clock_reads s1)))"
    using assms(3,4)
    by (simp add: store_expiry_def challenge_expired_def datable_def ttl_us_def AUTHENTICATION_CHALLENGE_TTL_SECONDS_def)
  have r: "r = Inr (if instant_us (ch_issued_at c) + 300000000 < instant_us (clock (clock_reads s1)) then None else Some c)"
    using memory.get_result [OF i, of clock "ch_public_key_hex c"] assms(5) v x by simp
  have "store_view s2 = (if r = Inr None then (store_view s1)(ch_public_key_hex c := None) else store_view s1)"
    using memory.get_view [OF i assms(5)] .
  moreover have "store_inv s2" using memory.get_inv [OF i assms(5)] .
  ultimately show ?thesis using r memory.get_absent [of s2 "ch_public_key_hex c" clock] by auto
qed

definition sample_clock :: "nat \<Rightarrow> datetime" where
  "sample_clock n = login_time (if n = 0 then 5 else 6)"

theorem challenge_life_witness:
  "fst (store_get sample_clock ''aa'' (snd (store_save sample_clock (sample_challenge ''aa'') sample_store))) =
     Inr (Some (sample_challenge ''aa''))"
proof -
  let ?c = "sample_challenge ''aa''"
  let ?s1 = "snd (store_save sample_clock ?c sample_store)"
  have 1: "store_save sample_clock ?c sample_store = (Inr (), ?s1)" "clock_reads ?s1 = 0"
    by (simp_all add: store_save_def sample_store_def sample_challenge_def)
  have "instant_us (sample_clock 0) \<le> instant_us (ch_issued_at ?c) + 300000000"
    using sample_facts(4) [of "''aa''"]
    by (simp add: challenge_expired_Inr_iff sample_clock_def ttl_us_def AUTHENTICATION_CHALLENGE_TTL_SECONDS_def)
  then show ?thesis
    using challenge_life [OF sample_facts(2) 1(1) sample_facts(1) _ prod.collapse [symmetric]] 1(2)
    by (simp add: sample_clock_def sample_challenge_def)
qed

section \<open>The JSON registration store\<close>

text \<open>
  The file: missing, or a text that is a JSON document or not. Text is decoded on every read. Writing
  replaces the whole file (through a temporary file and a rename) by a document that decodes to the
  written dict; the order of its members, which \<^verbatim>\<open>sort_keys\<close> fixes, is not observable through the
  lookups and is left as in the dict.
\<close>

datatype reg_file = Missing | FileText "json option"

type_synonym 'r reg_op = "(reg_file, py_exn, 'r) sm"

definition write_all :: "(string \<times> json) list \<Rightarrow> unit reg_op" where
  "write_all data = (\<lambda>f. (Inr (), FileText (Some (JObj data))))"

definition json_registration_store :: "unit reg_op" where
  "json_registration_store = (\<lambda>f. if f = Missing then write_all [] f else (Inr (), f))"

definition read_all :: "(string \<times> json) list reg_op" where
  "read_all = (\<lambda>f.
     (case f of
        Missing \<Rightarrow> Inr []
      | FileText None \<Rightarrow> Inl (ValueError ''JSONDecodeError'')
      | FileText (Some raw) \<Rightarrow>
          (case raw of JObj m \<Rightarrow> Inr m
           | _ \<Rightarrow> Inl (ValueError ''Registration store file has invalid format.'')), f))"

text \<open>\<^verbatim>\<open>raw[key]\<close> on a decoded value.\<close>

definition subscript :: "json \<Rightarrow> string \<Rightarrow> json res" where
  "subscript raw key =
     (case raw of
        JObj m \<Rightarrow> (case map_of m key of None \<Rightarrow> Inl (KeyError key) | Some v \<Rightarrow> Inr v)
      | JStr s \<Rightarrow> Inl (TypeError ''string indices must be integers'')
      | JList l \<Rightarrow> Inl (TypeError ''list indices must be integers or slices, not str'')
      | _ \<Rightarrow> Inl (TypeError ''object is not subscriptable''))"

definition read_registration :: "(json \<Rightarrow> string) \<Rightarrow> json \<Rightarrow> stored_registration res" where
  "read_registration py_repr raw =
     rbind (subscript raw ''public_key_hex'') (\<lambda>public_key_hex.
     rbind (subscript raw ''private_key_hex'') (\<lambda>private_key_hex.
     rbind (subscript raw ''txid'') (\<lambda>txid.
     rbind (subscript raw ''registered_at'') (\<lambda>registered_at.
       case fromisoformat (py_str py_repr registered_at) of
         None \<Rightarrow> Inl (ValueError ''Invalid isoformat string'')
       | Some at \<Rightarrow> Inr \<lparr>rg_public_key_hex = py_str py_repr public_key_hex,
           rg_private_key_hex = py_str py_repr private_key_hex, rg_txid = py_str py_repr txid,
           rg_registered_at = at\<rparr>))))"

definition registration_get :: "(json \<Rightarrow> string) \<Rightarrow> string \<Rightarrow> stored_registration option reg_op" where
  "registration_get py_repr public_key_hex =
     sbind read_all (\<lambda>data.
       case jget public_key_hex data JNull of
         JNull \<Rightarrow> sreturn None
       | raw \<Rightarrow> slift (rbind (read_registration py_repr raw) (\<lambda>r. Inr (Some r))))"

definition write_registration :: "stored_registration \<Rightarrow> json" where
  "write_registration r =
     JObj [(''public_key_hex'', JStr (rg_public_key_hex r)), (''private_key_hex'', JStr (rg_private_key_hex r)),
           (''txid'', JStr (rg_txid r)), (''registered_at'', JStr (isoformat (rg_registered_at r)))]"

definition registration_save :: "stored_registration \<Rightarrow> unit reg_op" where
  "registration_save r =
     sbind read_all (\<lambda>data. write_all (AList.update (rg_public_key_hex r) (write_registration r) data))"

text \<open>
  What the registration service relies on: reading changes nothing, a saved registration is read
  back as it was, and saving one key does not change what is read for another.
\<close>

locale registration_store_contract =
  fixes get :: "string \<Rightarrow> ('f, py_exn, stored_registration option) sm"
    and save :: "stored_registration \<Rightarrow> ('f, py_exn, unit) sm"
  assumes get_keeps: "get k f = (r, f') \<Longrightarrow> f' = f"
    and get_saved: "valid_datetime (rg_registered_at x) \<Longrightarrow> save x f = (Inr (), f') \<Longrightarrow>
      get (rg_public_key_hex x) f' = (Inr (Some x), f')"
    and get_other: "save x f = (Inr (), f') \<Longrightarrow> k \<noteq> rg_public_key_hex x \<Longrightarrow> fst (get k f') = fst (get k f)"
    and save_fails: "save x f = (Inl e, f') \<Longrightarrow> f' = f \<and> fst (get k f) = Inl e"
begin

text \<open>A save after a successful lookup cannot fail.\<close>

lemma save_after_get: "get k f = (Inr r, f1) \<Longrightarrow> \<exists>f'. save x f1 = (Inr (), f')"
  using get_keeps [of k f "Inr r" f1] save_fails [of x f1 _ _ k]
  by (cases "save x f1"; cases "fst (save x f1)") auto

end

lemma read_all_keeps: "read_all f = (r, f') \<Longrightarrow> f' = f"
  by (simp add: read_all_def)

lemma registration_get_keeps: "registration_get repr k f = (r, f') \<Longrightarrow> f' = f"
  using read_all_keeps
  by (auto simp: registration_get_def sbind_def split: prod.splits sum.splits json.splits)

lemma fst_registration_get:
  "fst (registration_get repr k f) = rbind (fst (read_all f)) (\<lambda>data.
     if jget k data JNull = JNull then Inr None
     else rbind (read_registration repr (jget k data JNull)) (\<lambda>r. Inr (Some r)))"
  by (cases "read_all f"; cases "fst (read_all f)")
    (auto simp: registration_get_def sbind_def split: json.splits)

lemma read_write_registration:
  "valid_datetime (rg_registered_at x) \<Longrightarrow> read_registration repr (write_registration x) = Inr x"
  by (simp add: read_registration_def write_registration_def subscript_def py_str_def fromisoformat_isoformat)

lemma registration_save_Inr:
  "registration_save x f = (Inr (), f') \<Longrightarrow> \<exists>m. read_all f = (Inr m, f) \<and>
     f' = FileText (Some (JObj (AList.update (rg_public_key_hex x) (write_registration x) m)))"
  by (auto simp: registration_save_def write_all_def read_all_def sbind_def split: sum.splits)

lemma read_all_written [simp]: "read_all (FileText (Some (JObj m))) = (Inr m, FileText (Some (JObj m)))"
  by (simp add: read_all_def)

interpretation json_store: registration_store_contract "registration_get py_repr" registration_save
proof
  fix k r f f' x and e :: py_exn
  show "registration_get py_repr k f = (r, f') \<Longrightarrow> f' = f"
    by (rule registration_get_keeps)
  show "registration_get py_repr (rg_public_key_hex x) f' = (Inr (Some x), f')"
    if "valid_datetime (rg_registered_at x)" "registration_save x f = (Inr (), f')"
    using registration_save_Inr [OF that(2)] read_write_registration [OF that(1)]
    by (auto simp: registration_get_def sbind_def jget_def update_conv' split: json.splits)
      (auto simp: write_registration_def)
  show "fst (registration_get py_repr k f') = fst (registration_get py_repr k f)"
    if "registration_save x f = (Inr (), f')" "k \<noteq> rg_public_key_hex x"
    using registration_save_Inr [OF that(1)] that(2)
    by (auto simp: fst_registration_get jget_def update_conv')
  show "f' = f \<and> fst (registration_get py_repr k f) = Inl e" if "registration_save x f = (Inl e, f')"
    using that by (auto simp: registration_save_def registration_get_def read_all_def sbind_def write_all_def
        split: sum.splits)
qed

end
