(* ===== verification/Auth_Verifier.thy ===== *)
theory Auth_Verifier
  imports Auth_Models
begin

text \<open>
  authentication/transaction_verification: the checks that every verifier shares (base_verifier.py)
  over an abstract \<^verbatim>\<open>_fetch_transaction\<close>, and the verifier that asks a Bitcoin node (rpc_verifier.py).
\<close>

section \<open>The OP\_RETURN payload\<close>

text \<open>\<^verbatim>\<open>s[i : i + n]\<close>.\<close>

definition substr :: "string \<Rightarrow> nat \<Rightarrow> nat \<Rightarrow> string" where
  "substr s i n = take n (drop i s)"

text \<open>The length of the payload and the position where it starts, by opcode.\<close>

definition push_header :: "string \<Rightarrow> nat \<Rightarrow> int \<Rightarrow> (int \<times> nat) option" where
  "push_header script_hex cursor opcode =
     (if opcode = 0 then Some (0, cursor)
      else if 1 \<le> opcode \<and> opcode \<le> 75 then Some (opcode, cursor)
      else if opcode = 76 then
        (if length script_hex < cursor + 2 then None
         else map_option (\<lambda>n. (n, cursor + 2)) (py_int 16 (substr script_hex cursor 2)))
      else if opcode = 77 then
        (if length script_hex < cursor + 4 then None
         else map_option (\<lambda>bs. (le_int bs, cursor + 4)) (fromhex (substr script_hex cursor 4)))
      else if opcode = 78 then
        (if length script_hex < cursor + 8 then None
         else map_option (\<lambda>bs. (le_int bs, cursor + 8)) (fromhex (substr script_hex cursor 8)))
      else None)"

text \<open>The payload, which must reach the end of the script and be valid hexadecimal.\<close>

definition push_payload :: "string \<Rightarrow> int \<times> nat \<Rightarrow> string option" where
  "push_payload script_hex header =
     (case header of (payload_len_bytes, cursor) \<Rightarrow>
        let payload_len_hex = payload_len_bytes * 2 in
        if int (length script_hex) \<noteq> int cursor + payload_len_hex then None
        else let payload_hex = substr script_hex cursor (nat payload_len_hex) in
          if fromhex payload_hex = None then None else Some payload_hex)"

definition extract_op_return_payload_hex :: "string \<Rightarrow> string option" where
  "extract_op_return_payload_hex script_hex =
     (let s = lower (strip script_hex) in
      if length s mod 2 \<noteq> 0 then None
      else if \<not> starts_with ''6a'' s then None
      else if length s < 4 then None
      else case py_int 16 (substr s 2 2) of
        None \<Rightarrow> None
      | Some opcode \<Rightarrow>
          (case push_header s 4 opcode of
             None \<Rightarrow> None
           | Some header \<Rightarrow> push_payload s header))"

section \<open>The common checks\<close>

definition contains_registration_commitment :: "normalized_transaction \<Rightarrow> string \<Rightarrow> bool" where
  "contains_registration_commitment tx expected_commitment =
     (let normalized_expected = lower (strip expected_commitment) in
      if normalized_expected = [] then False
      else if fromhex normalized_expected = None then False
      else list_ex (\<lambda>output.
        starts_with ''6a'' (lower (strip (no_script_hex output))) \<and>
        extract_op_return_payload_hex (no_script_hex output) = Some normalized_expected) (nt_outputs tx))"

definition sum_outputs_for_address :: "normalized_transaction \<Rightarrow> string \<Rightarrow> int" where
  "sum_outputs_for_address tx address =
     sum_list (map no_value_sats (filter (\<lambda>output. no_address output = Some address) (nt_outputs tx)))"

definition failed :: "string \<Rightarrow> int option \<Rightarrow> int option \<Rightarrow> tx_verification_result" where
  "failed reason confirmations amount =
     \<lparr>vs_success = False, vs_reason = Some reason, vs_amount_paid_sats = amount,
      vs_confirmations = confirmations\<rparr>"

definition check_transaction ::
  "tx_verification_request \<Rightarrow> normalized_transaction option \<Rightarrow> tx_verification_result" where
  "check_transaction request fetched =
     (case fetched of
        None \<Rightarrow> failed ''Transaction not found.'' None None
      | Some tx \<Rightarrow>
          if nt_confirmations tx < MIN_CONFIRMATIONS
          then failed ''Transaction does not have enough confirmations.'' (Some (nt_confirmations tx)) None
          else let amount_paid_sats = sum_outputs_for_address tx (vq_treasury_address request) in
          if amount_paid_sats < vq_fee_sats request
          then failed ''Transaction paid too little to the treasury address.''
                 (Some (nt_confirmations tx)) (Some amount_paid_sats)
          else if \<not> contains_registration_commitment tx (vq_commitment request)
          then failed ''Transaction does not contain the expected registration commitment.''
                 (Some (nt_confirmations tx)) (Some amount_paid_sats)
          else \<lparr>vs_success = True, vs_reason = None, vs_amount_paid_sats = Some amount_paid_sats,
                vs_confirmations = Some (nt_confirmations tx)\<rparr>)"

text \<open>\<^verbatim>\<open>verify\<close>: only a \<^verbatim>\<open>TransactionFetchError\<close> is turned into a result, any other exception escapes.\<close>

definition verify ::
  "(string \<Rightarrow> ('s, py_exn, normalized_transaction option) sm) \<Rightarrow> tx_verification_request \<Rightarrow>
   ('s, py_exn, tx_verification_result) sm" where
  "verify fetch_transaction request = (\<lambda>s.
     case fetch_transaction (vq_txid request) s of
       (Inl e, s') \<Rightarrow>
         (case e of
            TransactionFetchError m \<Rightarrow> (Inr (failed ''Transaction verification failed'' None None), s')
          | _ \<Rightarrow> (Inl e, s'))
     | (Inr fetched, s') \<Rightarrow> (Inr (check_transaction request fetched), s'))"

section \<open>The RPC verifier\<close>

definition btc_to_sats :: "json \<Rightarrow> int res" where
  "btc_to_sats value_btc =
     (let invalid = ValueError ''Invalid BTC amount in RPC response'' in
      if (case value_btc of JInt i \<Rightarrow> False | JFloat d \<Rightarrow> False | JStr s \<Rightarrow> False | _ \<Rightarrow> True) then Inl invalid
      else case decimal_of (BJson value_btc) of
        None \<Rightarrow> Inl invalid
      | Some d \<Rightarrow>
          (case dec_mult d SATOSHIS_PER_BTC of
             Inl e \<Rightarrow> (case e of InvalidOperation m \<Rightarrow> Inl invalid | _ \<Rightarrow> Inl e)
           | Inr sats_decimal \<Rightarrow>
               if \<not> dec_eq sats_decimal (to_integral_value sats_decimal)
               then Inl (ValueError ''BTC amount is not representable in satoshis'')
               else dec_to_int sats_decimal))"

text \<open>The \<^verbatim>\<open>addresses\<close> list: every entry must be a string; the first that is not blank is taken.\<close>

definition first_address :: "json list \<Rightarrow> string option res" where
  "first_address addresses =
     rbind (map_res (json_string ''Invalid address entry in scriptPubKey addresses.'') addresses) (\<lambda>candidates.
       Inr (find (\<lambda>a. a \<noteq> []) (map strip candidates)))"

definition addresses_field :: "(string \<times> json) list \<Rightarrow> string option res" where
  "addresses_field script_pub_key =
     (case map_of script_pub_key ''addresses'' of
        None \<Rightarrow> Inr None
      | Some v \<Rightarrow> rbind (json_list ''Invalid addresses in scriptPubKey.'' v) first_address)"

definition extract_address :: "(string \<times> json) list \<Rightarrow> string option res" where
  "extract_address script_pub_key =
     (case map_of script_pub_key ''address'' of
        None \<Rightarrow> addresses_field script_pub_key
      | Some v \<Rightarrow>
          rbind (json_string ''Invalid address in scriptPubKey.'' v) (\<lambda>raw.
            let address = strip raw in
            if address \<noteq> [] then Inr (Some address) else addresses_field script_pub_key))"

definition nonblank_string :: "string \<Rightarrow> json \<Rightarrow> string res" where
  "nonblank_string msg v =
     rbind (json_string msg v) (\<lambda>s. if strip s = [] then Inl (ValueError msg) else Inr s)"

definition normalize_output :: "json \<Rightarrow> normalized_output res" where
  "normalize_output vout_json =
     rbind (json_object ''Invalid vout entry in RPC response.'' vout_json) (\<lambda>vout.
     rbind (btc_to_sats (jget ''value'' vout JNull)) (\<lambda>sats.
     rbind (json_object ''Invalid scriptPubKey in RPC response.'' (jget ''scriptPubKey'' vout JNull)) (\<lambda>script_pub_key.
     rbind (nonblank_string ''Invalid scriptPubKey hex in RPC response.'' (jget ''hex'' script_pub_key JNull)) (\<lambda>script_hex.
     rbind (extract_address script_pub_key) (\<lambda>address.
       Inr \<lparr>no_value_sats = sats, no_address = address, no_script_hex = script_hex\<rparr>)))))"

definition normalize_transaction :: "(string \<times> json) list \<Rightarrow> normalized_transaction res" where
  "normalize_transaction tx =
     rbind (nonblank_string ''Invalid txid in RPC response.'' (jget ''txid'' tx JNull)) (\<lambda>txid.
     rbind (json_int ''Invalid confirmations in RPC response.'' (jget ''confirmations'' tx (JInt 0))) (\<lambda>confirmations.
     rbind (json_list ''Invalid vout in RPC response.'' (jget ''vout'' tx (JList []))) (\<lambda>vout_raw.
     rbind (map_res normalize_output vout_raw) (\<lambda>outputs.
       Inr \<lparr>nt_txid = txid, nt_confirmations = confirmations, nt_outputs = outputs\<rparr>))))"

definition normalize_or_raise :: "(string \<times> json) list \<Rightarrow> normalized_transaction res" where
  "normalize_or_raise tx =
     (case normalize_transaction tx of
        Inr t \<Rightarrow> Inr t
      | Inl e \<Rightarrow> Inl (if is_value_error e
                      then TransactionFetchError ''Failed to normalize transaction data'' else e))"

definition fetch_transaction :: "rpc_node \<Rightarrow> string \<Rightarrow> normalized_transaction option rpc" where
  "fetch_transaction node txid = (\<lambda>s.
     case get_raw_transaction node (JStr txid) (JInt 1) s of
       (Inl (BitcoinRpcError m error_code msg), s') \<Rightarrow>
         (if json_eq error_code (JInt RPC_INVALID_ADDRESS_OR_KEY) then Inr None
          else Inl (TransactionFetchError ''Failed to fetch transaction data''), s')
     | (Inl e, s') \<Rightarrow> (Inl e, s')
     | (Inr tx, s') \<Rightarrow> (map_sum id Some (normalize_or_raise tx), s'))"

definition rpc_verify :: "rpc_node \<Rightarrow> tx_verification_request \<Rightarrow> tx_verification_result rpc" where
  "rpc_verify node request = verify (fetch_transaction node) request"

section \<open>OP\_RETURN scripts as bytes\<close>

text \<open>
  The same format on the raw script: \<^verbatim>\<open>OP_RETURN\<close> (\<open>0x6a\<close>) followed by exactly one data push that
  reaches the end of the script.
\<close>

definition sized :: "int \<Rightarrow> bytes \<Rightarrow> bytes option" where
  "sized n payload = (if int (length payload) = n then Some payload else None)"

fun single_push :: "bytes \<Rightarrow> bytes option" where
  "single_push [] = None"
| "single_push (opcode # rest) =
     (if uint opcode \<le> 75 then sized (uint opcode) rest
      else if uint opcode = 76 \<and> 1 \<le> length rest then sized (le_int (take 1 rest)) (drop 1 rest)
      else if uint opcode = 77 \<and> 2 \<le> length rest then sized (le_int (take 2 rest)) (drop 2 rest)
      else if uint opcode = 78 \<and> 4 \<le> length rest then sized (le_int (take 4 rest)) (drop 4 rest)
      else None)"

definition op_return_payload :: "bytes \<Rightarrow> bytes option" where
  "op_return_payload script =
     (case script of [] \<Rightarrow> None | b # rest \<Rightarrow> if uint b = 106 then single_push rest else None)"

section \<open>Lemmas\<close>

lemma take_drop_bytes_hex:
  "take (2 * n) (bytes_hex bs) = bytes_hex (take n bs)" "drop (2 * n) (bytes_hex bs) = bytes_hex (drop n bs)"
proof -
  have *: "bytes_hex bs = bytes_hex (take n bs) @ bytes_hex (drop n bs)"
    unfolding bytes_hex_def by (metis append_take_drop_id concat_append map_append)
  show "take (2 * n) (bytes_hex bs) = bytes_hex (take n bs)"
  proof (cases "n \<le> length bs")
    case True
    then show ?thesis by (subst *) simp
  qed simp
  show "drop (2 * n) (bytes_hex bs) = bytes_hex (drop n bs)"
  proof (cases "n \<le> length bs")
    case True
    then show ?thesis by (subst *) simp
  qed simp
qed

lemma substr_bytes_hex: "substr (bytes_hex bs) (2 * i) (2 * n) = bytes_hex (take n (drop i bs))"
  by (simp add: substr_def take_drop_bytes_hex)

lemma hex_digit_not_special:
  assumes "n < 16"
  shows "\<not> is_int_space (hex_digit n)" "hex_digit n \<noteq> CHR ''-''" "hex_digit n \<noteq> CHR ''+''"
    "hex_digit n \<noteq> CHR ''_''" "hex_digit n \<noteq> CHR ''x''" "hex_digit n \<noteq> CHR ''X''"
proof -
  have v: "hex_val (hex_digit n) = Some n" using assms by simp
  show "\<not> is_int_space (hex_digit n)"
    using v by (auto simp: hex_val_def is_int_space_def is_ascii_space_def split: if_splits)
  show "hex_digit n \<noteq> CHR ''-''" "hex_digit n \<noteq> CHR ''+''" "hex_digit n \<noteq> CHR ''_''"
    "hex_digit n \<noteq> CHR ''x''" "hex_digit n \<noteq> CHR ''X''"
    using v by (auto simp: hex_val_def)
qed

lemma py_int_byte_hex: "py_int 16 (byte_hex b) = Some (uint b)"
proof -
  let ?h = "nat (uint b div 16)" and ?l = "nat (uint b mod 16)"
  have d: "?h < 16" "?l < 16" "16 * int ?h + int ?l = uint b" using byte_nibbles [of b] by blast+
  have "strip_by is_int_space (byte_hex b) = byte_hex b"
    by (rule strip_by_id) (use d hex_digit_not_special in \<open>simp add: byte_hex_def\<close>)
  moreover have "drop_hex_prefix (byte_hex b) = byte_hex b"
    using hex_digit_not_special [OF d(2)] by (simp add: drop_hex_prefix_def byte_hex_def)
  moreover have "int_digits 16 True 0 (byte_hex b) = Some (uint b)"
    using d hex_digit_not_special [OF d(1)] hex_digit_not_special [OF d(2)] by (simp add: byte_hex_def algebra_simps)
  moreover have "take 1 (byte_hex b) \<noteq> ''-''" "take 1 (byte_hex b) \<noteq> ''+''"
    using hex_digit_not_special [OF d(1)] by (simp_all add: byte_hex_def)
  ultimately show ?thesis by (simp add: py_int_def Let_def)
qed

lemma byte_hex_6a: "byte_hex b = ''6a'' \<longleftrightarrow> uint b = 106"
proof
  assume "byte_hex b = ''6a''"
  then have "fromhex (bytes_hex [b]) = fromhex ''6a''" by simp
  then show "uint b = 106" unfolding fromhex_bytes_hex by (simp add: hex_val_def is_ascii_space_def)
next
  assume "uint b = 106"
  then have "byte_hex b = [hex_digit 6, hex_digit 10]" by (simp add: byte_hex_def)
  moreover have "[hex_digit 6, hex_digit 10] = ''6a''" by code_simp
  ultimately show "byte_hex b = ''6a''" by simp
qed

text \<open>The last steps of the extraction, at the byte position \<open>k\<close>.\<close>

lemma payload_at:
  assumes "k \<le> length bs"
  shows "push_payload (bytes_hex bs) (n, 2 * k) = map_option bytes_hex (sized n (drop k bs))"
proof (cases "int (length bs) = int k + n")
  case True
  then have n: "n = int (length bs - k)" using assms(1) by simp
  have "substr (bytes_hex bs) (2 * k) (nat (n * 2)) = bytes_hex (take (length bs - k) (drop k bs))"
    using substr_bytes_hex [of bs k "length bs - k"] n by (simp add: nat_mult_distrib mult.commute)
  then have "substr (bytes_hex bs) (2 * k) (nat (n * 2)) = bytes_hex (drop k bs)" by simp
  then show ?thesis using True assms by (simp add: push_payload_def sized_def Let_def)
next
  case False
  then show ?thesis using assms by (auto simp: push_payload_def sized_def Let_def)
qed

lemmas payload_at_positions = payload_at [of 2, simplified] payload_at [of 3, simplified]
  payload_at [of 4, simplified] payload_at [of 6, simplified]

lemma push_header_bytes:
  assumes "2 \<le> length bs"
  shows "push_header (bytes_hex bs) 4 opcode =
    (if 0 \<le> opcode \<and> opcode \<le> 75 then Some (opcode, 2 * 2)
     else if opcode = 76 \<and> 3 \<le> length bs then Some (le_int (take 1 (drop 2 bs)), 2 * 3)
     else if opcode = 77 \<and> 4 \<le> length bs then Some (le_int (take 2 (drop 2 bs)), 2 * 4)
     else if opcode = 78 \<and> 6 \<le> length bs then Some (le_int (take 4 (drop 2 bs)), 2 * 6)
     else None)"
proof -
  have one: "py_int 16 (substr (bytes_hex bs) 4 2) = Some (le_int (take 1 (drop 2 bs)))" if "3 \<le> length bs"
  proof -
    have "take 1 (drop 2 bs) = [bs ! 2]" using that by (simp add: take_Suc_conv_app_nth flip: Cons_nth_drop_Suc)
    then show ?thesis using substr_bytes_hex [of bs 2 1] by (simp add: py_int_byte_hex)
  qed
  have "fromhex (substr (bytes_hex bs) 4 4) = Some (take 2 (drop 2 bs))"
    "fromhex (substr (bytes_hex bs) 4 8) = Some (take 4 (drop 2 bs))"
    using substr_bytes_hex [of bs 2 2] substr_bytes_hex [of bs 2 4] by simp_all
  with one show ?thesis by (auto simp: push_header_def)
qed

lemma extract_op_return_bytes:
  "extract_op_return_payload_hex (bytes_hex script) = map_option bytes_hex (op_return_payload script)"
proof -
  consider "script = []" | a where "script = [a]" | a o' rest where "script = a # o' # rest"
    by (cases script rule: remdups_adj.cases) auto
  then show ?thesis
  proof cases
    case 1
    then show ?thesis
      by (simp add: extract_op_return_payload_hex_def op_return_payload_def starts_with_def strip_def strip_by_def lower_def)
  next
    case 2
    then have "length (bytes_hex script) < 4" by (simp add: byte_hex_def)
    then have "extract_op_return_payload_hex (bytes_hex script) = None"
      by (simp add: extract_op_return_payload_hex_def Let_def)
    then show ?thesis using 2 by (simp add: op_return_payload_def)
  next
    case (3 a o' rest)
    have "substr (bytes_hex script) 2 2 = byte_hex o'" using substr_bytes_hex [of script 1 1] 3 by simp
    then have op: "py_int 16 (substr (bytes_hex script) 2 2) = Some (uint o')" by (simp add: py_int_byte_hex)
    have sw: "starts_with ''6a'' (bytes_hex script) \<longleftrightarrow> uint a = 106"
      using byte_hex_6a [of a] 3 by (simp add: starts_with_def byte_hex_def)
    have len: "2 \<le> length script" "length (bytes_hex script) mod 2 = 0" "\<not> length (bytes_hex script) < 4"
      using 3 by (auto simp: byte_hex_def)
    have d: "drop (Suc 0) script = o' # rest" "drop 2 script = rest" "drop 3 script = drop 1 rest"
      "drop 4 script = drop 2 rest" "drop 6 script = drop 4 rest" "length script = length rest + 2"
      by (simp_all add: 3)
    show ?thesis
    proof (cases "uint a = 106")
      case False
      then have "extract_op_return_payload_hex (bytes_hex script) = None"
        using sw by (simp add: extract_op_return_payload_hex_def Let_def)
      then show ?thesis using 3 False by (simp add: op_return_payload_def)
    next
      case True
      have "extract_op_return_payload_hex (bytes_hex script) =
        (case push_header (bytes_hex script) 4 (uint o') of None \<Rightarrow> None
         | Some header \<Rightarrow> push_payload (bytes_hex script) header)"
        using True sw len op by (simp add: extract_op_return_payload_hex_def Let_def)
      also have "\<dots> = map_option bytes_hex (single_push (drop 1 script))"
        unfolding push_header_bytes [OF len(1)] using payload_at_positions [of script] by (auto simp: d)
      also have "\<dots> = map_option bytes_hex (op_return_payload script)"
        using 3 True by (simp add: op_return_payload_def)
      finally show ?thesis .
    qed
  qed
qed

text \<open>
  C35. Extracting the payload of an OP_RETURN output from the hexadecimal script gives exactly the
  payload of the raw script: a script \<^verbatim>\<open>OP_RETURN\<close> followed by one data push (direct, or with a one,
  two or four byte length) that ends with the script yields the pushed bytes in lower-case
  hexadecimal; every other script yields nothing.
\<close>

theorem extract_op_return_correct:
  "extract_op_return_payload_hex (bytes_hex script) = map_option bytes_hex (op_return_payload script)"
  by (rule extract_op_return_bytes)

text \<open>
  The documentation of the extraction asks for a minimally encoded push; the code also accepts
  a push with a longer length field. Here \<^verbatim>\<open>OP_RETURN OP_PUSHDATA1 1 0xab\<close> and
  \<^verbatim>\<open>OP_RETURN OP_PUSHDATA4 1 0xab\<close> give the payload \<^verbatim>\<open>ab\<close>, like the minimal \<^verbatim>\<open>OP_RETURN 1 0xab\<close>.
\<close>

theorem non_minimal_push_accepted:
  "extract_op_return_payload_hex ''6a01ab'' = Some ''ab'' \<and>
   extract_op_return_payload_hex ''6a4c01ab'' = Some ''ab'' \<and>
   extract_op_return_payload_hex ''6a4e01000000ab'' = Some ''ab''"
  by code_simp

section \<open>What a successful verification means\<close>

lemma contains_commitment_iff:
  "d \<noteq> [] \<Longrightarrow> contains_registration_commitment tx (bytes_hex d) \<longleftrightarrow>
     (\<exists>out \<in> set (nt_outputs tx). extract_op_return_payload_hex (no_script_hex out) = Some (bytes_hex d))"
proof -
  assume "d \<noteq> []"
  then have ne: "bytes_hex d \<noteq> []" by (metis length_bytes_hex length_0_conv mult_eq_0_iff zero_neq_numeral)
  have "extract_op_return_payload_hex sc = Some p \<Longrightarrow> starts_with ''6a'' (lower (strip sc))" for sc p
    by (auto simp: extract_op_return_payload_hex_def Let_def split: if_splits)
  with ne show ?thesis by (auto simp: contains_registration_commitment_def list_ex_iff)
qed

lemma check_transaction_success:
  "vs_success (check_transaction req fetched) \<longleftrightarrow>
     (\<exists>tx. fetched = Some tx \<and> 1 \<le> nt_confirmations tx \<and>
       vq_fee_sats req \<le> sum_outputs_for_address tx (vq_treasury_address req) \<and>
       contains_registration_commitment tx (vq_commitment req))"
  by (auto simp: check_transaction_def failed_def Let_def MIN_CONFIRMATIONS_def not_less split: option.splits)

lemma fetch_transaction_Some:
  "fetch_transaction node txid c = (Inr (Some tx), c') \<longleftrightarrow>
     (\<exists>raw. get_raw_transaction node (JStr txid) (JInt 1) c = (Inr raw, c') \<and> normalize_transaction raw = Inr tx)"
  by (cases "get_raw_transaction node (JStr txid) (JInt 1) c"; cases "fst (get_raw_transaction node (JStr txid) (JInt 1) c)")
    (auto simp: fetch_transaction_def normalize_or_raise_def split: py_exn.splits sum.splits)

lemma verify_Inr:
  "verify fetch req c = (Inr res, c') \<and> vs_success res \<longleftrightarrow>
     (\<exists>tx. fetch (vq_txid req) c = (Inr (Some tx), c') \<and> res = check_transaction req (Some tx) \<and> vs_success res)"
proof (cases "fetch (vq_txid req) c")
  case (Pair r c1)
  show ?thesis
  proof (cases r)
    case (Inl e)
    then show ?thesis using Pair by (cases e) (auto simp: verify_def failed_def)
  next
    case (Inr fetched)
    then show ?thesis using Pair
      by (cases fetched) (auto simp: verify_def check_transaction_success)
  qed
qed

text \<open>
  A transaction that pays for the registration of a key: confirmed, with outputs to the treasury of
  at least the fee and an OP_RETURN output that carries the commitment \<open>d\<close>.
\<close>

definition pays_registration :: "string \<Rightarrow> int \<Rightarrow> bytes \<Rightarrow> normalized_transaction \<Rightarrow> bool" where
  "pays_registration treasury fee d tx \<longleftrightarrow>
     1 \<le> nt_confirmations tx \<and>
     fee \<le> (\<Sum>out \<leftarrow> nt_outputs tx. if no_address out = Some treasury then no_value_sats out else 0) \<and>
     (\<exists>out \<in> set (nt_outputs tx). extract_op_return_payload_hex (no_script_hex out) = Some (bytes_hex d))"

lemma check_transaction_pays:
  assumes "vq_commitment req = bytes_hex d" and "d \<noteq> []"
  shows "vs_success (check_transaction req fetched) \<longleftrightarrow>
    (\<exists>tx. fetched = Some tx \<and> pays_registration (vq_treasury_address req) (vq_fee_sats req) d tx)"
  unfolding check_transaction_success using assms
  by (simp add: pays_registration_def contains_commitment_iff sum_outputs_for_address_def sum_list_map_filter')

text \<open>The node returned the well-formed transaction \<open>tx\<close> for an id.\<close>

definition node_has_tx :: "rpc_node \<Rightarrow> string \<Rightarrow> rpc_client \<Rightarrow> rpc_client \<Rightarrow> normalized_transaction \<Rightarrow> bool" where
  "node_has_tx node txid c c' tx \<longleftrightarrow>
     (\<exists>raw. get_raw_transaction node (JStr txid) (JInt 1) c = (Inr raw, c') \<and> normalize_transaction raw = Inr tx)"

lemma rpc_verify_success:
  assumes "vq_commitment req = bytes_hex d" and "d \<noteq> []"
  shows "(\<exists>res. rpc_verify node req c = (Inr res, c') \<and> vs_success res) \<longleftrightarrow>
    (\<exists>tx. node_has_tx node (vq_txid req) c c' tx \<and> pays_registration (vq_treasury_address req) (vq_fee_sats req) d tx)"
  unfolding rpc_verify_def verify_Inr fetch_transaction_Some node_has_tx_def
  using check_transaction_pays [OF assms] by auto

text \<open>
  C34. The RPC verifier accepts a registration transaction exactly when the node returns a
  well-formed transaction for the requested id with at least one confirmation, whose outputs to the
  treasury address sum to at least the fee, and one of whose outputs is an OP_RETURN script with the
  commitment as its payload.
\<close>

theorem rpc_verify_accepts:
  assumes "vq_commitment req = bytes_hex d" and "d \<noteq> []"
  shows "(\<exists>res. rpc_verify node req c = (Inr res, c') \<and> vs_success res) \<longleftrightarrow>
    (\<exists>raw tx. get_raw_transaction node (JStr (vq_txid req)) (JInt 1) c = (Inr raw, c') \<and>
      normalize_transaction raw = Inr tx \<and> 1 \<le> nt_confirmations tx \<and>
      vq_fee_sats req \<le> (\<Sum>out \<leftarrow> nt_outputs tx. if no_address out = Some (vq_treasury_address req) then no_value_sats out else 0) \<and>
      (\<exists>out \<in> set (nt_outputs tx). extract_op_return_payload_hex (no_script_hex out) = Some (bytes_hex d)))"
  unfolding rpc_verify_success [OF assms] node_has_tx_def pays_registration_def by blast

section \<open>A paid registration\<close>

text \<open>
  A node that returns, for every id, one confirmed transaction that pays 1000 satoshis to the
  address \<^verbatim>\<open>addr\<close> and carries the digest \<open>d\<close> (of at most 75 bytes) in an OP_RETURN output.
\<close>

definition paid_script :: "bytes \<Rightarrow> bytes" where
  "paid_script d = [106, byte_of_int (int (length d))] @ d"

definition paid_raw :: "bytes \<Rightarrow> (string \<times> json) list" where
  "paid_raw d = [(''txid'', JStr ''t''), (''confirmations'', JInt 3),
     (''vout'', JList
       [JObj [(''value'', JFloat (Fin False 1 (- 5))),
              (''scriptPubKey'', JObj [(''hex'', JStr ''00''), (''address'', JStr ''addr'')])],
        JObj [(''value'', JInt 0), (''scriptPubKey'', JObj [(''hex'', JStr (bytes_hex (paid_script d)))])]])]"

definition paid_node :: "bytes \<Rightarrow> rpc_node" where
  "paid_node d = (\<lambda>k m ps. Response True (Some (JObj [(''result'', JObj (paid_raw d)), (''error'', JNull), (''id'', JInt k)])))"

definition paid_tx :: "bytes \<Rightarrow> normalized_transaction" where
  "paid_tx d = \<lparr>nt_txid = ''t'', nt_confirmations = 3, nt_outputs =
     [\<lparr>no_value_sats = 1000, no_address = Some ''addr'', no_script_hex = ''00''\<rparr>,
      \<lparr>no_value_sats = 0, no_address = None, no_script_hex = bytes_hex (paid_script d)\<rparr>]\<rparr>"

definition paid_txid :: string where
  "paid_txid = ''1111111111111111111111111111111111111111111111111111111111111111''"

lemma paid_txid_ok: "validate_txid (JStr paid_txid) = Inr paid_txid"
  unfolding paid_txid_def by code_simp

lemma paid_node_has_tx:
  "node_has_tx (paid_node d) paid_txid c (next_request ''getrawtransaction'' [JStr paid_txid, JInt 1] c) (paid_tx d)"
proof -
  have "call (paid_node d) ''getrawtransaction'' ps c = (Inr (JObj (paid_raw d)), next_request ''getrawtransaction'' ps c)" for ps
    by (simp add: call_Inr_iff paid_node_def jget_def strip_def strip_by_def is_py_space_def is_ascii_space_def)
  then have "get_raw_transaction (paid_node d) (JStr paid_txid) (JInt 1) c =
      (Inr (paid_raw d), next_request ''getrawtransaction'' [JStr paid_txid, JInt 1] c)"
    by (simp add: get_raw_transaction_def paid_txid_ok sbind_def json_object_def scaled_def)
  moreover have "btc_to_sats (JFloat (Fin False 1 (- 5))) = Inr 1000" "btc_to_sats (JInt 0) = Inr 0"
    by (simp_all add: btc_to_sats_def SATOSHIS_PER_BTC_def dec_fix_def prec_def Etop_def Etiny_def Emax_def Let_def
        nat_str.simps scaled_def signed_def round_half_even_def)
  then have "normalize_transaction (paid_raw d) = Inr (paid_tx d)"
    by (simp add: normalize_transaction_def paid_raw_def jget_def nonblank_string_def json_string_def json_int_def
        json_list_def json_object_def normalize_output_def extract_address_def addresses_field_def paid_tx_def
        paid_script_def byte_hex_def strip_def strip_by_def is_py_space_def is_ascii_space_def hex_digit_def)
  ultimately show ?thesis unfolding node_has_tx_def by blast
qed

lemma paid_tx_pays:
  assumes "length d \<le> 75" and "fee \<le> 1000"
  shows "pays_registration ''addr'' fee d (paid_tx d)"
proof -
  have "uint (byte_of_int (int (length d)) :: byte) = int (length d)" using assms(1) by simp
  then have "op_return_payload (paid_script d) = Some d" using assms(1)
    by (simp add: op_return_payload_def paid_script_def sized_def)
  then have "extract_op_return_payload_hex (bytes_hex (paid_script d)) = Some (bytes_hex d)"
    using extract_op_return_bytes by simp
  then show ?thesis using assms(2) by (simp add: pays_registration_def paid_tx_def)
qed

theorem rpc_verify_accepts_witness:
  "\<exists>res. rpc_verify (paid_node [1, 2]) \<lparr>vq_txid = paid_txid, vq_treasury_address = ''addr'', vq_fee_sats = 1000,
     vq_commitment = bytes_hex [1, 2]\<rparr> fresh_client = (Inr res, next_request ''getrawtransaction'' [JStr paid_txid, JInt 1] fresh_client)
     \<and> vs_success res"
  using rpc_verify_accepts [of "\<lparr>vq_txid = paid_txid, vq_treasury_address = ''addr'', vq_fee_sats = 1000,
      vq_commitment = bytes_hex [1, 2]\<rparr>" "[1, 2]" "paid_node [1, 2]" fresh_client]
    paid_node_has_tx [of "[1, 2]" fresh_client] paid_tx_pays [of "[1, 2]" 1000]
  by (auto simp: node_has_tx_def pays_registration_def)

text \<open>
  The verifier has its own conversion of BTC amounts. It agrees with the one of bitcoin/utils.py
  on every decoded value, except that it also converts negative amounts: the shared conversion gives
  \<open>n\<close> satoshis exactly when this one does and the amount is not negative.
\<close>

theorem btc_conversions_agree:
  "btc_value_to_sats (BJson v) = Inr n \<longleftrightarrow>
     btc_to_sats v = Inr n \<and> (\<exists>d. decimal_of (BJson v) = Some d \<and> \<not> dec_negative d)"
proof (cases "decimal_of (BJson v)")
  case None
  then show ?thesis by (cases v) (auto simp: btc_value_to_sats_def btc_to_sats_def Let_def)
next
  case (Some d)
  have mult: "dec_mult (Infinite s) SATOSHIS_PER_BTC = Inr (Infinite s)" for s
    by (simp add: SATOSHIS_PER_BTC_def)
  have nan: "dec_mult NaN SATOSHIS_PER_BTC = Inr NaN" by simp
  have "btc_to_sats v = Inr n \<longleftrightarrow> (\<exists>q. dec_mult d SATOSHIS_PER_BTC = Inr q \<and> dec_eq q (to_integral_value q) \<and> dec_to_int q = Inr n)"
    using Some by (cases v) (auto simp: btc_to_sats_def Let_def split: sum.splits py_exn.splits)
  moreover have "btc_value_to_sats (BJson v) = Inr n \<longleftrightarrow> is_finite d \<and> \<not> dec_negative d \<and>
      (\<exists>q. dec_mult d SATOSHIS_PER_BTC = Inr q \<and> dec_eq q (to_integral_value q) \<and> dec_to_int q = Inr n)"
    using Some by (cases v) (auto simp: btc_value_to_sats_def res_simps)
  moreover have "\<not> is_finite d \<Longrightarrow> dec_mult d SATOSHIS_PER_BTC = Inr q \<Longrightarrow> dec_eq q (to_integral_value q) \<Longrightarrow> dec_to_int q \<noteq> Inr n" for q
    by (cases d) (auto simp: mult nan)
  ultimately show ?thesis using Some by auto
qed

text \<open>The answer of a node to every call.\<close>

definition answering :: "json \<Rightarrow> rpc_node" where
  "answering r = (\<lambda>k m ps. Response True (Some (JObj [(''result'', r), (''error'', JNull), (''id'', JInt k)])))"

lemma answering_raw:
  "get_raw_transaction (answering r) (JStr paid_txid) (JInt 1) c =
     (json_object ''getrawtransaction returned a non-dict result.'' r, next_request ''getrawtransaction'' [JStr paid_txid, JInt 1] c)"
proof -
  have "call (answering r) ''getrawtransaction'' ps c = (Inr r, next_request ''getrawtransaction'' ps c)" for ps
    by (simp add: call_Inr_iff answering_def jget_def strip_def strip_by_def is_py_space_def is_ascii_space_def)
  then show ?thesis by (simp add: get_raw_transaction_def paid_txid_ok sbind_def scaled_def)
qed

text \<open>
  The verifier promises a result or a \<^verbatim>\<open>TransactionFetchError\<close>, which \<^verbatim>\<open>verify\<close> turns into a failed
  result. Two malformed answers of the node escape it: a result that is not an object makes
  \<^verbatim>\<open>verify\<close> raise \<^verbatim>\<open>ValueError\<close>, and an infinite output value makes it raise \<^verbatim>\<open>OverflowError\<close>.
\<close>

theorem verify_raises:
  "fst (rpc_verify (answering (JStr ''x'')) (req\<lparr>vq_txid := paid_txid\<rparr>) c) =
     Inl (ValueError ''getrawtransaction returned a non-dict result.'') \<and>
   fst (rpc_verify (answering (JObj [(''txid'', JStr ''t''), (''vout'', JList [JObj [(''value'', JFloat (Infinite False))]])]))
     (req\<lparr>vq_txid := paid_txid\<rparr>) c) = Inl (OverflowError ''cannot convert Infinity to integer'')"
proof -
  have "strip ''t'' = ''t''" by code_simp
  then have n: "normalize_transaction [(''txid'', JStr ''t''), (''vout'', JList [JObj [(''value'', JFloat (Infinite False))]])] =
      Inl (OverflowError ''cannot convert Infinity to integer'')"
    by (simp add: normalize_transaction_def normalize_output_def jget_def nonblank_string_def json_string_def
        json_int_def json_list_def json_object_def btc_to_sats_def SATOSHIS_PER_BTC_def Let_def)
  show ?thesis
    by (simp add: rpc_verify_def verify_def fetch_transaction_def answering_raw json_object_def normalize_or_raise_def n)
qed

end
