(* ===== verification/Auth_Service.thy ===== *)
theory Auth_Service
  imports Auth_Store Auth_Verifier
begin

text \<open>
  authentication/services: registration of an identity after payment, and challenge-based login. The
  services share the challenge store, the registration file, the clock and the RPC client of the
  transaction verifier, as run_landing_page.py wires them.
\<close>

section \<open>State\<close>

record auth_state = challenge_store +
  as_registrations :: reg_file
  as_rpc :: rpc_client

type_synonym 'r auth_op = "(auth_state, py_exn, 'r) sm"

record auth_config =
  expected_treasury_address :: string
  expected_fee_sats :: int

definition on_client :: "'r rpc \<Rightarrow> 'r auth_op" where
  "on_client f = (\<lambda>s. case f (as_rpc s) of (r, c) \<Rightarrow> (r, s\<lparr>as_rpc := c\<rparr>))"

definition on_registrations :: "'r reg_op \<Rightarrow> 'r auth_op" where
  "on_registrations f = (\<lambda>s. case f (as_registrations s) of (r, g) \<Rightarrow> (r, s\<lparr>as_registrations := g\<rparr>))"

section \<open>Registration\<close>

definition refused :: "application_identity \<Rightarrow> string option \<Rightarrow> stored_registration option \<Rightarrow> registration_result" where
  "refused identity reason existing =
     \<lparr>rr_success = False, rr_public_key_hex = Some (id_public_key_hex identity), rr_reason = reason,
      rr_txid = map_option rg_txid existing, rr_registered_at = map_option rg_registered_at existing\<rparr>"

definition register ::
  "(json \<Rightarrow> string) \<Rightarrow> (nat \<Rightarrow> datetime) \<Rightarrow> rpc_node \<Rightarrow> auth_config \<Rightarrow> application_identity \<Rightarrow> string \<Rightarrow>
   registration_result auth_op" where
  "register py_repr clock node cfg identity txid =
     (case validate_txid (JStr txid) of
        Inl e \<Rightarrow>
          if is_value_error e
          then sreturn (refused identity (Some ''Transaction ID must be a 64-character hexadecimal string.'') None)
          else sraise e
      | Inr normalized_txid \<Rightarrow>
          sbind (on_registrations (registration_get py_repr (id_public_key_hex identity))) (\<lambda>existing.
          if existing \<noteq> None then sreturn (refused identity (Some ''Public key is already registered.'') existing)
          else
          sbind (slift (registration_commitment_hex identity)) (\<lambda>commitment.
          sbind (on_client (rpc_verify node
            \<lparr>vq_txid = normalized_txid, vq_treasury_address = expected_treasury_address cfg,
             vq_fee_sats = expected_fee_sats cfg, vq_commitment = commitment\<rparr>)) (\<lambda>tx_result.
          if \<not> vs_success tx_result then sreturn (refused identity (vs_reason tx_result) None)
          else
          sbind (utc_now clock) (\<lambda>registered_at.
          sbind (on_registrations (registration_save
            \<lparr>rg_public_key_hex = id_public_key_hex identity, rg_private_key_hex = id_private_key_hex identity,
             rg_txid = normalized_txid, rg_registered_at = registered_at\<rparr>)) (\<lambda>_.
          sreturn \<lparr>rr_success = True, rr_public_key_hex = Some (id_public_key_hex identity), rr_reason = None,
            rr_txid = Some normalized_txid, rr_registered_at = Some registered_at\<rparr>))))))"

section \<open>Login\<close>

definition build_message :: "string \<Rightarrow> string \<Rightarrow> datetime \<Rightarrow> string" where
  "build_message public_key_hex nonce issued_at =
     (let nl = [CHR 0x0A] in
      ''protocol='' @ AUTHENTICATION_PROTOCOL_LABEL @ nl @
      ''network='' @ NETWORK_ID @ nl @
      ''action=login'' @ nl @
      ''public_key_hex='' @ public_key_hex @ nl @
      ''nonce='' @ nonce @ nl @
      ''issued_at='' @ isoformat issued_at)"

text \<open>The nonce is what \<^verbatim>\<open>secrets.token_hex(16)\<close> returned.\<close>

definition create_challenge_message :: "(nat \<Rightarrow> datetime) \<Rightarrow> string \<Rightarrow> string \<Rightarrow> string auth_op" where
  "create_challenge_message clock nonce public_key_hex =
     (let normalized = normalize_hex_string public_key_hex in
      sbind (swhen_raise (normalized = []) (ValueError ''Public key must not be empty.'')) (\<lambda>_.
      sbind (utc_now clock) (\<lambda>issued_at.
        let message = build_message normalized nonce issued_at in
        sbind (store_save clock \<lparr>ch_public_key_hex = normalized, ch_message = message, ch_issued_at = issued_at\<rparr>) (\<lambda>_.
        sreturn message))))"

definition sign_outstanding_challenge ::
  "('pk, 'sk) ed25519 \<Rightarrow> (nat \<Rightarrow> datetime) \<Rightarrow> string \<Rightarrow> string \<Rightarrow> bytes auth_op" where
  "sign_outstanding_challenge E clock public_key_hex private_key_hex =
     (let normalized_public = normalize_hex_string public_key_hex;
          normalized_private = normalize_hex_string private_key_hex in
      sbind (swhen_raise (normalized_public = []) (ValueError ''Public key must not be empty.'')) (\<lambda>_.
      sbind (swhen_raise (normalized_private = []) (ValueError ''Private key must not be empty.'')) (\<lambda>_.
      sbind (store_get clock normalized_public) (\<lambda>stored.
        case stored of
          None \<Rightarrow> sraise (ValueError ''No active challenge found.'')
        | Some challenge \<Rightarrow>
            sbind (slift (from_private_key_hex E normalized_private)) (\<lambda>signer.
            sreturn (sign_message E signer (utf8 (ch_message challenge))))))))"

definition login_failed :: "string \<Rightarrow> authentication_result" where
  "login_failed reason = \<lparr>ar_success = False, ar_reason = Some reason\<rparr>"

text \<open>\<^verbatim>\<open>tx_result.reason or "Transaction verification failed."\<close>.\<close>

definition reason_or_default :: "string option \<Rightarrow> string" where
  "reason_or_default reason =
     (if reason = None \<or> reason = Some [] then ''Transaction verification failed.'' else the reason)"

definition public_key_inputs :: "('pk, 'sk) ed25519 \<Rightarrow> string \<Rightarrow> ('pk \<times> bytes) res" where
  "public_key_inputs E public_key_hex =
     rbind (from_public_key_hex E public_key_hex) (\<lambda>verifier.
       case fromhex public_key_hex of
         None \<Rightarrow> Inl (ValueError ''non-hexadecimal number found in fromhex() arg'')
       | Some public_key_bytes \<Rightarrow> Inr (verifier, public_key_bytes))"

text \<open>The reason of a failed signature check is given without the text of the exception.\<close>

definition verify_challenge ::
  "('pk, 'sk) ed25519 \<Rightarrow> rpc_node \<Rightarrow> auth_config \<Rightarrow> string \<Rightarrow> string \<Rightarrow> bytes \<Rightarrow> stored_challenge \<Rightarrow>
   authentication_result auth_op" where
  "verify_challenge E node cfg normalized_public_key_hex normalized_txid signature stored =
     (case public_key_inputs E normalized_public_key_hex of
        Inl e \<Rightarrow> if is_value_error e then sreturn (login_failed ''Public key must be valid hex.'') else sraise e
      | Inr (verifier, public_key_bytes) \<Rightarrow>
          (case verify_signature E verifier (utf8 (ch_message stored)) signature of
             Inl e \<Rightarrow> sreturn (login_failed ''Signature verification failed'')
           | Inr False \<Rightarrow> sreturn (login_failed ''Invalid signature.'')
           | Inr True \<Rightarrow>
               sbind (on_client (rpc_verify node
                 \<lparr>vq_txid = normalized_txid, vq_treasury_address = expected_treasury_address cfg,
                  vq_fee_sats = expected_fee_sats cfg,
                  vq_commitment = compute_registration_commitment public_key_bytes\<rparr>)) (\<lambda>tx_result.
               if \<not> vs_success tx_result then sreturn (login_failed (reason_or_default (vs_reason tx_result)))
               else sbind (store_delete normalized_public_key_hex) (\<lambda>_.
                 sreturn \<lparr>ar_success = True, ar_reason = None\<rparr>))))"

definition verify_login ::
  "('pk, 'sk) ed25519 \<Rightarrow> (nat \<Rightarrow> datetime) \<Rightarrow> rpc_node \<Rightarrow> auth_config \<Rightarrow> verify_request \<Rightarrow>
   authentication_result auth_op" where
  "verify_login E clock node cfg request =
     (let normalized_public_key_hex = normalize_hex_string (vr_public_key_hex request) in
      if normalized_public_key_hex = [] then sreturn (login_failed ''Public key must not be empty.'')
      else case validate_txid (JStr (vr_txid request)) of
        Inl e \<Rightarrow>
          if is_value_error e
          then sreturn (login_failed ''Transaction ID must be a 64-character hexadecimal string.'')
          else sraise e
      | Inr normalized_txid \<Rightarrow>
          sbind (store_get clock normalized_public_key_hex) (\<lambda>stored.
            case stored of
              None \<Rightarrow> sreturn (login_failed ''No active challenge found.'')
            | Some challenge \<Rightarrow>
                verify_challenge E node cfg normalized_public_key_hex normalized_txid (vr_signature request) challenge))"

section \<open>Lemmas: hexadecimal keys\<close>

lemma lower_char_facts:
  "hex_val (lower_char c) = hex_val c" "is_ascii_space (lower_char c) = is_ascii_space c"
  by (auto simp: hex_val_def lower_char_def is_ascii_space_def)

lemma fromhex_lower: "fromhex (lower s) = fromhex s"
  by (induction s rule: fromhex.induct) (auto simp: lower_def lower_char_facts split: option.splits)

lemma fromhex_leading: "is_ascii_space c \<Longrightarrow> fromhex (c # s) = fromhex s"
  by (cases s) auto

lemma fromhex_trailing: "fromhex (s @ [c]) = Some b \<Longrightarrow> is_ascii_space c \<Longrightarrow> fromhex s = Some b"
proof (induction s arbitrary: b rule: fromhex.induct)
  case (2 d)
  then show ?case using hex_val_not_space by (auto split: option.splits if_splits)
qed (auto split: option.splits if_splits)

lemma fromhex_dropWhile:
  "fromhex s = Some b \<Longrightarrow> fromhex (dropWhile is_py_space s) = Some b"
proof (induction s)
  case (Cons c s)
  show ?case
  proof (cases "is_py_space c")
    case True
    then have "is_ascii_space c" using fromhex_chars [OF Cons.prems, of c] hex_val_not_space by auto
    then show ?thesis using Cons True by (simp add: fromhex_leading)
  qed (use Cons.prems in simp)
qed simp

lemma fromhex_dropWhile_rev:
  "fromhex (rev r) = Some b \<Longrightarrow> fromhex (rev (dropWhile is_py_space r)) = Some b"
proof (induction r)
  case (Cons c r)
  show ?case
  proof (cases "is_py_space c")
    case True
    then have "is_ascii_space c" using fromhex_chars [OF Cons.prems, of c] hex_val_not_space by auto
    then have "fromhex (rev r) = Some b" using fromhex_trailing [of "rev r" c b] Cons.prems by simp
    then show ?thesis using Cons.IH True by simp
  qed (use Cons.prems in simp)
qed simp

lemma fromhex_strip: "fromhex s = Some b \<Longrightarrow> fromhex (strip s) = Some b"
  by (simp add: strip_def strip_by_def fromhex_dropWhile fromhex_dropWhile_rev)

text \<open>Normalizing again does not change the bytes of a key that is valid hexadecimal.\<close>

lemma fromhex_normalize:
  assumes "fromhex s = Some b"
  shows "fromhex (normalize_hex_string s) = Some b"
proof -
  have 1: "fromhex (lower (strip s)) = Some b" using assms by (simp add: fromhex_lower fromhex_strip)
  have "\<not> starts_with ''0x'' (lower (strip s))"
  proof
    assume "starts_with ''0x'' (lower (strip s))"
    then have "set ''0x'' \<subseteq> set (lower (strip s))" by (metis set_take_subset starts_with_def)
    then have "is_ascii_space (CHR ''x'') \<or> hex_val (CHR ''x'') \<noteq> None" using fromhex_chars [OF 1] by simp
    then show False by (simp add: is_ascii_space_def hex_val_def)
  qed
  then show ?thesis using 1 by (simp add: normalize_hex_string_def Let_def)
qed

lemma public_key_inputs_Inr_iff:
  "public_key_inputs E k = Inr (v, b) \<longleftrightarrow>
     fromhex k = Some b \<and> length b = 32 \<and> from_public_bytes E b = Inr v"
proof -
  have "fromhex k = Some b \<Longrightarrow> fromhex (normalize_hex_string k) = Some b" by (rule fromhex_normalize)
  then show ?thesis
    by (auto simp: public_key_inputs_def from_public_key_hex_def res_simps decode_ed25519_Inr_iff split: option.splits)
qed

section \<open>Lemmas: a login attempt\<close>

definition commitment_digest :: "bytes \<Rightarrow> bytes" where
  "commitment_digest b = sha256 (utf8 REGISTRATION_PROTOCOL_LABEL @ utf8 NETWORK_ID @ b)"

lemma commitment_is_digest:
  "compute_registration_commitment b = bytes_hex (commitment_digest b)" "commitment_digest b \<noteq> []"
proof -
  show "commitment_digest b \<noteq> []"
    unfolding commitment_digest_def by (metis length_sha256 list.size(3) zero_neq_numeral)
qed (simp add: compute_registration_commitment_def commitment_digest_def)

text \<open>The payment check, as both services run it.\<close>

definition paid_for :: "rpc_node \<Rightarrow> auth_config \<Rightarrow> string \<Rightarrow> bytes \<Rightarrow> rpc_client \<Rightarrow> rpc_client \<Rightarrow> bool" where
  "paid_for node cfg txid b c c' \<longleftrightarrow>
     (\<exists>tx. node_has_tx node txid c c' tx \<and>
       pays_registration (expected_treasury_address cfg) (expected_fee_sats cfg) (commitment_digest b) tx)"

lemma rpc_verify_paid:
  "(\<exists>res. rpc_verify node \<lparr>vq_txid = txid, vq_treasury_address = expected_treasury_address cfg,
      vq_fee_sats = expected_fee_sats cfg, vq_commitment = compute_registration_commitment b\<rparr> c = (Inr res, c') \<and>
      vs_success res) \<longleftrightarrow> paid_for node cfg txid b c c'"
  unfolding paid_for_def
  by (subst rpc_verify_success [of _ "commitment_digest b"]) (simp_all add: commitment_is_digest)

lemma verify_challenge_accepts:
  "(\<exists>res. verify_challenge E node cfg k txid sig ch s = (Inr res, s') \<and> ar_success res) \<longleftrightarrow>
     (\<exists>v b c'. fromhex k = Some b \<and> length b = 32 \<and> from_public_bytes E b = Inr v \<and>
       pk_verify E v sig (utf8 (ch_message ch)) = SigValid \<and> paid_for node cfg txid b (as_rpc s) c' \<and>
       s' = s\<lparr>as_rpc := c', cs_challenges := AList.delete k (cs_challenges s)\<rparr>)"
proof (cases "public_key_inputs E k")
  case (Inl e)
  then have "\<not> (\<exists>v b. fromhex k = Some b \<and> length b = 32 \<and> from_public_bytes E b = Inr v)"
    by (metis public_key_inputs_Inr_iff sum.distinct(1))
  then show ?thesis using Inl by (auto simp: verify_challenge_def login_failed_def)
next
  case (Inr vb)
  obtain v b where vb: "vb = (v, b)" by (cases vb)
  have u: "fromhex k = Some b' \<and> length b' = 32 \<and> from_public_bytes E b' = Inr v' \<longleftrightarrow> v' = v \<and> b' = b" for v' b'
    using Inr vb public_key_inputs_Inr_iff [of E k v' b'] by auto
  let ?req = "\<lparr>vq_txid = txid, vq_treasury_address = expected_treasury_address cfg,
      vq_fee_sats = expected_fee_sats cfg, vq_commitment = compute_registration_commitment b\<rparr>"
  have p: "paid_for node cfg txid b (as_rpc s) c' \<longleftrightarrow> (\<exists>res. rpc_verify node ?req (as_rpc s) = (Inr res, c') \<and> vs_success res)" for c'
    using rpc_verify_paid by blast
  have rhs: "(\<exists>v b c'. fromhex k = Some b \<and> length b = 32 \<and> from_public_bytes E b = Inr v \<and> P v b c') \<longleftrightarrow>
      (\<exists>c'. P v b c')" for P :: "'a \<Rightarrow> bytes \<Rightarrow> rpc_client \<Rightarrow> bool"
  proof -
    have "fromhex k = Some b' \<and> length b' = 32 \<and> from_public_bytes E b' = Inr v' \<and> P v' b' c' \<longleftrightarrow>
        v' = v \<and> b' = b \<and> P v' b' c'" for v' b' c'
      using u [of b' v'] by argo
    then show ?thesis by simp
  qed
  show ?thesis unfolding rhs p
  proof (cases "pk_verify E v sig (utf8 (ch_message ch))")
    case SigValid
    then have "verify_challenge E node cfg k txid sig ch s =
      sbind (on_client (rpc_verify node ?req)) (\<lambda>tx_result.
        if \<not> vs_success tx_result then sreturn (login_failed (reason_or_default (vs_reason tx_result)))
        else sbind (store_delete k) (\<lambda>_. sreturn \<lparr>ar_success = True, ar_reason = None\<rparr>)) s"
      using Inr vb by (simp add: verify_challenge_def verify_signature_def)
    then show "(\<exists>res. verify_challenge E node cfg k txid sig ch s = (Inr res, s') \<and> ar_success res) \<longleftrightarrow>
      (\<exists>c'. pk_verify E v sig (utf8 (ch_message ch)) = SigValid \<and>
        (\<exists>res. rpc_verify node ?req (as_rpc s) = (Inr res, c') \<and> vs_success res) \<and>
        s' = s\<lparr>as_rpc := c', cs_challenges := AList.delete k (cs_challenges s)\<rparr>)"
      using SigValid by (cases "rpc_verify node ?req (as_rpc s)"; cases "fst (rpc_verify node ?req (as_rpc s))")
        (auto simp: sbind_def on_client_def store_delete_def login_failed_def)
  qed (use Inr vb in \<open>auto simp: verify_challenge_def verify_signature_def login_failed_def\<close>)
qed

lemma verify_challenge_rejects:
  assumes "verify_challenge E node cfg k txid sig ch s = (r, s')" and "\<not> (\<exists>res. r = Inr res \<and> ar_success res)"
  shows "\<exists>c'. s' = s\<lparr>as_rpc := c'\<rparr>"
proof (cases "\<exists>v b. public_key_inputs E k = Inr (v, b) \<and> verify_signature E v (utf8 (ch_message ch)) sig = Inr True")
  case False
  then have "s' = s" using assms(1)
    by (auto simp: verify_challenge_def split: sum.splits if_splits bool.splits)
  then show ?thesis by (intro exI [of _ "as_rpc s"]) simp
next
  case True
  then show ?thesis using assms
    by (auto simp: verify_challenge_def sbind_def on_client_def store_delete_def split: sum.splits prod.splits if_splits)
qed

text \<open>The lookup of a login attempt, by the state of the challenge.\<close>

lemma verify_login_cases:
  assumes "store_inv s" and "verify_login E clock node cfg req s = (r, s')"
    and k: "k = normalize_hex_string (vr_public_key_hex req)"
  obtains (early) "s' = s" "\<not> (\<exists>res. r = Inr res \<and> ar_success res)"
      "k = [] \<or> (\<forall>t. validate_txid (JStr (vr_txid req)) \<noteq> Inr t)"
  | (lookup) t s1 where "k \<noteq> []" "validate_txid (JStr (vr_txid req)) = Inr t"
      "store_get clock k s = (Inr None, s1)" "s' = s1" "r = Inr (login_failed ''No active challenge found.'')"
  | (raised) t e where "k \<noteq> []" "validate_txid (JStr (vr_txid req)) = Inr t"
      "store_get clock k s = (Inl e, s')" "r = Inl e"
  | (found) t ch s1 where "k \<noteq> []" "validate_txid (JStr (vr_txid req)) = Inr t"
      "store_get clock k s = (Inr (Some ch), s1)"
      "verify_challenge E node cfg k t (vr_signature req) ch s1 = (r, s')"
proof (cases "k = [] \<or> (\<forall>t. validate_txid (JStr (vr_txid req)) \<noteq> Inr t)")
  case True
  then have "s' = s \<and> \<not> (\<exists>res. r = Inr res \<and> ar_success res)"
    using assms(2) k by (auto simp: verify_login_def login_failed_def Let_def split: sum.splits if_splits)
  with True show ?thesis using early by blast
next
  case False
  then obtain t where t: "k \<noteq> []" "validate_txid (JStr (vr_txid req)) = Inr t" by blast
  then have "verify_login E clock node cfg req s = sbind (store_get clock k) (\<lambda>stored.
      case stored of None \<Rightarrow> sreturn (login_failed ''No active challenge found.'')
      | Some challenge \<Rightarrow> verify_challenge E node cfg k t (vr_signature req) challenge) s"
    by (simp add: verify_login_def Let_def flip: k)
  then show ?thesis using assms(2) t lookup raised found
    by (cases "store_get clock k s"; cases "fst (store_get clock k s)")
      (auto simp: sbind_def split: option.splits)
qed

end
