(* ===== verification/Auth_Props.thy ===== *)
theory Auth_Props
  imports Auth_Service
begin

text \<open>
  The properties of registration and login: what a successful login proves, that a challenge serves
  one login only, that failed attempts do not consume it, that registration stores exactly what was
  paid for, and that an honest user can log in.
\<close>

section \<open>Login\<close>

lemma store_get_Some_iff:
  "store_get clock k s = (Inr (Some ch), s1) \<longleftrightarrow>
     store_view s k = Some ch \<and> challenge_expired (clock (clock_reads s)) ch = Inr False \<and>
     s1 = s\<lparr>clock_reads := clock_reads s + 1\<rparr>"
  by (auto simp: store_get_cases store_expiry_def Let_def split: option.splits sum.splits bool.splits)

lemma login_accepts_iff:
  assumes "store_inv s" and "k = normalize_hex_string (vr_public_key_hex req)"
  shows "(\<exists>res. verify_login E clock node cfg req s = (Inr res, s') \<and> ar_success res) \<longleftrightarrow>
    (\<exists>t ch v b c'. validate_txid (JStr (vr_txid req)) = Inr t \<and>
      store_view s k = Some ch \<and> challenge_expired (clock (clock_reads s)) ch = Inr False \<and>
      fromhex k = Some b \<and> length b = 32 \<and> from_public_bytes E b = Inr v \<and>
      pk_verify E v (vr_signature req) (utf8 (ch_message ch)) = SigValid \<and>
      paid_for node cfg t b (as_rpc s) c' \<and>
      s' = s\<lparr>clock_reads := clock_reads s + 1, as_rpc := c', cs_challenges := AList.delete k (cs_challenges s)\<rparr>)"
    (is "?L \<longleftrightarrow> ?R")
proof
  assume ?L
  then obtain res where res: "verify_login E clock node cfg req s = (Inr res, s')" "ar_success res" by blast
  from assms(1) res(1) assms(2) show ?R
  proof (cases rule: verify_login_cases)
    case (found t ch s1)
    then show ?thesis
      using verify_challenge_accepts [of E node cfg k t "vr_signature req" ch s1 s'] res(2)
      by (auto simp: store_get_Some_iff)
  qed (use res(2) in \<open>auto simp: login_failed_def\<close>)
next
  assume ?R
  then obtain t ch v b c' where r: "validate_txid (JStr (vr_txid req)) = Inr t"
      "store_view s k = Some ch" "challenge_expired (clock (clock_reads s)) ch = Inr False"
      "fromhex k = Some b" "length b = 32" "from_public_bytes E b = Inr v"
      "pk_verify E v (vr_signature req) (utf8 (ch_message ch)) = SigValid"
      "paid_for node cfg t b (as_rpc s) c'"
      "s' = s\<lparr>clock_reads := clock_reads s + 1, as_rpc := c', cs_challenges := AList.delete k (cs_challenges s)\<rparr>"
    by blast
  let ?s1 = "s\<lparr>clock_reads := clock_reads s + 1\<rparr>"
  have g: "store_get clock k s = (Inr (Some ch), ?s1)" using r by (simp add: store_get_Some_iff)
  have ne: "k \<noteq> []" using r(4,5) by auto
  have "\<exists>res. verify_challenge E node cfg k t (vr_signature req) ch ?s1 = (Inr res, s') \<and> ar_success res"
    unfolding verify_challenge_accepts using r by auto
  then show ?L using g ne r(1) by (simp add: verify_login_def Let_def sbind_def flip: assms(2))
qed

text \<open>
  C3. A login succeeds exactly when the request names a well-formed transaction id and a key with a
  stored challenge that has not expired, the key is the hexadecimal form of 32 bytes that load as a
  public key, the signature is valid for that key over exactly the stored challenge message, and the
  node returns a confirmed transaction that pays the fee to the treasury and commits to the key. A
  successful login removes the challenge and changes nothing else of the store.
\<close>

theorem login_accepts:
  assumes "store_inv s" and "k = normalize_hex_string (vr_public_key_hex req)"
  shows "(\<exists>res. verify_login E clock node cfg req s = (Inr res, s') \<and> ar_success res) \<longleftrightarrow>
    (\<exists>t ch v b c'. validate_txid (JStr (vr_txid req)) = Inr t \<and>
      store_view s k = Some ch \<and> challenge_expired (clock (clock_reads s)) ch = Inr False \<and>
      fromhex k = Some b \<and> length b = 32 \<and> from_public_bytes E b = Inr v \<and>
      pk_verify E v (vr_signature req) (utf8 (ch_message ch)) = SigValid \<and>
      paid_for node cfg t b (as_rpc s) c' \<and>
      s' = s\<lparr>clock_reads := clock_reads s + 1, as_rpc := c', cs_challenges := AList.delete k (cs_challenges s)\<rparr>)"
  by (rule login_accepts_iff [OF assms])

lemma store_get_max: "store_get clock k s = (r, s') \<Longrightarrow> cs_max_size s' = cs_max_size s"
  using store_get_dropped by (fastforce simp: dropped_def)

lemma store_save_max: "store_save clock c s = (r, s') \<Longrightarrow> cs_max_size s' = cs_max_size s"
  by (erule store_save_cases) (auto simp: dropped_def)

lemma failed_login_view:
  assumes "store_inv s" and k: "k = normalize_hex_string (vr_public_key_hex req)"
    and l: "verify_login E clock node cfg req s = (r, s')" and "\<not> (\<exists>res. r = Inr res \<and> ar_success res)"
  shows "store_inv s' \<and> cs_max_size s' = cs_max_size s \<and> as_registrations s' = as_registrations s \<and>
    (store_view s' = store_view s \<or>
     (\<exists>ch. store_view s k = Some ch \<and> challenge_expired (clock (clock_reads s)) ch = Inr True \<and>
       store_view s' = (store_view s)(k := None)))"
  using assms(1) l k
proof (cases rule: verify_login_cases)
  case early
  then show ?thesis using assms(1) by simp
next
  case (lookup t s1)
  have "store_inv s1 \<and> cs_max_size s1 = cs_max_size s"
    using memory.get_inv [OF assms(1) lookup(3)] store_get_max [OF lookup(3)] by blast
  then show ?thesis using lookup(3,4)
    by (auto simp: store_get_cases store_expiry_def store_view_def delete_conv' Let_def
        split: option.splits sum.splits bool.splits)
next
  case (raised t e)
  have "store_inv s' \<and> cs_max_size s' = cs_max_size s"
    using memory.get_inv [OF assms(1) raised(3)] store_get_max [OF raised(3)] by blast
  then show ?thesis using raised(3) memory.get_view [OF assms(1) raised(3)]
    by (auto simp: store_get_cases Let_def split: option.splits sum.splits bool.splits)
next
  case (found t ch s1)
  obtain c' where "s' = s1\<lparr>as_rpc := c'\<rparr>" using verify_challenge_rejects found(4) assms(4) by blast
  then show ?thesis using found(3) assms(1) by (simp add: store_get_Some_iff store_view_def store_inv_def)
qed

text \<open>
  A login attempt that does not succeed, whatever it returns or raises, leaves the stored
  challenges as they were, except that an expired challenge of the requested key is dropped: wrong
  signatures or unpaid transactions never use up a valid challenge. The registrations never change.
\<close>

theorem failed_login_keeps_challenge:
  assumes "store_inv s" and "verify_login E clock node cfg req s = (r, s')"
    and "\<not> (\<exists>res. r = Inr res \<and> ar_success res)"
  shows "as_registrations s' = as_registrations s \<and>
    (store_view s' = store_view s \<or>
     (\<exists>ch. store_view s (normalize_hex_string (vr_public_key_hex req)) = Some ch \<and>
       challenge_expired (clock (clock_reads s)) ch = Inr True \<and>
       store_view s' = (store_view s)(normalize_hex_string (vr_public_key_hex req) := None)))"
  using failed_login_view [OF assms(1) refl assms(2,3)] by blast

section \<open>Sequences of calls\<close>

datatype auth_call =
    CreateChallenge string string
  | SignChallenge string string
  | VerifyLogin verify_request
  | Register application_identity string

text \<open>One call: whether it was a successful login, and the state after it.\<close>

fun auth_exec ::
  "('pk, 'sk) ed25519 \<Rightarrow> (json \<Rightarrow> string) \<Rightarrow> (nat \<Rightarrow> datetime) \<Rightarrow> rpc_node \<Rightarrow> auth_config \<Rightarrow> auth_call \<Rightarrow>
   auth_state \<Rightarrow> bool \<times> auth_state" where
  "auth_exec E py_repr clock node cfg (CreateChallenge nonce k) s = (False, snd (create_challenge_message clock nonce k s))"
| "auth_exec E py_repr clock node cfg (SignChallenge k p) s = (False, snd (sign_outstanding_challenge E clock k p s))"
| "auth_exec E py_repr clock node cfg (VerifyLogin req) s =
     (case verify_login E clock node cfg req s of (r, s') \<Rightarrow> (case r of Inr res \<Rightarrow> ar_success res | Inl e \<Rightarrow> False, s'))"
| "auth_exec E py_repr clock node cfg (Register i t) s = (False, snd (register py_repr clock node cfg i t s))"

fun auth_run ::
  "('pk, 'sk) ed25519 \<Rightarrow> (json \<Rightarrow> string) \<Rightarrow> (nat \<Rightarrow> datetime) \<Rightarrow> rpc_node \<Rightarrow> auth_config \<Rightarrow> auth_call list \<Rightarrow>
   auth_state \<Rightarrow> bool list \<times> auth_state" where
  "auth_run E py_repr clock node cfg [] s = ([], s)"
| "auth_run E py_repr clock node cfg (ac # calls) s =
     (case auth_exec E py_repr clock node cfg ac s of (ok, s1) \<Rightarrow>
      case auth_run E py_repr clock node cfg calls s1 of (oks, s2) \<Rightarrow> (ok # oks, s2))"

text \<open>The call creates a challenge for the (normalized) key, or is a login with it.\<close>

definition creates_for :: "string \<Rightarrow> auth_call \<Rightarrow> bool" where
  "creates_for k ac = (case ac of CreateChallenge nonce k' \<Rightarrow> normalize_hex_string k' = k | _ \<Rightarrow> False)"

definition login_of :: "string \<Rightarrow> auth_call \<Rightarrow> bool" where
  "login_of k ac = (case ac of VerifyLogin req \<Rightarrow> normalize_hex_string (vr_public_key_hex req) = k | _ \<Rightarrow> False)"

lemma map_le_lookup: "m \<subseteq>\<^sub>m m' \<Longrightarrow> m k = None \<or> m k = m' k"
  unfolding map_le_def by (cases "k \<in> dom m") (blast, simp add: domIff)

lemma create_challenge_step:
  assumes "store_inv s" and "create_challenge_message clock nonce k' s = (r, s')"
  shows "store_inv s' \<and> cs_max_size s' = cs_max_size s \<and> (normalize_hex_string k' \<noteq> k \<longrightarrow> store_view s' k = None \<or> store_view s' k = store_view s k)"
proof (cases "normalize_hex_string k' = []")
  case True
  then have "s' = s" using assms(2) by (simp add: create_challenge_message_def)
  then show ?thesis using assms(1) by simp
next
  case False
  let ?s1 = "s\<lparr>clock_reads := clock_reads s + 1\<rparr>"
  let ?c = "\<lparr>ch_public_key_hex = normalize_hex_string k', ch_message = build_message (normalize_hex_string k') nonce
      (clock (clock_reads s)), ch_issued_at = clock (clock_reads s)\<rparr>"
  have i: "store_inv ?s1" "store_view ?s1 = store_view s" using assms(1) by (simp_all add: store_inv_def store_view_def)
  obtain q s2 where q: "store_save clock ?c ?s1 = (q, s2)" by (cases "store_save clock ?c ?s1")
  then have s': "s' = s2" using assms(2) False
    by (cases q) (auto simp: create_challenge_message_def Let_def sbind_def utc_now_def)
  have "store_inv s2" using memory.save_inv [OF i(1) q] .
  moreover have "cs_max_size s2 = cs_max_size s" using store_save_max [OF q] by simp
  moreover have "normalize_hex_string k' \<noteq> k \<longrightarrow> store_view s2 k = None \<or> store_view s2 k = store_view s k"
  proof (cases q)
    case (Inl e)
    then have "store_view s2 \<subseteq>\<^sub>m store_view s" using memory.save_raised [OF i(1), of clock ?c e s2] q i(2) by simp
    then show ?thesis using map_le_lookup [of "store_view s2" _ k] by blast
  next
    case (Inr u)
    then have "store_view s2 \<subseteq>\<^sub>m (store_view s)(normalize_hex_string k' \<mapsto> ?c)"
      using memory.save_stored [OF i(1), of clock ?c s2] q i(2) by simp
    then show ?thesis using map_le_lookup [of "store_view s2" _ k] by fastforce
  qed
  ultimately show ?thesis using s' by simp
qed

lemma store_view_reads [simp]:
  "store_view (s\<lparr>clock_reads := n\<rparr>) = store_view s" "store_view (s\<lparr>as_rpc := c\<rparr>) = store_view s"
  "store_view (s\<lparr>as_registrations := g\<rparr>) = store_view s"
  "store_inv (s\<lparr>clock_reads := n\<rparr>) = store_inv s" "store_inv (s\<lparr>as_rpc := c\<rparr>) = store_inv s"
  "store_inv (s\<lparr>as_registrations := g\<rparr>) = store_inv s"
  by (simp_all add: store_view_def store_inv_def)

lemma sign_step:
  assumes "store_inv s" and "sign_outstanding_challenge E clock k' p s = (r, s')"
  shows "store_inv s' \<and> cs_max_size s' = cs_max_size s \<and> (store_view s' k = None \<or> store_view s' k = store_view s k)"
proof (cases "normalize_hex_string k' = [] \<or> normalize_hex_string p = []")
  case True
  then have "s' = s" using assms(2)
    by (cases "normalize_hex_string k' = []") (auto simp: sign_outstanding_challenge_def Let_def)
  then show ?thesis using assms(1) by simp
next
  case False
  obtain q s1 where q: "store_get clock (normalize_hex_string k') s = (q, s1)"
    by (cases "store_get clock (normalize_hex_string k') s")
  then have "s' = s1" using assms(2) False
    by (cases q)
      (auto simp: sign_outstanding_challenge_def Let_def sbind_def split: option.splits sum.splits)
  then show ?thesis using memory.get_inv [OF assms(1) q] memory.get_view [OF assms(1) q] store_get_max [OF q]
    by (auto split: if_splits)
qed

lemma register_step:
  assumes "register py_repr clock node cfg i t s = (r, s')"
  shows "store_view s' = store_view s \<and> store_inv s' = store_inv s \<and> cs_max_size s' = cs_max_size s"
  using assms
  by (auto simp: register_def sbind_def on_registrations_def on_client_def utc_now_def
      split: sum.splits prod.splits if_splits)

lemma login_step:
  assumes "store_inv s" and "k' = normalize_hex_string (vr_public_key_hex req)"
    and "verify_login E clock node cfg req s = (r, s')"
  shows "store_inv s' \<and> cs_max_size s' = cs_max_size s \<and>
    (store_view s' k = None \<or> store_view s' k = store_view s k) \<and>
    ((\<exists>res. r = Inr res \<and> ar_success res) \<longrightarrow> store_view s k' \<noteq> None \<and> store_view s' k' = None)"
proof (cases "\<exists>res. r = Inr res \<and> ar_success res")
  case False
  then show ?thesis using failed_login_view [OF assms False] by auto
next
  case True
  then obtain ch c' where "store_view s k' = Some ch"
    "s' = s\<lparr>clock_reads := clock_reads s + 1, as_rpc := c', cs_challenges := AList.delete k' (cs_challenges s)\<rparr>"
    using login_accepts_iff [OF assms(1,2), of E clock node cfg s'] assms(3) by blast
  moreover from this have "store_inv s'" using dropped_inv [OF droppedI(4) assms(1), of k'] by (simp add: store_inv_def)
  ultimately show ?thesis by (auto simp: store_view_def delete_conv')
qed

lemma auth_exec_step:
  assumes "store_inv s" and "auth_exec E py_repr clock node cfg ac s = (ok, s')"
  shows "store_inv s' \<and> cs_max_size s' = cs_max_size s \<and>
    (\<not> creates_for k ac \<longrightarrow> store_view s' k = None \<or> store_view s' k = store_view s k) \<and>
    (ok \<and> login_of k ac \<longrightarrow> store_view s k \<noteq> None)"
proof (cases ac)
  case (CreateChallenge nonce k')
  then show ?thesis using assms create_challenge_step [OF assms(1) prod.collapse [symmetric], of clock nonce k' k]
    by (simp add: creates_for_def)
next
  case (SignChallenge k' p)
  then show ?thesis using assms sign_step [OF assms(1) prod.collapse [symmetric], of E clock k' p k] by simp
next
  case (VerifyLogin req)
  obtain r where r: "verify_login E clock node cfg req s = (r, s')" "ok \<longleftrightarrow> (\<exists>res. r = Inr res \<and> ar_success res)"
    using assms(2) VerifyLogin by (cases "verify_login E clock node cfg req s") (auto split: sum.splits)
  show ?thesis using login_step [OF assms(1) refl r(1), of k] r(2) VerifyLogin by (auto simp: login_of_def)
next
  case (Register i t)
  then show ?thesis using assms register_step [OF prod.collapse [symmetric], of py_repr clock node cfg i t s] by simp
qed

lemma auth_run_inv:
  assumes "store_inv s" and "auth_run E py_repr clock node cfg calls s = (oks, s')"
  shows "store_inv s' \<and> cs_max_size s' = cs_max_size s"
  using assms
proof (induction calls arbitrary: s oks)
  case (Cons ac calls)
  then show ?case using auth_exec_step by (fastforce split: prod.splits)
qed simp

lemma no_challenge_no_login:
  assumes "store_inv s" and "store_view s k = None" and "list_all (\<lambda>ac. \<not> creates_for k ac) calls"
    and "auth_run E py_repr clock node cfg calls s = (oks, s')"
  shows "list_all2 (\<lambda>ac ok. login_of k ac \<longrightarrow> \<not> ok) calls oks"
  using assms
proof (induction calls arbitrary: s oks s')
  case (Cons ac calls)
  obtain ok s1 where e: "auth_exec E py_repr clock node cfg ac s = (ok, s1)"
    by (cases "auth_exec E py_repr clock node cfg ac s")
  obtain oks' s2 where r: "auth_run E py_repr clock node cfg calls s1 = (oks', s2)"
    by (cases "auth_run E py_repr clock node cfg calls s1")
  have "store_inv s1" "store_view s1 k = None" "login_of k ac \<longrightarrow> \<not> ok"
    using auth_exec_step [OF Cons.prems(1) e, of k] Cons.prems(2,3) by auto
  then show ?case using Cons.IH [OF _ _ _ r] Cons.prems(3,4) e r by auto
qed simp

text \<open>
  C8. A challenge serves one login. After a successful login with a key, no later login with that
  key succeeds, whatever calls of the two services come in between and whatever signatures and
  transactions are presented, unless a new challenge is created for the key.
\<close>

theorem login_single_use:
  assumes "store_inv s" and "verify_login E clock node cfg req s = (Inr res, s1)" and "ar_success res"
    and "list_all (\<lambda>ac. \<not> creates_for (normalize_hex_string (vr_public_key_hex req)) ac) calls"
  shows "list_all2 (\<lambda>ac ok. login_of (normalize_hex_string (vr_public_key_hex req)) ac \<longrightarrow> \<not> ok)
    calls (fst (auth_run E py_repr clock node cfg calls s1))"
proof -
  have "store_inv s1 \<and> store_view s1 (normalize_hex_string (vr_public_key_hex req)) = None"
    using login_step [OF assms(1) refl assms(2)] assms(3) by blast
  then show ?thesis using no_challenge_no_login [OF _ _ assms(4) prod.collapse [symmetric]] by blast
qed

text \<open>
  C32. Whatever calls the two services receive, the challenge store created with a given maximum
  size never holds more challenges than that, never two for the same key, and each challenge stands
  under its own key.
\<close>

theorem auth_store_bounded:
  assumes "in_memory_challenge_store m = Inr st"
  shows "let s = snd (auth_run E py_repr clock node cfg calls
      \<lparr>clock_reads = clock_reads st, cs_challenges = cs_challenges st, cs_max_size = cs_max_size st,
       as_registrations = g, as_rpc = c\<rparr>)
    in int (length (cs_challenges s)) \<le> m \<and> distinct (map fst (cs_challenges s)) \<and>
      list_all (\<lambda>(k, ch). ch_public_key_hex ch = k) (cs_challenges s)"
proof -
  let ?s = "\<lparr>clock_reads = clock_reads st, cs_challenges = cs_challenges st, cs_max_size = cs_max_size st,
       as_registrations = g, as_rpc = c\<rparr>"
  have "store_inv ?s" "cs_max_size ?s = m"
    using assms by (auto simp: in_memory_challenge_store_def store_inv_def split: if_splits)
  then show ?thesis using auth_run_inv [of ?s, OF _ prod.collapse [symmetric], of E py_repr clock node cfg calls]
    by (simp add: Let_def store_inv_def [of "snd x" for x])
qed

section \<open>Registration\<close>

lemma register_success:
  assumes "register py_repr clock node cfg identity txid s = (Inr res, s')"
  shows "if rr_success res then
      \<exists>t b c' at. validate_txid (JStr txid) = Inr t \<and>
        fst (registration_get py_repr (id_public_key_hex identity) (as_registrations s)) = Inr None \<and>
        fromhex (id_public_key_hex identity) = Some b \<and> paid_for node cfg t b (as_rpc s) c' \<and>
        at = clock (clock_reads s) \<and>
        registration_save \<lparr>rg_public_key_hex = id_public_key_hex identity,
          rg_private_key_hex = id_private_key_hex identity, rg_txid = t, rg_registered_at = at\<rparr> (as_registrations s)
          = (Inr (), as_registrations s')
    else as_registrations s' = as_registrations s"
proof (cases "validate_txid (JStr txid)")
  case (Inl e)
  then show ?thesis using assms by (auto simp: register_def refused_def split: if_splits)
next
  case (Inr t)
  obtain q where q: "registration_get py_repr (id_public_key_hex identity) (as_registrations s) = (q, as_registrations s)"
    using json_store.get_keeps by (metis prod.collapse)
  show ?thesis
  proof (cases "q = Inr None \<and> fromhex (id_public_key_hex identity) \<noteq> None")
    case False
    then show ?thesis using assms Inr q
      by (cases q) (auto simp: register_def refused_def sbind_def on_registrations_def registration_commitment_hex_def
          split: if_splits)
  next
    case True
    then obtain b where b: "fromhex (id_public_key_hex identity) = Some b" by blast
    let ?v = "rpc_verify node \<lparr>vq_txid = t, vq_treasury_address = expected_treasury_address cfg,
      vq_fee_sats = expected_fee_sats cfg, vq_commitment = compute_registration_commitment b\<rparr> (as_rpc s)"
    obtain x c' where x: "?v = (x, c')" by (cases ?v)
    show ?thesis
    proof (cases "\<exists>vr. x = Inr vr \<and> vs_success vr")
      case False
      then show ?thesis using assms Inr q True b x
        by (cases x) (auto simp: register_def refused_def sbind_def on_registrations_def on_client_def
            registration_commitment_hex_def split: if_splits)
    next
      case paid: True
      then have "paid_for node cfg t b (as_rpc s) c'" using rpc_verify_paid x by blast
      then show ?thesis using assms Inr q True b x paid
        by (auto simp: register_def sbind_def on_registrations_def on_client_def utc_now_def
            registration_commitment_hex_def split: if_splits sum.splits prod.splits)
    qed
  qed
qed

text \<open>
  C31. Registration. A call that reports success names a well-formed transaction id, a key that was
  not registered before and a confirmed transaction that pays the fee to the treasury and commits to
  the key; afterwards the store returns exactly the registration of that key, with the time of the
  call, and what it returns for every other key is unchanged. A call that reports failure leaves the
  store as it was.
\<close>

theorem registration_sound:
  assumes "register py_repr clock node cfg identity txid s = (Inr res, s')"
    and "\<forall>n. valid_datetime (clock n)"
  shows "if rr_success res then
      \<exists>t b c'. validate_txid (JStr txid) = Inr t \<and>
        fst (registration_get py_repr (id_public_key_hex identity) (as_registrations s)) = Inr None \<and>
        fromhex (id_public_key_hex identity) = Some b \<and> paid_for node cfg t b (as_rpc s) c' \<and>
        fst (registration_get py_repr (id_public_key_hex identity) (as_registrations s')) =
          Inr (Some \<lparr>rg_public_key_hex = id_public_key_hex identity,
            rg_private_key_hex = id_private_key_hex identity, rg_txid = t, rg_registered_at = clock (clock_reads s)\<rparr>) \<and>
        (\<forall>k. k \<noteq> id_public_key_hex identity \<longrightarrow>
          fst (registration_get py_repr k (as_registrations s')) = fst (registration_get py_repr k (as_registrations s)))
    else as_registrations s' = as_registrations s"
proof (cases "rr_success res")
  case True
  then obtain t b c' where r: "validate_txid (JStr txid) = Inr t"
      "fst (registration_get py_repr (id_public_key_hex identity) (as_registrations s)) = Inr None"
      "fromhex (id_public_key_hex identity) = Some b" "paid_for node cfg t b (as_rpc s) c'"
      "registration_save \<lparr>rg_public_key_hex = id_public_key_hex identity,
          rg_private_key_hex = id_private_key_hex identity, rg_txid = t, rg_registered_at = clock (clock_reads s)\<rparr> (as_registrations s)
          = (Inr (), as_registrations s')"
    using register_success [OF assms(1)] by auto
  then show ?thesis using True json_store.get_saved [OF _ r(5), of py_repr] json_store.get_other [OF r(5), of _ py_repr] assms(2)
    by auto
next
  case False
  then show ?thesis using register_success [OF assms(1)] by simp
qed

section \<open>The challenge message\<close>

lemma split_at_last:
  assumes "a @ x # b = a' @ x # b'" and "x \<notin> set b" and "x \<notin> set b'"
  shows "a = a' \<and> b = b'"
proof -
  have "takeWhile (\<lambda>y. y \<noteq> x) (rev (u @ x # v)) = rev v" if "x \<notin> set v" for u v
    using that by (subst rev_append, simp, subst takeWhile_append2) auto
  then have "rev b = rev b'" using assms by metis
  then show ?thesis using assms(1) by simp
qed

lemma newline_not_in_iso: "CHR 0x0A \<notin> set (isoformat d)"
proof -
  have nd: "CHR 0x0A \<notin> set (pad n v)" for n v
    using pad_digits [of n v] by (auto simp: list_all_iff is_digit_def)
  show ?thesis
    by (auto simp: isoformat_def iso_time_def iso_offset_def Let_def nd split: option.splits if_splits)
qed

text \<open>
  C33. The signed message determines the challenge: two challenge messages whose nonces contain no
  line break (they are hexadecimal) are equal only if key, nonce and time of issue are equal. A
  signature over one challenge is therefore never a signature over another.
\<close>

theorem challenge_message_injective:
  assumes "build_message k n t = build_message k' n' t'"
    and "CHR 0x0A \<notin> set n" and "CHR 0x0A \<notin> set n'"
    and "valid_datetime t" and "valid_datetime t'"
  shows "k = k' \<and> n = n' \<and> t = t'"
proof -
  let ?x = "CHR 0x0A"
  have 1: "(k @ ?x # ''nonce='' @ n) @ ?x # ''issued_at='' @ isoformat t =
      (k' @ ?x # ''nonce='' @ n') @ ?x # ''issued_at='' @ isoformat t'"
    using assms(1) by (simp add: build_message_def Let_def)
  have nl: "?x \<notin> set (''issued_at='' @ isoformat d)" "?x \<notin> set n \<Longrightarrow> ?x \<notin> set (''nonce='' @ n)" for d n
    using newline_not_in_iso [of d] by simp_all
  have 2: "k @ ?x # ''nonce='' @ n = k' @ ?x # ''nonce='' @ n'" "isoformat t = isoformat t'"
    using split_at_last [OF 1 nl(1) nl(1)] by simp_all
  show ?thesis using split_at_last [OF 2(1) nl(2) [OF assms(2)] nl(2) [OF assms(3)]] isoformat_inj [OF 2(2)] assms(4,5)
    by simp
qed

section \<open>An honest user logs in\<close>

text \<open>What the documentation of \<^verbatim>\<open>cryptography\<close> promises of a generated key pair.\<close>

definition key_pair_ok :: "('pk, 'sk) ed25519 \<Rightarrow> 'sk \<Rightarrow> bool" where
  "key_pair_ok E sk \<longleftrightarrow>
     length (public_bytes_raw E (sk_public_key E sk)) = 32 \<and> length (private_bytes_raw E sk) = 32 \<and>
     from_public_bytes E (public_bytes_raw E (sk_public_key E sk)) = Inr (sk_public_key E sk) \<and>
     from_private_bytes E (private_bytes_raw E sk) = Inr sk \<and>
     (\<forall>m. pk_verify E (sk_public_key E sk) (sk_sign E sk m) m = SigValid)"

text \<open>The clock stays within the lifetime of a challenge issued at reading \<open>n\<close> for two more readings.\<close>

definition steady_clock :: "(nat \<Rightarrow> datetime) \<Rightarrow> nat \<Rightarrow> bool" where
  "steady_clock clock n \<longleftrightarrow>
     is_aware (clock n) \<and> is_aware (clock (n + 1)) \<and> is_aware (clock (n + 2)) \<and>
     local_us (clock n) + 300000000 < MAX_LOCAL_US \<and>
     instant_us (clock (n + 1)) \<le> instant_us (clock n) + 300000000 \<and>
     instant_us (clock (n + 2)) \<le> instant_us (clock n) + 300000000"

text \<open>
  C30. A registered user can log in. For a generated identity whose registration transaction is
  confirmed and paid, on a store with room, creating a challenge, signing it with the private key and
  presenting the signature and the transaction id logs the user in, provided the clock advances by at
  most 300 seconds.
\<close>

theorem honest_login:
  assumes "key_pair_ok E sk" and "identity = generate_identity E sk"
    and "store_inv s" and "\<not> store_full s" and "steady_clock clock (clock_reads s)"
    and "validate_txid (JStr txid) = Inr t"
    and "paid_for node cfg t (public_bytes_raw E (sk_public_key E sk)) (as_rpc s) c'"
  shows "\<exists>message s1 signature s2 res s3.
    create_challenge_message clock nonce (id_public_key_hex identity) s = (Inr message, s1) \<and>
    sign_outstanding_challenge E clock (id_public_key_hex identity) (id_private_key_hex identity) s1 = (Inr signature, s2) \<and>
    verify_login E clock node cfg \<lparr>vr_public_key_hex = id_public_key_hex identity, vr_txid = txid,
      vr_signature = signature\<rparr> s2 = (Inr res, s3) \<and> ar_success res"
proof -
  let ?pb = "public_bytes_raw E (sk_public_key E sk)" and ?n = "clock_reads s"
  let ?k = "bytes_hex ?pb" and ?p = "bytes_hex (private_bytes_raw E sk)"
  have id: "id_public_key_hex identity = ?k" "id_private_key_hex identity = ?p"
    by (simp_all add: assms(2) generate_identity_def)
  have ne: "?k \<noteq> []" "?p \<noteq> []"
    using assms(1) by (auto simp: key_pair_ok_def dest!: arg_cong [of _ _ length])
  let ?m = "build_message ?k nonce (clock ?n)"
  let ?ch = "\<lparr>ch_public_key_hex = ?k, ch_message = ?m, ch_issued_at = clock ?n\<rparr>"
  let ?s1 = "s\<lparr>clock_reads := ?n + 1, cs_challenges := AList.update ?k ?ch (cs_challenges s)\<rparr>"
  let ?s2 = "?s1\<lparr>clock_reads := ?n + 2\<rparr>"
  have save: "store_save clock ?ch (s\<lparr>clock_reads := ?n + 1\<rparr>) = (Inr (), ?s1)"
    using assms(4) by (simp add: store_save_def store_full_def)
  then have 1: "create_challenge_message clock nonce ?k s = (Inr ?m, ?s1)"
    using ne by (simp add: create_challenge_message_def Let_def sbind_def utc_now_def)
  have i1: "store_inv ?s1" using memory.save_inv [OF _ save] assms(3) by simp
  have fresh: "challenge_expired (clock (?n + j)) ?ch = Inr False" if "j = 1 \<or> j = 2" for j
    using assms(5) that
    by (auto simp: steady_clock_def challenge_expired_def ttl_us_def AUTHENTICATION_CHALLENGE_TTL_SECONDS_def)
  have v: "store_view ?s1 ?k = Some ?ch" by (simp add: store_view_def update_conv')
  have "store_get clock ?k ?s1 = (Inr (Some ?ch), ?s2)"
    using v fresh [of 1] by (simp add: store_get_Some_iff)
  moreover have "from_private_key_hex E ?p = Inr sk"
    using assms(1) by (simp add: from_private_key_hex_def res_simps decode_ed25519_Inr_iff key_pair_ok_def)
  ultimately have 2: "sign_outstanding_challenge E clock ?k ?p ?s1 = (Inr (sk_sign E sk (utf8 ?m)), ?s2)"
    using ne by (simp add: sign_outstanding_challenge_def Let_def sbind_def sign_message_def)
  let ?req = "\<lparr>vr_public_key_hex = ?k, vr_txid = txid, vr_signature = sk_sign E sk (utf8 ?m)\<rparr>"
  have i2: "store_inv ?s2" using i1 by (simp add: store_inv_def)
  have "\<exists>s3 res. verify_login E clock node cfg ?req ?s2 = (Inr res, s3) \<and> ar_success res"
    using login_accepts_iff [OF i2, of ?k ?req E clock node cfg] assms(1,6,7) v fresh [of 2]
    by (simp add: key_pair_ok_def store_view_def) blast
  then show ?thesis unfolding id using 1 2 by blast
qed

section \<open>A concrete user\<close>

text \<open>
  An instance of the key operations that satisfies \<open>key_pair_ok\<close> (a signature repeats key and
  message), a key of 32 bytes, a node with its paid registration, and a clock that stands still.
\<close>

definition sample_ed25519 :: "(bytes, bytes) ed25519" where
  "sample_ed25519 = \<lparr>from_public_bytes = Inr, pk_verify = (\<lambda>pk sig m. if sig = pk @ m then SigValid else SigInvalid),
     from_private_bytes = Inr, sk_sign = (\<lambda>sk m. sk @ m), sk_public_key = (\<lambda>sk. sk),
     public_bytes_raw = (\<lambda>b. b), private_bytes_raw = (\<lambda>b. b)\<rparr>"

definition sample_key :: bytes where "sample_key = replicate 32 1"

definition sample_user :: application_identity where
  "sample_user = generate_identity sample_ed25519 sample_key"

definition sample_node :: rpc_node where "sample_node = paid_node (commitment_digest sample_key)"

definition sample_config :: auth_config where
  "sample_config = \<lparr>expected_treasury_address = ''addr'', expected_fee_sats = 1000\<rparr>"

definition still_clock :: "nat \<Rightarrow> datetime" where "still_clock n = login_time 0"

definition empty_auth :: auth_state where
  "empty_auth = \<lparr>clock_reads = 0, cs_challenges = [], cs_max_size = 50, as_registrations = Missing,
     as_rpc = fresh_client\<rparr>"

definition challenged_auth :: auth_state where
  "challenged_auth = empty_auth\<lparr>cs_challenges := [(bytes_hex sample_key, sample_challenge (bytes_hex sample_key))]\<rparr>"

definition sample_request :: "bytes \<Rightarrow> verify_request" where
  "sample_request sig = \<lparr>vr_public_key_hex = bytes_hex sample_key, vr_txid = paid_txid, vr_signature = sig\<rparr>"

definition sample_signature :: bytes where "sample_signature = sample_key @ utf8 ''m''"

lemma sample_user_hex:
  "id_public_key_hex sample_user = bytes_hex sample_key" "id_private_key_hex sample_user = bytes_hex sample_key"
  by (simp_all add: sample_user_def generate_identity_def sample_ed25519_def)

lemma sample_paid: "paid_for sample_node sample_config paid_txid sample_key c (next_request ''getrawtransaction'' [JStr paid_txid, JInt 1] c)"
proof -
  have "length (commitment_digest sample_key) \<le> 75" by (simp add: commitment_digest_def)
  then show ?thesis unfolding paid_for_def sample_node_def
    using paid_node_has_tx [of "commitment_digest sample_key" c] paid_tx_pays [of "commitment_digest sample_key" 1000]
    by (auto simp: sample_config_def)
qed

lemma sample_states:
  "store_inv empty_auth" "store_inv challenged_auth" "\<not> store_full empty_auth"
  "steady_clock still_clock 0" "key_pair_ok sample_ed25519 sample_key" "\<forall>n. valid_datetime (still_clock n)"
  "challenge_expired (still_clock n) (sample_challenge k) = Inr False"
proof -
  show "steady_clock still_clock 0"
    using sample_facts(1) by (simp add: steady_clock_def still_clock_def datable_def sample_challenge_def ttl_us_def
        AUTHENTICATION_CHALLENGE_TTL_SECONDS_def)
  show "challenge_expired (still_clock n) (sample_challenge k) = Inr False"
    using sample_facts(1) [of k]
    by (simp add: challenge_expired_Inr_iff datable_def sample_challenge_def still_clock_def ttl_us_def
        AUTHENTICATION_CHALLENGE_TTL_SECONDS_def)
qed (simp_all add: store_inv_def empty_auth_def challenged_auth_def store_full_def sample_challenge_def key_pair_ok_def
    sample_ed25519_def sample_key_def still_clock_def login_time_def valid_datetime_def days_in_month_def us_per_day_def)

lemma sample_login:
  "\<exists>res s'. verify_login sample_ed25519 still_clock sample_node sample_config (sample_request sample_signature) challenged_auth
     = (Inr res, s') \<and> ar_success res"
proof -
  let ?k = "bytes_hex sample_key"
  have r: "?k = normalize_hex_string (vr_public_key_hex (sample_request sample_signature))" by (simp add: sample_request_def)
  have "store_view challenged_auth ?k = Some (sample_challenge ?k)"
    by (simp add: store_view_def challenged_auth_def)
  moreover have "from_public_bytes sample_ed25519 sample_key = Inr sample_key" "length sample_key = 32"
    "pk_verify sample_ed25519 sample_key sample_signature (utf8 (ch_message (sample_challenge ?k))) = SigValid"
    by (simp_all add: sample_ed25519_def sample_key_def sample_signature_def sample_challenge_def)
  ultimately show ?thesis
    using login_accepts_iff [OF sample_states(2) r, of sample_ed25519 still_clock sample_node sample_config]
      sample_paid [of "as_rpc challenged_auth"] sample_states(7) paid_txid_ok
    by (simp add: sample_request_def) blast
qed

theorem login_accepts_witness:
  "\<exists>res s'. verify_login sample_ed25519 still_clock sample_node sample_config (sample_request sample_signature) challenged_auth
     = (Inr res, s') \<and> ar_success res \<and> store_view s' (bytes_hex sample_key) = None"
proof -
  obtain res s' where l: "verify_login sample_ed25519 still_clock sample_node sample_config (sample_request sample_signature)
      challenged_auth = (Inr res, s')" "ar_success res" using sample_login by blast
  have "bytes_hex sample_key = normalize_hex_string (vr_public_key_hex (sample_request sample_signature))"
    by (simp add: sample_request_def)
  from login_accepts [OF sample_states(2) this, of sample_ed25519 still_clock sample_node sample_config s'] l
  obtain c' where "s' = challenged_auth\<lparr>clock_reads := clock_reads challenged_auth + 1, as_rpc := c',
      cs_challenges := AList.delete (bytes_hex sample_key) (cs_challenges challenged_auth)\<rparr>" by blast
  then show ?thesis using l by (auto simp: store_view_def delete_conv')
qed

theorem failed_login_keeps_challenge_witness:
  "store_view (snd (verify_login sample_ed25519 still_clock sample_node sample_config (sample_request []) challenged_auth)) =
     store_view challenged_auth"
proof -
  have b: "vr_public_key_hex (sample_request []) = bytes_hex sample_key" "vr_txid (sample_request []) = paid_txid"
    "vr_signature (sample_request []) = []" by (simp_all add: sample_request_def)
  have g: "store_get still_clock (bytes_hex sample_key) challenged_auth =
      (Inr (Some (sample_challenge (bytes_hex sample_key))), challenged_auth\<lparr>clock_reads := clock_reads challenged_auth + 1\<rparr>)"
    by (simp add: store_get_Some_iff store_view_def challenged_auth_def sample_states(7))
  have k: "bytes_hex sample_key \<noteq> []"
    using length_bytes_hex [of sample_key] by (auto simp: sample_key_def simp del: length_bytes_hex)
  have p: "public_key_inputs sample_ed25519 (bytes_hex sample_key) = Inr (sample_key, sample_key)"
    by (simp add: public_key_inputs_Inr_iff sample_ed25519_def sample_key_def)
  have sig: "verify_signature sample_ed25519 sample_key m [] = Inr False" for m
    by (simp add: verify_signature_def sample_ed25519_def sample_key_def)
  have "fst (verify_login sample_ed25519 still_clock sample_node sample_config (sample_request []) challenged_auth) =
      Inr (login_failed ''Invalid signature.'')"
    using k sig by (simp add: verify_login_def Let_def b paid_txid_ok g sbind_def verify_challenge_def p)
  then show ?thesis
    using failed_login_keeps_challenge [OF sample_states(2) prod.collapse [symmetric], of sample_ed25519 still_clock sample_node
        sample_config "sample_request []"] sample_states(7)
    by (auto simp: login_failed_def b store_view_def challenged_auth_def)
qed

theorem login_single_use_witness:
  "\<exists>res s1. verify_login sample_ed25519 still_clock sample_node sample_config (sample_request sample_signature) challenged_auth
     = (Inr res, s1) \<and> ar_success res \<and>
     fst (auth_run sample_ed25519 (\<lambda>j. []) still_clock sample_node sample_config [VerifyLogin (sample_request sample_signature)] s1) = [False]"
proof -
  obtain res s1 where l: "verify_login sample_ed25519 still_clock sample_node sample_config (sample_request sample_signature)
      challenged_auth = (Inr res, s1)" "ar_success res" using sample_login by blast
  from login_single_use [OF sample_states(2) l, of "[VerifyLogin (sample_request sample_signature)]" "\<lambda>j. []"] l
  show ?thesis by (auto simp: creates_for_def login_of_def split: prod.splits)
qed

theorem auth_store_bounded_witness:
  "int (length (cs_challenges (snd (auth_run sample_ed25519 (\<lambda>j. []) still_clock sample_node sample_config
     (map (CreateChallenge ''00'') [''aa'', ''bb'', ''cc'']) \<lparr>clock_reads = 0, cs_challenges = [], cs_max_size = 2,
       as_registrations = Missing, as_rpc = fresh_client\<rparr>)))) \<le> 2"
  using auth_store_bounded [of 2 "\<lparr>clock_reads = 0, cs_challenges = [], cs_max_size = 2\<rparr>" sample_ed25519 "\<lambda>j. []"
      still_clock sample_node sample_config "map (CreateChallenge ''00'') [''aa'', ''bb'', ''cc'']" Missing fresh_client]
  unfolding Let_def in_memory_challenge_store_def by simp

theorem registration_sound_witness:
  "\<exists>res s'. register (\<lambda>j. []) still_clock sample_node sample_config sample_user paid_txid empty_auth = (Inr res, s') \<and>
     rr_success res \<and>
     fst (registration_get (\<lambda>j. []) (bytes_hex sample_key) (as_registrations s')) =
       Inr (Some \<lparr>rg_public_key_hex = bytes_hex sample_key, rg_private_key_hex = bytes_hex sample_key,
         rg_txid = paid_txid, rg_registered_at = still_clock 0\<rparr>)"
proof -
  obtain v where v: "rpc_verify sample_node \<lparr>vq_txid = paid_txid, vq_treasury_address = expected_treasury_address sample_config,
      vq_fee_sats = expected_fee_sats sample_config, vq_commitment = compute_registration_commitment sample_key\<rparr>
      fresh_client = (Inr v, next_request ''getrawtransaction'' [JStr paid_txid, JInt 1] fresh_client)" "vs_success v"
    using sample_paid [of fresh_client] rpc_verify_paid by fastforce
  have "\<exists>res s'. register (\<lambda>j. []) still_clock sample_node sample_config sample_user paid_txid empty_auth = (Inr res, s') \<and>
      rr_success res"
    using v by (auto simp: register_def paid_txid_ok sbind_def on_registrations_def on_client_def registration_get_def
        read_all_def jget_def empty_auth_def registration_commitment_hex_def sample_user_hex utc_now_def
        registration_save_def write_all_def)
  then obtain res s' where r: "register (\<lambda>j. []) still_clock sample_node sample_config sample_user paid_txid empty_auth = (Inr res, s')"
    "rr_success res" by blast
  from registration_sound [OF r(1) sample_states(6)] r show ?thesis
    by (auto simp: sample_user_hex paid_txid_ok empty_auth_def)
qed

theorem challenge_message_injective_witness:
  "build_message ''aa'' ''00'' (login_time 0) \<noteq> build_message ''aa'' ''01'' (login_time 0)"
  using challenge_message_injective [of "''aa''" "''00''" "login_time 0" "''aa''" "''01''" "login_time 0"] sample_states(6)
  by (auto simp: still_clock_def)

theorem honest_login_witness:
  "\<exists>message s1 signature s2 res s3.
    create_challenge_message still_clock ''00'' (bytes_hex sample_key) empty_auth = (Inr message, s1) \<and>
    sign_outstanding_challenge sample_ed25519 still_clock (bytes_hex sample_key) (bytes_hex sample_key) s1 = (Inr signature, s2) \<and>
    verify_login sample_ed25519 still_clock sample_node sample_config (sample_request signature) s2 = (Inr res, s3) \<and> ar_success res"
proof -
  have "clock_reads empty_auth = 0" "public_bytes_raw sample_ed25519 (sk_public_key sample_ed25519 sample_key) = sample_key"
    by (simp_all add: empty_auth_def sample_ed25519_def)
  then show ?thesis
    using honest_login [OF sample_states(5) sample_user_def sample_states(1,3) _ paid_txid_ok, of still_clock sample_node
        sample_config "next_request ''getrawtransaction'' [JStr paid_txid, JInt 1] (as_rpc empty_auth)" "''00''"]
      sample_states(4) sample_paid [of "as_rpc empty_auth"]
    by (simp add: sample_user_hex sample_request_def)
qed

end
