(* ===== verification/Py_Float.thy ===== *)
theory Py_Float
  imports Complex_Main Datetime
begin

text \<open>
  Python floats as the rational numbers they stand for. Every arithmetic operation of IEEE 754 doubles
  returns the double nearest to the exact result (ties to even), which \<open>fl\<close> computes with \<open>float_round\<close>
  of the theory Datetime; \<^verbatim>\<open>int / int\<close> is also the nearest double to the exact quotient. Overflow,
  underflow, infinities and NaN are left out: the amounts and rates of the source are far from them.
\<close>

definition frac :: "nat \<times> nat \<Rightarrow> rat" where
  "frac nd = of_nat (fst nd) / of_nat (snd nd)"

definition fl :: "rat \<Rightarrow> rat" where
  "fl q = (let (n, d) = quotient_of q; x = frac (float_frac (float_round (nat \<bar>n\<bar>) (nat d)))
           in if n < 0 then - x else x)"

text \<open>\<^verbatim>\<open>int(x)\<close> truncates, \<^verbatim>\<open>math.ceil(x)\<close> rounds up.\<close>

definition py_trunc :: "rat \<Rightarrow> int" where
  "py_trunc q = (if 0 \<le> q then \<lfloor>q\<rfloor> else \<lceil>q\<rceil>)"

text \<open>\<^verbatim>\<open>a / b\<close>, \<^verbatim>\<open>a * b\<close>, \<^verbatim>\<open>a - b\<close> and \<^verbatim>\<open>a + b\<close> on numbers; an \<^verbatim>\<open>int\<close> operand of a mixed operation is converted first.\<close>

definition fdiv :: "rat \<Rightarrow> rat \<Rightarrow> rat" where "fdiv a b = fl (a / b)"
definition fmul :: "rat \<Rightarrow> rat \<Rightarrow> rat" where "fmul a b = fl (a * b)"
definition fsub :: "rat \<Rightarrow> rat \<Rightarrow> rat" where "fsub a b = fl (a - b)"
definition fadd :: "rat \<Rightarrow> rat \<Rightarrow> rat" where "fadd a b = fl (a + b)"

abbreviation fint :: "int \<Rightarrow> rat" where "fint i \<equiv> fl (of_int i)"

section \<open>Lemmas\<close>

lemma fl_zero [simp]: "fl 0 = 0"
  by (simp add: fl_def float_round_def float_frac_def scale2_def frac_def)

lemma frac_nonneg [simp]: "0 \<le> frac nd"
  by (simp add: frac_def)

lemma fl_nonneg: "0 \<le> q \<Longrightarrow> 0 \<le> fl q"
proof -
  assume q: "0 \<le> q"
  obtain n d where nd: "quotient_of q = (n, d)" by (cases "quotient_of q")
  have "q = of_int n / of_int d" "0 < d" using nd quotient_of_div quotient_of_denom_pos by blast+
  then have "0 \<le> n" using q by (metis of_int_0_le_iff zero_le_divide_iff of_int_0_less_iff not_less)
  then show ?thesis by (simp add: fl_def nd)
qed

lemma fl_nonpos: "q \<le> 0 \<Longrightarrow> fl q \<le> 0"
proof -
  assume q: "q \<le> 0"
  obtain n d where nd: "quotient_of q = (n, d)" by (cases "quotient_of q")
  have "q = of_int n / of_int d" "0 < d" using nd quotient_of_div quotient_of_denom_pos by blast+
  then have "n \<le> 0" using q by (simp add: divide_le_0_iff)
  then show ?thesis
    by (cases "n = 0") (simp_all add: fl_def nd float_round_def float_frac_def scale2_def frac_def)
qed

lemma div_half_even_le: "0 < b \<Longrightarrow> a \<le> N * b \<Longrightarrow> div_half_even a b \<le> N"
proof -
  assume b: "0 < b" and a: "a \<le> N * b"
  show ?thesis
  proof (cases "a div b < N")
    case True
    then show ?thesis by (auto simp: div_half_even_def Let_def)
  next
    case False
    then have "N * b \<le> a div b * b" by simp
    moreover have e: "a div b * b + a mod b = a" by simp
    ultimately have "a mod b = 0" "a div b * b = N * b" using a by linarith+
    then show ?thesis using b by (auto simp: div_half_even_def Let_def)
  qed
qed

lemma float_round_scaled:
  assumes "0 < n" and "0 < d" and "n \<le> t * d" and "t < 2 ^ 53"
  shows "\<exists>k m. float_round n d = (m, int k) \<and> m \<le> t * 2 ^ k"
proof -
  have "(2 :: nat) ^ (bit_length n - 1) < 2 ^ (53 + bit_length d)"
  proof -
    have "2 ^ (bit_length n - 1) \<le> n" "d < 2 ^ bit_length d" using bit_length_bounds assms(1,2) by auto
    moreover have "t * d < 2 ^ 53 * 2 ^ bit_length d"
      using assms(4) \<open>d < 2 ^ bit_length d\<close> by (intro mult_strict_mono) auto
    ultimately show ?thesis using assms(3) by (simp add: power_add)
  qed
  then have bl: "bit_length n \<le> 53 + bit_length d" by simp
  define k0 where "k0 = 53 - (int (bit_length n) - int (bit_length d))"
  have k0: "0 \<le> k0" using bl by (simp add: k0_def)
  have small: "\<not> 2 ^ 53 * d \<le> n" using assms(3,4) assms(2)
    by (metis le_trans linorder_not_le mult_less_mono1)
  have pos: "1 \<le> k0" if "2 ^ 53 * d \<le> n * 2 ^ nat k0"
    using that small k0 by (cases "k0 = 0") auto
  define k where "k = (if 2 ^ 53 * d \<le> n * 2 ^ nat k0 then k0 - 1 else k0)"
  have k: "0 \<le> k" using k0 pos by (auto simp: k_def)
  have "float_round n d = (div_half_even (n * 2 ^ nat k) d, k)"
    using assms(1) k0 k unfolding k0_def k_def by (auto simp: float_round_def scale2_def Let_def)
  moreover have "div_half_even (n * 2 ^ nat k) d \<le> t * 2 ^ nat k"
  proof (rule div_half_even_le [OF assms(2)])
    show "n * 2 ^ nat k \<le> t * 2 ^ nat k * d" using assms(3) by (simp add: algebra_simps)
  qed
  ultimately show ?thesis using k by (intro exI [of _ "nat k"] exI [of _ "div_half_even (n * 2 ^ nat k) d"]) simp
qed

text \<open>Rounding does not pass an integer below \<open>2 ^ 53\<close>.\<close>

lemma fl_le_int:
  assumes "q \<le> of_int t" and "0 \<le> t" and "t < 2 ^ 53"
  shows "fl q \<le> of_int t"
proof (cases "0 < q")
  case False
  then have "fl q \<le> 0" using fl_nonpos by simp
  moreover have "(0 :: rat) \<le> of_int t" using assms(2) by simp
  ultimately show ?thesis by linarith
next
  case True
  obtain n d where nd: "quotient_of q = (n, d)" by (cases "quotient_of q")
  have q: "q = of_int n / of_int d" "0 < d" using nd quotient_of_div quotient_of_denom_pos by blast+
  then have n: "0 < n" using True by (simp add: zero_less_divide_iff)
  have "of_int n \<le> (of_int (t * d) :: rat)" using assms(1) q by (simp add: divide_le_eq)
  then have "n \<le> t * d" using of_int_le_iff by blast
  then have le: "nat n \<le> nat t * nat d"
    using n assms(2) q(2) by (metis nat_le_eq_zle nat_mult_distrib mult_pos_pos not_less order_less_imp_le zero_less_mult_iff)
  obtain k m where km: "float_round (nat n) (nat d) = (m, int k)" "m \<le> nat t * 2 ^ k"
    using float_round_scaled [of "nat n" "nat d" "nat t"] le n q(2) assms(2,3) by (auto simp: nat_less_iff)
  have "fl q = of_nat m / 2 ^ k" using n km(1)
    by (cases "k = 0") (auto simp: fl_def nd float_frac_def scale2_def frac_def)
  also have "\<dots> \<le> of_int t"
  proof -
    have "of_nat m \<le> (of_nat (nat t * 2 ^ k) :: rat)" using km(2) by (simp only: of_nat_le_iff)
    then show ?thesis using assms(2) by (simp add: divide_le_eq)
  qed
  finally show ?thesis .
qed

lemma py_trunc_mono: "a \<le> of_int t \<Longrightarrow> py_trunc a \<le> t"
  by (auto simp: py_trunc_def floor_le_iff ceiling_le_iff intro: order_le_less_trans)

lemma py_trunc_nonneg: "0 \<le> q \<Longrightarrow> 0 \<le> py_trunc q"
  by (simp add: py_trunc_def)

section \<open>Exactness and lower bounds\<close>

lemma bit_length_pow2: "bit_length (2 ^ j) = Suc j"
proof (induction j)
  case 0
  show ?case by (simp add: bit_length.simps)
next
  case (Suc j)
  then show ?case by (simp add: bit_length.simps [of "2 * 2 ^ j"])
qed

lemma div_half_even_exact: "0 < d \<Longrightarrow> div_half_even (q * d) d = q"
  by (simp add: div_half_even_def)

lemma bit_length_le: "n < 2 ^ k \<Longrightarrow> bit_length n \<le> k"
proof (cases "n = 0")
  case False
  assume "n < 2 ^ k"
  moreover have "2 ^ (bit_length n - 1) \<le> n" using bit_length_bounds False by auto
  ultimately have "(2 :: nat) ^ (bit_length n - 1) < 2 ^ k" by linarith
  then show ?thesis by simp
qed (simp add: bit_length.simps)

lemma float_round_dyadic:
  assumes "0 < n" and "n < 2 ^ 53"
  shows "\<exists>k\<ge>int j. float_round n (2 ^ j) = (n * 2 ^ nat (k - int j), k)"
proof -
  define k0 where "k0 = 53 - (int (bit_length n) - int (Suc j))"
  have bl: "bit_length n \<le> 53" using bit_length_le assms(2) by blast
  define k where "k = (if 2 ^ 53 * 2 ^ j \<le> n * 2 ^ nat k0 then k0 - 1 else k0)"
  have k: "int j \<le> k" using bl by (auto simp: k_def k0_def)
  have k0: "0 \<le> k0" using bl by (simp add: k0_def)
  have e: "(2 :: nat) ^ nat k = 2 ^ nat (k - int j) * 2 ^ j" using k
    by (metis add.commute le_add_diff_inverse nat_int nat_le_iff nat_diff_distrib' of_nat_0_le_iff order_trans power_add zle_int zero_le_imp_eq_int)
  have "float_round n (2 ^ j) = (div_half_even (n * 2 ^ nat k) (2 ^ j), k)"
    using assms(1) k0 k unfolding k0_def k_def by (auto simp: float_round_def scale2_def Let_def bit_length_pow2)
  also have "\<dots> = (n * 2 ^ nat (k - int j), k)" unfolding e
    using div_half_even_exact [of "2 ^ j" "n * 2 ^ nat (k - int j)"] by (simp add: mult.assoc)
  finally show ?thesis using k by blast
qed

lemma dvd_pow2: "0 < d \<Longrightarrow> d dvd 2 ^ k \<Longrightarrow> \<exists>j\<le>k. d = (2 :: int) ^ j"
proof (induction k arbitrary: d)
  case 0
  then show ?case by simp
next
  case (Suc k)
  show ?case
  proof (cases "even d")
    case True
    then obtain d' where d': "d = 2 * d'" by blast
    then obtain j where "j \<le> k" "d' = 2 ^ j" using Suc.IH [of d'] Suc.prems by auto
    then show ?thesis using d' by (intro exI [of _ "Suc j"]) simp
  next
    case False
    then have "d dvd 2 ^ k" using Suc.prems(2) by (simp add: coprime_dvd_mult_right_iff)
    then show ?thesis using Suc.IH Suc.prems(1) le_SucI by blast
  qed
qed

lemma quotient_of_dyadic: "\<exists>n j. quotient_of (of_int m / 2 ^ k) = (n, 2 ^ j) \<and> \<bar>n\<bar> \<le> \<bar>m\<bar>"
proof -
  obtain n d where nd: "quotient_of (of_int m / 2 ^ k) = (n, d)" by (cases "quotient_of (of_int m / 2 ^ k)")
  then have q: "of_int m / 2 ^ k = (of_int n / of_int d :: rat)" "0 < d" "coprime n d"
    using quotient_of_div quotient_of_denom_pos quotient_of_coprime by blast+
  have "of_int (m * d) = (of_int (n * 2 ^ k) :: rat)" using q(1,2) by (simp add: field_simps)
  then have eq: "m * d = n * 2 ^ k" using of_int_eq_iff by blast
  then have "d dvd n * 2 ^ k" by (metis dvd_triv_right)
  then have "d dvd 2 ^ k" using q(3) by (metis coprime_commute coprime_dvd_mult_right_iff)
  then obtain j where j: "d = 2 ^ j" "j \<le> k" using q(2) dvd_pow2 by blast
  have "\<bar>n\<bar> * d \<le> \<bar>n\<bar> * 2 ^ k" using j by (intro mult_left_mono) (auto intro: power_increasing)
  also have "\<dots> = \<bar>m\<bar> * d" using eq q(2) by (metis abs_mult abs_of_pos zero_less_numeral zero_less_power)
  finally have "\<bar>n\<bar> \<le> \<bar>m\<bar>" using q(2) by simp
  then show ?thesis using nd j by auto
qed

text \<open>A number with at most 53 significant bits is a double.\<close>

lemma fl_dyadic:
  assumes "\<bar>m\<bar> < 2 ^ 53"
  shows "fl (of_int m / 2 ^ k) = of_int m / 2 ^ k"
proof -
  obtain n j where nj: "quotient_of (of_int m / 2 ^ k) = (n, 2 ^ j)" "\<bar>n\<bar> \<le> \<bar>m\<bar>" using quotient_of_dyadic by blast
  then have q: "of_int m / 2 ^ k = (of_int n / 2 ^ j :: rat)" using quotient_of_div by force
  show ?thesis
  proof (cases "n = 0")
    case True
    then show ?thesis using q by simp
  next
    case False
    then have n: "0 < nat \<bar>n\<bar>" "nat \<bar>n\<bar> < 2 ^ 53" using nj(2) assms by (auto simp: nat_less_iff)
    obtain e where e: "int j \<le> e" "float_round (nat \<bar>n\<bar>) (2 ^ j) = (nat \<bar>n\<bar> * 2 ^ nat (e - int j), e)"
      using float_round_dyadic [OF n] by blast
    have pow: "(2 :: rat) ^ nat e = 2 ^ nat (e - int j) * 2 ^ j" using e(1)
      by (simp add: power_add [symmetric] nat_diff_distrib)
    have "frac (float_frac (nat \<bar>n\<bar> * 2 ^ nat (e - int j), e)) = of_nat (nat \<bar>n\<bar>) / 2 ^ j"
      using e(1) pow by (cases "e = 0") (auto simp: frac_def float_frac_def scale2_def)
    then have "fl (of_int m / 2 ^ k) = of_int n / 2 ^ j" using e(2) unfolding fl_def nj(1) by (cases "n < 0") (simp_all add: nat_power_eq Let_def)
    then show ?thesis using q by simp
  qed
qed

lemma fl_int: "\<bar>m\<bar> < 2 ^ 53 \<Longrightarrow> fl (of_int m) = of_int m"
  using fl_dyadic [of m 0] by simp

lemma div_half_even_ge: "0 < b \<Longrightarrow> N * b \<le> a \<Longrightarrow> N \<le> div_half_even a b"
proof -
  assume "0 < b" "N * b \<le> a"
  then have "N \<le> a div b" by (simp add: less_eq_div_iff_mult_less_eq)
  then show ?thesis by (auto simp: div_half_even_def Let_def)
qed

lemma float_round_lower:
  assumes "0 < n" and "0 < d" and "t * d \<le> n" and "n \<le> u * d" and "u < 2 ^ 53"
  shows "\<exists>k m. float_round n d = (m, int k) \<and> t * 2 ^ k \<le> m"
proof -
  obtain k m where km: "float_round n d = (m, int k)" using float_round_scaled [OF assms(1,2,4,5)] by blast
  then have "m = div_half_even (n * 2 ^ k) d" using assms(1)
    by (auto simp: float_round_def scale2_def Let_def split: if_splits prod.splits)
  moreover have "t * 2 ^ k \<le> div_half_even (n * 2 ^ k) d" using assms(2,3) by (intro div_half_even_ge) (simp_all add: algebra_simps)
  ultimately show ?thesis using km by blast
qed

text \<open>Rounding does not fall below an integer either.\<close>

lemma fl_ge_int:
  assumes "of_int t \<le> q" and "0 \<le> t" and "q \<le> of_int u" and "u < 2 ^ 53"
  shows "of_int t \<le> fl q"
proof (cases "0 < q")
  case False
  then have "t = 0" "q = 0" using assms(1,2) by (auto simp: not_less intro: antisym)
  then show ?thesis by simp
next
  case True
  obtain n d where nd: "quotient_of q = (n, d)" by (cases "quotient_of q")
  have q: "q = of_int n / of_int d" "0 < d" using nd quotient_of_div quotient_of_denom_pos by blast+
  then have n: "0 < n" using True by (simp add: zero_less_divide_iff)
  have "(of_int (t * d) :: rat) \<le> of_int n" using assms(1) q by (simp add: le_divide_eq)
  then have le: "t * d \<le> n" using of_int_le_iff by blast
  have "(of_int n :: rat) \<le> of_int (u * d)" using assms(3) q by (simp add: divide_le_eq)
  then have ge: "n \<le> u * d" using of_int_le_iff by blast
  then have u: "0 < u" using n q(2) by (metis mult_le_0_iff not_less order_trans less_imp_le)
  have "nat t * nat d \<le> nat n" "nat n \<le> nat u * nat d"
    using le ge assms(2) q(2) u by (simp_all add: nat_mult_distrib [symmetric] nat_le_eq_zle)
  then obtain k m where km: "float_round (nat n) (nat d) = (m, int k)" "nat t * 2 ^ k \<le> m"
    using float_round_lower [of "nat n" "nat d" "nat t" "nat u"] n q(2) assms(4) by (auto simp: nat_less_iff)
  have "of_int t \<le> (of_nat m / 2 ^ k :: rat)"
  proof -
    have "(of_nat (nat t * 2 ^ k) :: rat) \<le> of_nat m" using km(2) by (simp only: of_nat_le_iff)
    then show ?thesis using assms(2) by (simp add: le_divide_eq)
  qed
  also have "\<dots> = fl q" using n km(1)
    by (cases "k = 0") (auto simp: fl_def nd float_frac_def scale2_def frac_def)
  finally show ?thesis .
qed

section \<open>Rounding error\<close>

lemma div_half_even_error: "0 < b \<Longrightarrow> \<bar>of_nat (div_half_even a b) - of_nat a / of_nat b\<bar> \<le> (1 / 2 :: rat)"
proof -
  assume b: "0 < b"
  define q r where "q = a div b" and "r = a mod b"
  have "a = q * b + r" by (simp add: q_def r_def)
  then have e: "of_nat a / of_nat b = (of_nat q + of_nat r / of_nat b :: rat)" using b by (simp add: field_simps)
  have r: "r < b" using b by (simp add: r_def)
  then have r1: "of_nat r / of_nat b \<le> (1 :: rat)" "0 \<le> (of_nat r / of_nat b :: rat)" using b by (simp_all add: divide_le_eq)
  have up: "(1 / 2 :: rat) \<le> of_nat r / of_nat b" if "b \<le> 2 * r"
  proof -
    have "(of_nat b :: rat) \<le> of_nat (2 * r)" using that by (simp only: of_nat_le_iff)
    then show ?thesis using b by (simp add: le_divide_eq)
  qed
  have down: "of_nat r / of_nat b \<le> (1 / 2 :: rat)" if "2 * r \<le> b"
  proof -
    have "of_nat (2 * r) \<le> (of_nat b :: rat)" using that by (simp only: of_nat_le_iff)
    then show ?thesis using b by (simp add: divide_le_eq)
  qed
  show ?thesis
  proof (cases "b < 2 * r \<or> (2 * r = b \<and> odd q)")
    case True
    then have "div_half_even a b = q + 1" "b \<le> 2 * r" by (auto simp: div_half_even_def q_def r_def Let_def)
    then show ?thesis using e up r1 by (simp add: abs_le_iff)
  next
    case False
    then have "div_half_even a b = q" "2 * r \<le> b" by (auto simp: div_half_even_def q_def r_def Let_def)
    then show ?thesis using e down r1 by (simp add: abs_le_iff)
  qed
qed

lemma scale2_frac: "0 < d \<Longrightarrow> frac (scale2 n d k) = of_nat n / of_nat d * 2 powi k"
  by (auto simp: scale2_def frac_def power_int_def field_simps power_one_over)

lemma scale2_pos: "0 < d \<Longrightarrow> 0 < snd (scale2 n d k)"
  by (simp add: scale2_def)

lemma bit_length_ratio:
  assumes "0 < n" and "0 < d"
  shows "(2 :: rat) ^ 52 \<le> of_nat n / of_nat d * 2 powi (53 - (int (bit_length n) - int (bit_length d)))"
proof -
  define i j where "i = bit_length n" and "j = bit_length d"
  have n: "2 ^ (i - 1) \<le> n" "0 < i" and d: "d < 2 ^ j"
    using bit_length_bounds assms by (auto simp: i_def j_def) (metis bit_length.simps Zero_not_Suc gr0I)
  have "(2 :: rat) ^ 52 = 2 powi (int i - 1) / 2 powi (int j) * 2 powi (53 - (int i - int j))"
  proof -
    have "2 powi a / 2 powi b * 2 powi c = (2 :: rat) powi (a - b + c)" for a b c :: int
      by (simp add: power_int_add power_int_diff)
    from this [of "int i - 1" "int j" "53 - (int i - int j)"] show ?thesis by simp
  qed
  also have "\<dots> \<le> of_nat n / of_nat d * 2 powi (53 - (int i - int j))"
  proof (intro mult_right_mono frac_le)
    have "(2 :: rat) powi (int i - 1) = of_nat (2 ^ (i - 1))" using n(2) by (simp add: power_int_def nat_diff_distrib)
    also have "\<dots> \<le> of_nat n" using n(1) by (simp only: of_nat_le_iff)
    finally show "(2 :: rat) powi (int i - 1) \<le> of_nat n" .
    have "of_nat d \<le> (of_nat (2 ^ j) :: rat)" using d by (simp only: of_nat_le_iff)
    then show "of_nat d \<le> (2 :: rat) powi (int j)" by simp
  qed (use assms in auto)
  finally show ?thesis by (simp add: i_def j_def)
qed

lemma float_round_error:
  assumes "0 < n" and "0 < d"
  shows "\<bar>frac (float_frac (float_round n d)) - of_nat n / of_nat d\<bar> \<le> of_nat n / of_nat d / 2 ^ 53"
proof -
  define q where "q = (of_nat n / of_nat d :: rat)"
  define k0 where "k0 = 53 - (int (bit_length n) - int (bit_length d))"
  define k where "k = (if 2 ^ 53 * snd (scale2 n d k0) \<le> fst (scale2 n d k0) then k0 - 1 else k0)"
  have q: "0 < q" using assms by (simp add: q_def)
  have low: "2 ^ 52 \<le> q * 2 powi k"
  proof (cases "2 ^ 53 * snd (scale2 n d k0) \<le> fst (scale2 n d k0)")
    case True
    then have "(of_nat (2 ^ 53 * snd (scale2 n d k0)) :: rat) \<le> of_nat (fst (scale2 n d k0))" by (simp only: of_nat_le_iff)
    then have "(2 :: rat) ^ 53 \<le> frac (scale2 n d k0)" using scale2_pos [OF assms(2), of n k0] by (simp add: frac_def le_divide_eq)
    then have "2 ^ 53 \<le> q * 2 powi k0" using scale2_frac [OF assms(2), of n k0] by (simp add: q_def)
    moreover have half: "q * 2 powi k = q * 2 powi k0 / 2" using True by (simp add: k_def power_int_diff)
    ultimately show ?thesis unfolding half by simp
  qed (use bit_length_ratio [OF assms] in \<open>simp add: k_def k0_def q_def\<close>)
  obtain a b where ab: "scale2 n d k = (a, b)" by (cases "scale2 n d k")
  have b: "0 < b" "of_nat a / of_nat b = q * 2 powi k"
    using scale2_pos [OF assms(2), of n k] scale2_frac [OF assms(2), of n k] ab by (auto simp: frac_def q_def)
  have "float_round n d = (div_half_even a b, k)"
    using assms(1) ab unfolding k_def k0_def by (auto simp: float_round_def Let_def split: prod.splits if_splits)
  then have "frac (float_frac (float_round n d)) = of_nat (div_half_even a b) / 2 powi k"
    using scale2_frac [of 1 "div_half_even a b" "- k"] by (simp add: float_frac_def power_int_minus divide_inverse)
  moreover have "\<bar>of_nat (div_half_even a b) / 2 powi k - q\<bar> = \<bar>of_nat (div_half_even a b) - q * 2 powi k\<bar> / 2 powi k"
  proof -
    have "of_nat (div_half_even a b) / 2 powi k - q = (of_nat (div_half_even a b) - q * 2 powi k) / 2 powi k"
      by (simp add: diff_divide_distrib)
    then show ?thesis by (simp only: abs_divide) simp
  qed
  moreover have "\<bar>of_nat (div_half_even a b) - q * 2 powi k\<bar> / 2 powi k \<le> q / 2 ^ 53"
  proof -
    have "\<bar>of_nat (div_half_even a b) - q * 2 powi k\<bar> \<le> 1 / 2" using div_half_even_error [OF b(1), of a] b(2) by simp
    also have "\<dots> \<le> q / 2 ^ 53 * 2 powi k" using low by (simp add: field_simps)
    finally show ?thesis by (simp add: divide_le_eq)
  qed
  ultimately show ?thesis by (simp add: q_def)
qed

text \<open>Rounding changes a number by at most one part in \<open>2 ^ 53\<close>.\<close>

lemma fl_error: "\<bar>fl q - q\<bar> \<le> \<bar>q\<bar> / 2 ^ 53"
proof (cases "q = 0")
  case False
  obtain n d where nd: "quotient_of q = (n, d)" by (cases "quotient_of q")
  have q: "q = of_int n / of_int d" "0 < d" using nd quotient_of_div quotient_of_denom_pos by blast+
  have n: "n \<noteq> 0" using False q by auto
  have "\<bar>frac (float_frac (float_round (nat \<bar>n\<bar>) (nat d))) - \<bar>q\<bar>\<bar> \<le> \<bar>q\<bar> / 2 ^ 53"
    using float_round_error [of "nat \<bar>n\<bar>" "nat d"] n q by (simp add: abs_divide)
  moreover have "\<bar>q\<bar> = (if n < 0 then - q else q)" using q n by (auto simp: divide_less_0_iff zero_less_divide_iff abs_if)
  moreover have "fl q = (if n < 0 then - 1 else 1) * frac (float_frac (float_round (nat \<bar>n\<bar>) (nat d)))" by (simp add: fl_def nd)
  ultimately show ?thesis by (cases "n < 0") (simp_all add: abs_le_iff)
qed simp

end
