(* ===== verification/Spawn_State.thy ===== *)
theory Spawn_State
  imports Py_Float
begin

text \<open>
  The durable state of a mycelium node (mycelium/code/modules/core/state.py) and the world it acts on.

  A process is a function of the durable key-value table, the history of its external calls, the
  in-memory state of the node monitor and a budget of actions. Every write to the table and every
  external call is one action; when the budget is used up the process dies at that point (\<open>Crash\<close>, which
  no handler catches), so that a statement for every budget is a statement for every crash point. The
  answers of the outside world (clock, SporeStack, Bitcoin wallet, the new machine) are functions of the
  whole history and are parameters.
\<close>

section \<open>External calls\<close>

text \<open>
  \<open>purpose\<close> names the call site of a payment or an invoice and the spawn it belongs to; it labels the
  recorded event and has no influence on the call.
\<close>

datatype purpose = Funding json | Inheritance json | TopUp

text \<open>The requests of sporestack_client.py.\<close>

datatype request =
    Get_Info json
  | Post_Invoice purpose json int
  | Get_Quote json json
  | Get_Servers json
  | Get_Token
  | Get_Balance json
  | Post_Server json "(string \<times> json) list"
  | Get_Server json json

text \<open>
  What a process does to the outside world. \<open>Http r made\<close> is a request; \<open>made\<close> tells whether a request for a
  new server had an effect, \<open>Send_Raw p a v reached\<close> whether a payment reached the network: the process
  does not see these flags, it only sees the answers. The environment of a child keeps numbers as they
  are before they are formatted.
\<close>

datatype env_value = EText json | ENumber rat | EInt int

datatype event =
    Read_Clock
  | Sleep int
  | Http request bool
  | Ssh_Keygen string
  | Create_Child_Wallet string
  | Wallet_Update
  | Wallet_Balance
  | Wallet_Transactions
  | Create_Tx json int
  | Send_Raw purpose json int bool
  | Sweep json
  | Remote string "json list"
  | Boot "(string \<times> env_value) list" "(string \<times> json) list"
  | Check_Health bool
  | Gauss
  | Uuid
  | Read_Token_File
  | Start_Spawn string

record wallet_tx =
  wt_is_send :: bool
  wt_outputs :: "(string \<times> int) list"
  wt_txid :: string

record node_state =
  ns_btc_balance_sat :: int
  ns_sporestack_balance_cents :: int
  ns_burn_rate_cents_per_day :: int
  ns_cost_per_day_usd :: rat
  ns_days_remaining :: "int option"
  ns_total_runway_days :: "int option"
  ns_server_expiry_ts :: int
  ns_last_updated :: int
  ns_vps_provider :: json
  ns_vps_region :: json

text \<open>
  The clock counts units of \<open>2 ^ (- 22)\<close> seconds: between 2004 and 2038 the value of \<^verbatim>\<open>time.time()\<close> is a
  double with 22 fractional bits, and differences of two readings are exact. \<open>None\<close> stands for a call that
  fails: for a request any network error, a status other than 200 or a body that is not JSON.
\<close>

record world =
  w_clock :: "event list \<Rightarrow> int"
  w_http :: "event list \<Rightarrow> request \<Rightarrow> json option"
  w_created :: "event list \<Rightarrow> request \<Rightarrow> bool"
  w_keypair :: "event list \<Rightarrow> string \<Rightarrow> (string \<times> string) option"
  w_child_wallet :: "event list \<Rightarrow> string \<Rightarrow> (string \<times> string) option"
  w_update :: "event list \<Rightarrow> bool"
  w_wallet_balance :: "event list \<Rightarrow> int option"
  w_transactions :: "event list \<Rightarrow> wallet_tx list option"
  w_create_tx :: "event list \<Rightarrow> json \<Rightarrow> int \<Rightarrow> (bool \<times> string) option"
  w_send_raw :: "event list \<Rightarrow> json \<Rightarrow> int \<Rightarrow> json option"
  w_reaches :: "event list \<Rightarrow> json \<Rightarrow> int \<Rightarrow> bool"
  w_sweep :: "event list \<Rightarrow> json \<Rightarrow> string option"
  w_remote :: "event list \<Rightarrow> string \<Rightarrow> json list \<Rightarrow> bool"
  w_health :: "event list \<Rightarrow> bool option"
  w_gauss :: "event list \<Rightarrow> rat \<Rightarrow> rat"
  w_uuid :: "event list \<Rightarrow> string"
  w_token_file :: "event list \<Rightarrow> string option"
  w_monitor :: "event list \<Rightarrow> node_state option"

section \<open>Processes\<close>

text \<open>
  \<open>SpawnError step message\<close> is the exception of spawning/errors.py, \<open>LibError\<close> any exception of a library.
\<close>

datatype proc_exn = SpawnError string string | PyExn py_exn | LibError string | Crash

record node_process =
  np_table :: "string \<Rightarrow> json option"
  np_history :: "event list"
  np_monitor :: node_state
  np_budget :: nat

type_synonym 'r proc = "(node_process, proc_exn, 'r) sm"

text \<open>One external call: the world answers from the history before it.\<close>

definition external :: "(event list \<Rightarrow> event) \<Rightarrow> (event list \<Rightarrow> 'r) \<Rightarrow> 'r proc" where
  "external ev answer = (\<lambda>s.
     if np_budget s = 0 then (Inl Crash, s)
     else (Inr (answer (np_history s)),
           s\<lparr>np_history := np_history s @ [ev (np_history s)], np_budget := np_budget s - 1\<rparr>))"

text \<open>One committed transaction on the table.\<close>

definition commit_table :: "((string \<Rightarrow> json option) \<Rightarrow> string \<Rightarrow> json option) \<Rightarrow> unit proc" where
  "commit_table f = (\<lambda>s.
     if np_budget s = 0 then (Inl Crash, s)
     else (Inr (), s\<lparr>np_table := f (np_table s), np_budget := np_budget s - 1\<rparr>))"

definition read_table :: "((string \<Rightarrow> json option) \<Rightarrow> 'r) \<Rightarrow> 'r proc" where
  "read_table f = (\<lambda>s. (Inr (f (np_table s)), s))"

definition lift_py :: "'r res \<Rightarrow> 'r proc" where
  "lift_py r = (case r of Inl e \<Rightarrow> sraise (PyExn e) | Inr x \<Rightarrow> sreturn x)"

text \<open>\<^verbatim>\<open>except Exception as e\<close>: every exception but the death of the process.\<close>

definition catch_all :: "'r proc \<Rightarrow> (proc_exn \<Rightarrow> 'r proc) \<Rightarrow> 'r proc" where
  "catch_all m h = scatch m (\<lambda>e. if e = Crash then None else Some (h e))"

text \<open>A library call that raises when the world answers \<open>None\<close>.\<close>

definition or_raise :: "string \<Rightarrow> 'r option proc \<Rightarrow> 'r proc" where
  "or_raise msg m = sbind m (\<lambda>v. case v of None \<Rightarrow> sraise (LibError msg) | Some x \<Rightarrow> sreturn x)"

definition read_clock :: "world \<Rightarrow> int proc" where
  "read_clock w = external (\<lambda>h. Read_Clock) (w_clock w)"

definition sleep :: "int \<Rightarrow> unit proc" where
  "sleep secs = external (\<lambda>h. Sleep secs) (\<lambda>h. ())"

text \<open>Seconds in units of the clock, \<^verbatim>\<open>int(time.time())\<close>, and the JSON form of a reading.\<close>

definition seconds :: "int \<Rightarrow> int" where "seconds n = n * 2 ^ 22"

definition whole_seconds :: "int \<Rightarrow> int" where "whole_seconds t = t div 2 ^ 22"

definition time_json :: "int \<Rightarrow> json" where
  "time_json t = JFloat (Fin (t < 0) (nat \<bar>t\<bar> * 5 ^ 22) (- 22))"

text \<open>
  A loop that repeats its body until it gives a result. Every round of the loops of the source performs an
  action, so the budget bounds the number of rounds; \<open>poll_unfold\<close> below is the equation of the loop.
\<close>

primrec poll_rounds :: "nat \<Rightarrow> 'r option proc \<Rightarrow> 'r proc" where
  "poll_rounds 0 body = sraise Crash"
| "poll_rounds (Suc n) body = sbind body (\<lambda>v. case v of Some r \<Rightarrow> sreturn r | None \<Rightarrow> poll_rounds n body)"

definition poll :: "'r option proc \<Rightarrow> 'r proc" where
  "poll body = (\<lambda>s. poll_rounds (Suc (np_budget s)) body s)"

section \<open>Decoded values\<close>

text \<open>\<^verbatim>\<open>v.get(key, d)\<close> and \<^verbatim>\<open>v[key]\<close> on a decoded value that may not be a dictionary.\<close>

definition dict_get :: "string \<Rightarrow> json \<Rightarrow> json \<Rightarrow> json proc" where
  "dict_get key d v = (case v of JObj m \<Rightarrow> sreturn (jget key m d) | _ \<Rightarrow> sraise (PyExn (AttributeError ''get'')))"

definition dict_item :: "string \<Rightarrow> json \<Rightarrow> json proc" where
  "dict_item key v = (case v of
     JObj m \<Rightarrow> (case map_of m key of None \<Rightarrow> sraise (PyExn (KeyError key)) | Some x \<Rightarrow> sreturn x)
   | _ \<Rightarrow> sraise (PyExn (TypeError ''not subscriptable'')))"

text \<open>\<^verbatim>\<open>v or d\<close>.\<close>

definition py_or :: "json \<Rightarrow> json \<Rightarrow> json" where
  "py_or v d = (if truthy v then v else d)"

text \<open>\<^verbatim>\<open>blob and blob.get("spawn_id") == spawn_id\<close>.\<close>

definition matches_spawn :: "json \<Rightarrow> json \<Rightarrow> bool proc" where
  "matches_spawn blob spawn_id =
     (if truthy blob then sbind (dict_get ''spawn_id'' JNull blob) (\<lambda>v. sreturn (json_eq v spawn_id))
      else sreturn False)"

section \<open>NodePersistentState\<close>

definition kv_get :: "string \<Rightarrow> json \<Rightarrow> (string \<Rightarrow> json option) \<Rightarrow> json" where
  "kv_get key dflt t = (case t key of None \<Rightarrow> dflt | Some v \<Rightarrow> v)"

definition kv_set :: "string \<Rightarrow> json \<Rightarrow> unit proc" where
  "kv_set key v = commit_table (\<lambda>t. t(key \<mapsto> v))"

definition kv_delete :: "string \<Rightarrow> unit proc" where
  "kv_delete key = commit_table (\<lambda>t. t(key := None))"

text \<open>\<^verbatim>\<open>float(v)\<close>; infinities and NaN are outside the floats of Py_Float and count as an error.\<close>

fun decimal_float :: "decimal \<Rightarrow> rat res" where
  "decimal_float (Fin neg c e) =
     Inr (fl ((if neg then - 1 else 1) * of_nat c * (if 0 \<le> e then 10 ^ nat e else 1 / 10 ^ nat (- e))))"
| "decimal_float d = Inl (ValueError ''not a finite number'')"

definition json_float :: "json \<Rightarrow> rat res" where
  "json_float v = (case v of
     JStr s \<Rightarrow> (case float_of_string s of None \<Rightarrow> Inl (ValueError ''could not convert string to float'') | Some d \<Rightarrow> decimal_float d)
   | _ \<Rightarrow> (case json_num v of None \<Rightarrow> Inl (TypeError ''float() argument'') | Some d \<Rightarrow> decimal_float d))"

definition get_caution_trait :: "(string \<Rightarrow> json option) \<Rightarrow> rat res" where
  "get_caution_trait t = json_float (kv_get ''caution_trait'' (JFloat (Fin False 5 (- 1))) t)"

definition set_caution_trait :: "decimal \<Rightarrow> unit proc" where
  "set_caution_trait v = kv_set ''caution_trait'' (JFloat v)"

definition is_spawn_in_progress :: "(string \<Rightarrow> json option) \<Rightarrow> bool" where
  "is_spawn_in_progress t = truthy (kv_get ''spawn_in_progress'' (JBool False) t)"

definition get_spawn_id :: "(json \<Rightarrow> string) \<Rightarrow> (string \<Rightarrow> json option) \<Rightarrow> string" where
  "get_spawn_id py_repr t = py_str py_repr (kv_get ''spawn_id'' (JStr []) t)"

definition get_spawn_started_at :: "(string \<Rightarrow> json option) \<Rightarrow> rat res" where
  "get_spawn_started_at t = json_float (py_or (kv_get ''spawn_started_at'' (JInt 0) t) (JInt 0))"

definition is_failsafe_in_progress :: "(string \<Rightarrow> json option) \<Rightarrow> bool" where
  "is_failsafe_in_progress t = truthy (kv_get ''failsafe_in_progress'' (JBool False) t)"

definition mark_failsafe_started :: "unit proc" where
  "mark_failsafe_started = kv_set ''failsafe_in_progress'' (JBool True)"

definition mark_failsafe_completed :: "unit proc" where
  "mark_failsafe_completed = kv_set ''failsafe_in_progress'' (JBool False)"

text \<open>The three writes are one transaction. The event records that the spawn is about to start.\<close>

definition mark_spawn_started :: "world \<Rightarrow> string \<Rightarrow> unit proc" where
  "mark_spawn_started w spawn_id =
     sbind (external (\<lambda>h. Start_Spawn spawn_id) (w_clock w)) (\<lambda>now.
     commit_table (\<lambda>t. t(''spawn_in_progress'' \<mapsto> JBool True, ''spawn_id'' \<mapsto> JStr spawn_id,
       ''spawn_started_at'' \<mapsto> time_json now)))"

definition SPAWN_KEYS_TO_CLEAR :: "string list" where
  "SPAWN_KEYS_TO_CLEAR = [''spawn_id'', ''spawn_started_at'', ''spawn_identity'', ''spawn_vps_info'',
     ''spawn_child_wallet'', ''spawn_sporestack_token'', ''spawn_funding_intent'', ''spawn_funding_txid'',
     ''spawn_funding_attempts'', ''spawn_vps_intent'', ''spawn_transfer_intent'', ''spawn_transfer_txid'']"

definition clear_keys :: "string list \<Rightarrow> (string \<Rightarrow> json option) \<Rightarrow> string \<Rightarrow> json option" where
  "clear_keys ks t = (\<lambda>k. if k \<in> set ks then None else t k)"

text \<open>
  The history list is read and extended before the transaction; removing the directory of the spawn
  afterwards is not modelled (its errors are only logged).
\<close>

definition mark_spawn_completed :: "(json \<Rightarrow> string) \<Rightarrow> world \<Rightarrow> bool \<Rightarrow> json \<Rightarrow> unit proc" where
  "mark_spawn_completed py_repr w success child_btc_address =
     (if success then
        sbind (read_table (\<lambda>t. (get_spawn_id py_repr t, kv_get ''spawn_started_at'' (JInt 0) t, kv_get ''spawn_history'' (JList []) t)))
          (\<lambda>(spawn_id, started_at, history).
        sbind (read_clock w) (\<lambda>now.
        case history of
          JList l \<Rightarrow>
            commit_table (\<lambda>t. clear_keys SPAWN_KEYS_TO_CLEAR (t(''spawn_in_progress'' \<mapsto> JBool False,
              ''spawn_history'' \<mapsto> JList (l @ [JObj [(''spawn_id'', JStr spawn_id), (''child_btc_address'', child_btc_address),
                (''started_at'', started_at), (''completed_at'', time_json now), (''success'', JBool True)]]))))
        | _ \<Rightarrow> sraise (PyExn (AttributeError ''append''))))
      else commit_table (\<lambda>t. clear_keys SPAWN_KEYS_TO_CLEAR (t(''spawn_in_progress'' \<mapsto> JBool False))))"

section \<open>Reasoning about processes\<close>

text \<open>
  \<open>triple I P f Q\<close>: from a state with \<open>P\<close> the process \<open>f\<close> reaches a state with \<open>I\<close> whatever way it ends (by a
  result, an exception or its death), and if it returns \<open>x\<close> the state has \<open>Q x\<close>. The rules follow the
  structure of a process down to its actions.
\<close>

definition triple :: "('s \<Rightarrow> bool) \<Rightarrow> ('s \<Rightarrow> bool) \<Rightarrow> ('s, 'e, 'r) sm \<Rightarrow> ('r \<Rightarrow> 's \<Rightarrow> bool) \<Rightarrow> bool" where
  "triple I P f Q \<longleftrightarrow> (\<forall>s. P s \<longrightarrow> I (snd (f s)) \<and> (\<forall>x. fst (f s) = Inr x \<longrightarrow> Q x (snd (f s))))"

text \<open>\<open>keeps P f\<close>: a state with \<open>P\<close> is left in a state with \<open>P\<close>.\<close>

abbreviation keeps :: "('s \<Rightarrow> bool) \<Rightarrow> ('s, 'e, 'r) sm \<Rightarrow> bool" where
  "keeps P f \<equiv> triple P P f (\<lambda>_. P)"

named_theorems triple_rules \<open>rules for \<open>triple\<close> by the structure of a process\<close>

lemma tripleI:
  "(\<And>s r s'. P s \<Longrightarrow> f s = (r, s') \<Longrightarrow> I s' \<and> (\<forall>x. r = Inr x \<longrightarrow> Q x s')) \<Longrightarrow> triple I P f Q"
  unfolding triple_def by (metis prod.collapse)

lemma tripleD: "triple I P f Q \<Longrightarrow> P s \<Longrightarrow> f s = (r, s') \<Longrightarrow> I s' \<and> (\<forall>x. r = Inr x \<longrightarrow> Q x s')"
  unfolding triple_def by (metis fst_conv snd_conv)

lemma triple_weaken:
  "triple I P f Q \<Longrightarrow> (\<And>s. P' s \<Longrightarrow> P s) \<Longrightarrow> (\<And>x s. Q x s \<Longrightarrow> Q' x s) \<Longrightarrow> triple I P' f Q'"
  unfolding triple_def by blast

lemma triple_strengthen: "triple I P f Q \<Longrightarrow> triple I P f (\<lambda>x s. Q x s \<and> I s)"
  unfolding triple_def by blast

lemma triple_sbind [triple_rules]:
  assumes m: "triple I P m R" and f: "\<And>x. triple I (R x) (f x) Q"
  shows "triple I P (sbind m f) Q"
proof (rule tripleI)
  fix s r s' assume s: "P s" and r: "sbind m f s = (r, s')"
  obtain q s1 where q: "m s = (q, s1)" by (cases "m s")
  show "I s' \<and> (\<forall>x. r = Inr x \<longrightarrow> Q x s')" using tripleD [OF m s q] r q tripleD [OF f]
    by (cases q) (auto simp: sbind_def)
qed

lemma triple_catch_all [triple_rules]:
  assumes m: "triple I P m Q" and h: "\<And>e. triple I I (h e) Q"
  shows "triple I P (catch_all m h) Q"
proof (rule tripleI)
  fix s r s' assume s: "P s" and r: "catch_all m h s = (r, s')"
  obtain q s1 where q: "m s = (q, s1)" by (cases "m s")
  show "I s' \<and> (\<forall>x. r = Inr x \<longrightarrow> Q x s')" using tripleD [OF m s q] r q tripleD [OF h]
    by (cases q) (auto simp: catch_all_def scatch_def split: if_splits)
qed

lemma triple_if [triple_rules]:
  "(c \<Longrightarrow> triple I P a Q) \<Longrightarrow> (\<not> c \<Longrightarrow> triple I P b Q) \<Longrightarrow> triple I P (if c then a else b) Q"
  by simp

lemma triple_case_option [triple_rules]:
  "(v = None \<Longrightarrow> triple I P a Q) \<Longrightarrow> (\<And>x. v = Some x \<Longrightarrow> triple I P (b x) Q) \<Longrightarrow>
   triple I P (case v of None \<Rightarrow> a | Some x \<Rightarrow> b x) Q"
  by (cases v) auto

lemma triple_case_prod [triple_rules]:
  "(\<And>x y. v = (x, y) \<Longrightarrow> triple I P (f x y) Q) \<Longrightarrow> triple I P (case v of (x, y) \<Rightarrow> f x y) Q"
  by (cases v) auto

lemma triple_let [triple_rules]: "(\<And>x. x = v \<Longrightarrow> triple I P (f x) Q) \<Longrightarrow> triple I P (let x = v in f x) Q"
  by simp

text \<open>Weaker and stronger conditions, results, and processes that leave the state alone.\<close>

lemma triple_I: "triple J P f Q \<Longrightarrow> (\<And>s. J s \<Longrightarrow> J' s) \<Longrightarrow> triple J' P f Q"
  unfolding triple_def by blast

lemma triple_post:
  "keeps P f \<Longrightarrow> (\<And>s x s'. f s = (Inr x, s') \<Longrightarrow> R s') \<Longrightarrow> triple P P f (\<lambda>_ s. P s \<and> R s)"
  unfolding triple_def by (metis prod.collapse)

lemma triple_still: "(\<And>s. snd (f s) = s) \<Longrightarrow> (\<And>s. P s \<Longrightarrow> J s) \<Longrightarrow> triple J P f (\<lambda>_. P)"
  by (simp add: triple_def)

lemma triple_conj:
  "triple I P f Q \<Longrightarrow> triple I' P' f Q' \<Longrightarrow> triple (\<lambda>s. I s \<and> I' s) (\<lambda>s. P s \<and> P' s) f (\<lambda>x s. Q x s \<and> Q' x s)"
  unfolding triple_def by blast

lemma triple_returns:
  "triple I P f Q \<Longrightarrow> (\<And>s x s'. f s = (Inr x, s') \<Longrightarrow> R x) \<Longrightarrow> triple I P f (\<lambda>x s. Q x s \<and> R x)"
  unfolding triple_def by (metis prod.collapse)

lemma triple_True: "triple I P f Q \<Longrightarrow> triple (\<lambda>s. True) P f Q"
  by (simp add: triple_def)

lemma triple_static:
  assumes "\<And>s. snd (f s) = s" and "\<And>s. P s \<Longrightarrow> I s"
  shows "triple I P f (\<lambda>x s. P s \<and> f s = (Inr x, s))"
  using assms by (auto simp: triple_def) (metis prod.collapse)

text \<open>Steps without an action.\<close>

lemma triple_return: "(\<And>s. P s \<Longrightarrow> I s \<and> Q x s) \<Longrightarrow> triple I P (sreturn x) Q"
  by (simp add: triple_def)

lemma triple_raise: "(\<And>s. P s \<Longrightarrow> I s) \<Longrightarrow> triple I P (sraise e) Q"
  by (simp add: triple_def)

lemma triple_Pair [simp]:
  "triple I P (Pair (Inl e)) Q \<longleftrightarrow> (\<forall>s. P s \<longrightarrow> I s)"
  "triple I P (Pair (Inr x)) Q \<longleftrightarrow> (\<forall>s. P s \<longrightarrow> I s \<and> Q x s)"
  by (auto simp: triple_def)

lemma triple_read: "(\<And>s. P s \<Longrightarrow> I s) \<Longrightarrow> triple I P (read_table g) (\<lambda>x s. P s \<and> x = g (np_table s))"
  by (simp add: triple_def read_table_def)

lemma triple_lift_py: "(\<And>s. P s \<Longrightarrow> I s) \<Longrightarrow> triple I P (lift_py v) (\<lambda>x s. P s \<and> v = Inr x)"
  by (cases v) (simp_all add: triple_def lift_py_def)

text \<open>Conditions that a process keeps.\<close>

named_theorems keeps_rules \<open>rules for \<open>keeps\<close> by the structure of a process\<close>

lemma keeps_sbind [keeps_rules]: "keeps P m \<Longrightarrow> (\<And>x. keeps P (f x)) \<Longrightarrow> keeps P (sbind m f)"
  by (rule triple_sbind)

lemma keeps_catch_all [keeps_rules]: "keeps P m \<Longrightarrow> (\<And>e. keeps P (h e)) \<Longrightarrow> keeps P (catch_all m h)"
  by (rule triple_catch_all)

lemma keeps_pure [keeps_rules]:
  "keeps P (sreturn x)" "keeps P (sraise e)" "keeps P (swhen_raise b e)" "keeps P (read_table g)" "keeps P (lift_py r)"
  by (auto simp: triple_def swhen_raise_def read_table_def lift_py_def split: sum.splits)

lemma keeps_if [keeps_rules]: "keeps P a \<Longrightarrow> keeps P b \<Longrightarrow> keeps P (if c then a else b)"
  by simp

lemma keeps_option [keeps_rules]: "keeps P a \<Longrightarrow> (\<And>x. keeps P (b x)) \<Longrightarrow> keeps P (case v of None \<Rightarrow> a | Some x \<Rightarrow> b x)"
  by (cases v) auto

lemma keeps_prod [keeps_rules]: "(\<And>x y. keeps P (f x y)) \<Longrightarrow> keeps P (case v of (x, y) \<Rightarrow> f x y)"
  by (cases v) auto

lemma keeps_let [keeps_rules]: "(\<And>x. keeps P (f x)) \<Longrightarrow> keeps P (let x = v in f x)"
  by simp

text \<open>Actions.\<close>

lemma triple_external:
  "(\<And>s. P s \<Longrightarrow> I s) \<Longrightarrow>
   (\<And>s. P s \<Longrightarrow> I (s\<lparr>np_history := np_history s @ [ev (np_history s)], np_budget := np_budget s - 1\<rparr>)
      \<and> Q (answer (np_history s)) (s\<lparr>np_history := np_history s @ [ev (np_history s)], np_budget := np_budget s - 1\<rparr>)) \<Longrightarrow>
   triple I P (external ev answer) Q"
  by (auto simp: triple_def external_def)

lemma triple_commit:
  "(\<And>s. P s \<Longrightarrow> I s) \<Longrightarrow>
   (\<And>s. P s \<Longrightarrow> I (s\<lparr>np_table := f (np_table s), np_budget := np_budget s - 1\<rparr>)
      \<and> Q () (s\<lparr>np_table := f (np_table s), np_budget := np_budget s - 1\<rparr>)) \<Longrightarrow>
   triple I P (commit_table f) Q"
  by (auto simp: triple_def commit_table_def)

lemma triple_poll:
  assumes body: "triple I P body (\<lambda>v s. case v of None \<Rightarrow> P s | Some x \<Rightarrow> Q x s)" and "\<And>s. P s \<Longrightarrow> I s"
  shows "triple I P (poll body) Q"
proof -
  have "triple I P (poll_rounds n body) Q" for n
  proof (induction n)
    case 0
    show ?case unfolding poll_rounds.simps using assms(2) by (rule triple_raise)
  next
    case (Suc n)
    have "triple I (\<lambda>s. (case v of None \<Rightarrow> P s | Some x \<Rightarrow> Q x s) \<and> I s)
          (case v of Some r \<Rightarrow> sreturn r | None \<Rightarrow> poll_rounds n body) Q" for v
      using Suc by (cases v) (auto intro: triple_return triple_weaken)
    then show ?case unfolding poll_rounds.simps by (rule triple_sbind [OF triple_strengthen [OF body]])
  qed
  then show ?thesis unfolding triple_def poll_def by blast
qed

text \<open>The equation of a loop whose rounds all act, and whose budget therefore suffices.\<close>

lemma poll_rounds_enough:
  assumes "\<And>s s'. body s = (Inr None, s') \<Longrightarrow> np_budget s' < np_budget s"
  shows "np_budget s < n \<Longrightarrow> np_budget s < m \<Longrightarrow> poll_rounds n body s = poll_rounds m body s"
proof (induction n arbitrary: m s)
  case 0
  then show ?case by simp
next
  case (Suc n)
  then obtain k where m: "m = Suc k" by (cases m) auto
  obtain r s' where body: "body s = (r, s')" by (cases "body s")
  show ?case
  proof (cases "r = Inr None")
    case True
    then have "np_budget s' < np_budget s" using assms body by simp
    then have "poll_rounds n body s' = poll_rounds k body s'" using Suc.prems m by (intro Suc.IH) auto
    then show ?thesis using body True by (simp add: m sbind_def)
  next
    case False
    then show ?thesis using body by (cases r) (auto simp: m sbind_def split: option.splits)
  qed
qed

lemma poll_unfold:
  assumes "\<And>s s'. body s = (Inr None, s') \<Longrightarrow> np_budget s' < np_budget s"
  shows "poll body = sbind body (\<lambda>v. case v of Some r \<Rightarrow> sreturn r | None \<Rightarrow> poll body)"
proof
  fix s
  obtain r s' where body: "body s = (r, s')" by (cases "body s")
  show "poll body s = sbind body (\<lambda>v. case v of Some r \<Rightarrow> sreturn r | None \<Rightarrow> poll body) s"
  proof (cases "r = Inr None")
    case True
    then have "np_budget s' < np_budget s" using assms body by simp
    then have "poll_rounds (np_budget s) body s' = poll_rounds (Suc (np_budget s')) body s'"
      by (intro poll_rounds_enough [where body = body]) (auto intro: assms)
    then show ?thesis using body True by (simp add: poll_def sbind_def)
  next
    case False
    then show ?thesis using body by (cases r) (auto simp: poll_def sbind_def split: option.splits)
  qed
qed

end
