(* ===== verification/Spawn_Wallet.thy ===== *)
theory Spawn_Wallet
  imports Spawn_State
begin

text \<open>
  The configuration of a mycelium node (mycelium/code/config.py), its Bitcoin wallet
  (modules/core/wallet.py) and the client of the SporeStack API (modules/monitoring/sporestack_client.py),
  in production mode (\<^verbatim>\<open>SIM_MODE\<close> is false). bitcoinlib, HTTP and the servers behind them are the world.
\<close>

section \<open>Configuration\<close>

text \<open>
  \<open>mc_wallet\<close> tells whether \<^verbatim>\<open>initialize_wallet\<close> found a wallet. The initial caution trait is the decimal that
  \<^verbatim>\<open>json.dumps\<close> prints for it.
\<close>

record mconfig =
  mc_friendly_name :: string
  mc_log_endpoint :: string
  mc_log_secret :: string
  mc_default_btc_address :: string
  mc_initial_caution_trait :: decimal
  mc_caution_mutation_sigma :: rat
  mc_caution_trait_min :: rat
  mc_caution_trait_max :: rat
  mc_caution_trait_target :: rat
  mc_caution_mean_reversion :: rat
  mc_spawn_threshold_days :: int
  mc_inheritance_ratio :: rat
  mc_spawn_fee_buffer_sat :: int
  mc_sporestack_min_invoice_dollars :: int
  mc_failsafe_trigger_days :: int
  mc_topup_trigger_days :: int
  mc_topup_target_days :: int
  mc_max_spawn_duration :: int
  mc_vps_provider :: string
  mc_vps_flavor :: string
  mc_vps_region :: string
  mc_vps_os :: string
  mc_vps_days :: int
  mc_vps_billing_cycle :: string
  mc_vps_monthly_cost_cents :: int
  mc_btc_usd_rate :: rat
  mc_whoami_gossip_cooldown :: int
  mc_data_dir :: string
  mc_wallet :: bool

section \<open>Payment URIs\<close>

text \<open>\<^verbatim>\<open>s.split(sep)\<close> for a one-character separator.\<close>

fun split_on :: "char \<Rightarrow> string \<Rightarrow> string list" where
  "split_on c [] = [[]]"
| "split_on c (x # xs) =
     (if x = c then [] # split_on c xs else (case split_on c xs of p # ps \<Rightarrow> (x # p) # ps | [] \<Rightarrow> [[x]]))"

definition amount_param :: "string list \<Rightarrow> string option" where
  "amount_param parts = (if 1 < length parts
     then map_option (drop 7) (find (starts_with ''amount='') (split_on CHR ''&'' (parts ! 1))) else None)"

definition parse_bitcoin_uri :: "json \<Rightarrow> (string \<times> int) option res" where
  "parse_bitcoin_uri uri = (case uri of
     JStr u \<Rightarrow>
       if \<not> starts_with ''bitcoin:'' u then Inr None
       else let parts = split_on CHR ''?'' (drop 8 u); address = hd parts in
         (case amount_param parts of
            None \<Rightarrow> Inr None
          | Some amount_btc_str \<Rightarrow>
              if address = [] then Inr None
              else (case dec_of_string amount_btc_str of
                 None \<Rightarrow> Inl (InvalidOperation ''invalid decimal'')
               | Some d \<Rightarrow> rbind (dec_mult d (Fin False 100000000 0)) (\<lambda>p.
                   rbind (dec_to_int p) (\<lambda>sat. Inr (Some (address, sat))))))
   | _ \<Rightarrow> Inl (AttributeError ''startswith''))"

section \<open>SpendingWallet\<close>

definition get_balance_satoshis :: "world \<Rightarrow> int proc" where
  "get_balance_satoshis w = or_raise ''balance'' (external (\<lambda>h. Wallet_Balance) (w_wallet_balance w))"

text \<open>\<^verbatim>\<open>scan\<close>: the resynchronisation of bitcoinlib is one call that may raise; the balance is read for the log.\<close>

definition scan :: "world \<Rightarrow> unit proc" where
  "scan w = sbind (external (\<lambda>h. Wallet_Update) (w_update w)) (\<lambda>ok.
     if \<not> ok then sraise (LibError ''utxos_update'')
     else sbind (get_balance_satoshis w) (\<lambda>_. sreturn ()))"

definition sign_transaction :: "world \<Rightarrow> json \<Rightarrow> int \<Rightarrow> string proc" where
  "sign_transaction w address amount_satoshis =
     sbind (get_balance_satoshis w) (\<lambda>balance.
     if balance < amount_satoshis then sraise (LibError ''Insufficient funds'')
     else sbind (or_raise ''send_to'' (external (\<lambda>h. Create_Tx address amount_satoshis)
                   (\<lambda>h. w_create_tx w h address amount_satoshis))) (\<lambda>(verified, txid).
       if \<not> verified then sraise (LibError ''Transaction verification failed'') else sreturn txid))"

text \<open>\<open>p\<close> labels the event of the broadcast.\<close>

definition send :: "world \<Rightarrow> purpose \<Rightarrow> json \<Rightarrow> int \<Rightarrow> string proc" where
  "send w p address amount_satoshis =
     sbind (sign_transaction w address amount_satoshis) (\<lambda>txid.
     sbind (or_raise ''sendrawtransaction''
             (external (\<lambda>h. Send_Raw p address amount_satoshis (w_reaches w h address amount_satoshis))
               (\<lambda>h. w_send_raw w h address amount_satoshis))) (\<lambda>result.
     sbind (if truthy result then dict_get ''txid'' JNull result else sreturn JNull) (\<lambda>sent.
     if truthy sent then sreturn txid else sraise (LibError ''Broadcast failed''))))"

definition sweep_all :: "world \<Rightarrow> json \<Rightarrow> string proc" where
  "sweep_all w address = or_raise ''Sweep failed'' (external (\<lambda>h. Sweep address) (\<lambda>h. w_sweep w h address))"

section \<open>Reconciliation with the wallet history\<close>

definition RECONCILE_POLL_TIMEOUT_SECONDS :: int where "RECONCILE_POLL_TIMEOUT_SECONDS = 90"
definition RECONCILE_POLL_INTERVAL_SECONDS :: int where "RECONCILE_POLL_INTERVAL_SECONDS = 10"

definition pays :: "json \<Rightarrow> int \<Rightarrow> wallet_tx \<Rightarrow> bool" where
  "pays address amount_sat tx \<longleftrightarrow>
     wt_is_send tx \<and> list_ex (\<lambda>(a, v). JStr a = address \<and> v = amount_sat) (wt_outputs tx) \<and> wt_txid tx \<noteq> []"

definition scan_for_prior_send :: "world \<Rightarrow> json \<Rightarrow> int \<Rightarrow> string option proc" where
  "scan_for_prior_send w address amount_sat =
     sbind (external (\<lambda>h. Wallet_Update) (w_update w)) (\<lambda>_.
     sbind (external (\<lambda>h. Wallet_Transactions) (w_transactions w)) (\<lambda>txs.
     sreturn (case txs of None \<Rightarrow> None | Some l \<Rightarrow> map_option wt_txid (find (pays address amount_sat) l))))"

definition find_prior_send :: "world \<Rightarrow> json \<Rightarrow> int \<Rightarrow> string option proc" where
  "find_prior_send w address amount_sat =
     sbind (read_clock w) (\<lambda>start.
     poll (sbind (scan_for_prior_send w address amount_sat) (\<lambda>txid.
       if txid \<noteq> None then sreturn (Some txid)
       else sbind (read_clock w) (\<lambda>now.
         if seconds RECONCILE_POLL_TIMEOUT_SECONDS \<le> now - start then sreturn (Some None)
         else sbind (sleep RECONCILE_POLL_INTERVAL_SECONDS) (\<lambda>_. sreturn None)))))"

section \<open>SporeStack\<close>

text \<open>A request; a failure gives \<^verbatim>\<open>None\<close>, which is the value \<open>JNull\<close>.\<close>

definition http :: "world \<Rightarrow> request \<Rightarrow> json option proc" where
  "http w r = external (\<lambda>h. Http r (w_created w h r)) (\<lambda>h. w_http w h r)"

definition http_json :: "world \<Rightarrow> request \<Rightarrow> json proc" where
  "http_json w r = sbind (http w r) (\<lambda>v. sreturn (case v of None \<Rightarrow> JNull | Some j \<Rightarrow> j))"

definition get_info :: "world \<Rightarrow> json \<Rightarrow> json proc" where
  "get_info w token = http_json w (Get_Info token)"

definition create_invoice :: "world \<Rightarrow> purpose \<Rightarrow> json \<Rightarrow> int \<Rightarrow> json proc" where
  "create_invoice w p token dollars = http_json w (Post_Invoice p token dollars)"

definition get_balance :: "world \<Rightarrow> json \<Rightarrow> json proc" where
  "get_balance w token = http_json w (Get_Balance token)"

definition int_field :: "string \<Rightarrow> json \<Rightarrow> json \<Rightarrow> int proc" where
  "int_field key d v = sbind (dict_get key d v) (\<lambda>x. lift_py (py_int_of x))"

definition calculate_monthly_vps_cost :: "mconfig \<Rightarrow> world \<Rightarrow> json \<Rightarrow> json \<Rightarrow> int proc" where
  "calculate_monthly_vps_cost c w flavor provider =
     catch_all (sbind (or_raise ''quote'' (http w (Get_Quote flavor provider))) (\<lambda>data.
         sbind (int_field ''cents'' (JInt 0) data) (\<lambda>cents.
         sreturn (if 0 < cents then cents else mc_vps_monthly_cost_cents c))))
       (\<lambda>_. sreturn (mc_vps_monthly_cost_cents c))"

definition get_servers :: "world \<Rightarrow> json \<Rightarrow> json proc" where
  "get_servers w token =
     sbind (or_raise ''SporeStackError'' (http w (Get_Servers token))) (\<lambda>data.
     sbind (dict_get ''servers'' JNull data) (\<lambda>servers. sreturn (py_or servers (JList []))))"

text \<open>The body of the answer is text.\<close>

definition generate_token :: "world \<Rightarrow> json proc" where
  "generate_token w = sbind (http_json w Get_Token) (\<lambda>v.
     sreturn (case v of JStr s \<Rightarrow> JStr (strip s) | _ \<Rightarrow> JNull))"

definition launch_payload :: "mconfig \<Rightarrow> json \<Rightarrow> json \<Rightarrow> (string \<times> json) list" where
  "launch_payload c ssh_key hostname =
     [(''flavor'', JStr (mc_vps_flavor c)), (''ssh_key'', ssh_key), (''operating_system'', JStr (mc_vps_os c)),
      (''provider'', JStr (mc_vps_provider c)), (''billing_cycle'', JStr (mc_vps_billing_cycle c)),
      (''region'', JStr (mc_vps_region c)), (''days'', JInt (mc_vps_days c))]
     @ (if truthy hostname then [(''hostname'', hostname)] else []) @ [(''autorenew'', JBool True)]"

definition launch_server :: "mconfig \<Rightarrow> world \<Rightarrow> json \<Rightarrow> json \<Rightarrow> json \<Rightarrow> json proc" where
  "launch_server c w token ssh_key hostname =
     catch_all (sbind (or_raise ''launch'' (http w (Post_Server token (launch_payload c ssh_key hostname)))) (\<lambda>response.
         dict_get ''machine_id'' JNull response))
       (\<lambda>_. sreturn JNull)"

definition get_server :: "world \<Rightarrow> json \<Rightarrow> json \<Rightarrow> json proc" where
  "get_server w token machine_id = http_json w (Get_Server token machine_id)"

definition usable_ipv4 :: "json \<Rightarrow> bool" where
  "usable_ipv4 v \<longleftrightarrow> truthy v \<and> v \<noteq> JStr ''0.0.0.0''"

definition usable_ipv6 :: "json \<Rightarrow> bool" where
  "usable_ipv6 v \<longleftrightarrow> truthy v \<and> v \<noteq> JStr '''' \<and> v \<noteq> JStr ''::''"

definition wait_for_server_ready :: "world \<Rightarrow> json \<Rightarrow> json \<Rightarrow> json proc" where
  "wait_for_server_ready w token machine_id =
     sbind (read_clock w) (\<lambda>start.
     poll (sbind (read_clock w) (\<lambda>now.
       if seconds 300 \<le> now - start then sreturn (Some JNull)
       else sbind (get_server w token machine_id) (\<lambda>server.
         sbind (if truthy server then
             sbind (dict_get ''ipv4'' JNull server) (\<lambda>ipv4.
             sbind (dict_get ''ipv6'' JNull server) (\<lambda>ipv6.
             sreturn (usable_ipv4 ipv4 \<or> usable_ipv6 ipv6)))
           else sreturn False) (\<lambda>ready.
         if ready then sreturn (Some server)
         else sbind (sleep 10) (\<lambda>_. sreturn None))))))"

end
