(* ===== verification/Spawn_Economy.thy ===== *)
theory Spawn_Economy
  imports Spawn_Wallet "HOL-Library.AList"
begin

text \<open>
  The finances of a mycelium node: the monitor that values its funds (modules/monitoring/node_monitor.py),
  the rules for having a child (modules/orchestration/spawn_thresholds.py), and the registry and gossip of
  the fleet (modules/monitoring/peer_registry.py, modules/seeding/liberation_community.py).
\<close>

section \<open>NodeMonitor\<close>

text \<open>\<^verbatim>\<open>round(x, 4)\<close>: the double nearest to the decimal with four places nearest to \<open>x\<close>, ties to even.\<close>

definition py_round4 :: "rat \<Rightarrow> rat" where
  "py_round4 x = (let y = \<bar>x\<bar> * 10000; n = \<lfloor>y\<rfloor>; d = y - of_int n;
     r = (if d > 1 / 2 \<or> (d = 1 / 2 \<and> odd n) then n + 1 else n)
     in fl (sgn x * of_int r / 10000))"

definition clock_float :: "int \<Rightarrow> rat" where "clock_float t = of_int t / 2 ^ 22"

definition initial_node_state :: node_state where
  "initial_node_state = \<lparr>ns_btc_balance_sat = 0, ns_sporestack_balance_cents = 0, ns_burn_rate_cents_per_day = 0,
     ns_cost_per_day_usd = 0, ns_days_remaining = None, ns_total_runway_days = None, ns_server_expiry_ts = 0,
     ns_last_updated = 0, ns_vps_provider = JStr [], ns_vps_region = JStr []\<rparr>"

definition load_token :: "world \<Rightarrow> json proc" where
  "load_token w = sbind (external (\<lambda>h. Read_Token_File) (w_token_file w)) (\<lambda>v.
     sreturn (case v of None \<Rightarrow> JNull | Some s \<Rightarrow> py_or (JStr (strip s)) JNull))"

text \<open>\<^verbatim>\<open>servers[-1]\<close> for a value that is not empty.\<close>

fun last_item :: "json \<Rightarrow> json res" where
  "last_item (JList xs) = Inr (last xs)"
| "last_item (JStr s) = Inr (JStr [last s])"
| "last_item (JObj m) = Inl (KeyError ''-1'')"
| "last_item v = Inl (TypeError ''not subscriptable'')"

definition monitor_servers :: "world \<Rightarrow> json \<Rightarrow> json proc" where
  "monitor_servers w token = scatch (get_servers w token)
     (\<lambda>e. if e = LibError ''SporeStackError'' then Some (sreturn (JList [])) else None)"

definition monitor_info :: "world \<Rightarrow> json \<Rightarrow> (int \<times> int \<times> rat) proc" where
  "monitor_info w token = sbind (get_info w token) (\<lambda>data.
     if truthy data then
       sbind (int_field ''balance_cents'' (JInt 0) data) (\<lambda>cents.
       sbind (int_field ''burn_rate_cents'' (JInt 0) data) (\<lambda>burn.
       sreturn (cents, burn, py_round4 (fdiv (of_int burn) 100))))
     else sreturn (0, 0, 0))"

text \<open>Provider, region, expiry and remaining days of the last server listed.\<close>

definition monitor_server :: "world \<Rightarrow> json \<Rightarrow> (json \<times> json \<times> int \<times> int option) proc" where
  "monitor_server w token =
     sbind (monitor_servers w token) (\<lambda>servers.
     sbind (if truthy servers then lift_py (last_item servers) else sreturn JNull) (\<lambda>server.
     if truthy server then
       sbind (dict_get ''provider'' (JStr []) server) (\<lambda>provider.
       sbind (dict_get ''region'' (JStr []) server) (\<lambda>region.
       sbind (int_field ''expiration'' (JInt 0) server) (\<lambda>expiry.
       if expiry \<noteq> 0 then sbind (read_clock w) (\<lambda>now.
         sreturn (provider, region, expiry, Some (max 0 (py_trunc (fdiv (fsub (fint expiry) (clock_float now)) 86400)))))
       else sreturn (provider, region, expiry, None))))
     else sreturn (JStr [], JStr [], 0, None)))"

definition total_runway :: "mconfig \<Rightarrow> int \<Rightarrow> int \<Rightarrow> int option \<Rightarrow> int option" where
  "total_runway c btc_balance_sat sporestack_balance_cents days_remaining =
     (case days_remaining of None \<Rightarrow> None
      | Some d \<Rightarrow>
          if 0 < mc_vps_monthly_cost_cents c then
            let cost_per_day_cents = fdiv (of_int (mc_vps_monthly_cost_cents c)) 30;
                btc_balance_cents = fmul (fmul (fdiv (of_int btc_balance_sat) 100000000) (mc_btc_usd_rate c)) 100;
                total_funds_cents = fadd (fint sporestack_balance_cents) btc_balance_cents
            in Some (d + py_trunc (fdiv total_funds_cents cost_per_day_cents))
          else Some d)"

definition set_monitor :: "node_state \<Rightarrow> unit proc" where
  "set_monitor ns = (\<lambda>s. (Inr (), s\<lparr>np_monitor := ns\<rparr>))"

definition get_state :: "node_state proc" where
  "get_state = (\<lambda>s. (Inr (np_monitor s), s))"

definition refresh :: "mconfig \<Rightarrow> world \<Rightarrow> unit proc" where
  "refresh c w = catch_all
     (sbind (if mc_wallet c
             then sbind (catch_all (scan w) (\<lambda>_. sreturn ())) (\<lambda>_. get_balance_satoshis w)
             else sreturn 0) (\<lambda>btc.
      sbind (load_token w) (\<lambda>token.
      sbind (if truthy token
             then sbind (monitor_info w token) (\<lambda>info. sbind (monitor_server w token) (\<lambda>server. sreturn (info, server)))
             else sreturn ((0, 0, 0), (JStr [], JStr [], 0, None))) (\<lambda>((cents, burn, cost), (provider, region, expiry, days)).
      sbind (read_clock w) (\<lambda>now.
      set_monitor \<lparr>ns_btc_balance_sat = btc, ns_sporestack_balance_cents = cents, ns_burn_rate_cents_per_day = burn,
        ns_cost_per_day_usd = cost, ns_days_remaining = days, ns_total_runway_days = total_runway c btc cents days,
        ns_server_expiry_ts = expiry, ns_last_updated = now, ns_vps_provider = provider, ns_vps_region = region\<rparr>)))))
     (\<lambda>_. sreturn ())"

section \<open>Spawn thresholds\<close>

record spawn_eligibility =
  se_eligible :: bool
  se_reason :: string
  se_effective_threshold :: int
  se_post_spawn_runway_days :: int
  se_post_spawn_btc_sat :: int
  se_child_share_sat :: int

text \<open>\<^verbatim>\<open>x / y\<close> on floats.\<close>

definition py_fdiv :: "rat \<Rightarrow> rat \<Rightarrow> rat res" where
  "py_fdiv x y = (if y = 0 then Inl (ZeroDivisionError ''float division by zero'') else Inr (fdiv x y))"

definition vps_cost_sat :: "mconfig \<Rightarrow> int res" where
  "vps_cost_sat c =
     (let cents = max (mc_sporestack_min_invoice_dollars c * 100)
                    (py_trunc (fdiv (of_int (mc_vps_monthly_cost_cents c * mc_topup_target_days c)) 30))
      in rbind (py_fdiv (fdiv (of_int cents) 100) (mc_btc_usd_rate c)) (\<lambda>btc.
         Inr (py_trunc (fmul btc 100000000))))"

definition cost_per_day_sat :: "mconfig \<Rightarrow> int res" where
  "cost_per_day_sat c =
     rbind (py_fdiv (fdiv (fdiv (of_int (mc_vps_monthly_cost_cents c)) 30) 100) (mc_btc_usd_rate c)) (\<lambda>btc.
     Inr (py_trunc (fmul btc 100000000)))"

definition compute_child_share :: "mconfig \<Rightarrow> int \<Rightarrow> int res" where
  "compute_child_share c btc_balance_sat =
     rbind (vps_cost_sat c) (\<lambda>vps_cost.
     let transferable = max 0 (btc_balance_sat - vps_cost)
     in Inr (py_trunc (fmul (fint transferable) (mc_inheritance_ratio c))))"

definition check_spawn_eligibility :: "mconfig \<Rightarrow> node_state \<Rightarrow> rat \<Rightarrow> spawn_eligibility res" where
  "check_spawn_eligibility c ns caution_trait =
     (let k = max 0 (min 1 caution_trait);
          effective_threshold = py_trunc (fmul (fint (mc_spawn_threshold_days c)) (fadd 1 k))
      in case ns_days_remaining ns of
        None \<Rightarrow> Inr \<lparr>se_eligible = False, se_reason = ''days_remaining unknown'',
            se_effective_threshold = effective_threshold, se_post_spawn_runway_days = 0,
            se_post_spawn_btc_sat = 0, se_child_share_sat = 0\<rparr>
      | Some days_remaining \<Rightarrow>
          let runway_basis = (case ns_total_runway_days ns of Some d \<Rightarrow> d | None \<Rightarrow> days_remaining) in
          rbind (vps_cost_sat c) (\<lambda>vps_cost.
          rbind (compute_child_share c (ns_btc_balance_sat ns)) (\<lambda>inheritance.
          rbind (cost_per_day_sat c) (\<lambda>cost_per_day.
          let fee = mc_spawn_fee_buffer_sat c;
              spawn_cost_sat = vps_cost + inheritance + fee;
              post_spawn_runway_days =
                (if 0 < cost_per_day
                 then py_trunc (fsub (fint runway_basis) (fdiv (of_int spawn_cost_sat) (of_int cost_per_day)))
                 else runway_basis);
              post_spawn_btc = ns_btc_balance_sat ns - vps_cost - inheritance - fee;
              affordable = (0 \<le> post_spawn_btc);
              runway_ok = (effective_threshold \<le> post_spawn_runway_days);
              eligible = (runway_ok \<and> affordable)
          in Inr \<lparr>se_eligible = eligible,
               se_reason = (if eligible then ''eligible (child share: '' @ int_str inheritance @ '' sat)''
                 else if \<not> affordable then
                   ''can't afford spawn outlay: btc '' @ int_str (ns_btc_balance_sat ns) @ '' sat < vps '' @ int_str vps_cost
                     @ '' + inheritance '' @ int_str inheritance @ '' + fee '' @ int_str fee
                 else ''post-spawn runway '' @ int_str post_spawn_runway_days @ ''d < '' @ int_str effective_threshold @ ''d required''),
               se_effective_threshold = effective_threshold, se_post_spawn_runway_days = post_spawn_runway_days,
               se_post_spawn_btc_sat = post_spawn_btc, se_child_share_sat = (if eligible then inheritance else 0)\<rparr>))))"

definition mutate_caution_trait :: "mconfig \<Rightarrow> world \<Rightarrow> rat \<Rightarrow> rat proc" where
  "mutate_caution_trait c w parent_trait =
     (let drift = fmul (mc_caution_mean_reversion c) (fsub (mc_caution_trait_target c) parent_trait) in
      sbind (external (\<lambda>h. Gauss) (\<lambda>h. w_gauss w h (mc_caution_mutation_sigma c))) (\<lambda>noise.
      let child = fadd (fadd parent_trait drift) noise
      in sreturn (max (mc_caution_trait_min c) (min (mc_caution_trait_max c) child))))"

section \<open>The fleet\<close>

record seedbox_info =
  si_friendly_name :: string
  si_public_ip :: string
  si_git_commit_hash :: string
  si_uptime_seconds :: int
  si_disk_total_bytes :: int
  si_disk_used_bytes :: int
  si_btc_address :: string
  si_btc_balance_sat :: int
  si_vps_provider_region :: string
  si_vps_days_remaining :: int

text \<open>\<^verbatim>\<open>PeerInfo\<close> is the payload with the immediate sender and the time it was seen.\<close>

record peer_info = seedbox_info +
  pi_peer_mid :: string
  pi_last_seen :: int

text \<open>The fleet is a dictionary by address in order of first insertion, with the time to live in seconds.\<close>

record peer_registry =
  pr_fleet :: "(string \<times> peer_info) list"
  pr_ttl :: int

definition on_seedbox_info_received :: "int \<Rightarrow> string \<Rightarrow> seedbox_info \<Rightarrow> peer_registry \<Rightarrow> peer_registry" where
  "on_seedbox_info_received now mid payload r =
     r\<lparr>pr_fleet := AList.update (si_btc_address payload)
        (seedbox_info.extend payload \<lparr>pi_peer_mid = mid, pi_last_seen = now\<rparr>) (pr_fleet r)\<rparr>"

definition get_live_peers :: "int \<Rightarrow> peer_registry \<Rightarrow> peer_info list" where
  "get_live_peers now r = filter (\<lambda>p. now - seconds (pr_ttl r) \<le> pi_last_seen p) (map snd (pr_fleet r))"

definition get_peer_count :: "int \<Rightarrow> peer_registry \<Rightarrow> nat" where
  "get_peer_count now r = length (get_live_peers now r)"

definition get_all_peers :: "peer_registry \<Rightarrow> peer_info list" where
  "get_all_peers r = map snd (pr_fleet r)"

text \<open>\<^verbatim>\<open>max(peers, key=...)\<close>: the first peer with the largest balance.\<close>

fun richest :: "peer_info \<Rightarrow> peer_info list \<Rightarrow> peer_info" where
  "richest p [] = p"
| "richest p (q # qs) = richest (if si_btc_balance_sat p < si_btc_balance_sat q then q else p) qs"

definition select_best_peer :: "peer_info list \<Rightarrow> peer_info option" where
  "select_best_peer peers = (case peers of [] \<Rightarrow> None | p # ps \<Rightarrow> Some (richest p ps))"

text \<open>
  Once the registry has recorded it, a received announcement is passed on to the other peers unless the same
  address was passed on within the cooldown. \<open>peers\<close> are the mids of the connected peers; the result lists
  the receivers.
\<close>

definition on_seedbox_info :: "mconfig \<Rightarrow> int \<Rightarrow> string list \<Rightarrow> string \<Rightarrow> seedbox_info \<Rightarrow>
    (string \<times> int) list \<Rightarrow> string list \<times> (string \<times> int) list" where
  "on_seedbox_info c now peers mid payload last_forwarded =
     (let last = (case map_of last_forwarded (si_btc_address payload) of None \<Rightarrow> 0 | Some t \<Rightarrow> t)
      in if seconds (mc_whoami_gossip_cooldown c) < now - last
         then (filter (\<lambda>p. p \<noteq> mid) peers, AList.update (si_btc_address payload) now last_forwarded)
         else ([], last_forwarded))"

end
