(* ===== verification/Spawn_Steps.thy ===== *)
theory Spawn_Steps
  imports Spawn_Economy
begin

text \<open>
  The pipeline that gives a mycelium node a child (modules/spawning): identity and funding
  (spawn_identity.py), the server (spawn_provision.py), deployment and boot (spawn_deploy.py), inheritance
  (spawn_transfer.py), and the whole pipeline with its resume logic (deployer.py). Commands on the new
  machine over SSH, key generation and the throwaway wallet are calls to the world.
\<close>

section \<open>Identity\<close>

definition POLL_INTERVAL :: int where "POLL_INTERVAL = 30"
definition POLL_TIMEOUT :: int where "POLL_TIMEOUT = 1800"
definition INVOICE_EXPIRY_SAFETY_MARGIN_SECONDS :: int where "INVOICE_EXPIRY_SAFETY_MARGIN_SECONDS = 60"
definition INVOICE_DEFAULT_LIFETIME_SECONDS :: int where "INVOICE_DEFAULT_LIFETIME_SECONDS = 600"
definition MAX_FUNDING_ATTEMPTS :: int where "MAX_FUNDING_ATTEMPTS = 5"

text \<open>The fields are JSON values because a stored identity is rebuilt from a JSON object.\<close>

record child_identity =
  ci_spawn_id :: json
  ci_sporestack_token :: json
  ci_ssh_private_key_path :: json
  ci_ssh_public_key :: json
  ci_btc_mnemonic :: json
  ci_btc_address :: json
  ci_funded_cents :: json

definition generate_child_btc_wallet :: "world \<Rightarrow> string \<Rightarrow> (string \<times> string) proc" where
  "generate_child_btc_wallet w spawn_id = or_raise ''Wallet.create''
     (external (\<lambda>h. Create_Child_Wallet spawn_id) (\<lambda>h. w_child_wallet w h spawn_id))"

definition generate_ssh_keypair :: "world \<Rightarrow> string \<Rightarrow> (string \<times> string) proc" where
  "generate_ssh_keypair w key_path = or_raise ''ssh-keygen''
     (external (\<lambda>h. Ssh_Keygen key_path) (\<lambda>h. w_keypair w h key_path))"

definition wait_for_credit :: "world \<Rightarrow> json \<Rightarrow> int proc" where
  "wait_for_credit w sporestack_token =
     sbind (read_clock w) (\<lambda>start.
     poll (sbind (read_clock w) (\<lambda>now.
       if seconds POLL_TIMEOUT \<le> now - start
       then sraise (SpawnError ''identity'' ''Timeout waiting for SporeStack credit to land'')
       else sbind (get_balance w sporestack_token) (\<lambda>balance.
         sbind (if truthy balance then int_field ''cents'' (JInt 0) balance else sreturn 0) (\<lambda>cents.
         sbind (read_clock w) (\<lambda>_.
         if 0 < cents then sreturn (Some cents)
         else sbind (sleep POLL_INTERVAL) (\<lambda>_. sreturn None)))))))"

definition rehydrate_child_wallet :: "string \<Rightarrow> (json \<times> json) option proc" where
  "rehydrate_child_wallet spawn_id =
     sbind (read_table (kv_get ''spawn_child_wallet'' JNull)) (\<lambda>blob.
     sbind (matches_spawn blob (JStr spawn_id)) (\<lambda>mine.
     if \<not> mine then sreturn None
     else sbind (dict_get ''btc_mnemonic'' JNull blob) (\<lambda>mnemonic.
       sbind (dict_get ''btc_address'' JNull blob) (\<lambda>address.
       sreturn (if \<not> truthy mnemonic \<or> \<not> truthy address then None else Some (mnemonic, address))))))"

definition rehydrate_sporestack_token :: "string \<Rightarrow> json proc" where
  "rehydrate_sporestack_token spawn_id =
     sbind (read_table (kv_get ''spawn_sporestack_token'' JNull)) (\<lambda>blob.
     sbind (matches_spawn blob (JStr spawn_id)) (\<lambda>mine.
     if \<not> mine then sreturn JNull
     else sbind (dict_get ''sporestack_token'' JNull blob) (\<lambda>token. sreturn (py_or token JNull))))"

definition intent_is_live :: "world \<Rightarrow> json \<Rightarrow> bool proc" where
  "intent_is_live w intent =
     sbind (dict_get ''expires'' JNull intent) (\<lambda>expires.
     if expires = JNull then
       sbind (dict_get ''created'' JNull intent) (\<lambda>created.
       if created = JNull then sreturn False
       else sbind (lift_py (py_int_of created)) (\<lambda>n.
         sbind (read_clock w) (\<lambda>now.
         sreturn (now < seconds (n + INVOICE_DEFAULT_LIFETIME_SECONDS - INVOICE_EXPIRY_SAFETY_MARGIN_SECONDS)))))
     else sbind (read_clock w) (\<lambda>now.
       sbind (lift_py (py_int_of expires)) (\<lambda>n.
       sreturn (now < seconds (n - INVOICE_EXPIRY_SAFETY_MARGIN_SECONDS)))))"

definition funding_dollars :: "mconfig \<Rightarrow> int \<Rightarrow> int" where
  "funding_dollars c monthly_cents =
     (let needed_cents = py_trunc (fdiv (of_int (monthly_cents * mc_topup_target_days c)) 30)
      in max (mc_sporestack_min_invoice_dollars c) \<lceil>fdiv (of_int needed_cents) 100\<rceil>)"

text \<open>The intent is written from the answer of SporeStack.\<close>

definition record_invoice :: "string \<Rightarrow> json \<Rightarrow> json \<Rightarrow> json proc" where
  "record_invoice spawn_id sporestack_token response =
     (if \<not> truthy response then sraise (SpawnError ''identity'' ''create_invoice returned None'')
      else sbind (dict_get ''invoice'' response response) (\<lambda>invoice.
      sbind (dict_get ''payment_uri'' (JStr []) invoice) (\<lambda>payment_uri.
      sbind (lift_py (parse_bitcoin_uri payment_uri)) (\<lambda>parsed.
      case parsed of
        None \<Rightarrow> sraise (SpawnError ''identity'' ''Cannot parse payment URI'')
      | Some (pay_address, amount_sat) \<Rightarrow>
          sbind (dict_get ''created'' JNull invoice) (\<lambda>created.
          sbind (dict_get ''expires'' JNull invoice) (\<lambda>expires.
          let intent = JObj [(''spawn_id'', JStr spawn_id), (''sporestack_token'', sporestack_token),
                (''pay_address'', JStr pay_address), (''amount_sat'', JInt amount_sat),
                (''created'', created), (''expires'', expires)]
          in sbind (kv_set ''spawn_funding_intent'' intent) (\<lambda>_. sreturn intent)))))))"

definition mint_funding_invoice :: "mconfig \<Rightarrow> world \<Rightarrow> string \<Rightarrow> json \<Rightarrow> json proc" where
  "mint_funding_invoice c w spawn_id sporestack_token =
     sbind (read_table (kv_get ''spawn_funding_attempts'' (JInt 0))) (\<lambda>stored.
     sbind (lift_py (py_int_of stored)) (\<lambda>attempts.
     if MAX_FUNDING_ATTEMPTS \<le> attempts then sraise (SpawnError ''identity'' ''Max funding attempts reached'')
     else sbind (kv_set ''spawn_funding_attempts'' (JInt (attempts + 1))) (\<lambda>_.
     sbind (calculate_monthly_vps_cost c w (JStr (mc_vps_flavor c)) (JStr (mc_vps_provider c))) (\<lambda>monthly_cents.
     sbind (create_invoice w (Funding (JStr spawn_id)) sporestack_token (funding_dollars c monthly_cents))
       (record_invoice spawn_id sporestack_token)))))"

definition check_parent_balance :: "mconfig \<Rightarrow> world \<Rightarrow> int \<Rightarrow> unit proc" where
  "check_parent_balance c w amount_sat = sbind (get_balance_satoshis w) (\<lambda>wallet_sat.
     swhen_raise (wallet_sat < amount_sat + mc_spawn_fee_buffer_sat c) (SpawnError ''identity'' ''Insufficient parent BTC''))"

text \<open>The balance check, the second check of the invoice and the payment; both branches of the source end with them.\<close>

definition pay_funding_invoice :: "mconfig \<Rightarrow> world \<Rightarrow> string \<Rightarrow> string \<Rightarrow> string \<Rightarrow> json \<Rightarrow> unit proc" where
  "pay_funding_invoice c w spawn_id expired failed intent =
     sbind (dict_item ''pay_address'' intent) (\<lambda>pay_address.
     sbind (dict_item ''amount_sat'' intent) (\<lambda>amount.
     sbind (lift_py (py_int_of amount)) (\<lambda>amount_sat.
     sbind (check_parent_balance c w amount_sat) (\<lambda>_.
     sbind (intent_is_live w intent) (\<lambda>live.
     sbind (swhen_raise (\<not> live) (SpawnError ''identity'' expired)) (\<lambda>_.
     sbind (catch_all (send w (Funding (JStr spawn_id)) pay_address amount_sat)
             (\<lambda>_. sraise (SpawnError ''identity'' failed))) (\<lambda>txid.
     kv_set ''spawn_funding_txid'' (JStr txid))))))))"

definition matches_funding :: "json \<Rightarrow> string \<Rightarrow> json \<Rightarrow> bool proc" where
  "matches_funding intent spawn_id sporestack_token =
     sbind (matches_spawn intent (JStr spawn_id)) (\<lambda>mine.
     if mine then sbind (dict_get ''sporestack_token'' JNull intent) (\<lambda>t. sreturn (json_eq t sporestack_token))
     else sreturn False)"

text \<open>The resume path: when the wallet history does not show the payment, the balance of the token decides.\<close>

definition retry_funding :: "mconfig \<Rightarrow> world \<Rightarrow> string \<Rightarrow> json \<Rightarrow> json \<Rightarrow> unit proc" where
  "retry_funding c w spawn_id sporestack_token intent =
     sbind (get_balance w sporestack_token) (\<lambda>balance.
     sbind (if truthy balance then int_field ''cents'' (JInt 0) balance else sreturn 0) (\<lambda>cents.
     if 0 < cents then
       sbind (read_clock w) (\<lambda>now.
       kv_set ''spawn_funding_txid'' (JStr (''reconciled-from-balance-'' @ int_str (whole_seconds now))))
     else
       sbind (intent_is_live w intent) (\<lambda>live.
       sbind (if live then sreturn intent else mint_funding_invoice c w spawn_id sporestack_token) (\<lambda>intent.
       pay_funding_invoice c w spawn_id ''Invoice expired between balance-check and broadcast on retry''
         ''Invoice payment retry failed'' intent))))"

definition resume_funding :: "mconfig \<Rightarrow> world \<Rightarrow> string \<Rightarrow> json \<Rightarrow> json \<Rightarrow> unit proc" where
  "resume_funding c w spawn_id sporestack_token intent =
     sbind (dict_item ''pay_address'' intent) (\<lambda>pay_address.
     sbind (dict_item ''amount_sat'' intent) (\<lambda>amount.
     sbind (lift_py (py_int_of amount)) (\<lambda>amount_sat.
     sbind (find_prior_send w pay_address amount_sat) (\<lambda>prior_txid.
     case prior_txid of
       Some txid \<Rightarrow> kv_set ''spawn_funding_txid'' (JStr txid)
     | None \<Rightarrow> retry_funding c w spawn_id sporestack_token intent))))"

definition fund_sporestack_token :: "mconfig \<Rightarrow> world \<Rightarrow> string \<Rightarrow> json \<Rightarrow> unit proc" where
  "fund_sporestack_token c w spawn_id sporestack_token =
     sbind (read_table (kv_get ''spawn_funding_txid'' JNull)) (\<lambda>existing_txid.
     if truthy existing_txid then sreturn ()
     else sbind (read_table (kv_get ''spawn_funding_intent'' JNull)) (\<lambda>intent.
     sbind (matches_funding intent spawn_id sporestack_token) (\<lambda>resume.
     if resume then resume_funding c w spawn_id sporestack_token intent
     else sbind (mint_funding_invoice c w spawn_id sporestack_token)
       (pay_funding_invoice c w spawn_id ''Invoice expired between creation and broadcast'' ''Invoice payment failed''))))"

text \<open>The three durable parts of the identity and the funding.\<close>

definition ensure_child_wallet :: "world \<Rightarrow> string \<Rightarrow> (json \<times> json) proc" where
  "ensure_child_wallet w spawn_id =
     sbind (rehydrate_child_wallet spawn_id) (\<lambda>rehydrated.
     case rehydrated of
       Some pair \<Rightarrow> sreturn pair
     | None \<Rightarrow>
         sbind (catch_all (generate_child_btc_wallet w spawn_id)
                 (\<lambda>_. sraise (SpawnError ''identity'' ''Child BTC wallet generation failed''))) (\<lambda>(btc_mnemonic, btc_address).
         sbind (kv_set ''spawn_child_wallet'' (JObj [(''spawn_id'', JStr spawn_id),
                 (''btc_mnemonic'', JStr btc_mnemonic), (''btc_address'', JStr btc_address)])) (\<lambda>_.
         sreturn (JStr btc_mnemonic, JStr btc_address))))"

definition ensure_sporestack_token :: "world \<Rightarrow> string \<Rightarrow> json proc" where
  "ensure_sporestack_token w spawn_id =
     sbind (rehydrate_sporestack_token spawn_id) (\<lambda>stored.
     if truthy stored then sreturn stored
     else sbind (generate_token w) (\<lambda>token.
       sbind (swhen_raise (\<not> truthy token) (SpawnError ''identity'' ''generate_token returned None'')) (\<lambda>_.
       sbind (kv_set ''spawn_sporestack_token'' (JObj [(''spawn_id'', JStr spawn_id), (''sporestack_token'', token)])) (\<lambda>_.
       sreturn token))))"

definition spawn_key_path :: "mconfig \<Rightarrow> string \<Rightarrow> string" where
  "spawn_key_path c spawn_id = mc_data_dir c @ ''/spawn/'' @ spawn_id @ ''/ssh/id_ed25519''"

definition prepare_child_identity :: "mconfig \<Rightarrow> world \<Rightarrow> string \<Rightarrow> child_identity proc" where
  "prepare_child_identity c w spawn_id =
     sbind (catch_all (generate_ssh_keypair w (spawn_key_path c spawn_id))
             (\<lambda>_. sraise (SpawnError ''identity'' ''SSH keypair generation failed''))) (\<lambda>(priv_key_path, pub_key).
     sbind (ensure_child_wallet w spawn_id) (\<lambda>(btc_mnemonic, btc_address).
     sbind (ensure_sporestack_token w spawn_id) (\<lambda>sporestack_token.
     sbind (swhen_raise (\<not> mc_wallet c) (SpawnError ''identity'' ''Parent wallet not initialized'')) (\<lambda>_.
     sbind (fund_sporestack_token c w spawn_id sporestack_token) (\<lambda>_.
     sbind (wait_for_credit w sporestack_token) (\<lambda>funded_cents.
     sreturn \<lparr>ci_spawn_id = JStr spawn_id, ci_sporestack_token = sporestack_token,
       ci_ssh_private_key_path = JStr priv_key_path, ci_ssh_public_key = JStr pub_key,
       ci_btc_mnemonic = btc_mnemonic, ci_btc_address = btc_address, ci_funded_cents = JInt funded_cents\<rparr>))))))"

section \<open>The server\<close>

record child_vps_info =
  vi_spawn_id :: json
  vi_machine_id :: json
  vi_host :: json
  vi_ipv4 :: json
  vi_ipv6 :: json
  vi_ssh_port :: json
  vi_ssh_key_path :: json

definition pick_host :: "json \<Rightarrow> (json \<times> json \<times> json option) proc" where
  "pick_host server =
     sbind (dict_get ''ipv4'' JNull server) (\<lambda>v4.
     sbind (dict_get ''ipv6'' JNull server) (\<lambda>v6.
     let ipv4 = py_or v4 (JStr []); ipv6 = py_or v6 (JStr []);
         host = (if usable_ipv4 ipv4 then Some ipv4 else if usable_ipv6 ipv6 then Some ipv6 else None)
     in sreturn (ipv4, ipv6, host)))"

text \<open>\<^verbatim>\<open>_created_at\<close>: a time stamp that is not a number counts as 0; only TypeError and ValueError are caught.\<close>

definition created_at :: "json \<Rightarrow> int res" where
  "created_at s = (case s of
     JObj m \<Rightarrow>
       (case py_int_of (py_or (jget ''created_at'' m JNull) (py_or (jget ''created'' m JNull) (JInt 0))) of
          Inr i \<Rightarrow> Inr i
        | Inl (TypeError e) \<Rightarrow> Inr 0
        | Inl e \<Rightarrow> if is_value_error e then Inr 0 else Inl e)
   | _ \<Rightarrow> Inl (AttributeError ''get''))"

fun is_dict :: "json \<Rightarrow> bool" where
  "is_dict (JObj m) \<longleftrightarrow> True"
| "is_dict v \<longleftrightarrow> False"

text \<open>The most recently created of the listed servers.\<close>

definition newest_server :: "json \<Rightarrow> json proc" where
  "newest_server servers =
     (if \<not> truthy servers then sreturn JNull
      else case servers of
        JList l \<Rightarrow>
          if 1 < length l \<and> \<not> list_all is_dict l then sraise (PyExn (AttributeError ''get''))
          else sbind (lift_py (map_res (\<lambda>s. rbind (created_at s) (\<lambda>t. Inr (t, s))) l)) (\<lambda>dated.
          if 1 < length l \<and> list_all (\<lambda>(t, s). t = 0) dated
          then sraise (SpawnError ''provision'' ''multiple orphan servers under token but no usable created_at timestamp'')
          else sreturn (snd (last (sort_key fst dated))))
      | JStr s \<Rightarrow> sraise (PyExn (AttributeError ''get''))
      | JObj m \<Rightarrow> sraise (PyExn (AttributeError ''get''))
      | _ \<Rightarrow> sraise (PyExn (TypeError ''has no len()'')))"

definition adopt_orphan_server :: "world \<Rightarrow> json \<Rightarrow> json proc" where
  "adopt_orphan_server w sporestack_token =
     sbind (scatch (get_servers w sporestack_token)
       (\<lambda>e. if e = LibError ''SporeStackError'' then Some (sraise (SpawnError ''provision'' ''orphan check failed'')) else None)) newest_server"


definition find_or_launch_server :: "mconfig \<Rightarrow> world \<Rightarrow> child_identity \<Rightarrow> json proc" where
  "find_or_launch_server c w identity =
     sbind (read_table (kv_get ''spawn_vps_intent'' JNull)) (\<lambda>intent.
     sbind (sbind (matches_spawn intent (ci_spawn_id identity)) (\<lambda>mine.
       if mine then sbind (dict_get ''sporestack_token'' JNull intent) (\<lambda>t. sreturn (json_eq t (ci_sporestack_token identity)))
       else sreturn False)) (\<lambda>resume.
     sbind (if resume then adopt_orphan_server w (ci_sporestack_token identity) else sreturn JNull) (\<lambda>server.
     if server = JNull then
       sbind (kv_set ''spawn_vps_intent'' (JObj [(''spawn_id'', ci_spawn_id identity),
               (''sporestack_token'', ci_sporestack_token identity)])) (\<lambda>_.
       sbind (launch_server c w (ci_sporestack_token identity) (ci_ssh_public_key identity) (ci_spawn_id identity)) (\<lambda>machine_id.
       sbind (swhen_raise (\<not> truthy machine_id) (SpawnError ''provision'' ''launch_server returned no machine_id'')) (\<lambda>_.
       sreturn machine_id)))
     else
       sbind (dict_get ''machine_id'' JNull server) (\<lambda>machine_id.
       sbind (swhen_raise (\<not> truthy machine_id) (SpawnError ''provision'' ''adopted server has no machine_id'')) (\<lambda>_.
       sreturn machine_id)))))"

definition vps_json :: "child_vps_info \<Rightarrow> json" where
  "vps_json v = JObj [(''spawn_id'', vi_spawn_id v), (''machine_id'', vi_machine_id v), (''host'', vi_host v),
     (''ipv4'', vi_ipv4 v), (''ipv6'', vi_ipv6 v), (''ssh_port'', vi_ssh_port v), (''ssh_key_path'', vi_ssh_key_path v)]"

definition provision_child_vps :: "mconfig \<Rightarrow> world \<Rightarrow> child_identity \<Rightarrow> child_vps_info proc" where
  "provision_child_vps c w identity =
     sbind (find_or_launch_server c w identity) (\<lambda>machine_id.
     sbind (wait_for_server_ready w (ci_sporestack_token identity) machine_id) (\<lambda>server.
     if server = JNull then sraise (SpawnError ''provision'' ''machine not ready within timeout'')
     else sbind (pick_host server) (\<lambda>(ipv4, ipv6, host).
       case host of
         None \<Rightarrow> sraise (SpawnError ''provision'' ''machine has no usable IPv4/IPv6'')
       | Some h \<Rightarrow>
           sbind (int_field ''ssh_port'' (JInt 22) server) (\<lambda>ssh_port.
           let vps_info = \<lparr>vi_spawn_id = ci_spawn_id identity, vi_machine_id = machine_id, vi_host = h,
                 vi_ipv4 = ipv4, vi_ipv6 = ipv6, vi_ssh_port = JInt ssh_port,
                 vi_ssh_key_path = ci_ssh_private_key_path identity\<rparr>
           in sbind (kv_set ''spawn_vps_info'' (vps_json vps_info)) (\<lambda>_. sreturn vps_info)))))"

end
