(* ===== verification/Spawn_Pipeline.thy ===== *)
theory Spawn_Pipeline
  imports Spawn_Steps
begin

text \<open>
  Deployment, boot and inheritance (modules/spawning/spawn_deploy.py, spawn_transfer.py), the pipeline
  (modules/spawning/deployer.py), fail-safe and top-up (modules/orchestration/failsafe.py, topup.py), the
  decision loop (decision_loop.py) and the parts of main.py that touch the durable state. The event logger
  only posts copies of what happened and is left out.
\<close>

section \<open>Deployment and boot\<close>

definition POST_START_SETTLE_SECONDS :: int where "POST_START_SETTLE_SECONDS = 15"

definition remote :: "world \<Rightarrow> string \<Rightarrow> json list \<Rightarrow> unit proc" where
  "remote w step args = sbind (external (\<lambda>h. Remote step args) (\<lambda>h. w_remote w h step args)) (\<lambda>ok.
     swhen_raise (\<not> ok) (LibError step))"

definition deploy_child_code :: "world \<Rightarrow> child_vps_info \<Rightarrow> unit proc" where
  "deploy_child_code w vps_info =
     sbind (remote w ''SSHDeployer'' [vi_ssh_key_path vps_info]) (\<lambda>_.
     catch_all
       (sbind (remote w ''connect'' [vi_host vps_info, vi_ssh_port vps_info]) (\<lambda>_.
        sbind (remote w ''install_dependencies'' []) (\<lambda>_.
        sbind (remote w ''setup_firewall'' []) (\<lambda>_.
        sbind (remote w ''deploy_mycelium'' []) (\<lambda>_.
        sbind (remote w ''deploy_video_ids'' []) (\<lambda>_.
        remote w ''deploy_cookies'' []))))))
       (\<lambda>_. sbind (remote w ''disconnect'' []) (\<lambda>_. sraise (SpawnError ''deploy'' ''Child code deployment failed''))))"

definition child_env :: "mconfig \<Rightarrow> child_identity \<Rightarrow> rat \<Rightarrow> (string \<times> env_value) list" where
  "child_env c identity child_caution =
     [(''MYCELIUM_FRIENDLY_NAME'', EText (ci_spawn_id identity)),
      (''MYCELIUM_PARENT_NAME'', EText (JStr (mc_friendly_name c))),
      (''MYCELIUM_CAUTION_TRAIT'', ENumber child_caution),
      (''MYCELIUM_CAUTION_MUTATION_SIGMA'', ENumber (mc_caution_mutation_sigma c)),
      (''MYCELIUM_CAUTION_TRAIT_TARGET'', ENumber (mc_caution_trait_target c)),
      (''MYCELIUM_CAUTION_MEAN_REVERSION'', ENumber (mc_caution_mean_reversion c)),
      (''MYCELIUM_CAUTION_TRAIT_MIN'', ENumber (mc_caution_trait_min c)),
      (''MYCELIUM_CAUTION_TRAIT_MAX'', ENumber (mc_caution_trait_max c)),
      (''MYCELIUM_SPAWN_THRESHOLD_DAYS'', EInt (mc_spawn_threshold_days c)),
      (''MYCELIUM_INHERITANCE_RATIO'', ENumber (mc_inheritance_ratio c))]
     @ (if mc_log_endpoint c \<noteq> [] then [(''MYCELIUM_LOG_ENDPOINT'', EText (JStr (mc_log_endpoint c)))] else [])
     @ (if mc_log_secret c \<noteq> [] then [(''MYCELIUM_LOG_SECRET'', EText (JStr (mc_log_secret c)))] else [])
     @ (if mc_default_btc_address c \<noteq> [] then [(''MYCELIUM_DEFAULT_BTC_ADDRESS'', EText (JStr (mc_default_btc_address c)))] else [])"

definition child_secrets :: "child_identity \<Rightarrow> (string \<times> json) list" where
  "child_secrets identity = [(''/root/data/btc_mnemonic_seed'', ci_btc_mnemonic identity),
     (''/root/data/sporestack_token'', ci_sporestack_token identity)]"

definition start_orchestrator :: "world \<Rightarrow> (string \<times> env_value) list \<Rightarrow> (string \<times> json) list \<Rightarrow> unit proc" where
  "start_orchestrator w env secrets =
     sbind (external (\<lambda>h. Boot env secrets) (\<lambda>h. w_remote w h ''start_orchestrator'' [])) (\<lambda>ok.
     swhen_raise (\<not> ok) (LibError ''start_orchestrator''))"

definition check_health :: "world \<Rightarrow> bool proc" where
  "check_health w = or_raise ''check_health'' (external (\<lambda>h. Check_Health (w_health w h = Some True)) (w_health w))"

definition boot_child_orchestrator :: "mconfig \<Rightarrow> world \<Rightarrow> child_identity \<Rightarrow> rat \<Rightarrow> rat proc" where
  "boot_child_orchestrator c w identity parent_caution_trait =
     sbind (mutate_caution_trait c w parent_caution_trait) (\<lambda>child_caution.
     sbind (scatch
         (sbind (start_orchestrator w (child_env c identity child_caution) (child_secrets identity)) (\<lambda>_.
          sbind (sleep POST_START_SETTLE_SECONDS) (\<lambda>_.
          sbind (check_health w) (\<lambda>healthy.
          swhen_raise (\<not> healthy) (SpawnError ''boot'' ''Child orchestrator crashed within 15s of boot'')))))
         (\<lambda>e. case e of SpawnError st m \<Rightarrow> None | Crash \<Rightarrow> None
            | _ \<Rightarrow> Some (sraise (SpawnError ''boot'' ''Child orchestrator boot failed'')))) (\<lambda>_.
     sreturn child_caution))"

section \<open>Inheritance\<close>

definition DUST_THRESHOLD_SAT :: int where "DUST_THRESHOLD_SAT = 546"
definition SCAN_RETRY_ATTEMPTS :: nat where "SCAN_RETRY_ATTEMPTS = 5"

text \<open>The loop over the remaining attempts.\<close>

primrec scan_with_retry :: "world \<Rightarrow> nat \<Rightarrow> unit proc" where
  "scan_with_retry w 0 = sreturn ()"
| "scan_with_retry w (Suc n) = catch_all (scan w) (\<lambda>_.
     if n = 0 then sraise (SpawnError ''transfer'' ''Pre-transfer wallet scan failed'')
     else sbind (sleep 2) (\<lambda>_. scan_with_retry w n))"

definition resume_transfer :: "(json \<Rightarrow> string) \<Rightarrow> world \<Rightarrow> child_identity \<Rightarrow> json \<Rightarrow> json proc" where
  "resume_transfer py_repr w identity intent =
     sbind (dict_item ''child_btc_address'' intent) (\<lambda>child_btc_address.
     sbind (dict_item ''amount_sat'' intent) (\<lambda>amount.
     sbind (lift_py (py_int_of amount)) (\<lambda>child_share_sat.
     sbind (find_prior_send w child_btc_address child_share_sat) (\<lambda>prior_txid.
     case prior_txid of
       Some txid \<Rightarrow>
         sbind (kv_set ''spawn_transfer_txid'' (JStr txid)) (\<lambda>_.
         sbind (mark_spawn_completed py_repr w True (ci_btc_address identity)) (\<lambda>_. sreturn (JStr txid)))
     | None \<Rightarrow> sraise (SpawnError ''transfer'' ''Inheritance reconcile inconclusive; manual review required'')))))"

definition fresh_transfer :: "(json \<Rightarrow> string) \<Rightarrow> mconfig \<Rightarrow> world \<Rightarrow> child_identity \<Rightarrow> node_state \<Rightarrow> json proc" where
  "fresh_transfer py_repr c w identity ns =
     sbind (lift_py (compute_child_share c (ns_btc_balance_sat ns))) (\<lambda>share.
     sbind (scan_with_retry w SCAN_RETRY_ATTEMPTS) (\<lambda>_.
     sbind (get_balance_satoshis w) (\<lambda>available_sat.
     let spendable_sat = max 0 (available_sat - mc_spawn_fee_buffer_sat c);
         child_share_sat = min share spendable_sat
     in if child_share_sat \<le> DUST_THRESHOLD_SAT then
          sbind (mark_spawn_completed py_repr w True (ci_btc_address identity)) (\<lambda>_. sreturn (JStr []))
        else
          sbind (kv_set ''spawn_transfer_intent'' (JObj [(''spawn_id'', ci_spawn_id identity),
                  (''child_btc_address'', ci_btc_address identity), (''amount_sat'', JInt child_share_sat)])) (\<lambda>_.
          sbind (catch_all (send w (Inheritance (ci_spawn_id identity)) (ci_btc_address identity) child_share_sat)
                  (\<lambda>_. sraise (SpawnError ''transfer'' ''Inheritance transfer failed''))) (\<lambda>txid.
          sbind (kv_set ''spawn_transfer_txid'' (JStr txid)) (\<lambda>_.
          sbind (mark_spawn_completed py_repr w True (ci_btc_address identity)) (\<lambda>_. sreturn (JStr txid))))))))"

definition transfer_inheritance :: "(json \<Rightarrow> string) \<Rightarrow> mconfig \<Rightarrow> world \<Rightarrow> child_identity \<Rightarrow> node_state \<Rightarrow> json proc" where
  "transfer_inheritance py_repr c w identity ns =
     sbind (swhen_raise (\<not> mc_wallet c) (SpawnError ''transfer'' ''SpendingWallet not initialised'')) (\<lambda>_.
     sbind (read_table (kv_get ''spawn_transfer_txid'' JNull)) (\<lambda>txid.
     if truthy txid then
       sbind (mark_spawn_completed py_repr w True (ci_btc_address identity)) (\<lambda>_. sreturn txid)
     else
       sbind (read_table (kv_get ''spawn_transfer_intent'' JNull)) (\<lambda>intent.
       sbind (matches_spawn intent (ci_spawn_id identity)) (\<lambda>resume.
       if resume then resume_transfer py_repr w identity intent else fresh_transfer py_repr c w identity ns))))"

section \<open>The pipeline\<close>

definition identity_json :: "child_identity \<Rightarrow> json" where
  "identity_json i = JObj [(''spawn_id'', ci_spawn_id i), (''sporestack_token'', ci_sporestack_token i),
     (''ssh_private_key_path'', ci_ssh_private_key_path i), (''ssh_public_key'', ci_ssh_public_key i),
     (''btc_mnemonic'', ci_btc_mnemonic i), (''btc_address'', ci_btc_address i), (''funded_cents'', ci_funded_cents i)]"

text \<open>\<^verbatim>\<open>C(**blob)\<close> of a data class: the keys of the object must be the fields.\<close>

definition blob_fields :: "string list \<Rightarrow> json \<Rightarrow> (string \<Rightarrow> json) option" where
  "blob_fields names blob = (case blob of
     JObj m \<Rightarrow> if list_all (\<lambda>k. k \<in> set names) (map fst m) \<and> list_all (\<lambda>k. k \<in> set (map fst m)) names
               then Some (\<lambda>k. jget k m JNull) else None
   | _ \<Rightarrow> None)"

definition load_blob :: "string \<Rightarrow> string list \<Rightarrow> string \<Rightarrow> (string \<Rightarrow> json) option proc" where
  "load_blob key names spawn_id =
     sbind (read_table (kv_get key JNull)) (\<lambda>blob.
     sbind (matches_spawn blob (JStr spawn_id)) (\<lambda>mine.
     if \<not> mine then sreturn None
     else case blob_fields names blob of
       None \<Rightarrow> sbind (kv_delete key) (\<lambda>_. sreturn None)
     | Some f \<Rightarrow> sreturn (Some f)))"

definition load_stored_identity :: "string \<Rightarrow> child_identity option proc" where
  "load_stored_identity spawn_id =
     sbind (load_blob ''spawn_identity'' [''spawn_id'', ''sporestack_token'', ''ssh_private_key_path'', ''ssh_public_key'',
         ''btc_mnemonic'', ''btc_address'', ''funded_cents''] spawn_id) (\<lambda>f.
     sreturn (map_option (\<lambda>f. \<lparr>ci_spawn_id = f ''spawn_id'', ci_sporestack_token = f ''sporestack_token'',
       ci_ssh_private_key_path = f ''ssh_private_key_path'', ci_ssh_public_key = f ''ssh_public_key'',
       ci_btc_mnemonic = f ''btc_mnemonic'', ci_btc_address = f ''btc_address'', ci_funded_cents = f ''funded_cents''\<rparr>) f))"

definition load_stored_vps :: "string \<Rightarrow> child_vps_info option proc" where
  "load_stored_vps spawn_id =
     sbind (load_blob ''spawn_vps_info'' [''spawn_id'', ''machine_id'', ''host'', ''ipv4'', ''ipv6'', ''ssh_port'', ''ssh_key_path''] spawn_id) (\<lambda>f.
     sreturn (map_option (\<lambda>f. \<lparr>vi_spawn_id = f ''spawn_id'', vi_machine_id = f ''machine_id'', vi_host = f ''host'',
       vi_ipv4 = f ''ipv4'', vi_ipv6 = f ''ipv6'', vi_ssh_port = f ''ssh_port'', vi_ssh_key_path = f ''ssh_key_path''\<rparr>) f))"

definition obtain_identity :: "mconfig \<Rightarrow> world \<Rightarrow> string \<Rightarrow> child_identity proc" where
  "obtain_identity c w spawn_id =
     sbind (load_stored_identity spawn_id) (\<lambda>stored.
     case stored of
       Some identity \<Rightarrow> sreturn identity
     | None \<Rightarrow> sbind (prepare_child_identity c w spawn_id) (\<lambda>identity.
         sbind (kv_set ''spawn_identity'' (identity_json identity)) (\<lambda>_. sreturn identity)))"

definition obtain_vps :: "mconfig \<Rightarrow> world \<Rightarrow> string \<Rightarrow> child_identity \<Rightarrow> child_vps_info proc" where
  "obtain_vps c w spawn_id identity =
     sbind (load_stored_vps spawn_id) (\<lambda>stored.
     case stored of Some vps_info \<Rightarrow> sreturn vps_info | None \<Rightarrow> provision_child_vps c w identity)"

text \<open>\<^verbatim>\<open>_safe_disconnect\<close> swallows every exception; it runs however the protected part ends.\<close>

definition safe_disconnect :: "world \<Rightarrow> unit proc" where
  "safe_disconnect w = catch_all (remote w ''disconnect'' []) (\<lambda>_. sreturn ())"

definition finally_disconnect :: "world \<Rightarrow> 'r proc \<Rightarrow> 'r proc" where
  "finally_disconnect w m =
     sbind (catch_all m (\<lambda>e. sbind (safe_disconnect w) (\<lambda>_. sraise e))) (\<lambda>x.
     sbind (safe_disconnect w) (\<lambda>_. sreturn x))"

definition spawn_child :: "(json \<Rightarrow> string) \<Rightarrow> mconfig \<Rightarrow> world \<Rightarrow> node_state \<Rightarrow> rat \<Rightarrow> string \<Rightarrow> bool proc" where
  "spawn_child py_repr c w ns caution_trait spawn_id = catch_all
     (sbind (obtain_identity c w spawn_id) (\<lambda>identity.
      sbind (obtain_vps c w spawn_id identity) (\<lambda>vps_info.
      sbind (deploy_child_code w vps_info) (\<lambda>_.
      finally_disconnect w
        (sbind (boot_child_orchestrator c w identity caution_trait) (\<lambda>_.
         sbind (transfer_inheritance py_repr c w identity ns) (\<lambda>_.
         sreturn True)))))))
     (\<lambda>_. sreturn False)"

end
