(* ===== verification/Spawn_Decision.thy ===== *)
theory Spawn_Decision
  imports Spawn_Pipeline
begin

text \<open>
  Fail-safe and top-up (modules/orchestration/failsafe.py, topup.py), the decision loop
  (decision_loop.py), the parts of main.py that touch the durable state, and the step relation of a node
  over restarts and crashes. The event logger only posts copies of what happened and is left out; the
  singletons (state, monitor, registry) exist once main.py has run.
\<close>

section \<open>Fail-safe\<close>

definition sweep_funds :: "mconfig \<Rightarrow> world \<Rightarrow> string \<Rightarrow> bool \<Rightarrow> unit proc" where
  "sweep_funds c w target_address fallback_used =
     sbind (swhen_raise (\<not> mc_wallet c) (PyExn (RuntimeError ''Wallet not initialized''))) (\<lambda>_.
     sbind (catch_all (sweep_all w (JStr target_address)) (\<lambda>e.
        if \<not> fallback_used \<and> mc_default_btc_address c \<noteq> [] then sweep_all w (JStr (mc_default_btc_address c))
        else sraise e)) (\<lambda>_.
     mark_failsafe_completed))"

definition execute_failsafe :: "mconfig \<Rightarrow> world \<Rightarrow> peer_info list \<Rightarrow> unit proc" where
  "execute_failsafe c w peers = (case select_best_peer peers of
     Some best \<Rightarrow> sbind mark_failsafe_started (\<lambda>_. sweep_funds c w (si_btc_address best) False)
   | None \<Rightarrow>
       if mc_default_btc_address c \<noteq> [] then sbind mark_failsafe_started (\<lambda>_. sweep_funds c w (mc_default_btc_address c) True)
       else sreturn ())"

section \<open>Top-up\<close>

definition SS_MIN_INVOICE_DOLLARS :: int where "SS_MIN_INVOICE_DOLLARS = 5"

definition topup_sporestack :: "mconfig \<Rightarrow> world \<Rightarrow> node_state \<Rightarrow> unit proc" where
  "topup_sporestack c w ns =
     sbind (external (\<lambda>h. Read_Token_File) (w_token_file w)) (\<lambda>content.
     case content of
       None \<Rightarrow> sreturn ()
     | Some text \<Rightarrow>
         let token = JStr (strip text) in
         sbind (calculate_monthly_vps_cost c w (JStr (mc_vps_flavor c))
                 (py_or (ns_vps_provider ns) (JStr (mc_vps_provider c)))) (\<lambda>monthly_cost_cents.
         let cost_cents = py_trunc (fdiv (of_int (monthly_cost_cents * mc_topup_target_days c)) 30);
             needed_cents = cost_cents - ns_sporestack_balance_cents ns
         in if needed_cents \<le> 0 then sreturn ()
         else let needed_dollars = max SS_MIN_INVOICE_DOLLARS \<lceil>fdiv (of_int needed_cents) 100\<rceil> in
         sbind (create_invoice w TopUp token needed_dollars) (\<lambda>response.
         if \<not> truthy response then sreturn ()
         else sbind (dict_get ''invoice'' response response) (\<lambda>invoice.
         sbind (dict_get ''payment_uri'' (JStr []) invoice) (\<lambda>payment_uri.
         sbind (lift_py (parse_bitcoin_uri payment_uri)) (\<lambda>parsed.
         case parsed of
           None \<Rightarrow> sreturn ()
         | Some (address, amount_sat) \<Rightarrow>
             if \<not> mc_wallet c then sreturn ()
             else sbind (get_balance_satoshis w) (\<lambda>wallet_sat.
               if wallet_sat < amount_sat then sreturn ()
               else catch_all (sbind (send w TopUp (JStr address) amount_sat) (\<lambda>_. sreturn ())) (\<lambda>_. sreturn ()))))))))"

section \<open>The decision loop\<close>

text \<open>
  \<^verbatim>\<open>_wait_for_node_state\<close>: at most 300 rounds of one second. The monitor task may finish a refresh during
  the sleep, with the state the world gives for it.
\<close>

definition sleep_monitored :: "world \<Rightarrow> unit proc" where
  "sleep_monitored w = sbind (external (\<lambda>h. Sleep 1) (w_monitor w)) (\<lambda>v.
     case v of None \<Rightarrow> sreturn () | Some ns \<Rightarrow> set_monitor ns)"

primrec wait_rounds :: "world \<Rightarrow> nat \<Rightarrow> bool proc" where
  "wait_rounds w 0 = sreturn False"
| "wait_rounds w (Suc n) = sbind get_state (\<lambda>ns.
     if 0 < ns_last_updated ns then sreturn True else sbind (sleep_monitored w) (\<lambda>_. wait_rounds w n))"

definition wait_for_node_state :: "world \<Rightarrow> bool proc" where
  "wait_for_node_state w = wait_rounds w 300"

definition handle_recovery :: "(json \<Rightarrow> string) \<Rightarrow> mconfig \<Rightarrow> world \<Rightarrow> peer_registry \<Rightarrow> unit proc" where
  "handle_recovery py_repr c w registry =
     sbind (read_table (\<lambda>t. (is_spawn_in_progress t, is_failsafe_in_progress t, get_spawn_id py_repr t))) (\<lambda>(spawning, failing, spawn_id).
     if spawning then
       if spawn_id = [] then mark_spawn_completed py_repr w False (JStr [])
       else sbind (wait_for_node_state w) (\<lambda>ready.
         if \<not> ready then sreturn ()
         else sbind get_state (\<lambda>ns.
           sbind (read_table get_caution_trait) (\<lambda>r.
           sbind (lift_py r) (\<lambda>caution_trait.
           sbind (spawn_child py_repr c w ns caution_trait spawn_id) (\<lambda>_. sreturn ())))))
     else if failing then
       sbind (wait_for_node_state w) (\<lambda>ready.
       if \<not> ready then sreturn ()
       else sbind (read_clock w) (\<lambda>now.
         catch_all (execute_failsafe c w (get_live_peers now registry)) (\<lambda>_. sreturn ())))
     else sreturn ())"

definition effective_runway :: "node_state \<Rightarrow> int \<Rightarrow> int" where
  "effective_runway ns days_remaining = (case ns_total_runway_days ns of Some d \<Rightarrow> d | None \<Rightarrow> days_remaining)"

definition start_spawn :: "(json \<Rightarrow> string) \<Rightarrow> mconfig \<Rightarrow> world \<Rightarrow> node_state \<Rightarrow> rat \<Rightarrow> unit proc" where
  "start_spawn py_repr c w ns caution_trait =
     sbind (lift_py (check_spawn_eligibility c ns caution_trait)) (\<lambda>eligibility.
     if se_eligible eligibility then
       sbind (external (\<lambda>h. Uuid) (w_uuid w)) (\<lambda>uuid.
       let spawn_id = ''spawn-'' @ take 8 uuid in
       sbind (mark_spawn_started w spawn_id) (\<lambda>_.
       sbind (spawn_child py_repr c w ns caution_trait spawn_id) (\<lambda>_. sreturn ())))
     else sreturn ())"

text \<open>A top-up and the refresh after it; \<open>None\<close> when an exception ends the tick.\<close>

definition topup_and_refresh :: "mconfig \<Rightarrow> world \<Rightarrow> node_state \<Rightarrow> node_state option proc" where
  "topup_and_refresh c w ns = catch_all
     (sbind (topup_sporestack c w ns) (\<lambda>_. sbind (refresh c w) (\<lambda>_. sbind get_state (\<lambda>ns'. sreturn (Some ns')))))
     (\<lambda>_. sreturn None)"

definition tick :: "(json \<Rightarrow> string) \<Rightarrow> mconfig \<Rightarrow> world \<Rightarrow> peer_registry \<Rightarrow> unit proc" where
  "tick py_repr c w registry =
     sbind get_state (\<lambda>ns.
     if ns_last_updated ns = 0 then sreturn ()
     else case ns_days_remaining ns of
       None \<Rightarrow> sreturn ()
     | Some days_remaining \<Rightarrow>
         sbind (read_table get_caution_trait) (\<lambda>r.
         sbind (lift_py r) (\<lambda>caution_trait.
         sbind (read_clock w) (\<lambda>now.
         sbind (read_table (\<lambda>t. (is_spawn_in_progress t, is_failsafe_in_progress t))) (\<lambda>(spawning, failing).
         if spawning then sreturn ()
         else if failing then sreturn ()
         else if effective_runway ns days_remaining < mc_failsafe_trigger_days c then
           catch_all (execute_failsafe c w (get_live_peers now registry)) (\<lambda>_. sreturn ())
         else
           sbind (if days_remaining < mc_topup_trigger_days c then topup_and_refresh c w ns else sreturn (Some ns)) (\<lambda>current.
           case current of None \<Rightarrow> sreturn () | Some ns' \<Rightarrow> start_spawn py_repr c w ns' caution_trait))))))"

section \<open>The orchestrator\<close>

text \<open>What \<^verbatim>\<open>main\<close> writes before the loops start.\<close>

definition startup :: "mconfig \<Rightarrow> unit proc" where
  "startup c =
     sbind (read_table (\<lambda>t. (get_caution_trait t, kv_get ''caution_trait'' JNull t))) (\<lambda>(r, stored).
     sbind (lift_py r) (\<lambda>caution_trait.
     if caution_trait = 1 / 2 \<and> stored = JNull then set_caution_trait (mc_initial_caution_trait c) else sreturn ()))"

text \<open>\<^verbatim>\<open>_handle_shutdown\<close>; the result tells whether the orchestrator stops.\<close>

definition handle_shutdown :: "(json \<Rightarrow> string) \<Rightarrow> mconfig \<Rightarrow> world \<Rightarrow> bool proc" where
  "handle_shutdown py_repr c w =
     sbind (read_table is_spawn_in_progress) (\<lambda>spawning.
     if spawning then
       sbind (read_clock w) (\<lambda>now.
       sbind (read_table get_spawn_started_at) (\<lambda>r.
       sbind (lift_py r) (\<lambda>started_at.
       if fsub (clock_float now) started_at < of_int (mc_max_spawn_duration c) then sreturn False
       else
         sbind (read_table (\<lambda>t. (py_or (kv_get ''spawn_identity'' JNull t) (JObj []), py_or (kv_get ''spawn_vps_info'' JNull t) (JObj [])))) (\<lambda>(stored_identity, stored_vps).
         sbind (dict_get ''sporestack_token'' (JStr ''?'') stored_identity) (\<lambda>_.
         sbind (dict_get ''machine_id'' (JStr ''?'') stored_vps) (\<lambda>_.
         sbind (mark_spawn_completed py_repr w False (JStr [])) (\<lambda>_.
         sreturn True)))))))
     else sreturn True)"

text \<open>
  One round of \<^verbatim>\<open>check_for_updates\<close>: the result tells whether the process exits to be restarted. git is a
  call to the world; its errors are caught.
\<close>

definition check_for_updates :: "world \<Rightarrow> bool proc" where
  "check_for_updates w =
     sbind (external (\<lambda>h. Remote ''has_updates'' []) (\<lambda>h. w_remote w h ''has_updates'' [])) (\<lambda>updates.
     if \<not> updates then sreturn False
     else sbind (read_table (\<lambda>t. (is_spawn_in_progress t, is_failsafe_in_progress t))) (\<lambda>(spawning, failing).
       if spawning \<or> failing then sreturn False
       else catch_all (sbind (remote w ''pull_updates'' []) (\<lambda>_. sreturn True)) (\<lambda>_. sreturn False)))"

section \<open>Runs of a node\<close>

text \<open>
  A node goes through any number of activities, each with any budget: it may be killed at any action. The
  table survives, the monitor starts afresh after a restart; configuration, fleet and monitor readings are
  whatever they are at that moment. A signal that arrives during a spawn either changes nothing or ends
  the process, so it is an activity after a crash.
\<close>

inductive node_activity :: "(json \<Rightarrow> string) \<Rightarrow> world \<Rightarrow> unit proc \<Rightarrow> bool" for py_repr w where
  act_startup: "node_activity py_repr w (startup c)"
| act_recovery: "node_activity py_repr w (handle_recovery py_repr c w registry)"
| act_tick: "node_activity py_repr w (tick py_repr c w registry)"
| act_refresh: "node_activity py_repr w (refresh c w)"
| act_shutdown: "node_activity py_repr w (sbind (handle_shutdown py_repr c w) (\<lambda>_. sreturn ()))"
| act_updates: "node_activity py_repr w (sbind (check_for_updates w) (\<lambda>_. sreturn ()))"

definition born :: node_process where
  "born = \<lparr>np_table = (\<lambda>_. None), np_history = [], np_monitor = initial_node_state, np_budget = 0\<rparr>"

inductive node_run :: "(json \<Rightarrow> string) \<Rightarrow> world \<Rightarrow> node_process \<Rightarrow> bool" for py_repr w where
  run_born: "node_run py_repr w born"
| run_activity: "node_run py_repr w s \<Longrightarrow> node_activity py_repr w a \<Longrightarrow>
     node_run py_repr w (snd (a (s\<lparr>np_monitor := ns, np_budget := n\<rparr>)))"

inductive_cases node_activityE: "node_activity py_repr w a"

end
