(* ===== verification/Spawn_Example.thy ===== *)
theory Spawn_Example
  imports Spawn_Decision Bitcoin_Utils
begin

text \<open>A small world for the witnesses: every service answers, and the wallet lists what it sent.\<close>

definition demo_config :: mconfig where
  "demo_config = \<lparr>mc_friendly_name = ''genesis'', mc_log_endpoint = [], mc_log_secret = [], mc_default_btc_address = ''cold'',
     mc_initial_caution_trait = Fin False 5 (- 1), mc_caution_mutation_sigma = 1 / 16, mc_caution_trait_min = 3 / 8,
     mc_caution_trait_max = 7 / 8, mc_caution_trait_target = 1 / 2, mc_caution_mean_reversion = 1 / 4,
     mc_spawn_threshold_days = 60, mc_inheritance_ratio = 1 / 2, mc_spawn_fee_buffer_sat = 390625,
     mc_sporestack_min_invoice_dollars = 5, mc_failsafe_trigger_days = 2, mc_topup_trigger_days = 30,
     mc_topup_target_days = 30, mc_max_spawn_duration = 7200, mc_vps_provider = ''sporestack_eu'',
     mc_vps_flavor = ''sporestack-eu-4gb'', mc_vps_region = ''amsterdam'', mc_vps_os = ''ubuntu-24.04'',
     mc_vps_days = 30, mc_vps_billing_cycle = ''monthly'', mc_vps_monthly_cost_cents = 3000,
     mc_btc_usd_rate = 256, mc_whoami_gossip_cooldown = 60, mc_data_dir = ''/root/data'', mc_wallet = True\<rparr>"

fun demo_http :: "request \<Rightarrow> json option" where
  "demo_http Get_Token = Some (JStr ''token'')"
| "demo_http (Post_Invoice p t d) = Some (JObj [(''payment_uri'', JStr ''bitcoin:bc1invoice?amount=0.0006''), (''expires'', JInt 1900000000)])"
| "demo_http (Get_Balance t) = Some (JObj [(''cents'', JInt 3000)])"
| "demo_http (Get_Servers t) = Some (JObj [(''servers'', JList [JObj [(''machine_id'', JStr ''m1'')]])])"
| "demo_http (Post_Server t p) = Some (JObj [(''machine_id'', JStr ''m1'')])"
| "demo_http (Get_Server t m) = Some (JObj [(''ipv4'', JStr ''10.0.0.1'')])"
| "demo_http r = None"

fun sent_transactions :: "event list \<Rightarrow> wallet_tx list" where
  "sent_transactions [] = []"
| "sent_transactions (Send_Raw p (JStr a) v True # h) =
     \<lparr>wt_is_send = True, wt_outputs = [(a, v)], wt_txid = ''txid''\<rparr> # sent_transactions h"
| "sent_transactions (e # h) = sent_transactions h"

definition demo_world :: world where
  "demo_world = \<lparr>w_clock = (\<lambda>h. seconds (1700000000 + 10 * int (length h))), w_http = (\<lambda>h. demo_http),
     w_created = (\<lambda>h r. True), w_keypair = (\<lambda>h p. Some (p, ''ssh-ed25519 key'')),
     w_child_wallet = (\<lambda>h s. Some (''child words'', ''bc1child'')), w_update = (\<lambda>h. True),
     w_wallet_balance = (\<lambda>h. Some 27343750), w_transactions = (\<lambda>h. Some (sent_transactions h)),
     w_create_tx = (\<lambda>h a v. Some (True, ''txid'')), w_send_raw = (\<lambda>h a v. Some (JObj [(''txid'', JStr ''txid'')])),
     w_reaches = (\<lambda>h a v. True), w_sweep = (\<lambda>h a. Some ''sweep''), w_remote = (\<lambda>h s a. True),
     w_health = (\<lambda>h. Some True), w_gauss = (\<lambda>h s. 0), w_uuid = (\<lambda>h. nat_str (length h)),
     w_token_file = (\<lambda>h. Some ''own-token''), w_monitor = (\<lambda>h. None)\<rparr>"

definition demo_state :: node_state where
  "demo_state = initial_node_state\<lparr>ns_btc_balance_sat := 27343750, ns_days_remaining := Some 100,
     ns_total_runway_days := Some 1000, ns_last_updated := seconds 1700000000\<rparr>"

definition demo_repr :: "json \<Rightarrow> string" where "demo_repr v = []"

definition demo_registry :: peer_registry where "demo_registry = \<lparr>pr_fleet = [], pr_ttl = 3600\<rparr>"

definition demo_info :: seedbox_info where
  "demo_info = \<lparr>si_friendly_name = ''peer'', si_public_ip = ''10.0.0.2'', si_git_commit_hash = ''abc'', si_uptime_seconds = 10,
     si_disk_total_bytes = 100, si_disk_used_bytes = 50, si_btc_address = ''bc1peer'', si_btc_balance_sat = 1000,
     si_vps_provider_region = ''ams'', si_vps_days_remaining = 20\<rparr>"

text \<open>A node that decides to have a child, with a budget of actions.\<close>

definition demo_spawn :: "nat \<Rightarrow> node_process" where
  "demo_spawn n = snd (tick demo_repr demo_config demo_world demo_registry (born\<lparr>np_monitor := demo_state, np_budget := n\<rparr>))"

section \<open>Its numbers\<close>

lemma fl_numeral: "(numeral n :: int) < 2 ^ 53 \<Longrightarrow> fl (numeral n) = numeral n"
  using fl_int [of "numeral n"] by simp

lemma fl_demo: "fl 1 = 1" "fl (1 / 2) = 1 / 2" "fl (3 / 2) = 3 / 2" "fl (15 / 128) = 15 / 128" "fl (1 / 256) = 1 / 256"
  using fl_int [of 1] fl_dyadic [of 1 1] fl_dyadic [of 3 1] fl_dyadic [of 15 7] fl_dyadic [of 1 8] by simp_all

lemmas demo_numbers = fl_numeral fl_demo fdiv_def fmul_def fsub_def fadd_def py_fdiv_def py_trunc_def Let_def

lemma demo_costs: "vps_cost_sat demo_config = Inr 11718750" "cost_per_day_sat demo_config = Inr 390625"
  "compute_child_share demo_config 27343750 = Inr 7812500"
  by (simp_all add: vps_cost_sat_def cost_per_day_sat_def compute_child_share_def demo_config_def demo_numbers)

lemma demo_eligible: "check_spawn_eligibility demo_config demo_state (1 / 2) = Inr \<lparr>se_eligible = True, se_reason = ''eligible (child share: '' @ int_str 7812500 @ '' sat)'',
   se_effective_threshold = 90, se_post_spawn_runway_days = 949, se_post_spawn_btc_sat = 7421875, se_child_share_sat = 7812500\<rparr>"
  using demo_costs by (simp add: check_spawn_eligibility_def demo_state_def demo_numbers) (simp add: demo_config_def demo_numbers)

lemmas process_eval = sbind_def external_def commit_table_def read_table_def lift_py_def catch_all_def scatch_def or_raise_def
  read_clock_def sleep_def dict_get_def dict_item_def matches_spawn_def kv_get_def kv_set_def kv_delete_def jget_def py_or_def
  get_state_def set_monitor_def swhen_raise_def

lemma demo_decimal: "dec_of_string ''0.0006'' = Some (Fin False 6 (- 4))"
proof -
  have "dec_of_string ''0.0006'' = dec_number False ''0.0006''"
    by (rule dec_of_string_number) (auto simp: is_digit_def)
  then show ?thesis
    by (simp add: dec_number_def is_digit_def dec_exponent_def dec_val_def digit_val_def nat_str.simps MAX_EMAX_def MIN_ETINY_def)
qed

lemma demo_sats: "dec_mult (Fin False 6 (- 4)) (Fin False 100000000 0) = Inr (Fin False 600000000 (- 4))"
  by (simp add: dec_fix_def decimal_context nat_str.simps)

lemma demo_amount: "parse_bitcoin_uri (JStr ''bitcoin:bc1invoice?amount=0.0006'') = Inr (Some (''bc1invoice'', 60000))"
proof -
  have "drop 7 ''amount=0.0006'' = ''0.0006''" by simp
  then have "amount_param [''bc1invoice'', ''amount=0.0006''] = Some ''0.0006''"
    by (simp add: amount_param_def starts_with_def)
  moreover have "split_on CHR ''?'' ''bc1invoice?amount=0.0006'' = [''bc1invoice'', ''amount=0.0006'']" by simp
  ultimately show ?thesis using demo_decimal demo_sats
    by (simp add: parse_bitcoin_uri_def starts_with_def signed_def del: dec_mult.simps split_on.simps)
qed

section \<open>Its run\<close>

text \<open>The first action of a sequence is evaluated before the rest is looked at.\<close>

lemma sbind_weak: "m = m' \<Longrightarrow> sbind m f = sbind m' f" by simp
lemma scatch_weak: "m = m' \<Longrightarrow> scatch m f = scatch m' f" by simp
lemma catch_all_weak: "m = m' \<Longrightarrow> catch_all m f = catch_all m' f" by simp

lemma demo_world_simps: "w_http demo_world h = demo_http" "w_created demo_world h r = True" "w_keypair demo_world h p = Some (p, ''ssh-ed25519 key'')"
  "w_child_wallet demo_world h x = Some (''child words'', ''bc1child'')" "w_clock demo_world h = seconds (1700000000 + 10 * int (length h))"
  "w_update demo_world h = True" "w_wallet_balance demo_world h = Some 27343750" "w_transactions demo_world h = Some (sent_transactions h)"
  "w_create_tx demo_world h a v = Some (True, ''txid'')" "w_send_raw demo_world h a v = Some (JObj [(''txid'', JStr ''txid'')])"
  "w_reaches demo_world h a v = True" "w_remote demo_world h step args = True" "w_health demo_world h = Some True"
  "w_gauss demo_world h sg = 0" "w_uuid demo_world h = nat_str (length h)"
  by (simp_all add: demo_world_def)

lemma demo_config_simps:
  "mc_friendly_name demo_config = ''genesis''"
  "mc_log_endpoint demo_config = []"
  "mc_log_secret demo_config = []"
  "mc_default_btc_address demo_config = ''cold''"
  "mc_initial_caution_trait demo_config = Fin False 5 (- 1)"
  "mc_caution_mutation_sigma demo_config = 1 / 16"
  "mc_caution_trait_min demo_config = 3 / 8"
  "mc_caution_trait_max demo_config = 7 / 8"
  "mc_caution_trait_target demo_config = 1 / 2"
  "mc_caution_mean_reversion demo_config = 1 / 4"
  "mc_spawn_threshold_days demo_config = 60"
  "mc_inheritance_ratio demo_config = 1 / 2"
  "mc_spawn_fee_buffer_sat demo_config = 390625"
  "mc_sporestack_min_invoice_dollars demo_config = 5"
  "mc_failsafe_trigger_days demo_config = 2"
  "mc_topup_trigger_days demo_config = 30"
  "mc_topup_target_days demo_config = 30"
  "mc_max_spawn_duration demo_config = 7200"
  "mc_vps_provider demo_config = ''sporestack_eu''"
  "mc_vps_flavor demo_config = ''sporestack-eu-4gb''"
  "mc_vps_region demo_config = ''amsterdam''"
  "mc_vps_os demo_config = ''ubuntu-24.04''"
  "mc_vps_days demo_config = 30"
  "mc_vps_billing_cycle demo_config = ''monthly''"
  "mc_vps_monthly_cost_cents demo_config = 3000"
  "mc_btc_usd_rate demo_config = 256"
  "mc_whoami_gossip_cooldown demo_config = 60"
  "mc_data_dir demo_config = ''/root/data''"
  "mc_wallet demo_config = True"
  by (simp_all add: demo_config_def)

lemma scan_first: "scan_with_retry w 5 = catch_all (scan w) (\<lambda>_. sbind (sleep 2) (\<lambda>_. scan_with_retry w 4))"
  using scan_with_retry.simps(2) [of w 4] by simp

lemma demo_state_simps: "ns_btc_balance_sat demo_state = 27343750" "ns_days_remaining demo_state = Some 100"
  "ns_total_runway_days demo_state = Some 1000" "ns_last_updated demo_state = seconds 1700000000"
  by (simp_all add: demo_state_def)

lemmas run_eval = tick_def start_spawn_def mark_spawn_started_def spawn_child_def obtain_identity_def load_stored_identity_def load_blob_def prepare_child_identity_def generate_ssh_keypair_def
     ensure_child_wallet_def rehydrate_child_wallet_def generate_child_btc_wallet_def ensure_sporestack_token_def rehydrate_sporestack_token_def
     generate_token_def http_json_def http_def fund_sporestack_token_def mint_funding_invoice_def record_invoice_def matches_funding_def
     calculate_monthly_vps_cost_def create_invoice_def MAX_FUNDING_ATTEMPTS_def wait_for_credit_def pay_funding_invoice_def
     check_parent_balance_def get_balance_satoshis_def intent_is_live_def send_def sign_transaction_def get_balance_def int_field_def
     obtain_vps_def load_stored_vps_def provision_child_vps_def find_or_launch_server_def launch_server_def wait_for_server_ready_def get_server_def usable_ipv4_def pick_host_def
     deploy_child_code_def remote_def finally_disconnect_def safe_disconnect_def boot_child_orchestrator_def mutate_caution_trait_def start_orchestrator_def check_health_def
     transfer_inheritance_def fresh_transfer_def SCAN_RETRY_ATTEMPTS_def scan_def scan_first mark_spawn_completed_def DUST_THRESHOLD_SAT_def POLL_TIMEOUT_def POST_START_SETTLE_SECONDS_def
     INVOICE_EXPIRY_SAFETY_MARGIN_SECONDS_def


lemma demo_id: "nat_str (Suc 0) = ''1''"
  by (simp add: nat_str.simps char_of_eq_iff take_bit_eq_mod)

lemmas demo_eval = run_eval process_eval born_def demo_world_simps demo_amount demo_costs demo_eligible demo_id
  get_caution_trait_def json_float_def strip_def strip_by_def is_py_space_def demo_state_simps seconds_def
  is_spawn_in_progress_def is_failsafe_in_progress_def effective_runway_def poll_def demo_config_simps child_secrets_def
  demo_numbers blob_fields_def get_spawn_id_def py_str_def

lemma demo_history: "np_history (demo_spawn 100) =
  [Read_Clock, Uuid, Start_Spawn ''spawn-1'', Ssh_Keygen (spawn_key_path demo_config ''spawn-1''),
   Create_Child_Wallet ''spawn-1'', Http Get_Token True,
   Http (Get_Quote (JStr ''sporestack-eu-4gb'') (JStr ''sporestack_eu'')) True,
   Http (Post_Invoice (Funding (JStr ''spawn-1'')) (JStr ''token'') (funding_dollars demo_config 3000)) True,
   Wallet_Balance, Read_Clock, Wallet_Balance, Create_Tx (JStr ''bc1invoice'') 60000,
   Send_Raw (Funding (JStr ''spawn-1'')) (JStr ''bc1invoice'') 60000 True,
   Read_Clock, Read_Clock, Http (Get_Balance (JStr ''token'')) True, Read_Clock,
   Http (Post_Server (JStr ''token'') (launch_payload demo_config (JStr ''ssh-ed25519 key'') (JStr ''spawn-1''))) True,
   Read_Clock, Read_Clock, Http (Get_Server (JStr ''token'') (JStr ''m1'')) True,
   Remote ''SSHDeployer'' [JStr (spawn_key_path demo_config ''spawn-1'')],
   Remote ''connect'' [JStr ''10.0.0.1'', JInt 22], Remote ''install_dependencies'' [], Remote ''setup_firewall'' [],
   Remote ''deploy_mycelium'' [], Remote ''deploy_video_ids'' [], Remote ''deploy_cookies'' [], Gauss,
   Boot (child_env demo_config \<lparr>ci_spawn_id = JStr ''spawn-1'', ci_sporestack_token = JStr ''token'',
       ci_ssh_private_key_path = JStr (spawn_key_path demo_config ''spawn-1''), ci_ssh_public_key = JStr ''ssh-ed25519 key'',
       ci_btc_mnemonic = JStr ''child words'', ci_btc_address = JStr ''bc1child'', ci_funded_cents = JInt 3000\<rparr> (1 / 2))
     [(''/root/data/btc_mnemonic_seed'', JStr ''child words''), (''/root/data/sporestack_token'', JStr ''token'')],
   Sleep 15, Check_Health True, Wallet_Update, Wallet_Balance, Wallet_Balance, Wallet_Balance,
   Create_Tx (JStr ''bc1child'') 7812500, Send_Raw (Inheritance (JStr ''spawn-1'')) (JStr ''bc1child'') 7812500 True,
   Read_Clock, Remote ''disconnect'' []]"
  by (simp add: demo_spawn_def demo_eval cong: sbind_weak scatch_weak catch_all_weak)

lemma demo_spawn_run: "node_run demo_repr demo_world (demo_spawn n)"
  unfolding demo_spawn_def by (rule run_activity [OF run_born act_tick])

end
