(* ===== verification/Spawn_Frame.thy ===== *)
theory Spawn_Frame
  imports Spawn_Decision
begin

text \<open>
  What the operations of a node can change: which keys of the table they write and which of the events that
  cost money or start something (\<open>loud\<close>) they perform. Every operation has one lemma, proved by the
  structure of its definition with the rules collected in \<open>frame_rules\<close>.
\<close>

fun loud :: "event \<Rightarrow> bool" where
  "loud (Send_Raw p a v r) \<longleftrightarrow> True"
| "loud (Http (Post_Invoice p t d) r) \<longleftrightarrow> True"
| "loud (Http (Post_Server t p) r) \<longleftrightarrow> True"
| "loud (Start_Spawn sid) \<longleftrightarrow> True"
| "loud e \<longleftrightarrow> False"

text \<open>\<open>s\<close> continues \<open>s0\<close>, writing only keys in \<open>K\<close> and performing only loud events with \<open>L\<close>.\<close>

definition continues :: "string set \<Rightarrow> (event \<Rightarrow> bool) \<Rightarrow> node_process \<Rightarrow> node_process \<Rightarrow> bool" where
  "continues K L s0 s \<longleftrightarrow>
     (\<exists>es. np_history s = np_history s0 @ es \<and> (\<forall>e\<in>set es. loud e \<longrightarrow> L e)) \<and>
     (\<forall>k. k \<notin> K \<longrightarrow> np_table s k = np_table s0 k)"

definition frame :: "string set \<Rightarrow> (event \<Rightarrow> bool) \<Rightarrow> 'r proc \<Rightarrow> bool" where
  "frame K L f \<longleftrightarrow> (\<forall>s. continues K L s (snd (f s)))"

named_theorems frame_rules \<open>frames by the structure of a process and frames of its operations\<close>

lemma continues_refl: "continues K L s s"
  by (simp add: continues_def)

lemma continues_trans: "continues K L s0 s1 \<Longrightarrow> continues K L s1 s2 \<Longrightarrow> continues K L s0 s2"
  unfolding continues_def by (metis Un_iff append.assoc set_append)

lemma frameD: "frame K L f \<Longrightarrow> f s = (r, s') \<Longrightarrow> continues K L s s'"
  unfolding frame_def by (metis snd_conv)

lemma frame_mono: "frame K L f \<Longrightarrow> K \<subseteq> K' \<Longrightarrow> (\<And>e. L e \<Longrightarrow> L' e) \<Longrightarrow> frame K' L' f"
  unfolding frame_def continues_def by blast

text \<open>A condition that every continuation keeps is kept by the process.\<close>

lemma frame_triple:
  assumes "frame K L f" and "\<And>s0 s. continues K L s0 s \<Longrightarrow> P s0 \<Longrightarrow> P s"
  shows "keeps P f"
  using assms unfolding triple_def frame_def by blast

lemma frame_sbind [frame_rules]:
  assumes "frame K L m" and "\<And>x. frame K L (f x)"
  shows "frame K L (sbind m f)"
  unfolding frame_def
proof
  fix s
  obtain q s1 where q: "m s = (q, s1)" by (cases "m s")
  then show "continues K L s (snd (sbind m f s))" using frameD [OF assms(1) q] assms(2) continues_trans
    unfolding frame_def by (cases q) (auto simp: sbind_def)
qed

lemma frame_scatch [frame_rules]:
  assumes m: "frame K L m" and h: "\<And>e g. h e = Some g \<Longrightarrow> frame K L g"
  shows "frame K L (scatch m h)"
  unfolding frame_def
proof
  fix s
  obtain q s1 where q: "m s = (q, s1)" by (cases "m s")
  then show "continues K L s (snd (scatch m h s))" using frameD [OF m q] h continues_trans
    unfolding frame_def by (cases q) (auto simp: scatch_def split: option.splits)
qed

lemma frame_catch_all [frame_rules]: "frame K L m \<Longrightarrow> (\<And>e. frame K L (h e)) \<Longrightarrow> frame K L (catch_all m h)"
  unfolding catch_all_def by (intro frame_scatch) (auto split: if_splits)

lemma frame_if [frame_rules]: "frame K L a \<Longrightarrow> frame K L b \<Longrightarrow> frame K L (if c then a else b)"
  by simp

lemma frame_let [frame_rules]: "(\<And>x. frame K L (f x)) \<Longrightarrow> frame K L (let x = v in f x)"
  by simp

lemma frame_option [frame_rules]:
  "frame K L a \<Longrightarrow> (\<And>x. frame K L (b x)) \<Longrightarrow> frame K L (case v of None \<Rightarrow> a | Some x \<Rightarrow> b x)"
  by (cases v) auto

lemma frame_prod [frame_rules]: "(\<And>x y. frame K L (f x y)) \<Longrightarrow> frame K L (case v of (x, y) \<Rightarrow> f x y)"
  by (cases v) auto

lemma frame_json [frame_rules]:
  "frame K L a \<Longrightarrow> (\<And>x. frame K L (b x)) \<Longrightarrow> (\<And>x. frame K L (i x)) \<Longrightarrow> (\<And>x. frame K L (d x)) \<Longrightarrow>
   (\<And>x. frame K L (t x)) \<Longrightarrow> (\<And>x. frame K L (l x)) \<Longrightarrow> (\<And>x. frame K L (m x)) \<Longrightarrow>
   frame K L (case v of JNull \<Rightarrow> a | JBool x \<Rightarrow> b x | JInt x \<Rightarrow> i x | JFloat x \<Rightarrow> d x | JStr x \<Rightarrow> t x | JList x \<Rightarrow> l x | JObj x \<Rightarrow> m x)"
  by (cases v) auto

lemma frame_pure [frame_rules]:
  "frame K L (sreturn x)" "frame K L (sraise e)" "frame K L (swhen_raise b e)" "frame K L (read_table g)" "frame K L (lift_py r)"
  "frame K L get_state" "frame K L (set_monitor ns)"
  by (auto simp: frame_def swhen_raise_def read_table_def lift_py_def get_state_def set_monitor_def continues_def
        split: sum.splits)

lemma frame_dict [frame_rules]: "frame K L (dict_get key d v)" "frame K L (dict_item key v)" "frame K L (matches_spawn blob sid)"
  unfolding dict_get_def dict_item_def matches_spawn_def by (intro frame_rules)+

lemma frame_external [frame_rules]: "(\<And>h. loud (ev h) \<Longrightarrow> L (ev h)) \<Longrightarrow> frame K L (external ev answer)"
  by (auto simp: frame_def external_def continues_def)

lemma frame_commit: "(\<And>t k. k \<notin> K \<Longrightarrow> f t k = t k) \<Longrightarrow> frame K L (commit_table f)"
  by (auto simp: frame_def commit_table_def continues_def)

lemma frame_kv [frame_rules]: "key \<in> K \<Longrightarrow> frame K L (kv_set key v)" "key \<in> K \<Longrightarrow> frame K L (kv_delete key)"
  unfolding kv_set_def kv_delete_def by (auto intro!: frame_commit)

lemma frame_poll [frame_rules]:
  assumes "frame K L body" shows "frame K L (poll body)"
proof -
  have "frame K L (poll_rounds n body)" for n
    by (induction n; unfold poll_rounds.simps; intro frame_rules assms)
  then show ?thesis unfolding poll_def frame_def by blast
qed

lemma frame_or_raise [frame_rules]: "frame K L m \<Longrightarrow> frame K L (or_raise msg m)"
  unfolding or_raise_def by (intro frame_rules)

section \<open>Wallet and SporeStack\<close>

lemma frame_wallet [frame_rules]:
  "frame K L (read_clock w)" "frame K L (sleep n)" "frame K L (get_balance_satoshis w)" "frame K L (scan w)"
  "frame K L (sign_transaction w a v)" "frame K L (sweep_all w a)" "frame K L (find_prior_send w a v)"
  unfolding read_clock_def sleep_def get_balance_satoshis_def scan_def sign_transaction_def sweep_all_def
    find_prior_send_def scan_for_prior_send_def by (intro frame_rules; simp)+

lemma frame_scan_prior: "frame K L (scan_for_prior_send w a v)"
  unfolding scan_for_prior_send_def by (intro frame_rules; simp)

lemma frame_send [frame_rules]: "(\<And>r. L (Send_Raw p a v r)) \<Longrightarrow> frame K L (send w p a v)"
  unfolding send_def by (intro frame_rules) simp

lemma frame_http: "(\<And>b. loud (Http r b) \<Longrightarrow> L (Http r b)) \<Longrightarrow> frame K L (http w r)"
  unfolding http_def by (intro frame_rules) simp

lemma frame_sporestack [frame_rules]:
  "frame K L (get_info w t)" "frame K L (get_balance w t)" "frame K L (get_servers w t)" "frame K L (generate_token w)"
  "frame K L (get_server w t i)" "frame K L (int_field key d v)" "frame K L (calculate_monthly_vps_cost c w f p)"
  "frame K L (wait_for_server_ready w t i)"
  unfolding get_info_def get_balance_def get_servers_def generate_token_def get_server_def int_field_def
    calculate_monthly_vps_cost_def http_json_def wait_for_server_ready_def by (intro frame_rules frame_http; simp)+

lemma frame_invoice [frame_rules]: "(\<And>r. L (Http (Post_Invoice p t d) r)) \<Longrightarrow> frame K L (create_invoice w p t d)"
  unfolding create_invoice_def http_json_def by (intro frame_rules frame_http)

lemma frame_launch [frame_rules]:
  "(\<And>r. L (Http (Post_Server t (launch_payload c k host)) r)) \<Longrightarrow> frame K L (launch_server c w t k host)"
  unfolding launch_server_def by (intro frame_rules frame_http)

section \<open>The pipeline\<close>

text \<open>The keys written by the three stages, and the loud events of each.\<close>

definition identity_keys :: "string set" where
  "identity_keys = {''spawn_child_wallet'', ''spawn_sporestack_token'', ''spawn_funding_attempts'', ''spawn_funding_intent'',
     ''spawn_funding_txid'', ''spawn_identity''}"

definition vps_keys :: "string set" where "vps_keys = {''spawn_vps_intent'', ''spawn_vps_info''}"

definition completion_keys :: "string set" where
  "completion_keys = {''spawn_in_progress'', ''spawn_history''} \<union> set SPAWN_KEYS_TO_CLEAR"

fun funding_event :: "json \<Rightarrow> event \<Rightarrow> bool" where
  "funding_event j (Send_Raw p a v r) \<longleftrightarrow> p = Funding j"
| "funding_event j (Http (Post_Invoice p t d) r) \<longleftrightarrow> p = Funding j"
| "funding_event j e \<longleftrightarrow> False"

fun launch_event :: "json \<Rightarrow> event \<Rightarrow> bool" where
  "launch_event j (Http (Post_Server t p) r) \<longleftrightarrow> (\<exists>c k. p = launch_payload c k j)"
| "launch_event j e \<longleftrightarrow> False"

fun inheritance_event :: "json \<Rightarrow> event \<Rightarrow> bool" where
  "inheritance_event j (Send_Raw p a v r) \<longleftrightarrow> p = Inheritance j"
| "inheritance_event j e \<longleftrightarrow> False"

fun topup_event :: "event \<Rightarrow> bool" where
  "topup_event (Send_Raw p a v r) \<longleftrightarrow> p = TopUp"
| "topup_event (Http (Post_Invoice p t d) r) \<longleftrightarrow> p = TopUp"
| "topup_event e \<longleftrightarrow> False"

abbreviation no_event :: "event \<Rightarrow> bool" where "no_event \<equiv> \<lambda>e. False"

lemma frame_load [frame_rules]: "key \<in> K \<Longrightarrow> frame K L (load_blob key names sid)"
  unfolding load_blob_def by (intro frame_rules)

lemma frame_identity_parts [frame_rules]:
  "frame K L (wait_for_credit w t)" "frame K L (rehydrate_child_wallet sid)" "frame K L (rehydrate_sporestack_token sid)"
  "frame K L (intent_is_live w i)" "frame K L (check_parent_balance c w v)" "frame K L (matches_funding i sid t)"
  "frame K L (generate_child_btc_wallet w sid)" "frame K L (generate_ssh_keypair w path)"
  unfolding wait_for_credit_def rehydrate_child_wallet_def rehydrate_sporestack_token_def intent_is_live_def
    check_parent_balance_def matches_funding_def generate_child_btc_wallet_def generate_ssh_keypair_def
  by (intro frame_rules; simp)+

lemma frame_record [frame_rules]: "''spawn_funding_intent'' \<in> K \<Longrightarrow> frame K L (record_invoice sid t r)"
  unfolding record_invoice_def by (intro frame_rules)

lemma frame_funding [frame_rules]:
  "frame identity_keys (funding_event (JStr sid)) (mint_funding_invoice c w sid t)"
  "frame identity_keys (funding_event (JStr sid)) (pay_funding_invoice c w sid m1 m2 i)"
  unfolding mint_funding_invoice_def pay_funding_invoice_def by (intro frame_rules; simp add: identity_keys_def)+

lemma frame_fund [frame_rules]:
  "frame identity_keys (funding_event (JStr sid)) (fund_sporestack_token c w sid t)"
  unfolding fund_sporestack_token_def resume_funding_def retry_funding_def by (intro frame_rules; simp add: identity_keys_def)

lemma frame_ensure [frame_rules]:
  "''spawn_child_wallet'' \<in> K \<Longrightarrow> frame K L (ensure_child_wallet w sid)"
  "''spawn_sporestack_token'' \<in> K \<Longrightarrow> frame K L (ensure_sporestack_token w sid)"
  unfolding ensure_child_wallet_def ensure_sporestack_token_def by (intro frame_rules; simp)+

lemma frame_identity: "frame identity_keys (funding_event (JStr sid)) (obtain_identity c w sid)"
  unfolding obtain_identity_def load_stored_identity_def prepare_child_identity_def
  by (intro frame_rules; simp add: identity_keys_def)

lemma frame_adopt [frame_rules]: "frame K L (newest_server v)" "frame K L (adopt_orphan_server w t)"
  unfolding newest_server_def adopt_orphan_server_def
  by (intro frame_rules; auto simp: newest_server_def split: if_splits intro: frame_rules)+

lemma frame_vps: "frame vps_keys (launch_event (ci_spawn_id i)) (obtain_vps c w sid i)"
  unfolding obtain_vps_def load_stored_vps_def provision_child_vps_def find_or_launch_server_def pick_host_def
  by (intro frame_rules; auto simp: vps_keys_def)

lemma frame_remote [frame_rules]:
  "frame K L (remote w step args)" "frame K L (start_orchestrator w env sec)" "frame K L (check_health w)"
  "frame K L (mutate_caution_trait c w x)" "frame K L (safe_disconnect w)"
  unfolding remote_def start_orchestrator_def check_health_def mutate_caution_trait_def safe_disconnect_def
  by (intro frame_rules; simp add: remote_def)+

lemma frame_deploy [frame_rules]: "frame K L (deploy_child_code w v)"
  unfolding deploy_child_code_def by (intro frame_rules)

lemma frame_boot [frame_rules]: "frame K L (boot_child_orchestrator c w i x)"
  unfolding boot_child_orchestrator_def by (intro frame_rules) (auto split: proc_exn.splits intro: frame_rules)

lemma frame_finally [frame_rules]: "frame K L m \<Longrightarrow> frame K L (finally_disconnect w m)"
  unfolding finally_disconnect_def by (intro frame_rules)

lemma frame_scan_retry [frame_rules]: "frame K L (scan_with_retry w n)"
  by (induction n; unfold scan_with_retry.simps; intro frame_rules)

lemma frame_completed [frame_rules]:
  "completion_keys \<subseteq> K \<Longrightarrow> frame K L (mark_spawn_completed py_repr w b a)"
  unfolding mark_spawn_completed_def
  by (intro frame_rules frame_commit) (auto simp: completion_keys_def clear_keys_def)

lemma frame_transfer: "frame completion_keys (inheritance_event (ci_spawn_id i)) (transfer_inheritance py_repr c w i ns)"
  unfolding transfer_inheritance_def resume_transfer_def fresh_transfer_def
  by (intro frame_rules; simp add: completion_keys_def SPAWN_KEYS_TO_CLEAR_def)

section \<open>Decisions\<close>

lemma frame_monitor [frame_rules]:
  "frame K L (load_token w)" "frame K L (monitor_servers w t)" "frame K L (monitor_info w t)"
  unfolding load_token_def monitor_servers_def monitor_info_def
  by (intro frame_rules; auto split: if_splits intro: frame_rules)+

lemma frame_monitor_server [frame_rules]: "frame K L (monitor_server w t)"
  unfolding monitor_server_def by (intro frame_rules)

lemma frame_refresh [frame_rules]: "frame K L (refresh c w)"
  unfolding refresh_def by (intro frame_rules; simp split: prod.splits; intro allI impI frame_rules)

lemma frame_failsafe [frame_rules]: "''failsafe_in_progress'' \<in> K \<Longrightarrow> frame K L (execute_failsafe c w peers)"
  unfolding execute_failsafe_def sweep_funds_def mark_failsafe_started_def mark_failsafe_completed_def
  by (intro frame_rules)

lemma frame_topup [frame_rules]: "frame K topup_event (topup_sporestack c w ns)"
  unfolding topup_sporestack_def by (intro frame_rules; simp)

lemma frame_wait [frame_rules]: "frame K L (wait_for_node_state w)"
proof -
  have "frame K L (wait_rounds w n)" for n
    by (induction n; unfold wait_rounds.simps sleep_monitored_def; intro frame_rules; simp)
  then show ?thesis by (simp add: wait_for_node_state_def)
qed

lemma frame_startup [frame_rules]: "''caution_trait'' \<in> K \<Longrightarrow> frame K L (startup c)"
  unfolding startup_def set_caution_trait_def by (intro frame_rules)

lemma frame_updates [frame_rules]: "frame K L (check_for_updates w)"
  unfolding check_for_updates_def by (intro frame_rules) simp_all

end
