(* ===== verification/Spawn_Finance.thy ===== *)
theory Spawn_Finance
  imports Spawn_Example Spawn_Frame
begin

text \<open>
  What the financial rules of a node guarantee: the share of a child, eligibility, the caution trait, the
  fleet and its gossip, fail-safe and the decisions of a tick.
\<close>

section \<open>Shares and thresholds\<close>

lemma share_bounds:
  assumes "compute_child_share c bal = Inr share" and "vps_cost_sat c = Inr vps"
    and "0 \<le> mc_inheritance_ratio c" and "mc_inheritance_ratio c \<le> 1" and "bal - vps < 2 ^ 53"
  shows "0 \<le> share \<and> share \<le> max 0 (bal - vps)"
proof -
  define tr where "tr = max 0 (bal - vps)"
  have tr: "0 \<le> tr" "tr < 2 ^ 53" using assms(5) by (auto simp: tr_def)
  have e: "share = py_trunc (fl (of_int tr * mc_inheritance_ratio c))"
    using assms(1,2) tr by (simp add: compute_child_share_def tr_def [symmetric] fmul_def fl_int Let_def)
  have "0 \<le> of_int tr * mc_inheritance_ratio c" using tr(1) assms(3) by simp
  moreover have "of_int tr * mc_inheritance_ratio c \<le> of_int tr" using tr(1) assms(4) by (simp add: mult_left_le)
  ultimately show ?thesis unfolding e tr_def [symmetric]
    using fl_nonneg py_trunc_nonneg py_trunc_mono fl_le_int tr by blast
qed

lemma trunc_ge: "of_int t \<le> q \<Longrightarrow> 0 \<le> t \<Longrightarrow> t \<le> py_trunc q"
  by (auto simp: py_trunc_def le_floor_iff intro: order_trans [of 0 "of_int t"])

lemma effective_threshold_bounds:
  assumes "0 \<le> thr" and "thr < 2 ^ 52"
  shows "thr \<le> py_trunc (fmul (fint thr) (fadd 1 (max 0 (min 1 x)))) \<and> py_trunc (fmul (fint thr) (fadd 1 (max 0 (min 1 x)))) \<le> 2 * thr"
proof -
  define f where "f = fadd 1 (max 0 (min 1 x))"
  have f: "1 \<le> f" "f \<le> 2" using fl_ge_int [of 1 "1 + max 0 (min 1 x)" 2] fl_le_int [of "1 + max 0 (min 1 x)" 2]
    by (auto simp: f_def fadd_def)
  have thr: "fint thr = of_int thr" using assms by (intro fl_int) auto
  have lo: "of_int thr \<le> of_int thr * f" using f assms(1) by (simp add: mult_le_cancel_left1)
  have hi: "of_int thr * f \<le> of_int (2 * thr)" using mult_left_mono [of f 2 "of_int thr"] f assms(1) by (simp add: mult.commute)
  have "of_int thr \<le> fl (of_int thr * f)" by (rule fl_ge_int [OF lo assms(1) hi]) (use assms(2) in simp)
  moreover have "fl (of_int thr * f) \<le> of_int (2 * thr)" by (rule fl_le_int [OF hi]) (use assms in auto)
  ultimately show ?thesis unfolding f_def [symmetric] thr fmul_def using trunc_ge [OF _ assms(1)] py_trunc_mono by blast
qed

text \<open>The rounded threshold falls short of the exact one by less than a day and a little.\<close>

lemma effective_threshold_exact:
  assumes "0 \<le> thr" and "thr < 2 ^ 40"
  shows "of_int thr * (1 + max 0 (min 1 x)) - 9 / 8 \<le> of_int (py_trunc (fmul (fint thr) (fadd 1 (max 0 (min 1 x)))))"
proof -
  define k f where "k = max 0 (min 1 x)" and "f = fadd 1 k"
  have k: "0 \<le> k" "k \<le> 1" by (auto simp: k_def)
  have f: "\<bar>f - (1 + k)\<bar> \<le> 1 / 2 ^ 52" using fl_error [of "1 + k"] k by (simp add: f_def fadd_def)
  have f2: "0 \<le> f" "f \<le> 3" using f k unfolding abs_le_iff by auto
  have t: "fint thr = of_int thr" "0 \<le> (of_int thr :: rat)" "of_int thr \<le> (2 ^ 40 :: rat)"
    using assms by (simp_all add: fl_int)
  have m: "\<bar>of_int thr * f - of_int thr * (1 + k)\<bar> \<le> 1 / 2 ^ 12"
  proof -
    have "\<bar>of_int thr * f - of_int thr * (1 + k)\<bar> = of_int thr * \<bar>f - (1 + k)\<bar>"
      using t(2) by (simp add: abs_mult flip: right_diff_distrib)
    also have "\<dots> \<le> 2 ^ 40 * (1 / 2 ^ 52)" by (intro mult_mono f t) auto
    finally show ?thesis by simp
  qed
  have p: "0 \<le> of_int thr * f" "of_int thr * f \<le> 2 ^ 40 * 3" using t f2 mult_mono [OF t(3) f2(2)] by simp_all
  then have "\<bar>fl (of_int thr * f) - of_int thr * f\<bar> \<le> 1 / 2 ^ 11" using fl_error [of "of_int thr * f"] by simp
  moreover have "fl (of_int thr * f) - 1 \<le> of_int (py_trunc (fl (of_int thr * f)))"
    using fl_nonneg [OF p(1)] by (simp add: py_trunc_def) linarith
  ultimately have "of_int thr * (1 + k) - 9 / 8 \<le> of_int (py_trunc (fl (of_int thr * f)))"
    using m unfolding abs_le_iff by auto
  then show ?thesis by (simp add: f_def k_def [symmetric] fmul_def t(1))
qed

text \<open>The rounded runway after the spawn, when it is not below the threshold, exceeds the exact one by less than a day.\<close>

lemma post_spawn_exact:
  assumes "0 \<le> spent" and "spent < 2 ^ 51" and "0 < cost" and "\<bar>basis\<bar> < 2 ^ 40"
  shows "fsub (fint basis) (fdiv (of_int spent) (of_int cost)) - 3 / 4 \<le> of_int basis - of_int spent / of_int cost"
proof -
  define D where "D = (of_int spent / of_int cost :: rat)"
  have "of_int spent \<le> (2 ^ 51 :: rat)" using assms(2) by simp
  moreover have "D \<le> of_int spent" using assms(1,3) by (simp add: D_def divide_le_eq mult_le_cancel_left1)
  ultimately have D: "0 \<le> D" "D \<le> 2 ^ 51" using assms(1,3) by (auto simp: D_def)
  have e: "\<bar>fl D - D\<bar> \<le> 1 / 4" using fl_error [of D] D by simp
  have b: "fint basis = of_int basis" "\<bar>of_int basis :: rat\<bar> \<le> 2 ^ 40"
    using assms(4) by (auto simp: fl_int abs_le_iff)
  have "\<bar>of_int basis - fl D\<bar> \<le> 2 ^ 52" using e D b(2) unfolding abs_le_iff by auto
  then have "\<bar>fl (of_int basis - fl D) - (of_int basis - fl D)\<bar> \<le> 1 / 2" using fl_error [of "of_int basis - fl D"] by simp
  then show ?thesis using e unfolding fsub_def fdiv_def b(1) D_def [symmetric] abs_le_iff by linarith
qed

lemma trunc_threshold:
  assumes "eff \<le> py_trunc p" and "0 \<le> eff"
  shows "of_int eff \<le> p \<or> (eff = 0 \<and> - 1 \<le> p)"
proof (cases "0 \<le> p")
  case True
  then show ?thesis using assms(1) by (simp add: py_trunc_def le_floor_iff)
next
  case False
  then have "py_trunc p \<le> 0" by (simp add: py_trunc_def ceiling_le_iff)
  moreover have "eff \<le> \<lceil>p\<rceil>" using False assms(1) by (simp add: py_trunc_def)
  then have "0 \<le> \<lceil>p\<rceil>" using assms(2) by linarith
  ultimately show ?thesis using assms le_ceiling_iff [of 0 p] by auto
qed

text \<open>
  C39. A node that is found eligible can pay the child's server, the inheritance and the fee buffer from its
  wallet, and what it keeps is enough for its caution: in exact arithmetic the runway left after the spawn (its
  days of runway less the days that the spent satoshis would have paid for) is at least the configured threshold
  times one plus the caution, clamped to the unit interval, less two days of rounding. The share of the child is
  the one computed for the transfer, not negative and at most what is left after the server is paid. The costs
  are not negative, a day costs at least one satoshi, and the amounts are below \<open>2 ^ 51\<close> satoshis and
  \<open>2 ^ 40\<close> days, so that the doubles of the code are close to the exact values.
\<close>

theorem eligibility_sound:
  assumes "check_spawn_eligibility c ns caution = Inr e" and "se_eligible e" and "ns_days_remaining ns = Some days"
    and "0 \<le> mc_inheritance_ratio c" and "mc_inheritance_ratio c \<le> 1"
    and "0 \<le> mc_spawn_threshold_days c" and "mc_spawn_threshold_days c < 2 ^ 40"
    and "vps_cost_sat c = Inr vps" and "0 \<le> vps" and "0 \<le> mc_spawn_fee_buffer_sat c"
    and "cost_per_day_sat c = Inr cost" and "0 < cost"
    and "ns_btc_balance_sat ns < 2 ^ 51" and "\<bar>effective_runway ns days\<bar> < 2 ^ 40"
  shows "\<exists>share. compute_child_share c (ns_btc_balance_sat ns) = Inr share \<and> se_child_share_sat e = share \<and>
    0 \<le> share \<and> share \<le> max 0 (ns_btc_balance_sat ns - vps) \<and>
    vps + share + mc_spawn_fee_buffer_sat c \<le> ns_btc_balance_sat ns \<and>
    of_int (mc_spawn_threshold_days c) * (1 + max 0 (min 1 caution)) - 2
      \<le> of_int (effective_runway ns days) - of_int (vps + share + mc_spawn_fee_buffer_sat c) / of_int cost"
proof -
  obtain share where share: "compute_child_share c (ns_btc_balance_sat ns) = Inr share"
    using assms(1,3,8) by (auto simp: check_spawn_eligibility_def Let_def rbind_Inr_iff)
  define thr eff spent where "thr = mc_spawn_threshold_days c"
    and "eff = py_trunc (fmul (fint thr) (fadd 1 (max 0 (min 1 caution))))"
    and "spent = vps + share + mc_spawn_fee_buffer_sat c"
  define p where "p = fsub (fint (effective_runway ns days)) (fdiv (of_int spent) (of_int cost))"
  have e: "se_child_share_sat e = share" "spent \<le> ns_btc_balance_sat ns" "eff \<le> py_trunc p"
    using assms(1,2,3,8,11,12) share
    by (auto simp: check_spawn_eligibility_def Let_def effective_runway_def thr_def eff_def spent_def p_def)
  have s: "0 \<le> share" "share \<le> max 0 (ns_btc_balance_sat ns - vps)"
    using share_bounds [OF share assms(8,4,5)] assms(9,13) by auto
  have spent: "0 \<le> spent" "spent < 2 ^ 51" using s(1) e(2) assms(9,10,13) by (auto simp: spent_def)
  have "0 \<le> eff" "eff = 0 \<Longrightarrow> thr = 0"
    using effective_threshold_bounds [of thr caution] assms(6,7) by (auto simp: eff_def thr_def)
  moreover have "of_int eff \<le> p \<or> (eff = 0 \<and> - 1 \<le> p)" using trunc_threshold [OF e(3)] calculation(1) by blast
  moreover have "of_int thr * (1 + max 0 (min 1 caution)) - 9 / 8 \<le> of_int eff"
    unfolding eff_def by (rule effective_threshold_exact) (use assms(6,7) in \<open>simp_all add: thr_def\<close>)
  moreover have "p - 3 / 4 \<le> of_int (effective_runway ns days) - of_int spent / of_int cost"
    unfolding p_def by (rule post_spawn_exact [OF spent assms(12,14)])
  ultimately have "of_int thr * (1 + max 0 (min 1 caution)) - 2 \<le> of_int (effective_runway ns days) - of_int spent / of_int cost"
    by (elim disjE) (linarith, simp)
  then show ?thesis using share s e(1,2) by (simp add: spent_def thr_def)
qed

theorem eligibility_sound_witness:
  "compute_child_share demo_config (ns_btc_balance_sat demo_state) = Inr 7812500 \<and>
   11718750 + 7812500 + 390625 \<le> ns_btc_balance_sat demo_state \<and>
   (60 * (1 + 1 / 2) - 2 :: rat) \<le> 1000 - (11718750 + 7812500 + 390625) / 390625"
  using eligibility_sound [OF demo_eligible, of 100 11718750 390625] demo_costs
  by (simp add: demo_config_simps demo_state_simps effective_runway_def)
section \<open>A rate of zero\<close>

text \<open>
  config.py allows a rate of 0 to leave the wallet out of the runway; the eligibility check divides by it.
\<close>

lemma zero_rate_eligibility:
  "mc_btc_usd_rate c = 0 \<Longrightarrow> ns_days_remaining ns = Some d \<Longrightarrow>
   check_spawn_eligibility c ns x = Inl (ZeroDivisionError ''float division by zero'')"
  by (simp add: check_spawn_eligibility_def vps_cost_sat_def py_fdiv_def Let_def)

text \<open>
  With a BTC rate of 0, every tick of a node that is neither spawning, failing nor low on runway ends
  with a ZeroDivisionError that the decision loop does not catch.
\<close>

theorem tick_zero_rate:
  assumes "mc_btc_usd_rate c = 0" and "ns_last_updated (np_monitor s) \<noteq> 0" and "ns_days_remaining (np_monitor s) = Some d"
    and "get_caution_trait (np_table s) = Inr x" and "0 < np_budget s"
    and "\<not> is_spawn_in_progress (np_table s)" and "\<not> is_failsafe_in_progress (np_table s)"
    and "mc_failsafe_trigger_days c \<le> effective_runway (np_monitor s) d" and "mc_topup_trigger_days c \<le> d"
  shows "fst (tick py_repr c w registry s) = Inl (PyExn (ZeroDivisionError ''float division by zero''))"
  using assms
  by (simp add: tick_def get_state_def read_table_def lift_py_def sbind_def read_clock_def external_def start_spawn_def zero_rate_eligibility)

theorem tick_zero_rate_witness:
  "fst (tick demo_repr (demo_config\<lparr>mc_btc_usd_rate := 0\<rparr>) demo_world demo_registry (born\<lparr>np_monitor := demo_state, np_budget := 1\<rparr>)) =
   Inl (PyExn (ZeroDivisionError ''float division by zero''))"
  by (rule tick_zero_rate [where d = 100 and x = "1 / 2"])
    (simp_all add: demo_config_simps demo_state_simps born_def seconds_def get_caution_trait_def kv_get_def json_float_def
      is_spawn_in_progress_def is_failsafe_in_progress_def effective_runway_def demo_numbers)

section \<open>The caution trait\<close>

text \<open>The caution trait handed to a child lies between the configured bounds, whatever the random drift.\<close>

theorem caution_in_range:
  assumes "mutate_caution_trait c w x s = (Inr y, s')" and "mc_caution_trait_min c \<le> mc_caution_trait_max c"
  shows "mc_caution_trait_min c \<le> y \<and> y \<le> mc_caution_trait_max c"
  using assms by (auto simp: mutate_caution_trait_def Let_def sbind_Inr_iff)

theorem caution_in_range_witness:
  "mc_caution_trait_min demo_config \<le> (7 / 8 :: rat) \<and> (7 / 8 :: rat) \<le> mc_caution_trait_max demo_config \<and>
   fst (mutate_caution_trait demo_config (demo_world\<lparr>w_gauss := \<lambda>h sg. 1\<rparr>) (1 / 2) (born\<lparr>np_budget := 1\<rparr>)) = Inr (7 / 8)"
  using caution_in_range [of demo_config "demo_world\<lparr>w_gauss := \<lambda>h sg. 1\<rparr>" "1 / 2" "born\<lparr>np_budget := 1\<rparr>" "7 / 8"]
  by (simp add: mutate_caution_trait_def sbind_def external_def born_def demo_config_simps demo_numbers fl_int [of 0, simplified])

section \<open>The fleet\<close>

lemma richest_in: "richest p ps \<in> set (p # ps)"
  by (induction p ps rule: richest.induct) auto

lemma richest_max: "q \<in> set (p # ps) \<Longrightarrow> si_btc_balance_sat q \<le> si_btc_balance_sat (richest p ps)"
proof (induction ps arbitrary: p)
  case Nil
  then show ?case by simp
next
  case (Cons r rs)
  let ?m = "if si_btc_balance_sat p < si_btc_balance_sat r then r else p"
  have m: "si_btc_balance_sat ?m \<le> si_btc_balance_sat (richest ?m rs)"
  proof -
    have "si_btc_balance_sat x \<le> si_btc_balance_sat (richest x rs)" for x :: peer_info
      by (induction rs arbitrary: x) (auto intro: order_trans less_imp_le split: if_splits)
    then show ?thesis .
  qed
  show ?case using Cons m by (cases "q \<in> set rs") (auto split: if_splits)
qed

lemma select_best_peer_spec:
  "select_best_peer peers = Some p \<Longrightarrow> p \<in> set peers \<and> (\<forall>q\<in>set peers. si_btc_balance_sat q \<le> si_btc_balance_sat p)"
  using richest_in richest_max by (cases peers) (auto simp: select_best_peer_def)

text \<open>
  An announcement makes its node a live peer with exactly the announced data, seen now, and leaves the
  other nodes as they were; the peer chosen for a fail-safe is live and no live peer announced a larger balance.
\<close>

theorem fleet_correct:
  assumes "0 \<le> pr_ttl r"
  shows "map_of (pr_fleet (on_seedbox_info_received now mid p r)) (si_btc_address p) =
        Some (seedbox_info.extend p \<lparr>pi_peer_mid = mid, pi_last_seen = now\<rparr>) \<and>
      seedbox_info.extend p \<lparr>pi_peer_mid = mid, pi_last_seen = now\<rparr> \<in> set (get_live_peers now (on_seedbox_info_received now mid p r)) \<and>
      (\<forall>a. a \<noteq> si_btc_address p \<longrightarrow> map_of (pr_fleet (on_seedbox_info_received now mid p r)) a = map_of (pr_fleet r) a) \<and>
      (\<forall>best. select_best_peer (get_live_peers now r) = Some best \<longrightarrow>
         now - seconds (pr_ttl r) \<le> pi_last_seen best \<and> best \<in> set (get_all_peers r) \<and>
         (\<forall>q\<in>set (get_all_peers r). now - seconds (pr_ttl r) \<le> pi_last_seen q \<longrightarrow> si_btc_balance_sat q \<le> si_btc_balance_sat best))"
proof -
  let ?x = "seedbox_info.extend p \<lparr>pi_peer_mid = mid, pi_last_seen = now\<rparr> :: peer_info"
  have m: "map_of (AList.update (si_btc_address p) ?x (pr_fleet r)) = (map_of (pr_fleet r))(si_btc_address p \<mapsto> ?x)"
    by (rule AList.update_conv')
  then have "(si_btc_address p, ?x) \<in> set (AList.update (si_btc_address p) ?x (pr_fleet r))"
    by (intro map_of_SomeD) simp
  then have "?x \<in> set (get_live_peers now (on_seedbox_info_received now mid p r))"
    using assms by (force simp: get_live_peers_def on_seedbox_info_received_def seconds_def seedbox_info.defs)
  moreover have "now - seconds (pr_ttl r) \<le> pi_last_seen best \<and> best \<in> set (get_all_peers r) \<and>
         (\<forall>q\<in>set (get_all_peers r). now - seconds (pr_ttl r) \<le> pi_last_seen q \<longrightarrow> si_btc_balance_sat q \<le> si_btc_balance_sat best)"
    if "select_best_peer (get_live_peers now r) = Some best" for best
    using select_best_peer_spec [OF that] unfolding get_live_peers_def get_all_peers_def by simp
  ultimately show ?thesis using m by (simp add: on_seedbox_info_received_def)
qed

theorem fleet_correct_witness:
  "0 \<le> pr_ttl demo_registry \<and> map_of (pr_fleet (on_seedbox_info_received 5 ''mid'' demo_info demo_registry)) ''bc1peer'' =
     Some (seedbox_info.extend demo_info \<lparr>pi_peer_mid = ''mid'', pi_last_seen = 5\<rparr>)"
  using fleet_correct [of demo_registry 5 "''mid''" demo_info] by (simp add: demo_registry_def demo_info_def)

section \<open>Gossip\<close>

text \<open>The times at which a series of announcements of one node is passed on to somebody.\<close>

fun forward_log :: "mconfig \<Rightarrow> string \<Rightarrow> (int \<times> string list \<times> string \<times> seedbox_info) list \<Rightarrow> (string \<times> int) list \<Rightarrow> int list" where
  "forward_log c a [] lf = []"
| "forward_log c a ((now, peers, mid, p) # es) lf =
     (if si_btc_address p = a \<and> fst (on_seedbox_info c now peers mid p lf) \<noteq> [] then [now] else [])
     @ forward_log c a es (snd (on_seedbox_info c now peers mid p lf))"

lemma forward_log_spaced:
  assumes "0 \<le> mc_whoami_gossip_cooldown c" and "map_of lf a = Some l"
  shows "successively (\<lambda>t t'. seconds (mc_whoami_gossip_cooldown c) < t' - t) (l # forward_log c a es lf)"
  using assms(2)
proof (induction es arbitrary: lf l)
  case Nil
  then show ?case by simp
next
  case (Cons ev es)
  obtain now peers mid p where ev: "ev = (now, peers, mid, p)" by (cases ev)
  let ?cd = "seconds (mc_whoami_gossip_cooldown c)" and ?lf = "snd (on_seedbox_info c now peers mid p lf)"
  have cd: "0 \<le> ?cd" using assms(1) by (simp add: seconds_def)
  show ?case
  proof (cases "si_btc_address p = a \<and> ?cd < now - l")
    case True
    then have "map_of ?lf a = Some now" using Cons.prems by (auto simp: on_seedbox_info_def update_conv')
    note tail = Cons.IH [OF this]
    have "successively (\<lambda>t t'. ?cd < t' - t) (l # forward_log c a es ?lf)"
      using tail True cd by (cases "forward_log c a es ?lf") auto
    then show ?thesis using tail True Cons.prems by (simp add: ev)
  next
    case False
    then have "map_of ?lf a = Some l" using Cons.prems by (auto simp: on_seedbox_info_def update_conv' Let_def)
    moreover have "\<not> (si_btc_address p = a \<and> fst (on_seedbox_info c now peers mid p lf) \<noteq> [])"
      using False Cons.prems by (auto simp: on_seedbox_info_def)
    ultimately show ?thesis using Cons.IH by (auto simp: ev)
  qed
qed

lemma forward_log_spaced':
  assumes "0 \<le> mc_whoami_gossip_cooldown c"
  shows "successively (\<lambda>t t'. seconds (mc_whoami_gossip_cooldown c) < t' - t) (forward_log c a es lf)"
proof (cases "map_of lf a")
  case (Some l)
  then show ?thesis using forward_log_spaced [OF assms Some, of es] by (auto simp: successively_Cons)
next
  case None
  then show ?thesis
  proof (induction es arbitrary: lf)
    case (Cons ev es)
    obtain now peers mid p where ev: "ev = (now, peers, mid, p)" by (cases ev)
    let ?cd = "seconds (mc_whoami_gossip_cooldown c)" and ?lf = "snd (on_seedbox_info c now peers mid p lf)"
    show ?case
    proof (cases "si_btc_address p = a \<and> ?cd < now")
      case True
      then have "map_of ?lf a = Some now" using Cons.prems by (auto simp: on_seedbox_info_def update_conv')
      then show ?thesis using forward_log_spaced [OF assms, of ?lf a now es] by (auto simp: ev successively_Cons)
    next
      case False
      then have "map_of ?lf a = None" using Cons.prems by (auto simp: on_seedbox_info_def update_conv' Let_def)
      moreover have "\<not> (si_btc_address p = a \<and> fst (on_seedbox_info c now peers mid p lf) \<noteq> [])"
        using False Cons.prems by (auto simp: on_seedbox_info_def)
      ultimately show ?thesis using Cons.IH by (auto simp: ev)
    qed
  qed simp
qed

text \<open>
  C40. The announcements of a node are passed on at most once per cooldown, and then to every connected peer
  but the one they came from.
\<close>

theorem gossip_cooldown:
  assumes "0 \<le> mc_whoami_gossip_cooldown c"
  shows "successively (\<lambda>t t'. seconds (mc_whoami_gossip_cooldown c) < t' - t) (forward_log c a es lf) \<and>
    set (fst (on_seedbox_info c now peers mid p lf)) \<in> {{}, set peers - {mid}}"
  using forward_log_spaced' [OF assms] by (auto simp: on_seedbox_info_def Let_def)

theorem gossip_cooldown_witness:
  "0 \<le> mc_whoami_gossip_cooldown demo_config \<and>
   forward_log demo_config ''bc1peer'' [(seconds 100, [''m1'', ''m2''], ''m1'', demo_info), (seconds 110, [''m1'', ''m2''], ''m2'', demo_info),
     (seconds 161, [''m1'', ''m2''], ''m1'', demo_info)] [] = [seconds 100, seconds 161] \<and>
   successively (\<lambda>t t'. seconds 60 < t' - t) (forward_log demo_config ''bc1peer'' [(seconds 100, [''m1'', ''m2''], ''m1'', demo_info),
     (seconds 110, [''m1'', ''m2''], ''m2'', demo_info), (seconds 161, [''m1'', ''m2''], ''m1'', demo_info)] [])"
  using gossip_cooldown [of demo_config "''bc1peer''" "[(seconds 100, [''m1'', ''m2''], ''m1'', demo_info),
     (seconds 110, [''m1'', ''m2''], ''m2'', demo_info), (seconds 161, [''m1'', ''m2''], ''m1'', demo_info)]" "[]"]
  by (simp add: demo_config_simps on_seedbox_info_def demo_info_def seconds_def)

end
