(* ===== verification/Spawn_Inv.thy ===== *)
theory Spawn_Inv
  imports Spawn_Frame
begin

text \<open>
  Bounds on what a spawn does to the outside world, over any number of restarts and crashes. The locale
  \<open>spawn_counter\<close> states what it takes for a class of events to be counted per spawn, with a guard in the
  table that protects the bound; its extension \<open>spawn_bound\<close> adds that the three stages of the pipeline
  keep the invariant, and concludes that every run of a node keeps it.
\<close>

section \<open>Spawns in a history\<close>

fun starts :: "event list \<Rightarrow> string list" where
  "starts [] = []"
| "starts (Start_Spawn sid # h) = sid # starts h"
| "starts (e # h) = starts h"

definition count_events :: "(event \<Rightarrow> bool) \<Rightarrow> event list \<Rightarrow> nat" where
  "count_events q h = length (filter q h)"

lemma starts_append [simp]: "starts (h @ es) = starts h @ starts es"
  by (induction h rule: starts.induct) auto

lemma starts_quiet: "(\<forall>e\<in>set es. loud e \<longrightarrow> L e) \<Longrightarrow> (\<And>sid. \<not> L (Start_Spawn sid)) \<Longrightarrow> starts es = []"
  by (induction es rule: starts.induct) auto

lemma count_events_append [simp]: "count_events q (h @ es) = count_events q h + count_events q es"
  by (simp add: count_events_def)

lemma count_events_none: "(\<forall>e\<in>set es. \<not> q e) \<Longrightarrow> count_events q es = 0"
  by (simp add: count_events_def filter_empty_conv)

lemma count_events_pos: "0 < count_events q es \<longleftrightarrow> (\<exists>e\<in>set es. q e)"
  by (auto simp: count_events_def filter_empty_conv)

lemma count_events_single [simp]: "count_events q [e] = (if q e then 1 else 0)"
  by (simp add: count_events_def)

text \<open>The spawn in the table.\<close>

definition current :: "string \<Rightarrow> node_process \<Rightarrow> bool" where
  "current sid s \<longleftrightarrow> np_table s ''spawn_id'' = Some (JStr sid)"

text \<open>The child of the spawn was booted under its name and answered the health check afterwards.\<close>

definition booted :: "json \<Rightarrow> event list \<Rightarrow> bool" where
  "booted j h \<longleftrightarrow> (\<exists>h1 env sec h2 h3. h = h1 @ [Boot env sec] @ h2 @ [Check_Health True] @ h3 \<and>
     map_of env ''MYCELIUM_FRIENDLY_NAME'' = Some (EText j))"

text \<open>The identity the pipeline works with is the one in the table.\<close>

definition recorded :: "string \<Rightarrow> child_identity \<Rightarrow> node_process \<Rightarrow> bool" where
  "recorded sid i s \<longleftrightarrow> ci_spawn_id i = JStr sid \<and>
     (\<exists>m. np_table s ''spawn_identity'' = Some (JObj m) \<and> map_of m ''spawn_id'' = Some (JStr sid) \<and>
          map_of m ''sporestack_token'' = Some (ci_sporestack_token i))"

definition spawn_inv :: "(json \<Rightarrow> event \<Rightarrow> bool) \<Rightarrow> nat \<Rightarrow> ((string \<Rightarrow> json option) \<Rightarrow> bool) \<Rightarrow>
    (event list \<Rightarrow> bool) \<Rightarrow> (string \<Rightarrow> (string \<Rightarrow> json option) \<Rightarrow> event list \<Rightarrow> bool) \<Rightarrow> node_process \<Rightarrow> bool" where
  "spawn_inv rel N S H G s \<longleftrightarrow> S (np_table s) \<and> H (np_history s) \<and>
     (\<forall>v. np_table s ''spawn_id'' = Some v \<longrightarrow> (\<exists>sid\<in>set (starts (np_history s)). v = JStr sid)) \<and>
     (\<forall>j. (\<exists>e\<in>set (np_history s). rel j e) \<longrightarrow> (\<exists>sid\<in>set (starts (np_history s)). j = JStr sid)) \<and>
     (distinct (starts (np_history s)) \<longrightarrow>
       (\<forall>j. count_events (rel j) (np_history s) \<le> N) \<and>
       (\<forall>sid. current sid s \<longrightarrow> G sid (np_table s) (np_history s)))"

text \<open>The spawn has not performed a counted event yet.\<close>

definition untouched :: "(json \<Rightarrow> event \<Rightarrow> bool) \<Rightarrow> string \<Rightarrow> node_process \<Rightarrow> bool" where
  "untouched rel sid s \<longleftrightarrow> (distinct (starts (np_history s)) \<longrightarrow> (\<forall>e\<in>set (np_history s). \<not> rel (JStr sid) e))"

section \<open>Counting\<close>

lemma frame_current: "frame K L f \<Longrightarrow> ''spawn_id'' \<notin> K \<Longrightarrow> keeps (current sid) f"
  by (rule frame_triple) (auto simp: continues_def current_def)

locale spawn_counter =
  fixes rel :: "json \<Rightarrow> event \<Rightarrow> bool" and N :: nat and S :: "(string \<Rightarrow> json option) \<Rightarrow> bool"
    and H :: "event list \<Rightarrow> bool" and G :: "string \<Rightarrow> (string \<Rightarrow> json option) \<Rightarrow> event list \<Rightarrow> bool" and K :: "string set"
  assumes rel_loud: "rel j e \<Longrightarrow> loud e \<and> \<not> topup_event e"
    and rel_start: "\<not> rel j (Start_Spawn sid)"
    and K_cleared: "K \<subseteq> set SPAWN_KEYS_TO_CLEAR - {''spawn_id'', ''spawn_started_at''}"
    and S_cong: "(\<And>k. k \<in> K \<Longrightarrow> t' k = t k) \<Longrightarrow> S t \<Longrightarrow> S t'"
    and S_cleared: "(\<And>k. k \<in> K \<Longrightarrow> t k = None) \<Longrightarrow> S t"
    and H_Nil: "H []" and H_cong: "(\<And>e j. e \<in> set es \<Longrightarrow> \<not> rel j e) \<Longrightarrow> H h \<Longrightarrow> H (h @ es)"
    and G_cong: "(\<And>k. k \<in> K \<Longrightarrow> t' k = t k) \<Longrightarrow> (\<And>e. e \<in> set es \<Longrightarrow> \<not> rel (JStr sid) e) \<Longrightarrow> G sid t h \<Longrightarrow> G sid t' (h @ es)"
    and G_start: "S t \<Longrightarrow> (\<And>e. e \<in> set h \<Longrightarrow> \<not> rel (JStr sid) e) \<Longrightarrow> G sid t h"
begin

lemma inv_continues:
  assumes c: "continues K' L s0 s" and I: "spawn_inv rel N S H G s0"
    and K': "K' \<inter> (K \<union> {''spawn_id''}) = {}" and L: "\<And>e j. L e \<Longrightarrow> \<not> rel j e" and st: "\<And>sid. \<not> L (Start_Spawn sid)"
  shows "spawn_inv rel N S H G s"
proof -
  obtain es where h: "np_history s = np_history s0 @ es" and es: "\<forall>e\<in>set es. loud e \<longrightarrow> L e"
    and t: "\<And>k. k \<notin> K' \<Longrightarrow> np_table s k = np_table s0 k" using c unfolding continues_def by blast
  have tK: "np_table s k = np_table s0 k" if "k \<in> K" for k using t K' that by blast
  have cur: "current sid s = current sid s0" for sid using t K' by (auto simp: current_def)
  have quiet: "\<not> rel j e" if "e \<in> set es" for j e using es L rel_loud that by blast
  have "starts es = []" using starts_quiet [OF es st] .
  moreover have "count_events (rel j) es = 0" for j using quiet by (simp add: count_events_none)
  moreover have "S (np_table s)" using I S_cong [of "np_table s" "np_table s0"] tK unfolding spawn_inv_def by simp
  moreover have "G sid (np_table s) (np_history s0 @ es)" if "G sid (np_table s0) (np_history s0)" for sid
    using that tK quiet by (intro G_cong [of "np_table s" "np_table s0"]) auto
  moreover have "H (np_history s0) \<Longrightarrow> H (np_history s0 @ es)" using quiet by (rule H_cong)
  moreover have "np_table s ''spawn_id'' = np_table s0 ''spawn_id''" using t K' by blast
  ultimately show ?thesis using I quiet h unfolding spawn_inv_def cur by (simp add: ball_Un) blast
qed

lemma inv_frame:
  assumes "frame K' L f" "K' \<inter> (K \<union> {''spawn_id''}) = {}" "\<And>e j. L e \<Longrightarrow> \<not> rel j e" "\<And>sid. \<not> L (Start_Spawn sid)"
  shows "keeps (spawn_inv rel N S H G) f"
  using inv_continues assms by (intro frame_triple [OF assms(1)]) blast

lemma inv_born: "spawn_inv rel N S H G born"
  by (simp add: spawn_inv_def born_def current_def count_events_def S_cleared H_Nil)

lemma inv_cong:
  "np_table s' = np_table s \<Longrightarrow> np_history s' = np_history s \<Longrightarrow> spawn_inv rel N S H G s' = spawn_inv rel N S H G s"
  by (simp add: spawn_inv_def current_def)

text \<open>Clearing the keys of the spawn.\<close>

lemma inv_clear:
  assumes "spawn_inv rel N S H G s" "np_history s' = np_history s" "\<And>k. k \<in> set SPAWN_KEYS_TO_CLEAR \<Longrightarrow> np_table s' k = None"
  shows "spawn_inv rel N S H G s'"
proof -
  have "S (np_table s')" using K_cleared assms(3) by (intro S_cleared) blast
  moreover have "np_table s' ''spawn_id'' = None" using assms(3) by (simp add: SPAWN_KEYS_TO_CLEAR_def)
  ultimately show ?thesis using assms(1,2) by (simp add: spawn_inv_def current_def)
qed

lemma inv_completed: "keeps (spawn_inv rel N S H G) (mark_spawn_completed py_repr w b a)"
proof -
  have "keeps (spawn_inv rel N S H G) (commit_table (\<lambda>t. clear_keys SPAWN_KEYS_TO_CLEAR (f t)))" for f
  proof (rule triple_commit, assumption, intro conjI)
    fix s assume "spawn_inv rel N S H G s"
    then show "spawn_inv rel N S H G (s\<lparr>np_table := clear_keys SPAWN_KEYS_TO_CLEAR (f (np_table s)), np_budget := np_budget s - 1\<rparr>)"
      by (rule inv_clear) (simp_all add: clear_keys_def)
    then show "spawn_inv rel N S H G (s\<lparr>np_table := clear_keys SPAWN_KEYS_TO_CLEAR (f (np_table s)), np_budget := np_budget s - 1\<rparr>)" .
  qed
  moreover have "keeps (spawn_inv rel N S H G) (read_clock w)"
    by (rule inv_frame [where K' = "{}" and L = no_event]) (auto intro: frame_rules)
  ultimately show ?thesis unfolding mark_spawn_completed_def
    by (intro triple_rules triple_weaken [OF triple_read]) (auto split: json.splits intro: triple_raise)
qed

text \<open>Stages that neither count nor touch the guard.\<close>

lemma inv_current_frame:
  assumes "frame K' L f" "K' \<inter> (K \<union> {''spawn_id''}) = {}" "\<And>e j. L e \<Longrightarrow> \<not> rel j e" "\<And>sid. \<not> L (Start_Spawn sid)"
  shows "keeps (\<lambda>s. spawn_inv rel N S H G s \<and> current sid s) f"
  using triple_conj [OF inv_frame [OF assms] frame_current [OF assms(1)], of sid] assms(2) by simp

lemma inv_recorded_frame:
  assumes "frame K' L f" "K' \<inter> (K \<union> {''spawn_id'', ''spawn_identity''}) = {}" "\<And>e j. L e \<Longrightarrow> \<not> rel j e" "\<And>sid. \<not> L (Start_Spawn sid)"
  shows "keeps (\<lambda>s. spawn_inv rel N S H G s \<and> current sid s \<and> recorded sid i s) f"
proof (rule frame_triple [OF assms(1)])
  fix s0 s assume c: "continues K' L s0 s" and s0: "spawn_inv rel N S H G s0 \<and> current sid s0 \<and> recorded sid i s0"
  have "spawn_inv rel N S H G s" using inv_continues [OF c] s0 assms(2-4) by blast
  moreover have "current sid s \<and> recorded sid i s" using c s0 assms(2) unfolding continues_def current_def recorded_def by auto
  ultimately show "spawn_inv rel N S H G s \<and> current sid s \<and> recorded sid i s" by simp
qed

text \<open>Parts that leave the guarded keys alone keep what is known about them.\<close>

lemma inv_guard_frame:
  assumes f: "frame K' L f" and K': "K' \<inter> (K \<union> {''spawn_id''}) = {}" and L: "\<And>e j. L e \<Longrightarrow> \<not> rel j e" and st: "\<And>sid. \<not> L (Start_Spawn sid)"
    and Q: "\<And>t t'. (\<And>k. k \<in> K \<Longrightarrow> t' k = t k) \<Longrightarrow> Q t \<Longrightarrow> Q t'"
  shows "keeps (\<lambda>s. spawn_inv rel N S H G s \<and> current sid s \<and> Q (np_table s)) f"
    "keeps (\<lambda>s. spawn_inv rel N S H G s \<and> current sid s \<and> Q (np_table s) \<and> untouched rel sid s) f"
proof -
  have step: "spawn_inv rel N S H G s \<and> current sid s \<and> (Q (np_table s0) \<longrightarrow> Q (np_table s)) \<and> (untouched rel sid s0 \<longrightarrow> untouched rel sid s)"
    if c: "continues K' L s0 s" and s0: "spawn_inv rel N S H G s0" "current sid s0" for s0 s
  proof -
    obtain es where h: "np_history s = np_history s0 @ es" and es: "\<forall>e\<in>set es. loud e \<longrightarrow> L e"
      and t: "\<And>k. k \<notin> K' \<Longrightarrow> np_table s k = np_table s0 k" using c unfolding continues_def by blast
    have "\<not> rel j e" if "e \<in> set es" for j e using es L rel_loud that by blast
    then have "untouched rel sid s0 \<longrightarrow> untouched rel sid s" using h starts_quiet [OF es st] by (auto simp: untouched_def)
    moreover have "Q (np_table s0) \<longrightarrow> Q (np_table s)" using t K' Q [of "np_table s" "np_table s0"] by blast
    moreover have "current sid s" using t K' s0(2) by (auto simp: current_def)
    ultimately show ?thesis using inv_continues [OF c s0(1) K' L st] by blast
  qed
  show "keeps (\<lambda>s. spawn_inv rel N S H G s \<and> current sid s \<and> Q (np_table s)) f"
    by (rule frame_triple [OF f]) (use step in blast)
  show "keeps (\<lambda>s. spawn_inv rel N S H G s \<and> current sid s \<and> Q (np_table s) \<and> untouched rel sid s) f"
    by (rule frame_triple [OF f]) (use step in blast)
qed

text \<open>A write to the guarded keys, and a counted event.\<close>

lemma inv_write:
  assumes "spawn_inv rel N S H G s" "current sid s" "np_table s' ''spawn_id'' = np_table s ''spawn_id''" "np_history s' = np_history s"
    "S (np_table s')" "distinct (starts (np_history s)) \<Longrightarrow> G sid (np_table s') (np_history s)"
  shows "spawn_inv rel N S H G s' \<and> current sid s'"
  using assms unfolding spawn_inv_def current_def by auto

lemma inv_event:
  assumes I: "spawn_inv rel N S H G s" and cur: "current sid s" and j: "\<And>j. rel j e \<Longrightarrow> j = JStr sid" and st: "starts [e] = []"
    and h: "np_history s' = np_history s @ [e]" and t: "np_table s' = np_table s" and H: "H (np_history s @ [e])"
    and N: "distinct (starts (np_history s)) \<Longrightarrow> count_events (rel (JStr sid)) (np_history s) < N"
    and G: "distinct (starts (np_history s)) \<Longrightarrow> G sid (np_table s) (np_history s @ [e])"
  shows "spawn_inv rel N S H G s' \<and> current sid s'"
proof -
  have cur': "current sid' s' \<longleftrightarrow> sid' = sid" for sid' using cur t by (auto simp: current_def)
  have "count_events (rel j) (np_history s @ [e]) \<le> N" if "distinct (starts (np_history s))" for j
    using I N [OF that] that j [of j] unfolding spawn_inv_def by (cases "rel j e") auto
  moreover have "\<exists>sid'\<in>set (starts (np_history s)). JStr sid = JStr sid'"
    using I cur unfolding spawn_inv_def current_def by blast
  ultimately show ?thesis using I H G j st unfolding spawn_inv_def h t cur' by auto
qed

lemma untouched_count: "untouched rel sid s \<Longrightarrow> distinct (starts (np_history s)) \<Longrightarrow> count_events (rel (JStr sid)) (np_history s) = 0"
  by (simp add: untouched_def count_events_none)

text \<open>The transfer, for events other than the inheritance.\<close>

lemma inv_transfer:
  assumes rel: "\<And>j j' a v r. \<not> rel j (Send_Raw (Inheritance j') a v r)" and K: "K \<inter> {''spawn_transfer_intent'', ''spawn_transfer_txid''} = {}"
  shows "keeps (spawn_inv rel N S H G) (transfer_inheritance py_repr c w i ns)"
proof -
  have quiet: "keeps (spawn_inv rel N S H G) f" if "frame {''spawn_transfer_intent'', ''spawn_transfer_txid''} (\<lambda>e. \<exists>j. inheritance_event j e) f" for f :: "'r proc"
    by (rule inv_frame [OF that]) (use K rel in \<open>auto elim!: inheritance_event.elims\<close>)
  have parts: "keeps (spawn_inv rel N S H G) (kv_set ''spawn_transfer_txid'' v)" "keeps (spawn_inv rel N S H G) (kv_set ''spawn_transfer_intent'' v)"
    "keeps (spawn_inv rel N S H G) (dict_item k v)" "keeps (spawn_inv rel N S H G) (matches_spawn v j)" "keeps (spawn_inv rel N S H G) (find_prior_send w a n)"
    "keeps (spawn_inv rel N S H G) (scan_with_retry w m)" "keeps (spawn_inv rel N S H G) (get_balance_satoshis w)"
    "keeps (spawn_inv rel N S H G) (send w (Inheritance j) a n)" for v k j a n m
    by (rule quiet; intro frame_rules; simp)+
  show ?thesis unfolding transfer_inheritance_def resume_transfer_def fresh_transfer_def
    by (intro keeps_rules parts inv_completed)
qed

text \<open>A new spawn.\<close>

lemma inv_started:
  "triple (spawn_inv rel N S H G) (spawn_inv rel N S H G) (mark_spawn_started w sid)
     (\<lambda>_ s. spawn_inv rel N S H G s \<and> current sid s)"
proof -
  define I where "I = spawn_inv rel N S H G"
  define P where "P = (\<lambda>s. I s \<and> (\<exists>h. np_history s = h @ [Start_Spawn sid] \<and> (\<forall>j. (\<exists>e\<in>set h. rel j e) \<longrightarrow> (\<exists>sid\<in>set (starts h). j = JStr sid))))"
  have "triple I I (external (\<lambda>h. Start_Spawn sid) (w_clock w)) (\<lambda>_. P)"
  proof (rule triple_external, assumption)
    fix s assume s: "I s"
    let ?s = "s\<lparr>np_history := np_history s @ [Start_Spawn sid], np_budget := np_budget s - 1\<rparr>"
    have "G sid' (np_table s) (np_history s @ [Start_Spawn sid])" if "G sid' (np_table s) (np_history s)" for sid'
      using that rel_start by (intro G_cong [of "np_table s" "np_table s"]) auto
    moreover have "H (np_history s) \<Longrightarrow> H (np_history s @ [Start_Spawn sid])" using rel_start by (intro H_cong) auto
    ultimately have "I ?s" using s rel_start unfolding I_def spawn_inv_def by (auto simp: current_def)
    then show "I ?s \<and> P ?s" using s unfolding P_def I_def spawn_inv_def by auto
  qed
  moreover have "triple I P (commit_table (\<lambda>t. t(''spawn_in_progress'' \<mapsto> JBool True, ''spawn_id'' \<mapsto> JStr sid, ''spawn_started_at'' \<mapsto> v)))
      (\<lambda>_ s. I s \<and> current sid s)" for v
  proof (rule triple_commit)
    fix s assume s: "P s"
    then show "I s" by (simp add: P_def)
    let ?t = "(np_table s)(''spawn_in_progress'' \<mapsto> JBool True, ''spawn_id'' \<mapsto> JStr sid, ''spawn_started_at'' \<mapsto> v)"
    let ?s = "s\<lparr>np_table := ?t, np_budget := np_budget s - 1\<rparr>"
    obtain h where h: "np_history s = h @ [Start_Spawn sid]" and old: "\<And>j. \<exists>e\<in>set h. rel j e \<Longrightarrow> \<exists>sid\<in>set (starts h). j = JStr sid"
      using s unfolding P_def by blast
    have I: "I s" using s by (simp add: P_def)
    have "?t k = np_table s k" if "k \<in> K" for k using K_cleared that by (auto simp: SPAWN_KEYS_TO_CLEAR_def)
    then have St: "S ?t" using I S_cong [of ?t "np_table s"] unfolding I_def spawn_inv_def by simp
    have G: "G sid ?t (np_history s)" if "distinct (starts (np_history s))"
    proof (rule G_start [OF St])
      fix e assume "e \<in> set (np_history s)"
      then show "\<not> rel (JStr sid) e" using old [of "JStr sid"] that rel_start h by auto
    qed
    have "I ?s" using I St G h unfolding I_def spawn_inv_def by (auto simp: current_def)
    then show "I ?s \<and> (I ?s \<and> current sid ?s)" by (simp add: current_def)
  qed
  ultimately show ?thesis unfolding mark_spawn_started_def I_def [symmetric]
    by (auto intro: triple_sbind)
qed

end

text \<open>Steps that every counter shares: the identity is recorded, the boot is seen.\<close>

lemma json_eq_str [simp]: "json_eq v (JStr x) \<longleftrightarrow> v = JStr x"
  by (cases v) auto

lemma dict_get_Inr: "dict_get key d v s = (Inr x, s') \<longleftrightarrow> (\<exists>m. v = JObj m \<and> x = jget key m d \<and> s' = s)"
  by (cases v) (auto simp: dict_get_def)

lemma dict_item_Inr: "dict_item key v s = (Inr x, s') \<longleftrightarrow> (\<exists>m. v = JObj m \<and> map_of m key = Some x \<and> s' = s)"
  by (cases v) (auto simp: dict_item_def split: option.splits)

lemma matches_spawn_Inr:
  "matches_spawn blob (JStr sid) s = (Inr b, s') \<Longrightarrow> s' = s \<and>
     (b \<longleftrightarrow> (\<exists>m. blob = JObj m \<and> map_of m ''spawn_id'' = Some (JStr sid)))"
  by (cases "truthy blob"; cases blob)
    (auto simp: matches_spawn_def sbind_Inr_iff dict_get_Inr jget_def split: option.splits)

lemma dict_state [simp]:
  "snd (dict_get key d v s) = s" "snd (dict_item key v s) = s" "snd (matches_spawn blob j s) = s"
  "snd (matches_funding blob sid tok s) = s"
  by (auto simp: dict_get_def dict_item_def matches_spawn_def matches_funding_def sbind_def split: json.splits option.splits)

lemma triple_dict:
  "(\<And>s. P s \<Longrightarrow> I s) \<Longrightarrow> triple I P (dict_get key d v) (\<lambda>x s. P s \<and> (\<exists>m. v = JObj m \<and> x = jget key m d))"
  "(\<And>s. P s \<Longrightarrow> I s) \<Longrightarrow> triple I P (dict_item key v) (\<lambda>x s. P s \<and> (\<exists>m. v = JObj m \<and> map_of m key = Some x))"
  "(\<And>s. P s \<Longrightarrow> I s) \<Longrightarrow> triple I P (matches_spawn v (JStr sid))
     (\<lambda>b s. P s \<and> (b \<longleftrightarrow> (\<exists>m. v = JObj m \<and> map_of m ''spawn_id'' = Some (JStr sid))))"
  by (rule triple_weaken [OF triple_static [where P = P]]; auto simp: dict_get_Inr dict_item_Inr dest: matches_spawn_Inr)+

section \<open>The identity of the pipeline\<close>

lemma blob_fieldsD:
  "blob_fields names blob = Some f \<Longrightarrow> k \<in> set names \<Longrightarrow> \<exists>m. blob = JObj m \<and> map_of m k = Some (f k)"
  by (cases blob) (auto simp: blob_fields_def jget_def list_all_iff map_of_eq_None_iff split: if_splits option.splits)

lemma triple_load_blob:
  "(\<And>s. P s \<Longrightarrow> I s) \<Longrightarrow>
   (\<And>s. P s \<Longrightarrow> P (s\<lparr>np_table := (np_table s)(key := None), np_budget := np_budget s - 1\<rparr>)) \<Longrightarrow>
   triple I P (load_blob key names sid)
     (\<lambda>r s. P s \<and> (\<forall>f. r = Some f \<longrightarrow> (\<exists>m. np_table s key = Some (JObj m) \<and> map_of m ''spawn_id'' = Some (JStr sid) \<and>
        blob_fields names (JObj m) = Some f)))"
  unfolding load_blob_def kv_delete_def
  apply (rule triple_sbind [OF triple_read], assumption)
  apply (rule triple_sbind [OF triple_dict(3)], blast)
  apply (intro triple_if triple_case_option)
  subgoal by (auto intro!: triple_return)
  subgoal by (rule triple_sbind [where R = "\<lambda>_. P"]) (auto intro!: triple_commit triple_return)
  subgoal by (rule triple_return) (auto simp: kv_get_def split: option.splits)
  done

lemma triple_load_identity:
  "triple (\<lambda>s. True) (current sid) (load_stored_identity sid)
     (\<lambda>r s. current sid s \<and> (\<forall>i. r = Some i \<longrightarrow> recorded sid i s))"
  unfolding load_stored_identity_def
  apply (rule triple_sbind [OF triple_load_blob])
    apply simp
   apply (simp add: current_def)
  apply (rule triple_return)
  apply (auto simp: recorded_def dest!: blob_fieldsD)
  done

lemma prepare_identity_id: "prepare_child_identity c w sid s = (Inr i, s') \<Longrightarrow> ci_spawn_id i = JStr sid"
  by (auto simp: prepare_child_identity_def sbind_Inr_iff split: prod.splits)

lemma frame_prepare: "frame identity_keys (funding_event (JStr sid)) (prepare_child_identity c w sid)"
  unfolding prepare_child_identity_def by (intro frame_rules; simp add: identity_keys_def)

lemma obtain_identity_recorded:
  "triple (\<lambda>s. True) (current sid) (obtain_identity c w sid) (\<lambda>i s. current sid s \<and> recorded sid i s)"
proof -
  have P: "triple (\<lambda>s. True) (current sid) (prepare_child_identity c w sid) (\<lambda>i s. current sid s \<and> ci_spawn_id i = JStr sid)"
    by (rule triple_returns [OF triple_True [OF frame_current [OF frame_prepare]]])
      (simp add: identity_keys_def, rule prepare_identity_id)
  have Q: "triple (\<lambda>s. True) (\<lambda>s. current sid s \<and> ci_spawn_id i = JStr sid)
      (sbind (kv_set ''spawn_identity'' (identity_json i)) (\<lambda>_. sreturn i)) (\<lambda>i s. current sid s \<and> recorded sid i s)" for i
    unfolding kv_set_def
    by (rule triple_sbind [where R = "\<lambda>_ s. current sid s \<and> recorded sid i s"])
      (auto intro!: triple_commit triple_return simp: current_def recorded_def identity_json_def)
  show ?thesis unfolding obtain_identity_def
    by (rule triple_sbind [OF triple_load_identity], intro triple_case_option)
      (auto intro!: triple_sbind [OF P Q] triple_return elim: triple_weaken)
qed

text \<open>A boot that returns has seen the child start under its name and answer.\<close>

lemma booted_append: "booted j h \<Longrightarrow> booted j (h @ es)"
  unfolding booted_def by (metis append.assoc)

lemma external_Inr: "external ev answer s = (Inr x, s') \<longleftrightarrow> np_budget s \<noteq> 0 \<and> x = answer (np_history s) \<and>
     s' = s\<lparr>np_history := np_history s @ [ev (np_history s)], np_budget := np_budget s - 1\<rparr>"
  by (auto simp: external_def)

lemma or_raise_Inr: "or_raise msg m s = (Inr x, s') \<longleftrightarrow> m s = (Inr (Some x), s')"
  by (auto simp: or_raise_def sbind_Inr_iff split: option.splits)

lemma scatch_raising: "(\<And>e g. h e = Some g \<Longrightarrow> \<exists>e'. g = sraise e') \<Longrightarrow> scatch m h s = (Inr x, s') \<longleftrightarrow> m s = (Inr x, s')"
  by (auto simp: scatch_def split: prod.splits sum.splits option.splits) fastforce+

lemma boot_inner_seen:
  assumes "sbind (start_orchestrator w env sec) (\<lambda>_. sbind (sleep n) (\<lambda>_. sbind (check_health w) (\<lambda>healthy.
      swhen_raise (\<not> healthy) e))) s = (Inr u, s')"
  shows "np_history s' = np_history s @ [Boot env sec, Sleep n, Check_Health True]"
  using assms by (auto simp: start_orchestrator_def sleep_def check_health_def sbind_Inr_iff external_Inr or_raise_Inr swhen_raise_Inr_iff)

lemma protected_returns:
  assumes "sbind m (\<lambda>y. sbind (scatch (inner y) h) (\<lambda>_. sreturn y)) s = (Inr x, s')"
    and "\<forall>e g. h e = Some g \<longrightarrow> (\<exists>e'. g = sraise e')"
  shows "\<exists>y s1 u. inner y s1 = (Inr u, s')"
  using assms(1) by (auto simp: sbind_Inr_iff scatch_raising [OF assms(2) [rule_format]])

lemma boot_seen:
  assumes "boot_child_orchestrator c w i x s = (Inr y, s')"
  shows "booted (ci_spawn_id i) (np_history s')"
proof -
  have H: "\<exists>e'. g = (sraise e' :: unit proc)"
    if "(case e of SpawnError st m \<Rightarrow> None | Crash \<Rightarrow> None
         | _ \<Rightarrow> Some (sraise (SpawnError ''boot'' ''Child orchestrator boot failed''))) = Some g" for e g
    using that by (cases e) auto
  obtain child s1 u where inner: "sbind (start_orchestrator w (child_env c i child) (child_secrets i)) (\<lambda>_. sbind (sleep POST_START_SETTLE_SECONDS)
      (\<lambda>_. sbind (check_health w) (\<lambda>healthy. swhen_raise (\<not> healthy) (SpawnError ''boot'' ''Child orchestrator crashed within 15s of boot'')))) s1 = (Inr u, s')"
    using protected_returns [OF assms [unfolded boot_child_orchestrator_def]] H by blast
  have "map_of (child_env c i child) ''MYCELIUM_FRIENDLY_NAME'' = Some (EText (ci_spawn_id i))" by (simp add: child_env_def)
  then show ?thesis using boot_inner_seen [OF inner] unfolding booted_def
    by (intro exI [of _ "np_history s1"] exI [of _ "child_env c i child"] exI [of _ "child_secrets i"]
        exI [of _ "[Sleep POST_START_SETTLE_SECONDS]"] exI [of _ "[]"]) simp
qed

section \<open>Runs\<close>

locale spawn_bound = spawn_counter +
  fixes py_repr :: "json \<Rightarrow> string" and w :: world
  assumes identity_stage: "keeps (\<lambda>s. spawn_inv rel N S H G s \<and> current sid s) (obtain_identity c w sid)"
    and vps_stage: "keeps (\<lambda>s. spawn_inv rel N S H G s \<and> current sid s \<and> recorded sid i s) (obtain_vps c w sid i)"
    and transfer_stage: "triple (spawn_inv rel N S H G)
          (\<lambda>s. spawn_inv rel N S H G s \<and> current sid s \<and> recorded sid i s \<and> booted (JStr sid) (np_history s))
          (transfer_inheritance py_repr c w i ns) (\<lambda>_. spawn_inv rel N S H G)"
begin

abbreviation I :: "node_process \<Rightarrow> bool" where "I \<equiv> spawn_inv rel N S H G"

lemma spawn_child_inv: "triple I (\<lambda>s. I s \<and> current sid s) (spawn_child py_repr c w ns x sid) (\<lambda>_. I)"
proof -
  let ?R = "\<lambda>i s. I s \<and> current sid s \<and> recorded sid i s"
  have ident: "triple I (\<lambda>s. I s \<and> current sid s) (obtain_identity c w sid) ?R"
    by (rule triple_weaken [OF triple_I [OF triple_conj [OF identity_stage obtain_identity_recorded]]]) simp_all
  have vps: "triple I (?R i) (obtain_vps c w sid i) (\<lambda>_. ?R i)" for i
    using vps_stage by (rule triple_I) simp
  have deploy: "triple I (?R i) (deploy_child_code w v) (\<lambda>_. ?R i)" for i v
    by (rule triple_I [OF inv_recorded_frame [OF frame_deploy [of "{}" no_event]]]) simp_all
  have boot: "triple I (?R i) (boot_child_orchestrator c w i x) (\<lambda>_ s. ?R i s \<and> booted (ci_spawn_id i) (np_history s))" for i
    by (rule triple_I [OF triple_post [OF inv_recorded_frame [OF frame_boot [of "{}" no_event]]]]) (simp_all add: boot_seen)
  have xfer: "triple I (\<lambda>s. ?R i s \<and> booted (ci_spawn_id i) (np_history s)) (transfer_inheritance py_repr c w i ns) (\<lambda>_. I)" for i
    using transfer_stage by (rule triple_weaken) (auto simp: recorded_def)
  have disc: "keeps I (safe_disconnect w)"
    by (rule inv_frame [where K' = "{}" and L = no_event]) (auto intro: frame_rules)
  have fin: "triple I P m (\<lambda>_. I) \<Longrightarrow> triple I P (finally_disconnect w m) (\<lambda>_. I)" for P and m :: "bool proc"
    unfolding finally_disconnect_def
    by (intro triple_sbind [where R = "\<lambda>_. I"] triple_catch_all disc triple_return triple_raise) auto
  show ?thesis unfolding spawn_child_def
    by (intro triple_catch_all triple_sbind [OF ident] triple_sbind [OF vps] triple_sbind [OF deploy] fin
        triple_sbind [OF boot] triple_sbind [OF xfer] triple_return) auto
qed

lemma start_spawn_inv: "keeps I (start_spawn py_repr c w ns x)"
proof -
  have "keeps I (external (\<lambda>h. Uuid) (w_uuid w))"
    by (rule inv_frame [where K' = "{}" and L = no_event]) (auto intro!: frame_rules)
  moreover have "keeps I (sbind (mark_spawn_started w sid) (\<lambda>_. sbind (spawn_child py_repr c w ns x sid) (\<lambda>_. sreturn ())))" for sid
    by (rule triple_sbind [OF inv_started triple_sbind [OF spawn_child_inv triple_return]]) simp
  ultimately show ?thesis unfolding start_spawn_def Let_def by (auto intro!: keeps_sbind [of I "lift_py r" for r] keeps_sbind [of I "external e a" for e a] keeps_if keeps_pure)
qed

lemma quiet_inv: "frame {''caution_trait'', ''failsafe_in_progress''} topup_event f \<Longrightarrow> keeps I f"
  by (rule inv_frame [where K' = "{''caution_trait'', ''failsafe_in_progress''}" and L = topup_event]) (use K_cleared rel_loud in \<open>auto simp: SPAWN_KEYS_TO_CLEAR_def\<close>)

lemma quiet_parts:
  "keeps I (read_clock w)" "keeps I get_state" "keeps I (execute_failsafe c w peers)" "keeps I (topup_and_refresh c w ns)"
  "keeps I (wait_for_node_state w)" "keeps I (startup c)" "keeps I (refresh c w)" "keeps I (check_for_updates w)"
  "keeps I (dict_get key d v)"
  unfolding topup_and_refresh_def by (rule quiet_inv, intro frame_rules; simp)+

lemma tick_inv: "keeps I (tick py_repr c w registry)"
  unfolding tick_def by (intro keeps_rules quiet_parts start_spawn_inv)

lemma recovery_inv: "keeps I (handle_recovery py_repr c w registry)"
proof -
  let ?run = "\<lambda>sid. sbind get_state (\<lambda>ns. sbind (read_table get_caution_trait) (\<lambda>r. sbind (lift_py r) (\<lambda>x.
    sbind (spawn_child py_repr c w ns x sid) (\<lambda>_. sreturn ()))))"
  let ?C = "\<lambda>sid s. I s \<and> current sid s"
  have wait: "keeps (?C sid) (wait_for_node_state w)" for sid
    using triple_conj [OF quiet_parts(5) frame_current [OF frame_wait [of "{}" no_event]], of sid] by simp
  have run: "triple I (?C sid) (?run sid) (\<lambda>_. I)" for sid
    by (intro triple_sbind [OF triple_still] triple_sbind [OF spawn_child_inv] triple_return)
      (auto simp: get_state_def read_table_def lift_py_def split: sum.splits)
  have resume: "triple I (?C sid) (sbind (wait_for_node_state w) (\<lambda>ready. if \<not> ready then sreturn () else ?run sid)) (\<lambda>_. I)" for sid
    by (rule triple_sbind [OF triple_I [OF wait]]) (auto intro!: triple_if run triple_return simp del: sm_simps)
  have cur: "current (get_spawn_id py_repr (np_table s)) s" if "I s" "get_spawn_id py_repr (np_table s) \<noteq> []" for s
    using that by (auto simp: spawn_inv_def current_def get_spawn_id_def kv_get_def py_str_def split: option.splits)
  have rest: "keeps I (if failing then sbind (wait_for_node_state w) (\<lambda>ready. if \<not> ready then sreturn ()
      else sbind (read_clock w) (\<lambda>now. catch_all (execute_failsafe c w (get_live_peers now registry)) (\<lambda>_. sreturn ())))
      else sreturn ())" for failing
    by (intro keeps_rules quiet_parts)
  show ?thesis unfolding handle_recovery_def
  proof (rule triple_sbind [OF triple_read], assumption, clarify)
    fix spawning failing sid
    let ?P = "\<lambda>s. I s \<and> (spawning, failing, sid) = (is_spawn_in_progress (np_table s), is_failsafe_in_progress (np_table s), get_spawn_id py_repr (np_table s))"
    have r: "triple I ?P (sbind (wait_for_node_state w) (\<lambda>ready. if \<not> ready then sreturn () else ?run sid)) (\<lambda>_. I)" if "sid \<noteq> []"
      using resume [of sid] by (rule triple_weaken) (use cur that in auto)
    have f: "triple I ?P (mark_spawn_completed py_repr w False (JStr [])) (\<lambda>_. I)"
      using inv_completed by (rule triple_weaken) auto
    show "triple I ?P (if spawning then if sid = [] then mark_spawn_completed py_repr w False (JStr [])
        else sbind (wait_for_node_state w) (\<lambda>ready. if \<not> ready then sreturn () else ?run sid)
      else if failing then sbind (wait_for_node_state w) (\<lambda>ready. if \<not> ready then sreturn ()
        else sbind (read_clock w) (\<lambda>now. catch_all (execute_failsafe c w (get_live_peers now registry)) (\<lambda>_. sreturn ())))
      else sreturn ()) (\<lambda>_. I)"
      by (rule triple_if, rule triple_if, rule f, rule r, assumption) (rule triple_weaken [OF rest], auto)
  qed
qed

lemma run_inv: "node_run py_repr w s \<Longrightarrow> I s"
proof (induction rule: node_run.induct)
  case run_born
  show ?case by (rule inv_born)
next
  case (run_activity s a n ns)
  have "keeps I a" using run_activity.hyps(2)
  proof cases
    case (act_shutdown c)
    show ?thesis unfolding act_shutdown handle_shutdown_def by (intro keeps_rules quiet_parts inv_completed)
  next
    case (act_updates)
    show ?thesis unfolding act_updates by (intro keeps_rules quiet_parts)
  qed (simp_all add: quiet_parts tick_inv recovery_inv)
  moreover have "I (s\<lparr>np_monitor := ns, np_budget := n\<rparr>)" using run_activity.IH inv_cong [of "s\<lparr>np_monitor := ns, np_budget := n\<rparr>" s] by simp
  ultimately show ?case unfolding triple_def by blast
qed

end

end
