(* ===== verification/Spawn_Inheritance.thy ===== *)
theory Spawn_Inheritance
  imports Spawn_Inv Spawn_Example
begin

text \<open>
  The inheritance is broadcast at most once per spawn, and only after the child was booted and answered the
  health check, whatever crashes and restarts happen (modules/spawning/spawn_transfer.py, deployer.py).
\<close>

definition transfer_guard :: "string \<Rightarrow> (string \<Rightarrow> json option) \<Rightarrow> bool" where
  "transfer_guard sid t \<longleftrightarrow> (\<exists>m. t ''spawn_transfer_intent'' = Some (JObj m) \<and> map_of m ''spawn_id'' = Some (JStr sid))"

definition transfer_protected :: "string \<Rightarrow> (string \<Rightarrow> json option) \<Rightarrow> event list \<Rightarrow> bool" where
  "transfer_protected sid t h \<longleftrightarrow> ((\<exists>e\<in>set h. inheritance_event (JStr sid) e) \<longrightarrow> transfer_guard sid t)"

text \<open>Every broadcast of an inheritance comes after the boot of that child.\<close>

definition boot_before_inheritance :: "event list \<Rightarrow> bool" where
  "boot_before_inheritance h \<longleftrightarrow> (\<forall>n<length h. \<forall>j. inheritance_event j (h ! n) \<longrightarrow> booted j (take n h))"

lemma boot_before_snoc: "boot_before_inheritance (h @ [e]) \<longleftrightarrow>
    boot_before_inheritance h \<and> (\<forall>j. inheritance_event j e \<longrightarrow> booted j h)"
  unfolding boot_before_inheritance_def by (auto simp: nth_append less_Suc_eq)

lemma boot_before_append:
  "(\<And>e j. e \<in> set es \<Longrightarrow> \<not> inheritance_event j e) \<Longrightarrow> boot_before_inheritance h \<Longrightarrow> boot_before_inheritance (h @ es)"
proof (induction es rule: rev_induct)
  case (snoc e es)
  then show ?case using boot_before_snoc [of "h @ es" e] by simp
qed simp

interpretation inheritance: spawn_counter inheritance_event 1 "\<lambda>t. True" boot_before_inheritance transfer_protected "{''spawn_transfer_intent''}"
proof unfold_locales
  show "loud e \<and> \<not> topup_event e" if "inheritance_event j e" for j e using that by (cases e) auto
  show "boot_before_inheritance []" by (simp add: boot_before_inheritance_def)
  show "boot_before_inheritance (h @ es)" if "\<And>e j. e \<in> set es \<Longrightarrow> \<not> inheritance_event j e" "boot_before_inheritance h" for es h
    using boot_before_append that by blast
qed (auto simp: SPAWN_KEYS_TO_CLEAR_def transfer_protected_def transfer_guard_def)

abbreviation inheritance_inv :: "node_process \<Rightarrow> bool" where
  "inheritance_inv \<equiv> spawn_inv inheritance_event 1 (\<lambda>t. True) boot_before_inheritance transfer_protected"

section \<open>The transfer\<close>

text \<open>The spawn has not sent its inheritance yet.\<close>

definition unsent :: "string \<Rightarrow> node_process \<Rightarrow> bool" where
  "unsent sid s \<longleftrightarrow> inheritance_inv s \<and> current sid s \<and> booted (JStr sid) (np_history s) \<and>
     (distinct (starts (np_history s)) \<longrightarrow> (\<forall>e\<in>set (np_history s). \<not> inheritance_event (JStr sid) e))"

definition intended :: "string \<Rightarrow> node_process \<Rightarrow> bool" where
  "intended sid s \<longleftrightarrow> unsent sid s \<and> transfer_guard sid (np_table s)"

lemma unsent_frame:
  assumes "frame {} no_event f"
  shows "keeps (unsent sid) f" "keeps (intended sid) f"
proof -
  have "unsent sid s \<and> np_table s = np_table s0" if c: "continues {} no_event s0 s" and u: "unsent sid s0" for s0 s
  proof -
    have t: "np_table s = np_table s0" using c by (auto simp: continues_def)
    obtain es where h: "np_history s = np_history s0 @ es" and es: "\<forall>e\<in>set es. \<not> loud e"
      using c unfolding continues_def by blast
    have "inheritance_inv s" using inheritance.inv_continues [OF c] u by (auto simp: unsent_def)
    moreover have "starts es = []" using es starts_quiet [of es no_event] by simp
    ultimately show ?thesis using u h es t inheritance.rel_loud booted_append
      by (auto simp: unsent_def current_def)
  qed
  then show "keeps (unsent sid) f" "keeps (intended sid) f"
    by (auto intro!: frame_triple [OF assms] simp: intended_def)
qed

lemma send_inherits:
  "triple inheritance_inv (intended sid) (external (\<lambda>h. Send_Raw (Inheritance (JStr sid)) a v (r h)) answer) (\<lambda>_. inheritance_inv)"
proof (rule triple_external)
  fix s assume s: "intended sid s"
  then show "inheritance_inv s" by (simp add: intended_def unsent_def)
  let ?e = "Send_Raw (Inheritance (JStr sid)) a v (r (np_history s))"
  let ?s = "s\<lparr>np_history := np_history s @ [?e], np_budget := np_budget s - 1\<rparr>"
  have I: "inheritance_inv s" and guard: "transfer_guard sid (np_table s)" and cur: "current sid s"
    and fresh: "distinct (starts (np_history s)) \<Longrightarrow> count_events (inheritance_event (JStr sid)) (np_history s) = 0"
    and boot: "booted (JStr sid) (np_history s)"
    using s by (auto simp: intended_def unsent_def count_events_none)
  have ev: "inheritance_event j ?e \<longleftrightarrow> j = JStr sid" for j by auto
  have "boot_before_inheritance (np_history s @ [?e])"
    using I boot unfolding boot_before_snoc ev by (simp add: spawn_inv_def)
  moreover have "\<exists>sid'\<in>set (starts (np_history s)). JStr sid = JStr sid'"
    using I cur by (auto simp: spawn_inv_def current_def)
  moreover have "current sid' ?s = current sid' s" for sid' by (simp add: current_def)
  ultimately have "inheritance_inv ?s" using I guard fresh cur
    by (auto simp: spawn_inv_def ev transfer_protected_def current_def)
  then show "inheritance_inv ?s \<and> inheritance_inv ?s" by simp
qed

lemma inheritance_quiet: "frame {} no_event f \<Longrightarrow> keeps inheritance_inv f"
  by (rule inheritance.inv_frame) auto

lemma send_inv:
  "triple inheritance_inv (intended sid) (send w (Inheritance (JStr sid)) a v) (\<lambda>_. inheritance_inv)"
proof -
  have "triple inheritance_inv (intended sid) (sign_transaction w a v) (\<lambda>_. intended sid)"
    by (rule triple_I [OF unsent_frame(2)]) (auto intro: frame_rules simp: intended_def unsent_def)
  moreover have "triple inheritance_inv (intended sid) (or_raise m (external (\<lambda>h. Send_Raw (Inheritance (JStr sid)) a v (r h)) answer)) (\<lambda>_. inheritance_inv)" for m r answer
    unfolding or_raise_def by (rule triple_sbind [OF send_inherits]) (intro keeps_rules)
  moreover have "keeps inheritance_inv (dict_get k d x)" for k d x by (rule inheritance_quiet, rule frame_rules)
  ultimately show ?thesis unfolding send_def
    by (intro triple_sbind [where R = "\<lambda>_. intended sid"] triple_sbind [where R = "\<lambda>_. inheritance_inv"] keeps_rules)
qed

lemma fresh_transfer_inv:
  assumes "ci_spawn_id i = JStr sid"
  shows "triple inheritance_inv (unsent sid) (fresh_transfer py_repr c w i ns) (\<lambda>_. inheritance_inv)"
proof -
  have quiet: "triple inheritance_inv (unsent sid) f (\<lambda>_. unsent sid)" if "frame {} no_event f" for f
    by (rule triple_I [OF unsent_frame(1) [OF that]]) (simp add: unsent_def)
  have txid: "keeps inheritance_inv (kv_set ''spawn_transfer_txid'' v)" for v
    by (rule inheritance.inv_frame [where K' = "{''spawn_transfer_txid''}" and L = no_event]) (auto intro!: frame_rules)
  have intent: "triple inheritance_inv (unsent sid) (kv_set ''spawn_transfer_intent'' (JObj ((''spawn_id'', JStr sid) # m))) (\<lambda>_. intended sid)" for m
    unfolding kv_set_def
    by (rule triple_commit)
      (auto simp: intended_def unsent_def transfer_guard_def spawn_inv_def current_def transfer_protected_def)
  have finish: "keeps inheritance_inv (sbind (mark_spawn_completed py_repr w b a) (\<lambda>_. sreturn x))" for b a x
    by (intro keeps_rules inheritance.inv_completed)
  have complete: "triple inheritance_inv (unsent sid) (sbind (mark_spawn_completed py_repr w b a) (\<lambda>_. sreturn x)) (\<lambda>_. inheritance_inv)" for b a x
    using finish by (rule triple_weaken) (simp_all add: unsent_def)
  have sending: "triple inheritance_inv (intended sid) (catch_all (send w (Inheritance (JStr sid)) a v) (\<lambda>_. sraise e)) (\<lambda>_. inheritance_inv)" for a v e
    by (intro triple_catch_all send_inv keeps_rules)
  show ?thesis unfolding fresh_transfer_def assms Let_def
    by (intro triple_sbind [OF quiet] triple_if frame_rules complete triple_sbind [OF intent] triple_sbind [OF sending] keeps_sbind [OF txid] finish)
qed

lemma resume_transfer_inv: "keeps inheritance_inv (resume_transfer py_repr w i intent)"
proof -
  have "keeps inheritance_inv (kv_set ''spawn_transfer_txid'' v)" for v
    by (rule inheritance.inv_frame [where K' = "{''spawn_transfer_txid''}" and L = no_event]) (auto intro!: frame_rules)
  moreover have "keeps inheritance_inv (dict_item k v)" "keeps inheritance_inv (find_prior_send w a n)" for k v a n
    by (rule inheritance_quiet, rule frame_rules)+
  ultimately show ?thesis unfolding resume_transfer_def by (intro keeps_rules inheritance.inv_completed)
qed

lemma transfer_inv:
  "triple inheritance_inv (\<lambda>s. inheritance_inv s \<and> current sid s \<and> recorded sid i s \<and> booted (JStr sid) (np_history s))
     (transfer_inheritance py_repr c w i ns) (\<lambda>_. inheritance_inv)"
proof (cases "ci_spawn_id i = JStr sid")
  case False
  then show ?thesis by (simp add: triple_def recorded_def)
next
  case True
  let ?P = "\<lambda>s. inheritance_inv s \<and> current sid s \<and> recorded sid i s \<and> booted (JStr sid) (np_history s)"
  have complete: "triple inheritance_inv Q (sbind (mark_spawn_completed py_repr w b a) (\<lambda>_. sreturn x)) (\<lambda>_. inheritance_inv)"
    if "\<And>s. Q s \<Longrightarrow> inheritance_inv s" for Q b a x
    by (rule triple_weaken [OF keeps_sbind [OF inheritance.inv_completed keeps_pure(1)]]) (use that in auto)
  have choice: "triple inheritance_inv (\<lambda>s. (?P s \<and> intent = kv_get ''spawn_transfer_intent'' JNull (np_table s)) \<and>
        (resume \<longleftrightarrow> (\<exists>m. intent = JObj m \<and> map_of m ''spawn_id'' = Some (JStr sid))))
      (if resume then resume_transfer py_repr w i intent else fresh_transfer py_repr c w i ns) (\<lambda>_. inheritance_inv)" for intent resume
    by (rule triple_if; rule triple_weaken, (rule resume_transfer_inv fresh_transfer_inv [OF True])?)
      (auto simp: unsent_def spawn_inv_def transfer_protected_def transfer_guard_def kv_get_def)
  show ?thesis unfolding transfer_inheritance_def True
    apply (rule triple_sbind [OF triple_still [where P = ?P]])
      apply (simp add: swhen_raise_def)
     apply simp
    apply (rule triple_sbind [OF triple_read], simp)
    apply (rule triple_if)
     apply (rule complete, simp)
    apply (rule triple_weaken [where P = ?P and Q = "\<lambda>_. inheritance_inv"])
      apply (rule triple_sbind [OF triple_read], simp)
      apply (rule triple_sbind [OF triple_dict(3)], simp)
      apply (rule choice)
     apply simp_all
    done
qed

interpretation inheritance_runs: spawn_bound inheritance_event 1 "\<lambda>t. True" boot_before_inheritance transfer_protected
    "{''spawn_transfer_intent''}" py_repr w for py_repr w
proof unfold_locales
  show "keeps (\<lambda>s. inheritance_inv s \<and> current sid s) (obtain_identity c w sid)" for sid c
    by (rule inheritance.inv_current_frame [OF frame_identity]) (auto simp: identity_keys_def elim: funding_event.elims)
  show "keeps (\<lambda>s. inheritance_inv s \<and> current sid s \<and> recorded sid i s) (obtain_vps c w sid i)" for sid c i
    by (rule inheritance.inv_recorded_frame [OF frame_vps]) (auto simp: vps_keys_def elim: launch_event.elims)
qed (rule transfer_inv)

text \<open>
  C11. In every run of a node, through any sequence of decisions, recoveries, shutdowns and crashes at any
  action, each spawn broadcasts its inheritance at most once, provided no spawn id is drawn twice; and every
  such broadcast comes after the child was started under the name of the spawn and then passed the health
  check.
\<close>

theorem inheritance_at_most_once:
  assumes "node_run py_repr w s" and "distinct (starts (np_history s))"
  shows "count_events (inheritance_event j) (np_history s) \<le> 1 \<and> boot_before_inheritance (np_history s)"
  using inheritance_runs.run_inv [OF assms(1)] assms(2) by (simp add: spawn_inv_def)

theorem inheritance_at_most_once_witness:
  "node_run demo_repr demo_world (demo_spawn 100) \<and> starts (np_history (demo_spawn 100)) = [''spawn-1''] \<and>
   count_events (inheritance_event (JStr ''spawn-1'')) (np_history (demo_spawn 100)) = 1 \<and>
   boot_before_inheritance (np_history (demo_spawn 100))"
  using inheritance_at_most_once [OF demo_spawn_run, of 100 "JStr ''spawn-1''"]
  by (simp add: demo_history demo_spawn_run count_events_def)

end
