(* ===== verification/Spawn_Funding.thy ===== *)
theory Spawn_Funding
  imports Spawn_Inv Spawn_Example
begin

text \<open>
  The invoices for the child's SporeStack token (modules/spawning/spawn_identity.py): a spawn asks for at
  most five of them over any number of crashes and restarts.
\<close>

section \<open>Invoices\<close>

fun invoice_event :: "json \<Rightarrow> event \<Rightarrow> bool" where
  "invoice_event j (Http (Post_Invoice p t d) r) \<longleftrightarrow> p = Funding j"
| "invoice_event j e \<longleftrightarrow> False"

text \<open>The payment of an invoice is another event.\<close>

fun pay_event :: "json \<Rightarrow> event \<Rightarrow> bool" where
  "pay_event j (Send_Raw p a v reached) \<longleftrightarrow> p = Funding j"
| "pay_event j e \<longleftrightarrow> False"

definition attempts_ok :: "(string \<Rightarrow> json option) \<Rightarrow> bool" where
  "attempts_ok t \<longleftrightarrow> t ''spawn_funding_attempts'' = None \<or>
     (\<exists>n. t ''spawn_funding_attempts'' = Some (JInt n) \<and> 0 \<le> n \<and> n \<le> MAX_FUNDING_ATTEMPTS)"

definition attempts :: "(string \<Rightarrow> json option) \<Rightarrow> int" where
  "attempts t = (case t ''spawn_funding_attempts'' of Some (JInt n) \<Rightarrow> n | _ \<Rightarrow> 0)"

definition invoices_counted :: "string \<Rightarrow> (string \<Rightarrow> json option) \<Rightarrow> event list \<Rightarrow> bool" where
  "invoices_counted sid t h \<longleftrightarrow> int (count_events (invoice_event (JStr sid)) h) \<le> attempts t"

lemma attempts_bounds: "attempts_ok t \<Longrightarrow> 0 \<le> attempts t \<and> attempts t \<le> 5"
  by (auto simp: attempts_ok_def attempts_def MAX_FUNDING_ATTEMPTS_def)

lemma attempts_read: "attempts_ok t \<Longrightarrow> py_int_of (kv_get ''spawn_funding_attempts'' (JInt 0) t) = Inr (attempts t)"
  by (auto simp: attempts_ok_def attempts_def kv_get_def)

interpretation invoices: spawn_counter invoice_event 5 attempts_ok "\<lambda>h. True" invoices_counted "{''spawn_funding_attempts''}"
proof unfold_locales
  show "loud e \<and> \<not> topup_event e" if "invoice_event j e" for j e using that by (cases "(j, e)" rule: invoice_event.cases) auto
  show "invoices_counted sid t h" if "attempts_ok t" "\<And>e. e \<in> set h \<Longrightarrow> \<not> invoice_event (JStr sid) e" for t h sid
    using that attempts_bounds [OF that(1)] by (simp add: invoices_counted_def count_events_none)
qed (auto simp: SPAWN_KEYS_TO_CLEAR_def attempts_ok_def attempts_def invoices_counted_def count_events_none)

abbreviation invoice_inv :: "node_process \<Rightarrow> bool" where
  "invoice_inv \<equiv> spawn_inv invoice_event 5 attempts_ok (\<lambda>h. True) invoices_counted"

abbreviation invoice_base :: "string \<Rightarrow> node_process \<Rightarrow> bool" where
  "invoice_base sid s \<equiv> invoice_inv s \<and> current sid s"

text \<open>One more invoice fits the attempts recorded in the table.\<close>

definition invoice_slack :: "string \<Rightarrow> node_process \<Rightarrow> bool" where
  "invoice_slack sid s \<longleftrightarrow> invoice_base sid s \<and>
     (distinct (starts (np_history s)) \<longrightarrow> int (count_events (invoice_event (JStr sid)) (np_history s)) < attempts (np_table s))"

lemma invoice_quiet:
  assumes "frame {''spawn_funding_intent'', ''spawn_funding_txid'', ''spawn_child_wallet'', ''spawn_sporestack_token'', ''spawn_identity''}
    (pay_event j) f"
  shows "keeps (invoice_base sid) f"
  by (rule invoices.inv_current_frame [OF assms]) (auto elim: pay_event.elims)

lemma slack_quiet: "frame {} no_event f \<Longrightarrow> keeps (invoice_slack sid) f"
proof (rule frame_triple, assumption)
  fix s0 s assume c: "continues {} no_event s0 s" and s0: "invoice_slack sid s0"
  obtain es where h: "np_history s = np_history s0 @ es" and es: "\<forall>e\<in>set es. loud e \<longrightarrow> no_event e" and t: "np_table s = np_table s0"
    using c unfolding continues_def by auto
  have "invoice_inv s" using invoices.inv_continues [OF c] s0 by (auto simp: invoice_slack_def)
  moreover have "count_events (invoice_event (JStr sid)) es = 0" using es invoices.rel_loud by (auto intro!: count_events_none)
  moreover have "starts es = []" using starts_quiet [OF es] by simp
  ultimately show "invoice_slack sid s" using s0 h t by (simp add: invoice_slack_def current_def)
qed

lemma attempt_written:
  assumes "a < MAX_FUNDING_ATTEMPTS"
  shows "triple (invoice_base sid) (\<lambda>s. invoice_base sid s \<and> a = attempts (np_table s))
    (kv_set ''spawn_funding_attempts'' (JInt (a + 1))) (\<lambda>_. invoice_slack sid)"
  unfolding kv_set_def
proof (rule triple_commit, simp)
  fix s assume s: "invoice_base sid s \<and> a = attempts (np_table s)"
  let ?s = "s\<lparr>np_table := (np_table s)(''spawn_funding_attempts'' \<mapsto> JInt (a + 1)), np_budget := np_budget s - 1\<rparr>"
  have ok: "attempts_ok (np_table s)" using s by (simp add: spawn_inv_def)
  have new: "attempts (np_table ?s) = a + 1" by (simp add: attempts_def)
  have G: "int (count_events (invoice_event (JStr sid)) (np_history s)) \<le> a" if "distinct (starts (np_history s))"
    using s that by (auto simp: spawn_inv_def invoices_counted_def)
  have "invoice_inv ?s \<and> current sid ?s"
  proof (rule invoices.inv_write)
    show "attempts_ok (np_table ?s)" using attempts_bounds [OF ok] s assms by (simp add: attempts_ok_def)
    show "invoices_counted sid (np_table ?s) (np_history s)" if "distinct (starts (np_history s))"
      unfolding invoices_counted_def new using G [OF that] by simp
  qed (use s in simp_all)
  then show "invoice_base sid ?s \<and> invoice_slack sid ?s"
    unfolding invoice_slack_def new using G by auto
qed

lemma invoice_asked: "triple (invoice_base sid) (invoice_slack sid) (create_invoice w (Funding (JStr sid)) tok d) (\<lambda>_. invoice_base sid)"
proof -
  have "triple (invoice_base sid) (invoice_slack sid)
      (external (\<lambda>h. Http (Post_Invoice (Funding (JStr sid)) tok d) (r h)) answer) (\<lambda>_. invoice_base sid)" for r answer
  proof (rule triple_external)
    fix s assume s: "invoice_slack sid s"
    then show "invoice_base sid s" by (simp add: invoice_slack_def)
    let ?e = "Http (Post_Invoice (Funding (JStr sid)) tok d) (r (np_history s))"
    have ok: "attempts_ok (np_table s)" using s by (simp add: invoice_slack_def spawn_inv_def)
    let ?s = "s\<lparr>np_history := np_history s @ [?e], np_budget := np_budget s - 1\<rparr>"
    have c: "int (count_events (invoice_event (JStr sid)) (np_history s)) < attempts (np_table s)" if "distinct (starts (np_history s))"
      using s that by (simp add: invoice_slack_def)
    have "invoice_inv ?s \<and> current sid ?s"
    proof (rule invoices.inv_event)
      show "invoice_inv s" "current sid s" using s by (simp_all add: invoice_slack_def)
      show "count_events (invoice_event (JStr sid)) (np_history s) < 5" if "distinct (starts (np_history s))"
        using c [OF that] attempts_bounds [OF ok] by simp
      show "invoices_counted sid (np_table s) (np_history s @ [?e])" if "distinct (starts (np_history s))"
        using c [OF that] by (simp add: invoices_counted_def)
    qed simp_all
    then show "invoice_base sid ?s \<and> invoice_base sid ?s" by simp
  qed
  then show ?thesis unfolding create_invoice_def http_json_def http_def by (intro triple_sbind triple_return) auto
qed

lemma mint_invoices: "keeps (invoice_base sid) (mint_funding_invoice c w sid tok)"
proof -
  have calc: "triple (invoice_base sid) (invoice_slack sid) (calculate_monthly_vps_cost c w f p) (\<lambda>_. invoice_slack sid)" for f p
    by (rule triple_I [OF slack_quiet]) (auto intro: frame_rules simp: invoice_slack_def)
  have rec: "keeps (invoice_base sid) (record_invoice sid tok r)" for r
    by (rule invoice_quiet, intro frame_rules) simp
  have step: "triple (invoice_base sid) (\<lambda>s. invoice_base sid s \<and> a = attempts (np_table s))
      (if MAX_FUNDING_ATTEMPTS \<le> a then sraise (SpawnError ''identity'' ''Max funding attempts reached'')
       else sbind (kv_set ''spawn_funding_attempts'' (JInt (a + 1))) (\<lambda>_.
         sbind (calculate_monthly_vps_cost c w (JStr (mc_vps_flavor c)) (JStr (mc_vps_provider c))) (\<lambda>monthly_cents.
         sbind (create_invoice w (Funding (JStr sid)) tok (funding_dollars c monthly_cents)) (record_invoice sid tok))))
      (\<lambda>_. invoice_base sid)" for a
    by (intro triple_if triple_raise triple_sbind [OF attempt_written] triple_sbind [OF calc] triple_sbind [OF invoice_asked] rec) auto
  show ?thesis unfolding mint_funding_invoice_def
    by (rule triple_sbind [OF triple_read], assumption, rule triple_sbind [OF triple_lift_py], simp)
      (rule triple_weaken [OF step], auto simp: spawn_inv_def attempts_read)
qed

lemma frame_pay: "frame {''spawn_funding_txid''} (pay_event (JStr sid)) (pay_funding_invoice c w sid m1 m2 i)"
  unfolding pay_funding_invoice_def by (intro frame_rules; simp)

lemma invoice_parts:
  "keeps (invoice_base sid) (dict_item k v)" "keeps (invoice_base sid) (find_prior_send w a n)" "keeps (invoice_base sid) (get_balance w t)"
  "keeps (invoice_base sid) (int_field k d v)" "keeps (invoice_base sid) (read_clock w)" "keeps (invoice_base sid) (kv_set ''spawn_funding_txid'' v)"
  "keeps (invoice_base sid) (intent_is_live w i)" "keeps (invoice_base sid) (matches_funding i sid t)"
  "keeps (invoice_base sid) (load_stored_identity sid)" "keeps (invoice_base sid) (generate_ssh_keypair w path)"
  "keeps (invoice_base sid) (ensure_child_wallet w sid)" "keeps (invoice_base sid) (ensure_sporestack_token w sid)"
  "keeps (invoice_base sid) (wait_for_credit w t)" "keeps (invoice_base sid) (kv_set ''spawn_identity'' v)"
  unfolding load_stored_identity_def by (rule invoice_quiet; (intro frame_rules)?; simp)+

lemma invoice_pay: "keeps (invoice_base sid) (pay_funding_invoice c w sid m1 m2 i)"
  by (rule invoice_quiet [where j = "JStr sid"], rule frame_mono [OF frame_pay]) auto

lemma identity_invoices: "keeps (invoice_base sid) (obtain_identity c w sid)"
  unfolding obtain_identity_def prepare_child_identity_def fund_sporestack_token_def resume_funding_def retry_funding_def
  by (intro keeps_rules invoice_parts invoice_pay mint_invoices)

interpretation invoice_runs: spawn_bound invoice_event 5 attempts_ok "\<lambda>h. True" invoices_counted "{''spawn_funding_attempts''}" py_repr w for py_repr w
proof unfold_locales
  show "keeps (\<lambda>s. invoice_inv s \<and> current sid s) (obtain_identity c w sid)" for sid c
    by (rule identity_invoices)
  show "keeps (\<lambda>s. invoice_inv s \<and> current sid s \<and> recorded sid i s) (obtain_vps c w sid i)" for sid c i
    by (rule invoices.inv_recorded_frame [OF frame_vps]) (auto simp: vps_keys_def elim: launch_event.elims)
  show "triple invoice_inv (\<lambda>s. invoice_inv s \<and> current sid s \<and> recorded sid i s \<and> booted (JStr sid) (np_history s))
      (transfer_inheritance py_repr c w i ns) (\<lambda>_. invoice_inv)" for sid c i ns
    by (rule triple_weaken [OF invoices.inv_transfer]) auto
qed

text \<open>
  C37. Whatever the answers of SporeStack and however often the node is killed, a spawn asks for at most five
  invoices for its token, in a run whose spawns have drawn different ids.
\<close>

theorem invoices_bounded:
  assumes "node_run py_repr w s" and "distinct (starts (np_history s))"
  shows "count_events (invoice_event j) (np_history s) \<le> 5"
  using invoice_runs.run_inv [OF assms(1)] assms(2) by (simp add: spawn_inv_def)

theorem invoices_bounded_witness:
  "node_run demo_repr demo_world (demo_spawn 100) \<and> starts (np_history (demo_spawn 100)) = [''spawn-1''] \<and>
   count_events (invoice_event (JStr ''spawn-1'')) (np_history (demo_spawn 100)) \<le> 5 \<and>
   count_events (invoice_event (JStr ''spawn-1'')) (np_history (demo_spawn 100)) = 1"
  using invoices_bounded [OF demo_spawn_run, of 100 "JStr ''spawn-1''"]
  by (simp add: demo_history demo_spawn_run count_events_def)

end
