(* ===== verification/Spawn_Payment.thy ===== *)
theory Spawn_Payment
  imports Spawn_Funding
begin

text \<open>
  The payment for the child's SporeStack token (modules/spawning/spawn_identity.py, core/wallet.py): when the
  wallet history lists what was sent, a spawn pays at most one invoice, over any number of crashes and
  restarts. When the history cannot be read the payment is repeated.
\<close>

section \<open>The guard\<close>

fun payment_event :: "json \<Rightarrow> event \<Rightarrow> bool" where
  "payment_event j (Send_Raw p a v reached) \<longleftrightarrow> p = Funding j \<and> reached"
| "payment_event j e \<longleftrightarrow> False"

definition token_blob :: "string \<Rightarrow> string \<Rightarrow> (string \<Rightarrow> json option) \<Rightarrow> bool" where
  "token_blob sid tok t \<longleftrightarrow> tok \<noteq> [] \<and> (\<exists>m. t ''spawn_sporestack_token'' = Some (JObj m) \<and>
     map_of m ''spawn_id'' = Some (JStr sid) \<and> map_of m ''sporestack_token'' = Some (JStr tok))"

definition intent_of :: "string \<Rightarrow> string \<Rightarrow> (string \<times> json) list \<Rightarrow> (string \<Rightarrow> json option) \<Rightarrow> bool" where
  "intent_of sid tok m t \<longleftrightarrow> t ''spawn_funding_intent'' = Some (JObj m) \<and>
     map_of m ''spawn_id'' = Some (JStr sid) \<and> map_of m ''sporestack_token'' = Some (JStr tok)"

abbreviation funded :: "(string \<Rightarrow> json option) \<Rightarrow> bool" where
  "funded t \<equiv> truthy (kv_get ''spawn_funding_txid'' JNull t)"

definition funding_blobs_ok :: "(string \<Rightarrow> json option) \<Rightarrow> bool" where
  "funding_blobs_ok t \<longleftrightarrow>
     (\<forall>m. t ''spawn_sporestack_token'' = Some (JObj m) \<longrightarrow> (\<exists>tok. map_of m ''sporestack_token'' = Some (JStr tok))) \<and>
     (\<forall>m. t ''spawn_funding_intent'' = Some (JObj m) \<longrightarrow>
        (\<exists>a v. map_of m ''pay_address'' = Some (JStr a) \<and> map_of m ''amount_sat'' = Some (JInt v)))"

text \<open>
  A spawn that has paid has recorded the transaction, or the invoice it paid is the one in the table, for
  the token in the table.
\<close>

definition pays_intent :: "string \<Rightarrow> (string \<Rightarrow> json option) \<Rightarrow> event list \<Rightarrow> bool" where
  "pays_intent sid t h \<longleftrightarrow> (\<exists>tok m a v. token_blob sid tok t \<and> intent_of sid tok m t \<and>
     map_of m ''pay_address'' = Some (JStr a) \<and> map_of m ''amount_sat'' = Some (JInt v) \<and>
     Send_Raw (Funding (JStr sid)) (JStr a) v True \<in> set h)"

definition payment_protected :: "string \<Rightarrow> (string \<Rightarrow> json option) \<Rightarrow> event list \<Rightarrow> bool" where
  "payment_protected sid t h \<longleftrightarrow> ((\<exists>e\<in>set h. payment_event (JStr sid) e) \<longrightarrow> funded t \<or> pays_intent sid t h)"

abbreviation funding_keys :: "string set" where
  "funding_keys \<equiv> {''spawn_sporestack_token'', ''spawn_funding_intent'', ''spawn_funding_txid''}"

interpretation payments: spawn_counter payment_event 1 funding_blobs_ok "\<lambda>h. True" payment_protected funding_keys
proof unfold_locales
  show "loud e \<and> \<not> topup_event e" if "payment_event j e" for j e using that by (cases e) auto
  show "payment_protected sid t' (h @ es)"
    if t: "\<And>k. k \<in> funding_keys \<Longrightarrow> t' k = t k" and es: "\<And>e. e \<in> set es \<Longrightarrow> \<not> payment_event (JStr sid) e" and "payment_protected sid t h" for sid t t' h es
  proof -
    have "funded t' = funded t" "pays_intent sid t h \<Longrightarrow> pays_intent sid t' (h @ es)"
      using t by (auto simp: kv_get_def pays_intent_def token_blob_def intent_of_def)
    then show ?thesis using that unfolding payment_protected_def by auto
  qed
qed (auto simp: SPAWN_KEYS_TO_CLEAR_def payment_protected_def funding_blobs_ok_def)

abbreviation payment_inv :: "node_process \<Rightarrow> bool" where
  "payment_inv \<equiv> spawn_inv payment_event 1 funding_blobs_ok (\<lambda>h. True) payment_protected"

abbreviation payment_base :: "string \<Rightarrow> node_process \<Rightarrow> bool" where
  "payment_base sid s \<equiv> payment_inv s \<and> current sid s"

abbreviation unpaid :: "string \<Rightarrow> ((string \<Rightarrow> json option) \<Rightarrow> bool) \<Rightarrow> node_process \<Rightarrow> bool" where
  "unpaid sid Q s \<equiv> payment_inv s \<and> current sid s \<and> Q (np_table s) \<and> untouched payment_event sid s"

text \<open>Writes to the guarded keys before anything is paid, and of the transaction id.\<close>

lemma unpaid_write:
  assumes "\<And>t. funding_blobs_ok t \<Longrightarrow> Q t \<Longrightarrow> funding_blobs_ok (t(key \<mapsto> v)) \<and> Q' (t(key \<mapsto> v))" and "key \<noteq> ''spawn_id''"
  shows "triple (payment_base sid) (unpaid sid Q) (kv_set key v) (\<lambda>_. unpaid sid Q')"
  unfolding kv_set_def
proof (rule triple_commit, simp)
  fix s assume s: "unpaid sid Q s"
  let ?s = "s\<lparr>np_table := (np_table s)(key \<mapsto> v), np_budget := np_budget s - 1\<rparr>"
  have ok: "funding_blobs_ok (np_table ?s) \<and> Q' (np_table ?s)" using s assms(1) [of "np_table s"] by (simp add: spawn_inv_def)
  have "payment_inv ?s \<and> current sid ?s"
    by (rule payments.inv_write) (use s ok assms(2) in \<open>auto simp: payment_protected_def untouched_def\<close>)
  then show "payment_base sid ?s \<and> unpaid sid Q' ?s" using s ok by (simp add: untouched_def)
qed

lemma txid_write:
  assumes "\<And>s. P s \<Longrightarrow> payment_base sid s \<and> (distinct (starts (np_history s)) \<longrightarrow> (\<exists>e\<in>set (np_history s). payment_event (JStr sid) e)
      \<longrightarrow> truthy v \<or> pays_intent sid (np_table s) (np_history s))"
  shows "triple (payment_base sid) P (kv_set ''spawn_funding_txid'' v) (\<lambda>_. payment_base sid)"
  unfolding kv_set_def
proof (rule triple_commit)
  fix s assume s: "P s"
  then show "payment_base sid s" using assms by blast
  let ?s = "s\<lparr>np_table := (np_table s)(''spawn_funding_txid'' \<mapsto> v), np_budget := np_budget s - 1\<rparr>"
  have ok: "funding_blobs_ok (np_table ?s)" using assms [OF s] by (simp add: spawn_inv_def funding_blobs_ok_def)
  have "pays_intent sid (np_table ?s) h \<longleftrightarrow> pays_intent sid (np_table s) h" for h
    by (simp add: pays_intent_def token_blob_def intent_of_def)
  then have "payment_inv ?s \<and> current sid ?s"
    using assms [OF s] ok by (intro payments.inv_write [of s sid ?s]) (auto simp: payment_protected_def kv_get_def)
  then show "payment_base sid ?s \<and> payment_base sid ?s" by simp
qed

text \<open>Quiet parts.\<close>

lemma payment_closed:
  assumes c: "continues {} no_event s0 s" and s0: "payment_base sid s0"
  shows "payment_base sid s \<and> np_table s = np_table s0 \<and> (untouched payment_event sid s0 \<longrightarrow> untouched payment_event sid s) \<and>
    (\<forall>e\<in>set (np_history s). loud e \<longrightarrow> e \<in> set (np_history s0))"
proof -
  obtain es where h: "np_history s = np_history s0 @ es" and es: "\<forall>e\<in>set es. loud e \<longrightarrow> no_event e" and t: "np_table s = np_table s0"
    using c unfolding continues_def by auto
  have "payment_inv s" using payments.inv_continues [OF c] s0 by auto
  moreover have "starts es = []" using starts_quiet [OF es] by simp
  ultimately show ?thesis using s0 t h es payments.rel_loud by (auto simp: untouched_def current_def)
qed

lemma unpaid_quiet: "frame {} no_event f \<Longrightarrow> triple (payment_base sid) (unpaid sid Q) f (\<lambda>_. unpaid sid Q)"
  by (rule triple_I [OF frame_triple]) (auto dest: payment_closed)

lemma payment_quiet:
  assumes "frame {''spawn_funding_attempts'', ''spawn_child_wallet'', ''spawn_identity''} (invoice_event j) f"
  shows "keeps (payment_base sid) f"
  by (rule payments.inv_current_frame [OF assms]) (auto elim: invoice_event.elims)

lemma payment_unpaid:
  assumes "frame {''spawn_funding_attempts'', ''spawn_child_wallet'', ''spawn_identity''} (invoice_event j) f"
    and "\<And>t t'. (\<And>k. k \<in> funding_keys \<Longrightarrow> t' k = t k) \<Longrightarrow> Q t \<Longrightarrow> Q t'"
  shows "triple (payment_base sid) (unpaid sid Q) f (\<lambda>_. unpaid sid Q)"
  by (rule triple_I [OF payments.inv_guard_frame(2) [OF assms(1) _ _ _ assms(2)]]) (auto elim: invoice_event.elims)

lemma triple_possible: "(\<And>s. P s \<Longrightarrow> triple I P f Q) \<Longrightarrow> triple I P f Q"
  unfolding triple_def by blast

section \<open>Minting and paying an invoice\<close>

lemma mint_payment:
  "triple (payment_base sid) (unpaid sid (token_blob sid tok)) (mint_funding_invoice c w sid (JStr tok))
     (\<lambda>intent s. \<exists>m. intent = JObj m \<and> unpaid sid (\<lambda>t. token_blob sid tok t \<and> intent_of sid tok m t) s)"
proof -
  let ?U = "unpaid sid (token_blob sid tok)"
  let ?R = "\<lambda>intent s. \<exists>m. intent = JObj m \<and> unpaid sid (\<lambda>t. token_blob sid tok t \<and> intent_of sid tok m t) s"
  have blob: "(\<And>k. k \<in> funding_keys \<Longrightarrow> t' k = t k) \<Longrightarrow> token_blob sid tok t \<Longrightarrow> token_blob sid tok t'" for t t'
    by (simp add: token_blob_def)
  have quiet: "triple (payment_base sid) ?U (kv_set ''spawn_funding_attempts'' v) (\<lambda>_. ?U)"
    "triple (payment_base sid) ?U (calculate_monthly_vps_cost c w f p) (\<lambda>_. ?U)"
    "triple (payment_base sid) ?U (create_invoice w (Funding (JStr sid)) tk d) (\<lambda>_. ?U)" for v f p tk d
    by (rule payment_unpaid [where j = "JStr sid", OF _ blob], intro frame_rules; simp)+
  have still: "triple (payment_base sid) ?U (dict_get k d v) (\<lambda>_. ?U)" "triple (payment_base sid) ?U (lift_py r) (\<lambda>_. ?U)" for k d v and r :: "(string \<times> int) option res"
    by (rule triple_still; auto simp: lift_py_def split: sum.splits)+
  have wr: "triple (payment_base sid) ?U (sbind (kv_set ''spawn_funding_intent'' (JObj m)) (\<lambda>_. sreturn (JObj m))) ?R"
    if "m = [(''spawn_id'', JStr sid), (''sporestack_token'', JStr tok), (''pay_address'', JStr a), (''amount_sat'', JInt v), (''created'', x), (''expires'', y)]" for m a v x y
    by (rule triple_sbind [OF unpaid_write [where Q' = "\<lambda>t. token_blob sid tok t \<and> intent_of sid tok m t"]])
      (auto simp: that funding_blobs_ok_def token_blob_def intent_of_def intro!: triple_return)
  have rec: "triple (payment_base sid) ?U (record_invoice sid (JStr tok) r) ?R" for r
    unfolding record_invoice_def Let_def
    by (intro triple_if triple_raise triple_sbind [OF still(1)] triple_sbind [OF still(2)] triple_case_option triple_case_prod wr refl) auto
  show ?thesis unfolding mint_funding_invoice_def
    by (intro triple_sbind [OF triple_still] triple_if triple_raise triple_sbind [OF quiet(1)] triple_sbind [OF quiet(2)] triple_sbind [OF quiet(3)] rec)
      (auto simp: read_table_def lift_py_def split: sum.splits)
qed

text \<open>Paid, and the invoice is still the one in the table.\<close>

definition settled :: "string \<Rightarrow> node_process \<Rightarrow> bool" where
  "settled sid s \<longleftrightarrow> payment_base sid s \<and> (distinct (starts (np_history s)) \<longrightarrow>
     (\<exists>e\<in>set (np_history s). payment_event (JStr sid) e) \<longrightarrow> pays_intent sid (np_table s) (np_history s))"

lemma send_payment:
  assumes m: "map_of m ''pay_address'' = Some (JStr a)" "map_of m ''amount_sat'' = Some (JInt v)"
  shows "triple (payment_base sid) (unpaid sid (\<lambda>t. token_blob sid tok t \<and> intent_of sid tok m t))
    (send w (Funding (JStr sid)) (JStr a) v) (\<lambda>_. settled sid)"
proof -
  let ?U = "unpaid sid (\<lambda>t. token_blob sid tok t \<and> intent_of sid tok m t)"
  have "triple (settled sid) ?U (external (\<lambda>h. Send_Raw (Funding (JStr sid)) (JStr a) v (r h)) answer) (\<lambda>_. settled sid)" for r answer
  proof (rule triple_external)
    fix s assume s: "?U s"
    then show "settled sid s" by (auto simp: settled_def untouched_def)
    let ?e = "Send_Raw (Funding (JStr sid)) (JStr a) v (r (np_history s))"
    let ?s = "s\<lparr>np_history := np_history s @ [?e], np_budget := np_budget s - 1\<rparr>"
    have pays: "(\<exists>e\<in>set (np_history s @ [?e]). payment_event (JStr sid) e) \<Longrightarrow> pays_intent sid (np_table s) (np_history s @ [?e])"
      if "distinct (starts (np_history s))" using s that m unfolding untouched_def pays_intent_def by auto
    have "payment_inv ?s \<and> current sid ?s"
      by (rule payments.inv_event [of s sid ?e]) (use s pays payments.untouched_count in \<open>auto simp: payment_protected_def\<close>)
    then show "settled sid ?s \<and> settled sid ?s" using pays by (auto simp: settled_def)
  qed
  then have ext: "triple (payment_base sid) ?U (external (\<lambda>h. Send_Raw (Funding (JStr sid)) (JStr a) v (r h)) answer) (\<lambda>_. settled sid)" for r answer
    by (rule triple_I) (simp add: settled_def)
  have still: "triple (payment_base sid) (settled sid) f (\<lambda>_. settled sid)" if "\<And>s. snd (f s) = s" for f :: "json proc"
    by (rule triple_still [OF that]) (simp add: settled_def)
  have raise: "triple (payment_base sid) (settled sid) (sraise e) (\<lambda>_. settled sid)" "triple (payment_base sid) (settled sid) (sreturn x) (\<lambda>_. settled sid)" for e x
    by (auto intro!: triple_raise triple_return simp: settled_def)
  have cont: "triple (payment_base sid) (settled sid) (sbind (if truthy v then dict_get ''txid'' JNull v else sreturn JNull)
      (\<lambda>sent. if truthy sent then sreturn txid else sraise e)) (\<lambda>_. settled sid)" for v txid e
    by (intro triple_sbind [OF still] triple_if raise) simp
  have res: "triple (payment_base sid) ?U (or_raise msg (external (\<lambda>h. Send_Raw (Funding (JStr sid)) (JStr a) v (r h)) answer)) (\<lambda>_. settled sid)" for msg r answer
    unfolding or_raise_def by (intro triple_sbind [OF ext] triple_case_option triple_raise triple_return) (auto simp: settled_def)
  show ?thesis unfolding send_def
    by (intro triple_sbind [OF unpaid_quiet] triple_sbind [OF res] cont frame_rules)
qed

lemma pay_payment:
  "triple (payment_base sid) (unpaid sid (\<lambda>t. token_blob sid tok t \<and> intent_of sid tok m t))
     (pay_funding_invoice c w sid e1 e2 (JObj m)) (\<lambda>_. payment_base sid)"
proof (rule triple_possible)
  let ?U = "unpaid sid (\<lambda>t. token_blob sid tok t \<and> intent_of sid tok m t)"
  fix s assume "?U s"
  then obtain a v where m: "map_of m ''pay_address'' = Some (JStr a)" "map_of m ''amount_sat'' = Some (JInt v)"
    unfolding spawn_inv_def funding_blobs_ok_def intent_of_def by auto
  have sent: "triple (payment_base sid) ?U (catch_all (send w (Funding (JStr sid)) (JStr a) v) (\<lambda>_. sraise e)) (\<lambda>_. settled sid)" for e
    by (intro triple_catch_all send_payment [OF m] triple_raise)
  have txid: "triple (payment_base sid) (settled sid) (kv_set ''spawn_funding_txid'' (JStr x)) (\<lambda>_. payment_base sid)" for x
    by (rule txid_write) (auto simp: settled_def)
  have eq: "pay_funding_invoice c w sid e1 e2 (JObj m) =
      sbind (check_parent_balance c w v) (\<lambda>_. sbind (intent_is_live w (JObj m)) (\<lambda>live.
      sbind (swhen_raise (\<not> live) (SpawnError ''identity'' e1)) (\<lambda>_.
      sbind (catch_all (send w (Funding (JStr sid)) (JStr a) v) (\<lambda>_. sraise (SpawnError ''identity'' e2))) (\<lambda>txid.
      kv_set ''spawn_funding_txid'' (JStr txid)))))"
    by (simp add: pay_funding_invoice_def dict_item_def m lift_py_def)
  show "triple (payment_base sid) ?U (pay_funding_invoice c w sid e1 e2 (JObj m)) (\<lambda>_. payment_base sid)"
    unfolding eq by (intro triple_sbind [OF unpaid_quiet] triple_sbind [OF sent] txid frame_rules)
qed

section \<open>Reconciliation\<close>

text \<open>The wallet history can be read and lists every payment that reached the network.\<close>

definition history_lists_sends :: "world \<Rightarrow> bool" where
  "history_lists_sends w \<longleftrightarrow> (\<forall>h p a v. Send_Raw p (JStr a) v True \<in> set h \<longrightarrow>
     (\<exists>txs. w_transactions w h = Some txs \<and> (\<exists>tx\<in>set txs. pays (JStr a) v tx)))"

abbreviation not_sent :: "string \<Rightarrow> int \<Rightarrow> node_process \<Rightarrow> bool" where
  "not_sent a v s \<equiv> \<forall>p. Send_Raw p (JStr a) v True \<notin> set (np_history s)"

lemma scan_prior:
  assumes "history_lists_sends w" and scan: "scan_for_prior_send w (JStr a) v s = (Inr r, s')"
  shows "(r = None \<longrightarrow> not_sent a v s') \<and> r \<noteq> Some []"
proof -
  obtain txs where h: "np_history s' = np_history s @ [Wallet_Update, Wallet_Transactions]" "txs = w_transactions w (np_history s @ [Wallet_Update])"
    and r: "r = (case txs of None \<Rightarrow> None | Some l \<Rightarrow> map_option wt_txid (find (pays (JStr a) v) l))"
    using scan by (auto simp: scan_for_prior_send_def sbind_Inr_iff external_Inr)
  have "not_sent a v s'" if "r = None"
  proof (rule ccontr)
    assume "\<not> not_sent a v s'"
    then obtain p where "Send_Raw p (JStr a) v True \<in> set (np_history s @ [Wallet_Update])" using h by auto
    then obtain l where "txs = Some l" "\<exists>tx\<in>set l. pays (JStr a) v tx" using assms(1) h unfolding history_lists_sends_def by blast
    then show False using r that by (auto simp: find_None_iff)
  qed
  moreover have "r \<noteq> Some []" using r by (auto simp: find_Some_iff pays_def split: option.splits)
  ultimately show ?thesis by blast
qed

lemma prior_send:
  assumes w: "history_lists_sends w" and R: "\<And>s0 s. continues {} no_event s0 s \<Longrightarrow> R s0 \<Longrightarrow> R s" and J: "\<And>s. R s \<Longrightarrow> J s"
  shows "triple J R (find_prior_send w (JStr a) v) (\<lambda>r s. R s \<and> (r = None \<longrightarrow> not_sent a v s) \<and> r \<noteq> Some [])"
proof -
  let ?Q = "\<lambda>r s. R s \<and> (r = None \<longrightarrow> not_sent a v s) \<and> r \<noteq> Some []"
  have quiet: "triple J R f (\<lambda>_. R)" if "frame {} no_event f" for f :: "'r proc"
    by (rule triple_I [OF frame_triple [OF that R]]) (auto simp: J)
  have scan: "triple J R (scan_for_prior_send w (JStr a) v) ?Q"
    unfolding triple_def using quiet [of "scan_for_prior_send w (JStr a) v"] scan_prior [OF w] frame_scan_prior unfolding triple_def by (metis prod.collapse)
  have late: "R s \<and> not_sent a v s" if c: "continues {} no_event s0 s" and r: "R s0 \<and> not_sent a v s0" for s0 s
  proof -
    obtain es where "np_history s = np_history s0 @ es" "\<forall>e\<in>set es. \<not> loud e" using c unfolding continues_def by auto
    then show ?thesis using c r R by auto
  qed
  have clock: "triple J (\<lambda>s. R s \<and> not_sent a v s) (read_clock w) (\<lambda>_ s. R s \<and> not_sent a v s)"
    by (rule triple_I [OF frame_triple [OF frame_wallet(1) late]]) (auto simp: J)
  have rest: "triple J (\<lambda>s. R s \<and> not_sent a v s) (sbind (read_clock w) (\<lambda>now. if d \<le> now - start then sreturn (Some None)
      else sbind (sleep n) (\<lambda>_. sreturn None))) (\<lambda>x s. case x of None \<Rightarrow> R s | Some r \<Rightarrow> ?Q r s)" for d start n
    by (rule triple_sbind [OF clock], intro triple_if triple_return triple_sbind [OF triple_weaken [OF quiet]])
      (auto simp: J intro: frame_rules)
  have body: "triple J R (sbind (scan_for_prior_send w (JStr a) v) (\<lambda>txid. if txid \<noteq> None then sreturn (Some txid)
      else sbind (read_clock w) (\<lambda>now. if d \<le> now - start then sreturn (Some None) else sbind (sleep n) (\<lambda>_. sreturn None))))
      (\<lambda>x s. case x of None \<Rightarrow> R s | Some r \<Rightarrow> ?Q r s)" for d start n
    by (rule triple_sbind [OF scan], rule triple_if) (auto simp: J intro!: triple_return triple_weaken [OF rest])
  show ?thesis unfolding find_prior_send_def
    by (rule triple_sbind [OF quiet triple_poll [OF body]]) (auto simp: J intro: frame_rules)
qed

section \<open>The identity stage\<close>

lemma pay_minted:
  "triple (payment_base sid) (\<lambda>s. \<exists>m. intent = JObj m \<and> unpaid sid (\<lambda>t. token_blob sid tok t \<and> intent_of sid tok m t) s)
     (pay_funding_invoice c w sid e1 e2 intent) (\<lambda>_. payment_base sid)"
  using pay_payment unfolding triple_def by blast

lemma rehydrate_stored: "token_blob sid x (np_table s) \<Longrightarrow> rehydrate_sporestack_token sid s = (Inr (JStr x), s)"
  by (auto simp: token_blob_def rehydrate_sporestack_token_def read_table_def sbind_def kv_get_def matches_spawn_def dict_get_def
      jget_def py_or_def)

lemma rehydrate_found:
  "rehydrate_sporestack_token sid s = (Inr v, s') \<Longrightarrow> truthy v \<Longrightarrow> funding_blobs_ok (np_table s) \<Longrightarrow>
   \<exists>x. v = JStr x \<and> token_blob sid x (np_table s)"
  by (auto simp: rehydrate_sporestack_token_def sbind_Inr_iff read_table_def dict_get_Inr py_or_def jget_def token_blob_def
      funding_blobs_ok_def kv_get_def dest!: matches_spawn_Inr split: if_splits option.splits)

lemma rehydrate_state: "snd (rehydrate_sporestack_token sid s) = s"
  by (auto simp: rehydrate_sporestack_token_def read_table_def sbind_def split: prod.splits sum.splits)
    (metis dict_state snd_conv)+

lemma generate_token_str: "generate_token w s = (Inr v, s') \<Longrightarrow> truthy v \<Longrightarrow> \<exists>x. v = JStr x \<and> x \<noteq> []"
proof -
  assume g: "generate_token w s = (Inr v, s')" "truthy v"
  obtain x where "v = (case x of JStr y \<Rightarrow> JStr (strip y) | _ \<Rightarrow> JNull)"
    using g(1) by (auto simp: generate_token_def sbind_Inr_iff)
  then show ?thesis using g(2) by (cases x) auto
qed

lemma ensure_token:
  "triple (payment_base sid) (payment_base sid) (ensure_sporestack_token w sid)
     (\<lambda>v s. \<exists>x. v = JStr x \<and> payment_base sid s \<and> token_blob sid x (np_table s))"
proof -
  let ?N = "\<lambda>s. payment_inv s \<and> current sid s \<and> (\<forall>x. \<not> token_blob sid x (np_table s))"
  let ?R = "\<lambda>v s. \<exists>x. v = JStr x \<and> payment_base sid s \<and> token_blob sid x (np_table s)"
  have gen: "triple (payment_base sid) ?N (generate_token w) (\<lambda>v s. ?N s \<and> (truthy v \<longrightarrow> (\<exists>x. v = JStr x \<and> x \<noteq> [])))"
    by (rule triple_returns, rule triple_I [OF payments.inv_guard_frame(1) [where K' = "{}" and L = no_event]])
      (auto intro: frame_rules generate_token_str simp: token_blob_def)
  have wr: "triple (payment_base sid) ?N (kv_set ''spawn_sporestack_token'' (JObj [(''spawn_id'', JStr sid), (''sporestack_token'', JStr x)]))
      (\<lambda>_. ?R (JStr x))" if "x \<noteq> []" for x
    unfolding kv_set_def
  proof (rule triple_commit, simp)
    fix s assume s: "?N s"
    let ?s = "s\<lparr>np_table := (np_table s)(''spawn_sporestack_token'' \<mapsto> JObj [(''spawn_id'', JStr sid), (''sporestack_token'', JStr x)]), np_budget := np_budget s - 1\<rparr>"
    have "payment_protected sid (np_table s) (np_history s)" if "distinct (starts (np_history s))" using s that by (simp add: spawn_inv_def)
    then have "payment_inv ?s \<and> current sid ?s"
      using s by (intro payments.inv_write [of s sid ?s]) (auto simp: spawn_inv_def funding_blobs_ok_def payment_protected_def pays_intent_def kv_get_def)
    then show "payment_base sid ?s \<and> ?R (JStr x) ?s" using \<open>x \<noteq> []\<close> by (simp add: token_blob_def)
  qed
  have new: "triple (payment_base sid) (\<lambda>s. ?N s \<and> (truthy v \<longrightarrow> (\<exists>x. v = JStr x \<and> x \<noteq> [])))
      (sbind (swhen_raise (\<not> truthy v) e) (\<lambda>_. sbind (kv_set ''spawn_sporestack_token'' (JObj [(''spawn_id'', JStr sid), (''sporestack_token'', v)]))
        (\<lambda>_. sreturn v))) ?R" for v e
  proof (cases "truthy v")
    case False
    then show ?thesis by (simp add: swhen_raise_def triple_def sbind_def)
  next
    case True
    show ?thesis
    proof (rule triple_possible)
      fix s assume "?N s \<and> (truthy v \<longrightarrow> (\<exists>x. v = JStr x \<and> x \<noteq> []))"
      then obtain x where x: "v = JStr x" "x \<noteq> []" using True by blast
      have "triple (payment_base sid) ?N (sbind (kv_set ''spawn_sporestack_token'' (JObj [(''spawn_id'', JStr sid), (''sporestack_token'', v)])) (\<lambda>_. sreturn v)) ?R"
        unfolding x(1) by (rule triple_sbind [OF wr [OF x(2)]], rule triple_return) auto
      then show "triple (payment_base sid) (\<lambda>s. ?N s \<and> (truthy v \<longrightarrow> (\<exists>x. v = JStr x \<and> x \<noteq> []))) (sbind (swhen_raise (\<not> truthy v) e)
          (\<lambda>_. sbind (kv_set ''spawn_sporestack_token'' (JObj [(''spawn_id'', JStr sid), (''sporestack_token'', v)])) (\<lambda>_. sreturn v))) ?R"
        using True by (auto simp: swhen_raise_def elim: triple_weaken)
    qed
  qed
  have found: "triple (payment_base sid) (\<lambda>s. payment_base sid s \<and> rehydrate_sporestack_token sid s = (Inr v, s)) (sreturn v) ?R" if "truthy v" for v
    by (rule triple_return) (use that rehydrate_found in \<open>auto simp: spawn_inv_def\<close>)
  have none: "?N s" if "payment_base sid s" "rehydrate_sporestack_token sid s = (Inr v, s)" "\<not> truthy v" for s v
    using that rehydrate_stored [of sid _ s] by (auto simp: token_blob_def)
  show ?thesis unfolding ensure_sporestack_token_def
    by (rule triple_sbind [OF triple_static [OF rehydrate_state]], assumption, rule triple_if, erule found, rule triple_weaken [OF triple_sbind [OF gen new]])
      (erule conjE, rule none, assumption+)
qed

lemma matches_funding_Inr:
  "matches_funding intent sid (JStr tok) s = (Inr b, s') \<Longrightarrow> b \<longleftrightarrow>
     (\<exists>m. intent = JObj m \<and> map_of m ''spawn_id'' = Some (JStr sid) \<and> map_of m ''sporestack_token'' = Some (JStr tok))"
  by (auto simp: matches_funding_def sbind_Inr_iff dict_get_Inr jget_def dest!: matches_spawn_Inr split: if_splits option.splits)

text \<open>Nothing was paid when the history does not list the invoice in the table, or the table has none.\<close>

lemma untouched_reconciled:
  assumes "payment_base sid s" "\<not> funded (np_table s)" "token_blob sid tok (np_table s)" "intent_of sid tok m (np_table s)"
    "map_of m ''pay_address'' = Some (JStr a)" "map_of m ''amount_sat'' = Some (JInt v)" "not_sent a v s"
  shows "untouched payment_event sid s"
  using assms by (auto simp: untouched_def spawn_inv_def payment_protected_def pays_intent_def token_blob_def intent_of_def)

lemma untouched_no_intent:
  assumes "payment_base sid s" "\<not> funded (np_table s)" "token_blob sid tok (np_table s)" "\<nexists>m. intent_of sid tok m (np_table s)"
  shows "untouched payment_event sid s"
  using assms by (auto simp: untouched_def spawn_inv_def payment_protected_def pays_intent_def token_blob_def intent_of_def)

lemma retry_payment:
  "triple (payment_base sid) (unpaid sid (\<lambda>t. token_blob sid tok t \<and> intent_of sid tok m t))
     (retry_funding c w sid (JStr tok) (JObj m)) (\<lambda>_. payment_base sid)"
proof -
  let ?U = "unpaid sid (\<lambda>t. token_blob sid tok t \<and> intent_of sid tok m t)"
  have credited: "triple (payment_base sid) ?U (kv_set ''spawn_funding_txid'' (JStr (''reconciled-from-balance-'' @ x))) (\<lambda>_. payment_base sid)" for x
    by (rule txid_write) auto
  have minted: "triple (payment_base sid) ?U (if live then sreturn (JObj m) else mint_funding_invoice c w sid (JStr tok))
      (\<lambda>intent s. \<exists>m. intent = JObj m \<and> unpaid sid (\<lambda>t. token_blob sid tok t \<and> intent_of sid tok m t) s)" for live
    by (intro triple_if triple_return triple_weaken [OF mint_payment]) auto
  show ?thesis unfolding retry_funding_def
    by (intro triple_sbind [OF unpaid_quiet] triple_if credited triple_sbind [OF minted] pay_minted frame_rules)
qed

lemma resume_payment:
  assumes w: "history_lists_sends w"
  shows "triple (payment_base sid) (\<lambda>s. payment_base sid s \<and> \<not> funded (np_table s) \<and> token_blob sid tok (np_table s) \<and> intent_of sid tok m (np_table s))
    (resume_funding c w sid (JStr tok) (JObj m)) (\<lambda>_. payment_base sid)"
proof (rule triple_possible)
  let ?P = "\<lambda>s. payment_base sid s \<and> \<not> funded (np_table s) \<and> token_blob sid tok (np_table s) \<and> intent_of sid tok m (np_table s)"
  fix s assume "?P s"
  then obtain a v where m: "map_of m ''pay_address'' = Some (JStr a)" "map_of m ''amount_sat'' = Some (JInt v)"
    unfolding spawn_inv_def funding_blobs_ok_def intent_of_def by auto
  have eq: "resume_funding c w sid (JStr tok) (JObj m) = sbind (find_prior_send w (JStr a) v) (\<lambda>prior_txid.
      case prior_txid of Some txid \<Rightarrow> kv_set ''spawn_funding_txid'' (JStr txid) | None \<Rightarrow> retry_funding c w sid (JStr tok) (JObj m))"
    by (simp add: resume_funding_def dict_item_def m lift_py_def)
  let ?Q = "\<lambda>r s. ?P s \<and> (r = None \<longrightarrow> not_sent a v s) \<and> r \<noteq> Some []"
  have prior: "triple (payment_base sid) ?P (find_prior_send w (JStr a) v) ?Q"
    by (rule prior_send [OF w]) (auto dest: payment_closed)
  have found: "triple (payment_base sid) (?Q r) (kv_set ''spawn_funding_txid'' (JStr txid)) (\<lambda>_. payment_base sid)" if "r = Some txid" for r txid
    by (rule txid_write) (use that in auto)
  have retried: "triple (payment_base sid) (?Q r) (retry_funding c w sid (JStr tok) (JObj m)) (\<lambda>_. payment_base sid)" if "r = None" for r
    by (rule triple_weaken [OF retry_payment]) (use that untouched_reconciled [OF _ _ _ _ m] in auto)
  show "triple (payment_base sid) ?P (resume_funding c w sid (JStr tok) (JObj m)) (\<lambda>_. payment_base sid)"
    unfolding eq by (intro triple_sbind [OF prior] triple_case_option found retried)
qed

lemma fund_payment:
  assumes w: "history_lists_sends w"
  shows "triple (payment_base sid) (\<lambda>s. payment_base sid s \<and> token_blob sid tok (np_table s))
    (fund_sporestack_token c w sid (JStr tok)) (\<lambda>_. payment_base sid)"
proof -
  let ?T = "\<lambda>s. payment_base sid s \<and> token_blob sid tok (np_table s)"
  let ?P = "\<lambda>ex intent resume s. ((?T s \<and> ex = kv_get ''spawn_funding_txid'' JNull (np_table s)) \<and> intent = kv_get ''spawn_funding_intent'' JNull (np_table s)) \<and>
      matches_funding intent sid (JStr tok) s = (Inr resume, s)"
  have resumed: "triple (payment_base sid) (?P ex intent resume) (resume_funding c w sid (JStr tok) intent) (\<lambda>_. payment_base sid)"
    if ex: "\<not> truthy ex" and r: "resume" for ex intent resume
  proof (rule triple_possible)
    fix s assume s: "?P ex intent resume s"
    then obtain m where m: "intent = JObj m" "map_of m ''spawn_id'' = Some (JStr sid)" "map_of m ''sporestack_token'' = Some (JStr tok)"
      using r matches_funding_Inr by blast
    show "triple (payment_base sid) (?P ex intent resume) (resume_funding c w sid (JStr tok) intent) (\<lambda>_. payment_base sid)"
      unfolding m(1) by (rule triple_weaken [OF resume_payment [OF w]]) (use ex m in \<open>auto simp: intent_of_def kv_get_def split: option.splits\<close>)
  qed
  have fresh: "triple (payment_base sid) (?P ex intent resume) (sbind (mint_funding_invoice c w sid (JStr tok)) (pay_funding_invoice c w sid e1 e2)) (\<lambda>_. payment_base sid)"
    if ex: "\<not> truthy ex" and r: "\<not> resume" for ex intent resume e1 e2
  proof (rule triple_weaken [OF triple_sbind [OF mint_payment pay_minted]])
    fix s assume s: "?P ex intent resume s"
    have "\<nexists>m. intent_of sid tok m (np_table s)"
      using s r matches_funding_Inr [of intent sid tok s resume s] by (auto simp: intent_of_def kv_get_def)
    then show "unpaid sid (token_blob sid tok) s" using s ex untouched_no_intent [of s sid tok] by auto
  qed
  show ?thesis unfolding fund_sporestack_token_def
    apply (rule triple_sbind [OF triple_read], simp)
    apply (rule triple_if)
     apply (rule triple_return, simp)
    apply (rule triple_sbind [OF triple_read], simp)
    apply (rule triple_sbind [OF triple_static], simp, simp)
    apply (rule triple_if)
     apply (erule (1) resumed)
    apply (erule (1) fresh)
    done
qed

lemma identity_payment:
  assumes w: "history_lists_sends w"
  shows "keeps (payment_base sid) (obtain_identity c w sid)"
proof -
  let ?B = "payment_base sid"
  have parts: "keeps ?B (load_stored_identity sid)" "keeps ?B (generate_ssh_keypair w path)" "keeps ?B (ensure_child_wallet w sid)"
    "keeps ?B (wait_for_credit w t)" "keeps ?B (kv_set ''spawn_identity'' v)" for path t v
    unfolding load_stored_identity_def by (rule payment_quiet; (intro frame_rules)?; simp)+
  have funded: "triple ?B (\<lambda>s. \<exists>x. tok = JStr x \<and> ?B s \<and> token_blob sid x (np_table s))
      (sbind (swhen_raise b e) (\<lambda>_. sbind (fund_sporestack_token c w sid tok) (\<lambda>_. sbind (wait_for_credit w tok) (\<lambda>n. sreturn (i n))))) (\<lambda>_. ?B)" for tok b e i
  proof (rule triple_possible)
    let ?P = "\<lambda>s. \<exists>x. tok = JStr x \<and> ?B s \<and> token_blob sid x (np_table s)"
    fix s assume "?P s"
    then obtain x where x: "tok = JStr x" by blast
    have "triple ?B ?P (fund_sporestack_token c w sid tok) (\<lambda>_. ?B)"
      unfolding x by (rule triple_weaken [OF fund_payment [OF w]]) auto
    then show "triple ?B ?P (sbind (swhen_raise b e) (\<lambda>_. sbind (fund_sporestack_token c w sid tok) (\<lambda>_. sbind (wait_for_credit w tok) (\<lambda>n. sreturn (i n))))) (\<lambda>_. ?B)"
      by (intro triple_sbind [OF triple_still] triple_sbind [OF _ keeps_sbind [OF parts(4) keeps_pure(1)]]) (auto simp: swhen_raise_def)
  qed
  have prepared: "keeps ?B (prepare_child_identity c w sid)"
    unfolding prepare_child_identity_def by (intro keeps_rules parts triple_sbind [OF ensure_token] funded)
  show ?thesis unfolding obtain_identity_def by (intro keeps_rules parts prepared)
qed

lemma payment_runs:
  assumes "history_lists_sends w"
  shows "spawn_bound payment_event 1 funding_blobs_ok (\<lambda>h. True) payment_protected funding_keys py_repr w"
proof unfold_locales
  show "keeps (\<lambda>s. payment_inv s \<and> current sid s) (obtain_identity c w sid)" for sid c
    by (rule identity_payment [OF assms])
  show "keeps (\<lambda>s. payment_inv s \<and> current sid s \<and> recorded sid i s) (obtain_vps c w sid i)" for sid c i
    by (rule payments.inv_recorded_frame [OF frame_vps]) (auto simp: vps_keys_def elim: launch_event.elims)
  show "triple payment_inv (\<lambda>s. payment_inv s \<and> current sid s \<and> recorded sid i s \<and> booted (JStr sid) (np_history s))
      (transfer_inheritance py_repr c w i ns) (\<lambda>_. payment_inv)" for sid c i ns
    by (rule triple_weaken [OF payments.inv_transfer]) auto
qed

section \<open>Payments over runs\<close>

text \<open>
  C12. As long as the wallet history can be read and lists the payments that reached the network, a spawn pays
  for its token at most once, whatever SporeStack answers, whatever broadcasts fail, and however often the node
  is killed between the broadcast and the record of its transaction id. The ids drawn for the spawns of the run
  are assumed to differ.
\<close>

theorem funding_paid_at_most_once:
  assumes "node_run py_repr w s" and "history_lists_sends w" and "distinct (starts (np_history s))"
  shows "count_events (payment_event j) (np_history s) \<le> 1"
  using spawn_bound.run_inv [OF payment_runs [OF assms(2)] assms(1)] assms(3) by (simp add: spawn_inv_def)

lemma sent_transactions_pay: "Send_Raw p (JStr a) v True \<in> set h \<Longrightarrow> \<exists>tx\<in>set (sent_transactions h). pays (JStr a) v tx"
  by (induction h rule: sent_transactions.induct) (auto simp: pays_def)

lemma demo_lists_sends: "history_lists_sends demo_world"
  by (auto simp: history_lists_sends_def demo_world_simps dest: sent_transactions_pay)

text \<open>The node is killed between the broadcast and the record of its transaction id.\<close>

definition demo_paid :: node_process where
  "demo_paid = \<lparr>np_table = [''spawn_in_progress'' \<mapsto> JBool True, ''spawn_id'' \<mapsto> JStr ''spawn-1'',
       ''spawn_started_at'' \<mapsto> time_json 7130316883886080,
       ''spawn_child_wallet'' \<mapsto> JObj [(''spawn_id'', JStr ''spawn-1''), (''btc_mnemonic'', JStr ''child words''), (''btc_address'', JStr ''bc1child'')],
       ''spawn_sporestack_token'' \<mapsto> JObj [(''spawn_id'', JStr ''spawn-1''), (''sporestack_token'', JStr ''token'')],
       ''spawn_funding_attempts'' \<mapsto> JInt 1,
       ''spawn_funding_intent'' \<mapsto> JObj [(''spawn_id'', JStr ''spawn-1''), (''sporestack_token'', JStr ''token''),
          (''pay_address'', JStr ''bc1invoice''), (''amount_sat'', JInt 60000), (''created'', JNull), (''expires'', JInt 1900000000)]],
     np_history = [Read_Clock, Uuid, Start_Spawn ''spawn-1'', Ssh_Keygen (spawn_key_path demo_config ''spawn-1''),
       Create_Child_Wallet ''spawn-1'', Http Get_Token True,
       Http (Get_Quote (JStr ''sporestack-eu-4gb'') (JStr ''sporestack_eu'')) True,
       Http (Post_Invoice (Funding (JStr ''spawn-1'')) (JStr ''token'') (funding_dollars demo_config 3000)) True,
       Wallet_Balance, Read_Clock, Wallet_Balance, Create_Tx (JStr ''bc1invoice'') 60000,
       Send_Raw (Funding (JStr ''spawn-1'')) (JStr ''bc1invoice'') 60000 True],
     np_monitor = demo_state, np_budget = 0\<rparr>"

definition demo_recovery :: "world \<Rightarrow> nat \<Rightarrow> node_process" where
  "demo_recovery w n = snd (handle_recovery demo_repr demo_config w demo_registry (demo_paid\<lparr>np_monitor := demo_state, np_budget := n\<rparr>))"

lemma demo_paid: "demo_spawn 18 = demo_paid"
  by (simp add: demo_spawn_def demo_paid_def demo_eval cong: sbind_weak scatch_weak catch_all_weak)

lemma demo_recovery_run: "node_run demo_repr demo_world (demo_recovery demo_world n)"
  unfolding demo_recovery_def demo_paid [symmetric] by (rule run_activity [OF demo_spawn_run act_recovery])

lemma wait_ready: "0 < ns_last_updated (np_monitor s) \<Longrightarrow> wait_for_node_state w s = (Inr True, s)"
  using wait_rounds.simps(2) [of w 299] by (simp add: wait_for_node_state_def sbind_def get_state_def)

lemmas recovery_eval = demo_eval handle_recovery_def wait_ready resume_funding_def retry_funding_def find_prior_send_def
  scan_for_prior_send_def pays_def

lemma demo_recovered:
  "np_history (demo_recovery demo_world 5) = np_history demo_paid @
     [Ssh_Keygen (spawn_key_path demo_config ''spawn-1''), Read_Clock, Wallet_Update, Wallet_Transactions]"
  "np_table (demo_recovery demo_world 5) ''spawn_funding_txid'' = Some (JStr ''txid'')"
  by (simp_all add: demo_recovery_def demo_paid_def recovery_eval cong: sbind_weak scatch_weak catch_all_weak)

theorem funding_paid_at_most_once_witness:
  "node_run demo_repr demo_world (demo_recovery demo_world 5) \<and> history_lists_sends demo_world \<and>
   starts (np_history (demo_recovery demo_world 5)) = [''spawn-1''] \<and>
   np_table (demo_recovery demo_world 5) ''spawn_funding_txid'' = Some (JStr ''txid'') \<and>
   count_events (payment_event (JStr ''spawn-1'')) (np_history (demo_recovery demo_world 5)) = 1"
  using funding_paid_at_most_once [OF demo_recovery_run demo_lists_sends, of 5 "JStr ''spawn-1''"]
  by (simp add: demo_recovered demo_recovery_run demo_lists_sends demo_paid_def count_events_def)

section \<open>An unreadable history\<close>

text \<open>
  scan_for_prior_send takes a history that cannot be read for one without the payment, so the same kill with
  a wallet service that is down afterwards makes the node pay the invoice a second time.
\<close>

definition blind_world :: world where
  "blind_world = demo_world\<lparr>w_transactions := \<lambda>h. None, w_http := \<lambda>h r. (case r of Get_Balance t \<Rightarrow> None | _ \<Rightarrow> demo_http r)\<rparr>"

lemma blind_world_simps:
  "w_http blind_world h r = (case r of Get_Balance t \<Rightarrow> None | _ \<Rightarrow> demo_http r)" "w_created blind_world = w_created demo_world"
  "w_keypair blind_world = w_keypair demo_world" "w_child_wallet blind_world = w_child_wallet demo_world" "w_clock blind_world = w_clock demo_world"
  "w_update blind_world = w_update demo_world" "w_wallet_balance blind_world = w_wallet_balance demo_world" "w_transactions blind_world h = None"
  "w_create_tx blind_world = w_create_tx demo_world" "w_send_raw blind_world = w_send_raw demo_world" "w_reaches blind_world = w_reaches demo_world"
  "w_uuid blind_world = w_uuid demo_world"
  by (simp_all add: blind_world_def)

lemma blind_paid:
  "snd (tick demo_repr demo_config blind_world demo_registry (born\<lparr>np_monitor := demo_state, np_budget := 18\<rparr>)) = demo_paid"
  by (simp add: demo_paid_def blind_world_simps demo_eval cong: sbind_weak scatch_weak catch_all_weak)

lemma poll_rounds_numeral:
  "poll_rounds (numeral n) body = sbind body (\<lambda>v. case v of Some r \<Rightarrow> sreturn r | None \<Rightarrow> poll_rounds (pred_numeral n) body)"
  by (simp add: numeral_eq_Suc)

lemma blind_recovered:
  "np_history (demo_recovery blind_world 20) = np_history demo_paid @
     [Ssh_Keygen (spawn_key_path demo_config ''spawn-1''), Read_Clock, Wallet_Update, Wallet_Transactions, Read_Clock, Sleep 10,
      Wallet_Update, Wallet_Transactions, Read_Clock, Sleep 10, Wallet_Update, Wallet_Transactions, Read_Clock,
      Http (Get_Balance (JStr ''token'')) True, Read_Clock, Wallet_Balance, Read_Clock, Wallet_Balance,
      Create_Tx (JStr ''bc1invoice'') 60000, Send_Raw (Funding (JStr ''spawn-1'')) (JStr ''bc1invoice'') 60000 True]"
  by (simp add: demo_recovery_def demo_paid_def blind_world_simps recovery_eval RECONCILE_POLL_TIMEOUT_SECONDS_def
      RECONCILE_POLL_INTERVAL_SECONDS_def poll_rounds_numeral cong: sbind_weak scatch_weak catch_all_weak)

text \<open>There are a world and a run of a node in which one spawn pays its invoice twice.\<close>

theorem funding_repeated:
  "\<exists>w s. node_run demo_repr w s \<and> starts (np_history s) = [''spawn-1''] \<and>
     count_events (payment_event (JStr ''spawn-1'')) (np_history s) = 2"
proof (intro exI conjI)
  have "node_run demo_repr blind_world demo_paid"
    unfolding blind_paid [symmetric] by (rule run_activity [OF run_born act_tick])
  then show "node_run demo_repr blind_world (demo_recovery blind_world 20)"
    unfolding demo_recovery_def by (rule run_activity [OF _ act_recovery])
qed (simp_all add: blind_recovered demo_paid_def count_events_def)

end
