(* ===== verification/Spawn_Server.thy ===== *)
theory Spawn_Server
  imports Spawn_Payment
begin

text \<open>
  The server of a child (modules/spawning/spawn_provision.py): when SporeStack lists the servers of a token, a
  spawn launches at most one, over any number of crashes and restarts.
\<close>

section \<open>The guard\<close>

fun server_event :: "json \<Rightarrow> event \<Rightarrow> bool" where
  "server_event j (Http (Post_Server t p) made) \<longleftrightarrow> made \<and> map_of p ''hostname'' = Some j"
| "server_event j e \<longleftrightarrow> False"

definition server_blobs_ok :: "(string \<Rightarrow> json option) \<Rightarrow> bool" where
  "server_blobs_ok t \<longleftrightarrow>
     (\<forall>m. t ''spawn_sporestack_token'' = Some (JObj m) \<longrightarrow> (\<exists>tok. map_of m ''sporestack_token'' = Some (JStr tok))) \<and>
     (\<forall>v. t ''spawn_identity'' = Some v \<longrightarrow> (\<exists>i tok. v = identity_json i \<and> ci_sporestack_token i = JStr tok))"

text \<open>A spawn that has a server has its identity and the intent in the table, for the token of the server.\<close>

definition server_guard :: "string \<Rightarrow> json \<Rightarrow> (string \<Rightarrow> json option) \<Rightarrow> bool" where
  "server_guard sid tok t \<longleftrightarrow>
     (\<exists>i. t ''spawn_identity'' = Some (identity_json i) \<and> ci_spawn_id i = JStr sid \<and> ci_sporestack_token i = tok) \<and>
     (\<exists>m. t ''spawn_vps_intent'' = Some (JObj m) \<and> map_of m ''spawn_id'' = Some (JStr sid) \<and> map_of m ''sporestack_token'' = Some tok)"

definition server_protected :: "string \<Rightarrow> (string \<Rightarrow> json option) \<Rightarrow> event list \<Rightarrow> bool" where
  "server_protected sid t h \<longleftrightarrow> (\<forall>tok p. Http (Post_Server tok p) True \<in> set h \<and> map_of p ''hostname'' = Some (JStr sid) \<longrightarrow> server_guard sid tok t)"

abbreviation server_keys :: "string set" where
  "server_keys \<equiv> {''spawn_sporestack_token'', ''spawn_identity'', ''spawn_vps_intent''}"

lemma server_event_iff: "server_event j e \<longleftrightarrow> (\<exists>t p. e = Http (Post_Server t p) True \<and> map_of p ''hostname'' = Some j)"
  by (cases "(j, e)" rule: server_event.cases) auto

interpretation servers: spawn_counter server_event 1 server_blobs_ok "\<lambda>h. True" server_protected server_keys
proof unfold_locales
  show "server_protected sid t' (h @ es)"
    if t: "\<And>k. k \<in> server_keys \<Longrightarrow> t' k = t k" and es: "\<And>e. e \<in> set es \<Longrightarrow> \<not> server_event (JStr sid) e" and "server_protected sid t h" for sid t t' h es
  proof -
    have "server_guard sid tok t' = server_guard sid tok t" for tok using t by (simp add: server_guard_def)
    then show ?thesis using that unfolding server_protected_def server_event_iff by auto
  qed
qed (auto simp: SPAWN_KEYS_TO_CLEAR_def server_protected_def server_blobs_ok_def server_event_iff)

abbreviation server_inv :: "node_process \<Rightarrow> bool" where
  "server_inv \<equiv> spawn_inv server_event 1 server_blobs_ok (\<lambda>h. True) server_protected"

abbreviation server_base :: "string \<Rightarrow> node_process \<Rightarrow> bool" where
  "server_base sid s \<equiv> server_inv s \<and> current sid s"

abbreviation unlaunched :: "string \<Rightarrow> node_process \<Rightarrow> bool" where
  "unlaunched sid s \<equiv> server_inv s \<and> current sid s \<and> True \<and> untouched server_event sid s"

lemma server_guarded:
  assumes "server_base sid s" "\<not> untouched server_event sid s"
  shows "\<exists>tok p. Http (Post_Server tok p) True \<in> set (np_history s) \<and> server_guard sid tok (np_table s)"
  using assms unfolding untouched_def server_event_iff spawn_inv_def server_protected_def by blast

text \<open>Writes before there is a server.\<close>

lemma unlaunched_write:
  assumes "\<And>t. server_blobs_ok t \<Longrightarrow> server_blobs_ok (t(key \<mapsto> v))" and "key \<noteq> ''spawn_id''"
  shows "triple (server_base sid) (unlaunched sid) (kv_set key v) (\<lambda>_. unlaunched sid)"
  unfolding kv_set_def
proof (rule triple_commit, simp)
  fix s assume s: "unlaunched sid s"
  let ?s = "s\<lparr>np_table := (np_table s)(key \<mapsto> v), np_budget := np_budget s - 1\<rparr>"
  have ok: "server_blobs_ok (np_table ?s)" using s assms(1) [of "np_table s"] by (simp add: spawn_inv_def)
  have "server_inv ?s \<and> current sid ?s"
    by (rule servers.inv_write) (use s ok assms(2) in \<open>auto simp: server_protected_def untouched_def server_event_iff\<close>)
  then show "server_base sid ?s \<and> unlaunched sid ?s" using s by (simp add: untouched_def)
qed

lemma unlaunched_quiet:
  assumes "frame {''spawn_child_wallet'', ''spawn_funding_attempts'', ''spawn_funding_intent'', ''spawn_funding_txid''} (funding_event j) f"
  shows "triple (server_base sid) (unlaunched sid) f (\<lambda>_. unlaunched sid)"
  by (rule triple_I [OF servers.inv_guard_frame(2) [OF assms]]) (auto simp: server_event_iff elim: funding_event.elims)

section \<open>The identity stage\<close>

lemma frame_fund_keys:
  "frame {''spawn_child_wallet'', ''spawn_funding_attempts'', ''spawn_funding_intent'', ''spawn_funding_txid''} (funding_event (JStr sid)) (fund_sporestack_token c w sid t)"
proof -
  let ?K = "{''spawn_child_wallet'', ''spawn_funding_attempts'', ''spawn_funding_intent'', ''spawn_funding_txid''}"
  have pay: "frame ?K (funding_event (JStr sid)) (pay_funding_invoice c w sid e1 e2 i)" for e1 e2 i
    by (rule frame_mono [OF frame_pay]) (auto elim: pay_event.elims)
  have mint: "frame ?K (funding_event (JStr sid)) (mint_funding_invoice c w sid t)"
    unfolding mint_funding_invoice_def by (intro frame_rules; simp)
  show ?thesis unfolding fund_sporestack_token_def resume_funding_def retry_funding_def
    by (intro frame_rules pay mint; simp)
qed

lemma blob_fields_identity: "blob_fields [''spawn_id'', ''sporestack_token'', ''ssh_private_key_path'', ''ssh_public_key'',
    ''btc_mnemonic'', ''btc_address'', ''funded_cents''] (identity_json i) \<noteq> None"
  by (simp add: blob_fields_def identity_json_def)

lemma load_identity_still:
  assumes "server_blobs_ok (np_table s)"
  shows "snd (load_stored_identity sid s) = s \<and>
    (fst (load_stored_identity sid s) = Inr None \<longrightarrow> (\<nexists>i. np_table s ''spawn_identity'' = Some (identity_json i) \<and> ci_spawn_id i = JStr sid))"
proof (cases "np_table s ''spawn_identity''")
  case None
  then show ?thesis by (simp add: load_stored_identity_def load_blob_def read_table_def sbind_def kv_get_def matches_spawn_def)
next
  case (Some v)
  then obtain i where v: "v = identity_json i" using assms by (auto simp: server_blobs_ok_def)
  have m: "matches_spawn (identity_json i) (JStr sid) s = (Inr (ci_spawn_id i = JStr sid), s)"
    by (simp add: matches_spawn_def identity_json_def dict_get_def jget_def)
  show ?thesis using Some v m blob_fields_identity [of i]
    by (auto simp: load_stored_identity_def load_blob_def read_table_def sbind_def kv_get_def identity_json_def)
qed

lemma load_identity_unlaunched:
  "triple (server_base sid) (server_base sid) (load_stored_identity sid) (\<lambda>r s. server_base sid s \<and> (r = None \<longrightarrow> untouched server_event sid s))"
proof (rule tripleI)
  fix s r s' assume s: "server_base sid s" and r: "load_stored_identity sid s = (r, s')"
  have ok: "server_blobs_ok (np_table s)" using s by (simp add: spawn_inv_def)
  have "untouched server_event sid s" if "r = Inr None"
    using server_guarded [OF s] load_identity_still [OF ok, of sid] r that by (auto simp: server_guard_def)
  then show "server_base sid s' \<and> (\<forall>x. r = Inr x \<longrightarrow> server_base sid s' \<and> (x = None \<longrightarrow> untouched server_event sid s'))"
    using s r load_identity_still [OF ok, of sid] by auto
qed

lemma token_text:
  "rehydrate_sporestack_token sid s = (Inr v, s') \<Longrightarrow> truthy v \<Longrightarrow> server_blobs_ok (np_table s) \<Longrightarrow> \<exists>x. v = JStr x"
  by (auto simp: rehydrate_sporestack_token_def sbind_Inr_iff read_table_def dict_get_Inr py_or_def jget_def server_blobs_ok_def kv_get_def
      dest!: matches_spawn_Inr split: if_splits option.splits)

lemma ensure_token_text:
  "triple (server_base sid) (unlaunched sid) (ensure_sporestack_token w sid) (\<lambda>v s. unlaunched sid s \<and> (\<exists>x. v = JStr x))"
proof -
  have gen: "triple (server_base sid) (unlaunched sid) (generate_token w) (\<lambda>v s. unlaunched sid s \<and> (truthy v \<longrightarrow> (\<exists>x. v = JStr x \<and> x \<noteq> [])))"
    by (rule triple_returns [OF unlaunched_quiet]) (auto intro: frame_rules generate_token_str)
  have wr: "triple (server_base sid) (unlaunched sid) (sbind (kv_set ''spawn_sporestack_token'' (JObj [(''spawn_id'', JStr sid), (''sporestack_token'', JStr x)]))
      (\<lambda>_. sreturn (JStr x))) (\<lambda>v s. unlaunched sid s \<and> (\<exists>x. v = JStr x))" for x
    by (rule triple_sbind [OF unlaunched_write]) (auto intro!: triple_return simp: server_blobs_ok_def)
  have new: "triple (server_base sid) (\<lambda>s. unlaunched sid s \<and> (truthy v \<longrightarrow> (\<exists>x. v = JStr x \<and> x \<noteq> [])))
      (sbind (swhen_raise (\<not> truthy v) e) (\<lambda>_. sbind (kv_set ''spawn_sporestack_token'' (JObj [(''spawn_id'', JStr sid), (''sporestack_token'', v)]))
        (\<lambda>_. sreturn v))) (\<lambda>v s. unlaunched sid s \<and> (\<exists>x. v = JStr x))" for v e
  proof (cases "\<exists>x. v = JStr x \<and> x \<noteq> []")
    case True
    then obtain x where "v = JStr x" "x \<noteq> []" by blast
    then show ?thesis using wr [of x] by (auto simp: swhen_raise_def elim: triple_weaken)
  next
    case False
    then show ?thesis by (auto simp: swhen_raise_def triple_def sbind_def)
  qed
  have found: "triple (server_base sid) (\<lambda>s. unlaunched sid s \<and> rehydrate_sporestack_token sid s = (Inr v, s)) (sreturn v) (\<lambda>v s. unlaunched sid s \<and> (\<exists>x. v = JStr x))"
    if "truthy v" for v
    by (rule triple_return) (use that token_text in \<open>auto simp: spawn_inv_def\<close>)
  show ?thesis unfolding ensure_sporestack_token_def
    by (rule triple_sbind [OF triple_static [OF rehydrate_state]], simp, rule triple_if, erule found, rule triple_weaken [OF triple_sbind [OF gen new]]) auto
qed

lemma prepare_unlaunched:
  "triple (server_base sid) (unlaunched sid) (prepare_child_identity c w sid) (\<lambda>i s. unlaunched sid s \<and> (\<exists>x. ci_sporestack_token i = JStr x))"
proof -
  let ?U = "unlaunched sid"
  have quiet: "triple (server_base sid) ?U (generate_ssh_keypair w path) (\<lambda>_. ?U)" "triple (server_base sid) ?U (ensure_child_wallet w sid) (\<lambda>_. ?U)"
    "triple (server_base sid) ?U (fund_sporestack_token c w sid tok) (\<lambda>_. ?U)" "triple (server_base sid) ?U (wait_for_credit w tok) (\<lambda>_. ?U)"
    for path tok
    by (rule unlaunched_quiet [where j = "JStr sid"], (rule frame_fund_keys | intro frame_rules; simp))+
  have still: "triple (server_base sid) ?U (swhen_raise b e) (\<lambda>_. ?U)" for b e
    by (rule triple_still) (auto simp: swhen_raise_def)
  have caught: "triple (server_base sid) ?U (catch_all (generate_ssh_keypair w path) (\<lambda>_. sraise e)) (\<lambda>_. ?U)" for path e
    by (intro triple_catch_all quiet triple_raise)
  have last: "triple (server_base sid) (\<lambda>s. ?U s \<and> (\<exists>x. tok = JStr x)) (sbind (swhen_raise b e) (\<lambda>_. sbind (fund_sporestack_token c w sid tok)
      (\<lambda>_. sbind (wait_for_credit w tok) (\<lambda>n. sreturn \<lparr>ci_spawn_id = JStr sid, ci_sporestack_token = tok, ci_ssh_private_key_path = p,
        ci_ssh_public_key = k, ci_btc_mnemonic = m, ci_btc_address = a, ci_funded_cents = JInt n\<rparr>))))
      (\<lambda>i s. ?U s \<and> (\<exists>x. ci_sporestack_token i = JStr x))" for tok b e p k m a
  proof (cases "\<exists>x. tok = JStr x")
    case True
    show ?thesis
      by (rule triple_weaken [OF triple_sbind [OF still triple_sbind [OF quiet(3) triple_sbind [OF quiet(4) triple_return]]]]) (use True in auto)
  qed (simp add: triple_def)
  show ?thesis unfolding prepare_child_identity_def
    by (intro triple_sbind [OF caught] triple_case_prod triple_sbind [OF quiet(2)] triple_sbind [OF ensure_token_text] last)
qed

lemma identity_servers: "keeps (server_base sid) (obtain_identity c w sid)"
proof -
  have wr: "triple (server_base sid) (\<lambda>s. unlaunched sid s \<and> (\<exists>x. ci_sporestack_token i = JStr x)) (kv_set ''spawn_identity'' (identity_json i)) (\<lambda>_. server_base sid)" for i
  proof (cases "\<exists>x. ci_sporestack_token i = JStr x")
    case True
    show ?thesis by (rule triple_weaken [OF unlaunched_write]) (use True in \<open>auto simp: server_blobs_ok_def\<close>)
  qed (simp add: triple_def)
  have fresh: "triple (server_base sid) (\<lambda>s. server_base sid s \<and> (r = None \<longrightarrow> untouched server_event sid s))
      (sbind (prepare_child_identity c w sid) (\<lambda>i. sbind (kv_set ''spawn_identity'' (identity_json i)) (\<lambda>_. sreturn i))) (\<lambda>_. server_base sid)" if "r = None" for r :: "child_identity option"
    by (rule triple_weaken [OF triple_sbind [OF prepare_unlaunched triple_sbind [OF wr triple_return]]]) (use that in auto)
  show ?thesis unfolding obtain_identity_def
    by (rule triple_sbind [OF load_identity_unlaunched], rule triple_case_option, erule fresh) (auto intro!: triple_return)
qed

section \<open>The server stage\<close>

text \<open>SporeStack lists the servers of a token, or fails to answer.\<close>

definition lists_servers :: "world \<Rightarrow> bool" where
  "lists_servers w \<longleftrightarrow> (\<forall>h t p v. Http (Post_Server t p) True \<in> set h \<longrightarrow> w_http w h (Get_Servers t) = Some v \<longrightarrow>
     (\<exists>m l. v = JObj m \<and> map_of m ''servers'' = Some (JList l) \<and> l \<noteq> []))"

abbreviation at_server :: "string \<Rightarrow> child_identity \<Rightarrow> node_process \<Rightarrow> bool" where
  "at_server sid i s \<equiv> server_inv s \<and> current sid s \<and> recorded sid i s"

lemma at_server_token: "at_server sid i s \<Longrightarrow> \<exists>x. ci_sporestack_token i = JStr x"
proof -
  assume s: "at_server sid i s"
  then have "server_blobs_ok (np_table s)" by (simp add: spawn_inv_def)
  moreover have "recorded sid i s" using s by simp
  ultimately show ?thesis by (auto simp: server_blobs_ok_def recorded_def identity_json_def) metis+
qed

text \<open>The token of the guard is the one the pipeline works with.\<close>

lemma guard_token: "recorded sid i s \<Longrightarrow> server_guard sid tok (np_table s) \<Longrightarrow> tok = ci_sporestack_token i"
  by (auto simp: recorded_def server_guard_def identity_json_def)

lemma created_at_dict: "created_at v = Inr n \<Longrightarrow> v \<noteq> JNull"
  by (auto simp: created_at_def)

lemma map_res_dates: "map_res (\<lambda>s. rbind (created_at s) (\<lambda>t. Inr (t, s))) l = Inr dated \<Longrightarrow> \<forall>d\<in>set dated. snd d \<noteq> JNull"
proof (induction l arbitrary: dated)
  case (Cons v l)
  then show ?case using created_at_dict by (fastforce simp: rbind_Inr_iff)
qed simp

lemma newest_none:
  assumes "newest_server v s = (Inr JNull, s')"
  shows "\<not> truthy v \<and> s' = s"
proof (cases "truthy v")
  case True
  then obtain l where l: "v = JList l" "l \<noteq> []" using assms by (cases v) (auto simp: newest_server_def)
  then obtain dated where d: "map_res (\<lambda>s. rbind (created_at s) (\<lambda>t. Inr (t, s))) l = Inr dated" "snd (last (sort_key fst dated)) = JNull"
    using assms True by (auto simp: newest_server_def sbind_Inr_iff lift_py_def split: if_splits sum.splits)
  have "sort_key fst dated \<noteq> []" using map_res_length [OF d(1)] l(2) by (metis length_0_conv length_sort)
  then have "last (sort_key fst dated) \<in> set dated" by (metis last_in_set set_sort)
  then show ?thesis using map_res_dates [OF d(1)] d(2) by auto
qed (use assms in \<open>simp add: newest_server_def\<close>)

lemma adopt_none:
  assumes "adopt_orphan_server w tok s = (Inr JNull, s')"
  shows "\<exists>v. get_servers w tok s = (Inr v, s') \<and> \<not> truthy v"
proof -
  obtain v s1 where "scatch (get_servers w tok) (\<lambda>e. if e = LibError ''SporeStackError''
      then Some (sraise (SpawnError ''provision'' ''orphan check failed'')) else None) s = (Inr v, s1)" and n: "newest_server v s1 = (Inr JNull, s')"
    using assms unfolding adopt_orphan_server_def sbind_Inr_iff by blast
  then have "get_servers w tok s = (Inr v, s1)" by (auto simp: scatch_def split: prod.splits sum.splits if_splits)
  then show ?thesis using newest_none [OF n] by auto
qed

lemma servers_listed:
  assumes "lists_servers w" and g: "get_servers w tok s = (Inr v, s')" and "\<not> truthy v"
  shows "Http (Post_Server tok p) True \<notin> set (np_history s')"
proof -
  obtain m where data: "w_http w (np_history s) (Get_Servers tok) = Some (JObj m)" and h: "np_history s' = np_history s @ [Http (Get_Servers tok) (w_created w (np_history s) (Get_Servers tok))]"
    and v: "v = py_or (jget ''servers'' m JNull) (JList [])"
    using g by (auto simp: get_servers_def http_def sbind_Inr_iff or_raise_Inr external_Inr dict_get_Inr dest: sym)
  have "Http (Post_Server tok p) True \<notin> set (np_history s)"
    using assms(1,3) data v unfolding lists_servers_def by (force simp: jget_def py_or_def)
  then show ?thesis using h by simp
qed

text \<open>A launch, after the intent is written.\<close>

abbreviation server_intent :: "string \<Rightarrow> child_identity \<Rightarrow> json" where
  "server_intent sid i \<equiv> JObj [(''spawn_id'', JStr sid), (''sporestack_token'', ci_sporestack_token i)]"

definition intending :: "string \<Rightarrow> child_identity \<Rightarrow> node_process \<Rightarrow> bool" where
  "intending sid i s \<longleftrightarrow> at_server sid i s \<and> untouched server_event sid s \<and> np_table s ''spawn_vps_intent'' = Some (server_intent sid i)"

lemma intent_stored:
  "triple (at_server sid i) (\<lambda>s. at_server sid i s \<and> untouched server_event sid s) (kv_set ''spawn_vps_intent'' (server_intent sid i)) (\<lambda>_. intending sid i)"
  unfolding kv_set_def
proof (rule triple_commit, simp)
  fix s assume s: "at_server sid i s \<and> untouched server_event sid s"
  let ?s = "s\<lparr>np_table := (np_table s)(''spawn_vps_intent'' \<mapsto> server_intent sid i), np_budget := np_budget s - 1\<rparr>"
  have ok: "server_blobs_ok (np_table ?s)" using s by (simp add: spawn_inv_def server_blobs_ok_def)
  have "server_inv ?s \<and> current sid ?s"
    by (rule servers.inv_write) (use s ok in \<open>auto simp: server_protected_def untouched_def server_event_iff\<close>)
  then show "at_server sid i ?s \<and> intending sid i ?s" using s by (simp add: intending_def recorded_def untouched_def)
qed

lemma launch_hostname: "map_of (launch_payload c k j) ''hostname'' = (if truthy j then Some j else None)"
  by (simp add: launch_payload_def)

lemma launch_counted:
  "triple (at_server sid i) (intending sid i) (external (\<lambda>h. Http (Post_Server (ci_sporestack_token i) (launch_payload c k (JStr sid))) (r h)) answer) (\<lambda>_. at_server sid i)"
proof (rule triple_external)
  fix s assume s: "intending sid i s"
  then show "at_server sid i s" by (simp add: intending_def)
  let ?e = "Http (Post_Server (ci_sporestack_token i) (launch_payload c k (JStr sid))) (r (np_history s))"
  let ?s = "s\<lparr>np_history := np_history s @ [?e], np_budget := np_budget s - 1\<rparr>"
  have "\<exists>i'. np_table s ''spawn_identity'' = Some (identity_json i') \<and> ci_spawn_id i' = JStr sid \<and> ci_sporestack_token i' = ci_sporestack_token i"
    using s by (auto simp: intending_def spawn_inv_def server_blobs_ok_def recorded_def identity_json_def) metis+
  then have guard: "server_guard sid (ci_sporestack_token i) (np_table s)" using s by (auto simp: server_guard_def intending_def)
  have "server_inv ?s \<and> current sid ?s"
  proof (rule servers.inv_event)
    show "server_inv s" "current sid s" using s by (simp_all add: intending_def)
    show "j = JStr sid" if "server_event j ?e" for j using that by (auto simp: launch_hostname split: if_splits)
    show "count_events (server_event (JStr sid)) (np_history s) < 1" if "distinct (starts (np_history s))"
      using s that servers.untouched_count by (simp add: intending_def)
    show "server_protected sid (np_table s) (np_history s @ [?e])" if "distinct (starts (np_history s))"
      using s that guard by (auto simp: server_protected_def intending_def untouched_def server_event_iff)
  qed simp_all
  then show "at_server sid i ?s \<and> at_server sid i ?s" using s by (simp add: intending_def recorded_def)
qed

lemma launch_servers:
  "triple (at_server sid i) (intending sid i) (launch_server c w (ci_sporestack_token i) k (JStr sid)) (\<lambda>_. at_server sid i)"
proof -
  have "triple (at_server sid i) (intending sid i) (or_raise msg (http w (Post_Server (ci_sporestack_token i) (launch_payload c k (JStr sid))))) (\<lambda>_. at_server sid i)" for msg
    unfolding or_raise_def http_def by (rule triple_sbind [OF launch_counted]) (intro keeps_rules)
  moreover have "keeps (at_server sid i) (dict_get key d v)" for key d v by (rule triple_still) simp_all
  ultimately show ?thesis unfolding launch_server_def
    by (intro triple_catch_all triple_sbind [where R = "\<lambda>_. at_server sid i"] keeps_rules)
qed

text \<open>Without a server in the list, or without the intent, there is none.\<close>

lemma adopt_servers:
  assumes "lists_servers w"
  shows "triple (at_server sid i) (at_server sid i) (adopt_orphan_server w (ci_sporestack_token i))
    (\<lambda>v s. at_server sid i s \<and> (v = JNull \<longrightarrow> untouched server_event sid s))"
proof (rule tripleI)
  fix s r s' assume s: "at_server sid i s" and r: "adopt_orphan_server w (ci_sporestack_token i) s = (r, s')"
  have s': "at_server sid i s'"
    using tripleD [OF servers.inv_recorded_frame [OF frame_adopt(2) [of "{}" no_event]] s r] by simp
  have "untouched server_event sid s'" if n: "r = Inr JNull"
  proof (rule ccontr)
    assume "\<not> untouched server_event sid s'"
    then obtain tok p where e: "Http (Post_Server tok p) True \<in> set (np_history s')" "server_guard sid tok (np_table s')"
      using server_guarded [of s' sid] s' by blast
    have "tok = ci_sporestack_token i" using guard_token e(2) s' by blast
    then show False using adopt_none r n servers_listed [OF assms] e(1) by blast
  qed
  then show "at_server sid i s' \<and> (\<forall>x. r = Inr x \<longrightarrow> at_server sid i s' \<and> (x = JNull \<longrightarrow> untouched server_event sid s'))"
    using s' by blast
qed

lemma unmatched_servers:
  assumes s: "at_server sid i s" and m: "matches_funding (kv_get ''spawn_vps_intent'' JNull (np_table s)) sid (ci_sporestack_token i) s = (Inr False, s')"
  shows "untouched server_event sid s"
proof (rule ccontr)
  assume "\<not> untouched server_event sid s"
  then obtain tok where g: "server_guard sid tok (np_table s)" using server_guarded [of s sid] s by blast
  obtain x where x: "ci_sporestack_token i = JStr x" using at_server_token [OF s] by blast
  have "tok = JStr x" using guard_token g s x by metis
  then show False using g m matches_funding_Inr [of "kv_get ''spawn_vps_intent'' JNull (np_table s)" sid x s False s'] x
    by (auto simp: server_guard_def kv_get_def)
qed

lemma find_servers:
  assumes w: "lists_servers w"
  shows "keeps (at_server sid i) (find_or_launch_server c w i)"
proof (rule triple_possible)
  fix s assume "at_server sid i s"
  then have id: "ci_spawn_id i = JStr sid" by (simp add: recorded_def)
  let ?A = "at_server sid i"
  have still: "keeps ?A (dict_get key d v)" for key d v by (rule triple_still) simp_all
  let ?M = "\<lambda>intent resume s. (?A s \<and> intent = kv_get ''spawn_vps_intent'' JNull (np_table s)) \<and> matches_funding intent sid (ci_sporestack_token i) s = (Inr resume, s)"
  have server: "triple ?A (?M intent resume) (if resume then adopt_orphan_server w (ci_sporestack_token i) else sreturn JNull)
      (\<lambda>v s. ?A s \<and> (v = JNull \<longrightarrow> untouched server_event sid s))" for intent resume
    by (rule triple_if)
      (auto intro!: triple_weaken [OF adopt_servers [OF w]] triple_return intro: unmatched_servers simp del: One_nat_def)
  have launch: "triple ?A (\<lambda>s. ?A s \<and> (v = JNull \<longrightarrow> untouched server_event sid s))
      (if v = JNull then sbind (kv_set ''spawn_vps_intent'' (server_intent sid i)) (\<lambda>_.
         sbind (launch_server c w (ci_sporestack_token i) (ci_ssh_public_key i) (JStr sid)) (\<lambda>machine_id.
         sbind (swhen_raise (\<not> truthy machine_id) e1) (\<lambda>_. sreturn machine_id)))
       else sbind (dict_get ''machine_id'' JNull v) (\<lambda>machine_id. sbind (swhen_raise (\<not> truthy machine_id) e2) (\<lambda>_. sreturn machine_id)))
      (\<lambda>_. ?A)" for v e1 e2
    by (rule triple_if; rule triple_weaken [where Q = "\<lambda>_. ?A"],
        (rule triple_sbind [OF intent_stored triple_sbind [OF launch_servers]] keeps_sbind [OF still])?) (auto intro!: keeps_rules simp del: sm_simps One_nat_def)
  show "keeps ?A (find_or_launch_server c w i)"
    unfolding find_or_launch_server_def id matches_funding_def [symmetric]
    apply (rule triple_sbind [OF triple_read], assumption)
    apply (rule triple_sbind [OF triple_static], simp, simp)
    apply (rule triple_sbind [OF server])
    apply (rule launch)
    done
qed

lemma vps_servers:
  assumes "lists_servers w"
  shows "keeps (at_server sid i) (obtain_vps c w sid i)"
proof -
  have quiet: "keeps (at_server sid i) f" if "frame {''spawn_vps_info''} no_event f" for f :: "'r proc"
    by (rule servers.inv_recorded_frame [OF that]) auto
  have parts: "keeps (at_server sid i) (load_stored_vps sid)" "keeps (at_server sid i) (wait_for_server_ready w tok m)" "keeps (at_server sid i) (pick_host v)"
    "keeps (at_server sid i) (int_field k d v)" "keeps (at_server sid i) (kv_set ''spawn_vps_info'' v)" for tok m v k d
    unfolding load_stored_vps_def pick_host_def by (rule quiet; intro frame_rules; simp)+
  show ?thesis unfolding obtain_vps_def provision_child_vps_def by (intro keeps_rules parts find_servers [OF assms])
qed

lemma server_runs:
  assumes "lists_servers w"
  shows "spawn_bound server_event 1 server_blobs_ok (\<lambda>h. True) server_protected server_keys py_repr w"
proof unfold_locales
  show "keeps (\<lambda>s. server_inv s \<and> current sid s) (obtain_identity c w sid)" for sid c
    by (rule identity_servers)
  show "keeps (\<lambda>s. server_inv s \<and> current sid s \<and> recorded sid i s) (obtain_vps c w sid i)" for sid c i
    by (rule vps_servers [OF assms])
  show "triple server_inv (\<lambda>s. server_inv s \<and> current sid s \<and> recorded sid i s \<and> booted (JStr sid) (np_history s))
      (transfer_inheritance py_repr c w i ns) (\<lambda>_. server_inv)" for sid c i ns
    by (rule triple_weaken [OF servers.inv_transfer]) auto
qed

section \<open>Servers over runs\<close>

text \<open>
  C13. As long as SporeStack lists the servers of a token whenever it answers, a spawn launches at most one server,
  even when the answer to a successful launch is lost and the node is killed before it records the machine. The
  ids drawn for the spawns of the run are assumed to differ.
\<close>

theorem one_server_per_spawn:
  assumes "node_run py_repr w s" and "lists_servers w" and "distinct (starts (np_history s))"
  shows "count_events (server_event j) (np_history s) \<le> 1"
  using spawn_bound.run_inv [OF server_runs [OF assms(2)] assms(1)] assms(3) by (simp add: spawn_inv_def)

theorem one_server_per_spawn_witness:
  "node_run demo_repr demo_world (demo_spawn 100) \<and> lists_servers demo_world \<and> starts (np_history (demo_spawn 100)) = [''spawn-1''] \<and>
   count_events (server_event (JStr ''spawn-1'')) (np_history (demo_spawn 100)) = 1"
proof -
  have listed: "lists_servers demo_world" by (simp add: lists_servers_def demo_world_simps)
  show ?thesis using one_server_per_spawn [OF demo_spawn_run listed, of 100 "JStr ''spawn-1''"] listed
    by (simp add: demo_history demo_spawn_run count_events_def launch_hostname)
qed

end
