(* ===== verification/Spawn_Termination.thy ===== *)
theory Spawn_Termination
  imports Spawn_Inv Spawn_Example
begin

text \<open>
  The pipeline ends: with a clock that does not run backwards and that advances by what the node sleeps, every
  polling loop times out, and a spawn needs at most a fixed number of actions.
\<close>

section \<open>Counting actions\<close>

text \<open>With a budget of \<open>n\<close> actions \<open>f\<close> does not run out of it, and uses at most \<open>n\<close>.\<close>

definition ends_in :: "nat \<Rightarrow> 'r proc \<Rightarrow> bool" where
  "ends_in n f \<longleftrightarrow> (\<forall>s. n \<le> np_budget s \<longrightarrow> fst (f s) \<noteq> Inl Crash \<and> np_budget s \<le> np_budget (snd (f s)) + n)"

named_theorems ends_in_rules \<open>bounds on the number of actions by the structure of a process\<close>

lemma ends_inD: "ends_in n f \<Longrightarrow> n \<le> np_budget s \<Longrightarrow> f s = (r, s') \<Longrightarrow> r \<noteq> Inl Crash \<and> np_budget s \<le> np_budget s' + n"
  unfolding ends_in_def by (metis fst_conv snd_conv)

lemma ends_inI: "(\<And>s r s'. n \<le> np_budget s \<Longrightarrow> f s = (r, s') \<Longrightarrow> r \<noteq> Inl Crash \<and> np_budget s \<le> np_budget s' + n) \<Longrightarrow> ends_in n f"
  unfolding ends_in_def by (metis prod.collapse)

lemma ends_in_mono: "ends_in m f \<Longrightarrow> m \<le> n \<Longrightarrow> ends_in n f"
  unfolding ends_in_def by (meson add_left_mono le_trans)

lemma ends_in_sbind [ends_in_rules]:
  assumes f: "ends_in m f" and g: "\<And>x. ends_in n (g x)"
  shows "ends_in (m + n) (sbind f g)"
proof (rule ends_inI)
  fix s r s' assume s: "m + n \<le> np_budget s" and r: "sbind f g s = (r, s')"
  obtain q s1 where q: "f s = (q, s1)" by (cases "f s")
  then have q1: "q \<noteq> Inl Crash \<and> np_budget s \<le> np_budget s1 + m" using ends_inD [OF f _ q] s by simp
  show "r \<noteq> Inl Crash \<and> np_budget s \<le> np_budget s' + (m + n)"
  proof (cases q)
    case (Inl e)
    then show ?thesis using r q q1 by (auto simp: sbind_def)
  next
    case (Inr x)
    then have "g x s1 = (r, s')" using r q by (simp add: sbind_def)
    then show ?thesis using ends_inD [OF g, of s1] s q1 by force
  qed
qed

lemma ends_in_scatch:
  assumes f: "ends_in m f" and h: "\<And>e g. e \<noteq> Crash \<Longrightarrow> h e = Some g \<Longrightarrow> ends_in n g"
  shows "ends_in (m + n) (scatch f h)"
proof (rule ends_inI)
  fix s r s' assume s: "m + n \<le> np_budget s" and r: "scatch f h s = (r, s')"
  obtain q s1 where q: "f s = (q, s1)" by (cases "f s")
  then have q1: "q \<noteq> Inl Crash \<and> np_budget s \<le> np_budget s1 + m" using ends_inD [OF f _ q] s by simp
  show "r \<noteq> Inl Crash \<and> np_budget s \<le> np_budget s' + (m + n)"
  proof (cases q)
    case (Inr x)
    then show ?thesis using r q q1 by (auto simp: scatch_def)
  next
    case (Inl e)
    then have e: "e \<noteq> Crash" using q1 by simp
    show ?thesis
    proof (cases "h e")
      case None
      then show ?thesis using Inl r q q1 by (auto simp: scatch_def)
    next
      case (Some g)
      then have "g s1 = (r, s')" using r q Inl by (simp add: scatch_def)
      then show ?thesis using ends_inD [OF h [OF e Some], of s1] s q1 by force
    qed
  qed
qed

lemma ends_in_catch_all [ends_in_rules]:
  "ends_in m f \<Longrightarrow> (\<And>e. e \<noteq> Crash \<Longrightarrow> ends_in n (h e)) \<Longrightarrow> ends_in (m + n) (catch_all f h)"
  unfolding catch_all_def by (rule ends_in_scatch) (auto split: if_splits)

lemma ends_in_if [ends_in_rules]: "ends_in m a \<Longrightarrow> ends_in n b \<Longrightarrow> ends_in (max m n) (if c then a else b)"
  by (auto intro: ends_in_mono)

lemma ends_in_let [ends_in_rules]: "(\<And>x. ends_in n (f x)) \<Longrightarrow> ends_in n (let x = v in f x)"
  by simp

lemma ends_in_option [ends_in_rules]: "ends_in m a \<Longrightarrow> (\<And>x. ends_in n (b x)) \<Longrightarrow> ends_in (max m n) (case v of None \<Rightarrow> a | Some x \<Rightarrow> b x)"
  by (cases v) (auto intro: ends_in_mono [OF _ max.cobounded1] ends_in_mono [OF _ max.cobounded2])

lemma ends_in_prod [ends_in_rules]: "(\<And>x y. ends_in n (f x y)) \<Longrightarrow> ends_in n (case v of (x, y) \<Rightarrow> f x y)"
  by (cases v) auto

lemma ends_in_pure [ends_in_rules]:
  "ends_in 0 (sreturn x)" "ends_in 0 (read_table g)" "ends_in 0 (lift_py r)" "ends_in 0 (dict_get k d v)" "ends_in 0 (dict_item k v)"
  by (auto simp: ends_in_def read_table_def lift_py_def dict_get_def dict_item_def split: sum.splits json.splits option.splits)

lemma ends_in_raise [ends_in_rules]: "e \<noteq> Crash \<Longrightarrow> ends_in 0 (sraise e)" "e \<noteq> Crash \<Longrightarrow> ends_in 0 (swhen_raise b e)"
  by (auto simp: ends_in_def swhen_raise_def)

lemma ends_in_actions [ends_in_rules]: "ends_in 1 (external ev answer)" "ends_in 1 (commit_table f)"
  by (auto simp: ends_in_def external_def commit_table_def)

lemma ends_in_or_raise [ends_in_rules]: "ends_in n m \<Longrightarrow> ends_in n (or_raise msg m)"
  unfolding or_raise_def by (rule ends_in_mono, (rule ends_in_rules | assumption | simp)+)

lemma ends_in_int_field [ends_in_rules]: "ends_in 0 (int_field k d v)"
  unfolding int_field_def by (rule ends_in_mono, (rule ends_in_rules | simp)+)

lemma ends_in_matches_spawn [ends_in_rules]: "ends_in 0 (matches_spawn v j)"
  unfolding matches_spawn_def by (rule ends_in_mono, (rule ends_in_rules | simp)+)

lemma ends_in_matches_funding [ends_in_rules]: "ends_in 0 (matches_funding i sid t)"
  unfolding matches_funding_def by (rule ends_in_mono, (rule ends_in_rules | simp)+)

lemma ends_in_scatch_if [ends_in_rules]:
  "ends_in m f \<Longrightarrow> (\<And>e. e \<noteq> Crash \<Longrightarrow> ends_in n (h e)) \<Longrightarrow> ends_in (m + n) (scatch f (\<lambda>e. if c e then Some (h e) else None))"
  by (rule ends_in_scatch) (auto split: if_splits)

section \<open>Polling loops\<close>

text \<open>The clock does not run backwards, and a sleep takes at least its length.\<close>

definition clock_runs :: "world \<Rightarrow> bool" where
  "clock_runs w \<longleftrightarrow> (\<forall>h e. w_clock w h \<le> w_clock w (h @ [e])) \<and> (\<forall>h n. w_clock w h + seconds n \<le> w_clock w (h @ [Sleep n]))"

text \<open>A round that does not end its loop started before the timeout and slept.\<close>

definition timed_round :: "world \<Rightarrow> int \<Rightarrow> int \<Rightarrow> int \<Rightarrow> 'r option proc \<Rightarrow> bool" where
  "timed_round w start timeout interval body \<longleftrightarrow> (\<forall>s s'. body s = (Inr None, s') \<longrightarrow>
     w_clock w (np_history s) < start + timeout \<and> w_clock w (np_history s) + interval \<le> w_clock w (np_history s'))"

lemma timed_rounds:
  assumes body: "ends_in k body" and timed: "timed_round w start (seconds T) (seconds d) body" and d: "0 < d"
  shows "start + seconds T \<le> w_clock w (np_history s) + seconds (int m * d) \<Longrightarrow> k * Suc m \<le> np_budget s \<Longrightarrow> m < n \<Longrightarrow>
    poll_rounds n body s = (r, s') \<Longrightarrow> r \<noteq> Inl Crash \<and> np_budget s \<le> np_budget s' + k * Suc m"
proof (induction m arbitrary: n s)
  case 0
  then obtain n' where n: "n = Suc n'" by (cases n) auto
  obtain q s1 where q: "body s = (q, s1)" by (cases "body s")
  have "q \<noteq> Inr None" using timed q 0(1) unfolding timed_round_def seconds_def by fastforce
  then show ?case using 0 q n ends_inD [OF body _ q]
    by (cases q) (auto simp: sbind_def split: option.splits)
next
  case (Suc m)
  then obtain n' where n: "n = Suc n'" by (cases n) auto
  obtain q s1 where q: "body s = (q, s1)" by (cases "body s")
  have q1: "q \<noteq> Inl Crash \<and> np_budget s \<le> np_budget s1 + k" using Suc.prems by (intro ends_inD [OF body _ q]) simp
  show ?case
  proof (cases "q = Inr None")
    case False
    then show ?thesis using Suc.prems q n q1 by (cases q) (auto simp: sbind_def split: option.splits)
  next
    case True
    then have "poll_rounds n' body s1 = (r, s')" using Suc.prems n q by (simp add: sbind_def)
    moreover have "w_clock w (np_history s) + seconds d \<le> w_clock w (np_history s1)" using timed q True by (auto simp: timed_round_def)
    then have "start + seconds T \<le> w_clock w (np_history s1) + seconds (int m * d)"
      using Suc.prems(1) by (simp add: seconds_def algebra_simps)
    ultimately show ?thesis using Suc.IH [of s1 n'] Suc.prems q1 n by simp
  qed
qed

text \<open>
  A loop that starts by reading the clock: \<open>T\<close> is its timeout, \<open>d\<close> its interval and \<open>m\<close> the number of rounds
  before the timeout.
\<close>

lemma ends_in_timed:
  assumes body: "\<And>start. ends_in k (body start)" and d: "0 < d" and m: "T \<le> int m * d" and k: "0 < k"
    and timed: "\<And>start. timed_round w start (seconds T) (seconds d) (body start)" and clock: "clock_runs w"
  shows "ends_in (1 + k * Suc m) (sbind (read_clock w) (\<lambda>start. poll (body start)))"
proof (rule ends_inI)
  fix s r s' assume s: "1 + k * Suc m \<le> np_budget s" and r: "sbind (read_clock w) (\<lambda>start. poll (body start)) s = (r, s')"
  define s1 where "s1 = s\<lparr>np_history := np_history s @ [Read_Clock], np_budget := np_budget s - 1\<rparr>"
  define start where "start = w_clock w (np_history s)"
  have "poll_rounds (Suc (np_budget s1)) (body start) s1 = (r, s')"
    using r s by (simp add: sbind_def read_clock_def external_def poll_def s1_def start_def del: poll_rounds.simps)
  moreover have "start \<le> w_clock w (np_history s1)" using clock by (simp add: clock_runs_def start_def s1_def)
  then have "start + seconds T \<le> w_clock w (np_history s1) + seconds (int m * d)" using m by (simp add: seconds_def)
  moreover have b: "k * Suc m \<le> np_budget s1" using s by (simp add: s1_def)
  moreover have "m < Suc (np_budget s1)" using b k by (cases k) auto
  ultimately have "r \<noteq> Inl Crash \<and> np_budget s1 \<le> np_budget s' + k * Suc m"
    by (intro timed_rounds [OF body timed d])
  then show "r \<noteq> Inl Crash \<and> np_budget s \<le> np_budget s' + (1 + k * Suc m)" using s by (auto simp: s1_def)
qed

lemma int_field_state: "int_field k d v s = (r, s') \<Longrightarrow> s' = s"
  by (auto simp: int_field_def dict_get_def lift_py_def sbind_def split: json.splits sum.splits)

lemma dict_get_state: "dict_get k d v s = (r, s') \<Longrightarrow> s' = s"
  by (auto simp: dict_get_def split: json.splits)

lemma clock_runs_le: "clock_runs w \<Longrightarrow> w_clock w h \<le> w_clock w (h @ es)"
proof (induction es rule: rev_induct)
  case (snoc e es)
  then show ?case using order_trans unfolding clock_runs_def append_assoc [symmetric] by blast
qed simp

lemma clock_runs_sleep: "clock_runs w \<Longrightarrow> w_clock w h + seconds n \<le> w_clock w (h @ es @ [Sleep n])"
  using clock_runs_le [of w h es] unfolding clock_runs_def append_assoc [symmetric] by (meson add_right_mono order_trans)

lemma timed_roundI:
  assumes clock: "clock_runs w"
    and round: "\<And>s s'. body s = (Inr None, s') \<Longrightarrow>
      w_clock w (np_history s @ es) < start + timeout \<and> np_history s' = np_history s @ es' (np_history s) @ [Sleep d]"
  shows "timed_round w start timeout (seconds d) body"
  unfolding timed_round_def
  using round clock_runs_le [OF clock, of _ es] clock_runs_sleep [OF clock] by (metis le_less_trans)

lemmas round_eval = sbind_def read_clock_def sleep_def external_def http_json_def http_def

lemma find_prior_send_ends [ends_in_rules]: "clock_runs w \<Longrightarrow> ends_in 41 (find_prior_send w a v)"
  unfolding find_prior_send_def scan_for_prior_send_def RECONCILE_POLL_TIMEOUT_SECONDS_def RECONCILE_POLL_INTERVAL_SECONDS_def
proof (rule ends_in_mono, rule ends_in_timed [where k = 4 and T = 90 and d = 10 and m = 9], goal_cases)
  case (1 start)
  show ?case unfolding read_clock_def sleep_def by (rule ends_in_mono, (rule ends_in_rules | simp)+)
next
  case (5 start)
  then show ?case
    by (rule timed_roundI [where es = "[Wallet_Update, Wallet_Transactions]" and es' = "\<lambda>h. [Wallet_Update, Wallet_Transactions, Read_Clock]"])
      (auto simp: round_eval split: if_splits)
qed simp_all

lemma wait_for_server_ready_ends [ends_in_rules]: "clock_runs w \<Longrightarrow> ends_in 94 (wait_for_server_ready w token mid)"
  unfolding wait_for_server_ready_def get_server_def http_json_def http_def
proof (rule ends_in_mono, rule ends_in_timed [where k = 3 and T = 300 and d = 10 and m = 30], goal_cases)
  case (1 start)
  show ?case unfolding read_clock_def sleep_def by (rule ends_in_mono, (rule ends_in_rules | simp)+)
next
  case (5 start)
  then show ?case
    by (rule timed_roundI [where es = "[]" and es' = "\<lambda>h. [Read_Clock, Http (Get_Server token mid) (w_created w (h @ [Read_Clock]) (Get_Server token mid))]"])
      (auto simp: round_eval split: if_splits sum.splits prod.splits dest!: dict_get_state)
qed simp_all

lemma wait_for_credit_ends [ends_in_rules]: "clock_runs w \<Longrightarrow> ends_in 245 (wait_for_credit w token)"
  unfolding wait_for_credit_def get_balance_def http_json_def http_def POLL_TIMEOUT_def POLL_INTERVAL_def
proof (rule ends_in_mono, rule ends_in_timed [where k = 4 and T = 1800 and d = 30 and m = 60], goal_cases)
  case (1 start)
  show ?case unfolding read_clock_def sleep_def by (rule ends_in_mono, (rule ends_in_rules | simp)+)
next
  case (5 start)
  then show ?case
    by (rule timed_roundI [where es = "[]" and es' = "\<lambda>h. [Read_Clock, Http (Get_Balance token) (w_created w (h @ [Read_Clock]) (Get_Balance token)), Read_Clock]"])
      (auto simp: round_eval split: if_splits sum.splits prod.splits dest!: int_field_state)
qed simp_all

section \<open>The pipeline\<close>

lemma ends_in_boot_catch [ends_in_rules]:
  "ends_in m f \<Longrightarrow> ends_in (m + 0) (scatch f (\<lambda>e. case e of SpawnError st x \<Rightarrow> None | PyExn y \<Rightarrow> Some (sraise (SpawnError a b))
     | LibError z \<Rightarrow> Some (sraise (SpawnError a b)) | Crash \<Rightarrow> None))"
  by (rule ends_in_scatch) (auto intro: ends_in_raise split: proc_exn.splits)

lemma scan_with_retry_ends: "ends_in (3 * n) (scan_with_retry w n)"
proof (induction n)
  case 0
  show ?case unfolding scan_with_retry.simps by (rule ends_in_mono, (rule ends_in_rules | simp)+)
next
  case (Suc n)
  show ?case unfolding scan_with_retry.simps scan_def get_balance_satoshis_def sleep_def
    by (rule ends_in_mono, (rule ends_in_rules Suc | simp)+)
qed

lemmas leaf_steps = read_clock_def sleep_def kv_set_def kv_delete_def http_def http_json_def get_balance_satoshis_def remote_def

lemma ends_in_json [ends_in_rules]:
  "(\<And>b. ends_in n (fb b)) \<Longrightarrow> (\<And>i. ends_in n (fi i)) \<Longrightarrow> (\<And>d. ends_in n (fd d)) \<Longrightarrow> (\<And>s. ends_in n (fs s)) \<Longrightarrow>
   (\<And>l. ends_in m (gl l)) \<Longrightarrow> (\<And>x. ends_in n (fo x)) \<Longrightarrow> ends_in n f0 \<Longrightarrow>
   ends_in (max m n) (case v of JNull \<Rightarrow> f0 | JBool b \<Rightarrow> fb b | JInt i \<Rightarrow> fi i | JFloat d \<Rightarrow> fd d | JStr s \<Rightarrow> fs s | JList l \<Rightarrow> gl l | JObj x \<Rightarrow> fo x)"
  by (cases v) (auto intro: ends_in_mono [OF _ max.cobounded1] ends_in_mono [OF _ max.cobounded2])

lemma intent_is_live_ends [ends_in_rules]: "ends_in 1 (intent_is_live w i)"
  unfolding intent_is_live_def leaf_steps by (rule ends_in_mono, (rule ends_in_rules | simp)+)

lemma calculate_monthly_vps_cost_ends [ends_in_rules]: "ends_in 1 (calculate_monthly_vps_cost c w f p)"
  unfolding calculate_monthly_vps_cost_def leaf_steps by (rule ends_in_mono, (rule ends_in_rules | simp)+)

lemma record_invoice_ends [ends_in_rules]: "ends_in 1 (record_invoice i t r)"
  unfolding record_invoice_def leaf_steps by (rule ends_in_mono, (rule ends_in_rules | simp)+)

lemma mint_funding_invoice_ends [ends_in_rules]: "ends_in 4 (mint_funding_invoice c w i t)"
  unfolding mint_funding_invoice_def create_invoice_def leaf_steps by (rule ends_in_mono, (rule ends_in_rules | simp)+)

lemma check_parent_balance_ends [ends_in_rules]: "ends_in 1 (check_parent_balance c w a)"
  unfolding check_parent_balance_def leaf_steps by (rule ends_in_mono, (rule ends_in_rules | simp)+)

lemma send_ends [ends_in_rules]: "ends_in 3 (send w p a v)"
  unfolding send_def sign_transaction_def leaf_steps by (rule ends_in_mono, (rule ends_in_rules | simp)+)

lemma pay_funding_invoice_ends [ends_in_rules]: "ends_in 6 (pay_funding_invoice c w i x y z)"
  unfolding pay_funding_invoice_def leaf_steps by (rule ends_in_mono, (rule ends_in_rules | simp)+)

lemma retry_funding_ends [ends_in_rules]: "ends_in 12 (retry_funding c w i t z)"
  unfolding retry_funding_def get_balance_def leaf_steps by (rule ends_in_mono, (rule ends_in_rules | simp)+)

lemma resume_funding_ends [ends_in_rules]: "clock_runs w \<Longrightarrow> ends_in 53 (resume_funding c w i t z)"
  unfolding resume_funding_def leaf_steps by (rule ends_in_mono, (rule ends_in_rules | simp)+)

lemma fund_sporestack_token_ends [ends_in_rules]: "clock_runs w \<Longrightarrow> ends_in 53 (fund_sporestack_token c w i t)"
  unfolding fund_sporestack_token_def leaf_steps by (rule ends_in_mono, (rule ends_in_rules | simp)+)

lemma ensure_child_wallet_ends [ends_in_rules]: "ends_in 2 (ensure_child_wallet w i)"
  unfolding ensure_child_wallet_def rehydrate_child_wallet_def generate_child_btc_wallet_def leaf_steps by (rule ends_in_mono, (rule ends_in_rules | simp)+)

lemma ensure_sporestack_token_ends [ends_in_rules]: "ends_in 2 (ensure_sporestack_token w i)"
  unfolding ensure_sporestack_token_def rehydrate_sporestack_token_def generate_token_def leaf_steps by (rule ends_in_mono, (rule ends_in_rules | simp)+)

lemma prepare_child_identity_ends [ends_in_rules]: "clock_runs w \<Longrightarrow> ends_in 303 (prepare_child_identity c w i)"
  unfolding prepare_child_identity_def generate_ssh_keypair_def leaf_steps by (rule ends_in_mono, (rule ends_in_rules | simp)+)

lemma newest_server_ends [ends_in_rules]: "ends_in 0 (newest_server v)"
  unfolding newest_server_def leaf_steps by (rule ends_in_mono, (rule ends_in_rules | simp)+)

lemma adopt_orphan_server_ends [ends_in_rules]: "ends_in 1 (adopt_orphan_server w t)"
  unfolding adopt_orphan_server_def get_servers_def leaf_steps by (rule ends_in_mono, (rule ends_in_rules | simp)+)

lemma launch_server_ends [ends_in_rules]: "ends_in 1 (launch_server c w t k h)"
  unfolding launch_server_def leaf_steps by (rule ends_in_mono, (rule ends_in_rules | simp)+)

lemma find_or_launch_server_ends [ends_in_rules]: "ends_in 3 (find_or_launch_server c w i)"
  unfolding find_or_launch_server_def leaf_steps by (rule ends_in_mono, (rule ends_in_rules | simp)+)

lemma provision_child_vps_ends [ends_in_rules]: "clock_runs w \<Longrightarrow> ends_in 98 (provision_child_vps c w i)"
  unfolding provision_child_vps_def pick_host_def leaf_steps by (rule ends_in_mono, (rule ends_in_rules | simp)+)

lemma mark_spawn_completed_ends [ends_in_rules]: "ends_in 2 (mark_spawn_completed p w b a)"
  unfolding mark_spawn_completed_def leaf_steps by (rule ends_in_mono, (rule ends_in_rules | simp)+)

lemma deploy_child_code_ends [ends_in_rules]: "ends_in 8 (deploy_child_code w v)"
  unfolding deploy_child_code_def leaf_steps by (rule ends_in_mono, (rule ends_in_rules | simp)+)

lemma boot_child_orchestrator_ends [ends_in_rules]: "ends_in 4 (boot_child_orchestrator c w i r)"
  unfolding boot_child_orchestrator_def mutate_caution_trait_def start_orchestrator_def check_health_def leaf_steps by (rule ends_in_mono, (rule ends_in_rules | simp)+)

lemma resume_transfer_ends [ends_in_rules]: "clock_runs w \<Longrightarrow> ends_in 44 (resume_transfer p w i z)"
  unfolding resume_transfer_def leaf_steps by (rule ends_in_mono, (rule ends_in_rules | simp)+)

lemma fresh_transfer_ends [ends_in_rules]: "ends_in 23 (fresh_transfer p c w i ns)"
  unfolding fresh_transfer_def SCAN_RETRY_ATTEMPTS_def leaf_steps by (rule ends_in_mono, (rule ends_in_rules scan_with_retry_ends | simp)+)

lemma transfer_inheritance_ends [ends_in_rules]: "clock_runs w \<Longrightarrow> ends_in 44 (transfer_inheritance p c w i ns)"
  unfolding transfer_inheritance_def leaf_steps by (rule ends_in_mono, (rule ends_in_rules | simp)+)

lemma load_blob_ends [ends_in_rules]: "ends_in 1 (load_blob k n i)"
  unfolding load_blob_def leaf_steps by (rule ends_in_mono, (rule ends_in_rules | simp)+)

lemma obtain_identity_ends [ends_in_rules]: "clock_runs w \<Longrightarrow> ends_in 305 (obtain_identity c w i)"
  unfolding obtain_identity_def load_stored_identity_def leaf_steps by (rule ends_in_mono, (rule ends_in_rules | simp)+)

lemma obtain_vps_ends [ends_in_rules]: "clock_runs w \<Longrightarrow> ends_in 99 (obtain_vps c w i x)"
  unfolding obtain_vps_def load_stored_vps_def leaf_steps by (rule ends_in_mono, (rule ends_in_rules | simp)+)

lemma finally_disconnect_ends [ends_in_rules]: "ends_in n m \<Longrightarrow> ends_in (n + 2) (finally_disconnect w m)"
  unfolding finally_disconnect_def safe_disconnect_def leaf_steps by (rule ends_in_mono, (rule ends_in_rules | assumption | simp)+)

lemma spawn_child_ends [ends_in_rules]: "clock_runs w \<Longrightarrow> ends_in 462 (spawn_child p c w ns r i)"
  unfolding spawn_child_def leaf_steps by (rule ends_in_mono, (rule ends_in_rules | simp)+)

section \<open>The other activities of a node\<close>

lemma ends_in_monitor [ends_in_rules]: "ends_in 0 get_state" "ends_in 0 (set_monitor ns)"
  by (simp_all add: ends_in_def get_state_def set_monitor_def)

lemma ends_in_prod_arg [ends_in_rules]: "(\<And>x y. ends_in n (f x y z)) \<Longrightarrow> ends_in n ((case v of (x, y) \<Rightarrow> f x y) z)"
  by (cases v) auto

lemma load_token_ends [ends_in_rules]: "ends_in 1 (load_token w)"
  unfolding load_token_def leaf_steps by (rule ends_in_mono, (rule ends_in_rules | simp)+)

lemma monitor_info_ends [ends_in_rules]: "ends_in 1 (monitor_info w t)"
  unfolding monitor_info_def get_info_def leaf_steps by (rule ends_in_mono, (rule ends_in_rules | simp)+)

lemma monitor_server_ends [ends_in_rules]: "ends_in 3 (monitor_server w t)"
  unfolding monitor_server_def monitor_servers_def get_servers_def leaf_steps by (rule ends_in_mono, (rule ends_in_rules | simp)+)

lemma refresh_ends [ends_in_rules]: "ends_in 9 (refresh c w)"
  unfolding refresh_def scan_def leaf_steps by (rule ends_in_mono, (rule ends_in_rules | simp)+)

lemma topup_sporestack_ends [ends_in_rules]: "ends_in 7 (topup_sporestack c w ns)"
  unfolding topup_sporestack_def create_invoice_def leaf_steps by (rule ends_in_mono, (rule ends_in_rules | simp)+)

lemma execute_failsafe_ends [ends_in_rules]: "ends_in 4 (execute_failsafe c w ps)"
  unfolding execute_failsafe_def sweep_funds_def sweep_all_def mark_failsafe_started_def mark_failsafe_completed_def leaf_steps by (rule ends_in_mono, (rule ends_in_rules | simp)+)

lemma wait_rounds_ends: "ends_in n (wait_rounds w n)"
proof (induction n)
  case 0
  show ?case unfolding wait_rounds.simps by (rule ends_in_mono, (rule ends_in_rules | simp)+)
next
  case (Suc n)
  show ?case unfolding wait_rounds.simps sleep_monitored_def by (rule ends_in_mono, (rule ends_in_rules Suc | simp)+)
qed

lemma start_spawn_ends [ends_in_rules]: "clock_runs w \<Longrightarrow> ends_in 465 (start_spawn p c w ns r)"
  unfolding start_spawn_def mark_spawn_started_def leaf_steps by (rule ends_in_mono, (rule ends_in_rules | simp)+)

lemma tick_ends [ends_in_rules]: "clock_runs w \<Longrightarrow> ends_in 482 (tick p c w reg)"
  unfolding tick_def topup_and_refresh_def leaf_steps by (rule ends_in_mono, (rule ends_in_rules | simp)+)

lemma handle_recovery_ends [ends_in_rules]: "clock_runs w \<Longrightarrow> ends_in 762 (handle_recovery p c w reg)"
  unfolding handle_recovery_def wait_for_node_state_def leaf_steps by (rule ends_in_mono, (rule ends_in_rules wait_rounds_ends | simp)+)

lemma startup_ends [ends_in_rules]: "ends_in 1 (startup c)"
  unfolding startup_def set_caution_trait_def leaf_steps by (rule ends_in_mono, (rule ends_in_rules | simp)+)

lemma handle_shutdown_ends [ends_in_rules]: "ends_in 3 (handle_shutdown p c w)"
  unfolding handle_shutdown_def leaf_steps by (rule ends_in_mono, (rule ends_in_rules | simp)+)

lemma check_for_updates_ends [ends_in_rules]: "ends_in 2 (check_for_updates w)"
  unfolding check_for_updates_def leaf_steps by (rule ends_in_mono, (rule ends_in_rules | simp)+)

lemma activity_ends: "node_activity py_repr w a \<Longrightarrow> clock_runs w \<Longrightarrow> ends_in 762 a"
  by (erule node_activityE, simp_all only:) (rule ends_in_mono, (rule ends_in_rules | simp)+)+

section \<open>A world that never credits the payment\<close>

fun slept :: "event list \<Rightarrow> int" where
  "slept [] = 0"
| "slept (Sleep n # h) = max 0 n + slept h"
| "slept (e # h) = slept h"

lemma slept_append: "slept (h @ h') = slept h + slept h'"
  by (induction h rule: slept.induct) auto

lemma slept_nonneg: "0 \<le> slept h"
  by (induction h rule: slept.induct) auto

definition deaf_world :: world where
  "deaf_world = demo_world\<lparr>w_clock := (\<lambda>h. seconds (1700000000 + slept h)),
     w_http := (\<lambda>h r. case r of Get_Balance t \<Rightarrow> None | _ \<Rightarrow> demo_http r)\<rparr>"

lemma deaf_world_clock: "clock_runs deaf_world"
  by (auto simp: clock_runs_def deaf_world_def seconds_def slept_append slept_nonneg)

section \<open>Properties\<close>

text \<open>
  C14. The pipeline of a spawn ends: when the clock does not run backwards and advances by what the node sleeps,
  \<^verbatim>\<open>spawn_child\<close> returns a boolean (no exception leaves it) after at most 462 writes and external calls, whatever
  SporeStack, the wallet and the new machine answer and whatever an earlier attempt has stored.
\<close>

theorem spawn_child_terminates:
  assumes "clock_runs w" and "462 \<le> np_budget s"
  shows "\<exists>b s'. spawn_child py_repr c w ns caution_trait spawn_id s = (Inr b, s') \<and> np_budget s \<le> np_budget s' + 462"
proof -
  obtain r s' where r: "spawn_child py_repr c w ns caution_trait spawn_id s = (r, s')" by (cases "spawn_child py_repr c w ns caution_trait spawn_id s")
  then have "r \<noteq> Inl Crash \<and> np_budget s \<le> np_budget s' + 462" using assms by (intro ends_inD [OF spawn_child_ends])
  then show ?thesis using r unfolding spawn_child_def catch_all_def scatch_def
    by (auto split: prod.splits sum.splits if_splits)
qed

theorem spawn_child_terminates_witness:
  "clock_runs deaf_world \<and> (\<exists>b s'. spawn_child demo_repr demo_config deaf_world demo_state (1 / 2) ''spawn-1'' (born\<lparr>np_budget := 500\<rparr>) = (Inr b, s')
     \<and> 500 \<le> np_budget s' + 462)"
  using spawn_child_terminates [OF deaf_world_clock, of "born\<lparr>np_budget := 500\<rparr>" demo_repr demo_config demo_state "1 / 2" "''spawn-1''"] deaf_world_clock
  by simp

text \<open>
  C36. Every activity of a node ends (recovery after a restart, a decision tick with its fail-safe, top-up or spawn,
  a refresh of the monitor, the check for updates, the handling of a signal): with such a clock none of them uses
  more than 762 writes and external calls.
\<close>

theorem activities_terminate:
  assumes "node_activity py_repr w a" and "clock_runs w" and "762 \<le> np_budget s"
  shows "fst (a s) \<noteq> Inl Crash \<and> np_budget s \<le> np_budget (snd (a s)) + 762"
  using activity_ends [OF assms(1,2)] assms(3) by (simp add: ends_in_def)

theorem activities_terminate_witness:
  "fst (tick demo_repr demo_config deaf_world demo_registry (born\<lparr>np_monitor := demo_state, np_budget := 800\<rparr>)) \<noteq> Inl Crash"
  using activities_terminate [OF act_tick deaf_world_clock, of "born\<lparr>np_monitor := demo_state, np_budget := 800\<rparr>" demo_repr demo_config demo_registry]
  by simp

end
