(* ===== verification/Spawn_Outcome.thy ===== *)
theory Spawn_Outcome
  imports Spawn_Frame Spawn_Example
begin

text \<open>
  What a spawn leaves in the table when it returns: everything cleared after a success, and after a failure the
  marks that make the next start of the node resume it. Until then a pending spawn keeps the node from doing anything else.
\<close>

section \<open>Outcomes\<close>

text \<open>From a state with \<open>P\<close>, a result \<open>x\<close> gives \<open>Q x\<close> and an exception that can be caught keeps \<open>P\<close>.\<close>

definition outcome :: "(node_process \<Rightarrow> bool) \<Rightarrow> 'r proc \<Rightarrow> ('r \<Rightarrow> node_process \<Rightarrow> bool) \<Rightarrow> bool" where
  "outcome P f Q \<longleftrightarrow> (\<forall>s r s'. P s \<longrightarrow> f s = (r, s') \<longrightarrow> (case r of Inl e \<Rightarrow> e = Crash \<or> P s' | Inr x \<Rightarrow> Q x s'))"

lemma outcomeD: "outcome P f Q \<Longrightarrow> P s \<Longrightarrow> f s = (Inr x, s') \<Longrightarrow> Q x s'"
  unfolding outcome_def by fastforce

lemma outcomeE: "outcome P f Q \<Longrightarrow> P s \<Longrightarrow> f s = (Inl e, s') \<Longrightarrow> e = Crash \<or> P s'"
  unfolding outcome_def by fastforce

lemma outcome_sbind:
  assumes f: "outcome P f (\<lambda>_. P)" and g: "\<And>x. outcome P (g x) Q"
  shows "outcome P (sbind f g) Q"
  unfolding outcome_def
proof (intro allI impI)
  fix s r s' assume P: "P s" and r: "sbind f g s = (r, s')"
  obtain q s1 where q: "f s = (q, s1)" by (cases "f s")
  show "case r of Inl e \<Rightarrow> e = Crash \<or> P s' | Inr x \<Rightarrow> Q x s'"
  proof (cases q)
    case (Inl e)
    then show ?thesis using outcomeE [OF f P, of e s1] q r by (auto simp: sbind_def)
  next
    case (Inr x)
    then have "P s1" "g x s1 = (r, s')" using outcomeD [OF f P] q r by (auto simp: sbind_def)
    then show ?thesis using g [of x] unfolding outcome_def by blast
  qed
qed

text \<open>After the last write only calls follow that no exception leaves.\<close>

lemma outcome_last:
  assumes f: "outcome P f R" and g: "\<And>x. triple (\<lambda>_. True) (R x) (g x) Q" and safe: "\<And>x s e s'. g x s = (Inl e, s') \<Longrightarrow> e = Crash"
  shows "outcome P (sbind f g) Q"
  unfolding outcome_def
proof (intro allI impI)
  fix s r s' assume P: "P s" and r: "sbind f g s = (r, s')"
  obtain q s1 where q: "f s = (q, s1)" by (cases "f s")
  show "case r of Inl e \<Rightarrow> e = Crash \<or> P s' | Inr x \<Rightarrow> Q x s'"
  proof (cases q)
    case (Inl e)
    then show ?thesis using outcomeE [OF f P, of e s1] q r by (auto simp: sbind_def)
  next
    case (Inr x)
    then have "R x s1" and gx: "g x s1 = (r, s')" using outcomeD [OF f P] q r by (auto simp: sbind_def)
    then show ?thesis using g [of x] safe [of x s1 _ s'] unfolding triple_def by (cases r) (fastforce simp: gx)+
  qed
qed

lemma outcome_catch_all:
  assumes f: "outcome P f Q" and h: "\<And>e. outcome P (h e) Q"
  shows "outcome P (catch_all f h) Q"
  unfolding outcome_def
proof (intro allI impI)
  fix s r s' assume P: "P s" and r: "catch_all f h s = (r, s')"
  obtain q s1 where q: "f s = (q, s1)" by (cases "f s")
  show "case r of Inl e \<Rightarrow> e = Crash \<or> P s' | Inr x \<Rightarrow> Q x s'"
  proof (cases q)
    case (Inr x)
    then show ?thesis using outcomeD [OF f P, of x s1] q r by (auto simp: catch_all_def scatch_def)
  next
    case (Inl e)
    then have "e = Crash \<or> P s1" using outcomeE [OF f P] q by simp
    then show ?thesis using h [of e] Inl q r unfolding outcome_def
      by (cases "e = Crash") (auto simp: catch_all_def scatch_def)
  qed
qed

lemma outcome_weaken: "outcome P f Q \<Longrightarrow> (\<And>x s. Q x s \<Longrightarrow> Q' x s) \<Longrightarrow> outcome P f Q'"
  unfolding outcome_def by (fastforce split: sum.splits)

lemma outcome_if: "(c \<Longrightarrow> outcome P a Q) \<Longrightarrow> (\<not> c \<Longrightarrow> outcome P b Q) \<Longrightarrow> outcome P (if c then a else b) Q"
  by simp

lemma outcome_raise: "outcome P (sraise e) Q"
  by (simp add: outcome_def)

lemma outcome_return: "(\<And>s. P s \<Longrightarrow> Q x s) \<Longrightarrow> outcome P (sreturn x) Q"
  by (simp add: outcome_def)

text \<open>The marks of a pending spawn and the table after a completed one.\<close>

definition spawn_marks :: "string set" where
  "spawn_marks = {''spawn_in_progress'', ''spawn_id'', ''spawn_started_at''}"

definition same_marks :: "(string \<Rightarrow> json option) \<Rightarrow> node_process \<Rightarrow> bool" where
  "same_marks t s \<longleftrightarrow> (\<forall>k\<in>spawn_marks. np_table s k = t k)"

definition spawn_cleared :: "node_process \<Rightarrow> bool" where
  "spawn_cleared s \<longleftrightarrow> np_table s ''spawn_in_progress'' = Some (JBool False) \<and> (\<forall>k\<in>set SPAWN_KEYS_TO_CLEAR. np_table s k = None)"

lemma outcome_frame: "frame K L f \<Longrightarrow> K \<inter> spawn_marks = {} \<Longrightarrow> outcome (same_marks t) f (\<lambda>_. same_marks t)"
  unfolding outcome_def same_marks_def by (auto dest!: frameD simp: continues_def split: sum.splits) (metis disjoint_iff)+

lemma completed_outcome: "outcome (same_marks t) (mark_spawn_completed py_repr w True a) (\<lambda>_. spawn_cleared)"
  by (auto simp: outcome_def mark_spawn_completed_def sbind_def read_table_def read_clock_def external_def commit_table_def
      same_marks_def spawn_cleared_def clear_keys_def SPAWN_KEYS_TO_CLEAR_def split: json.splits if_splits sum.splits)

section \<open>The pipeline\<close>

text \<open>A step that writes none of the marks.\<close>

definition work_keys :: "string set" where "work_keys = - spawn_marks"

lemma outcome_work:
  "frame work_keys (\<lambda>_. True) f \<Longrightarrow> (\<And>x. outcome (same_marks t) (g x) Q) \<Longrightarrow> outcome (same_marks t) (sbind f g) Q"
  by (rule outcome_sbind [OF outcome_frame]) (auto simp: work_keys_def)

lemma completed_return:
  "outcome (same_marks t) (sbind (mark_spawn_completed py_repr w True a) (\<lambda>_. sreturn x)) (\<lambda>_. spawn_cleared)"
  by (rule outcome_last [OF completed_outcome]) (auto simp: triple_def)

lemma work_keysI: "''spawn_transfer_txid'' \<in> work_keys" "''spawn_transfer_intent'' \<in> work_keys"
  by (simp_all add: work_keys_def spawn_marks_def)

lemma resume_outcome: "outcome (same_marks t) (resume_transfer py_repr w i intent) (\<lambda>_. spawn_cleared)"
  unfolding resume_transfer_def
  by (intro outcome_work frame_rules)
    (auto intro!: outcome_work completed_return outcome_raise frame_rules work_keysI split: option.split)

lemma fresh_outcome: "outcome (same_marks t) (fresh_transfer py_repr c w i ns) (\<lambda>_. spawn_cleared)"
  unfolding fresh_transfer_def Let_def
  by (intro outcome_work outcome_if completed_return frame_rules work_keysI) simp

lemma transfer_outcome: "outcome (same_marks t) (transfer_inheritance py_repr c w i ns) (\<lambda>_. spawn_cleared)"
  unfolding transfer_inheritance_def
  by (intro outcome_work outcome_if completed_return resume_outcome fresh_outcome frame_rules)

lemma disconnect_safe: "safe_disconnect w s = (Inl e, s') \<Longrightarrow> e = Crash"
  by (auto simp: safe_disconnect_def catch_all_def scatch_def split: prod.splits sum.splits if_splits option.splits)

lemma disconnect_keeps: "safe_disconnect w s = (r, s') \<Longrightarrow> np_table s' = np_table s"
  using frameD [OF frame_remote(5) [where K = "{}" and L = "\<lambda>_. True"]] by (auto simp: continues_def)

lemma finally_outcome:
  assumes "outcome (same_marks t) m (\<lambda>x s. R x \<and> spawn_cleared s)"
  shows "outcome (same_marks t) (finally_disconnect w m) (\<lambda>x s. R x \<and> spawn_cleared s)"
  unfolding finally_disconnect_def
proof (rule outcome_last [where R = "\<lambda>x s. R x \<and> spawn_cleared s"])
  show "outcome (same_marks t) (catch_all m (\<lambda>e. sbind (safe_disconnect w) (\<lambda>_. sraise e))) (\<lambda>x s. R x \<and> spawn_cleared s)"
    by (intro outcome_catch_all assms outcome_work outcome_raise frame_rules)
  show "triple (\<lambda>_. True) (\<lambda>s. R x \<and> spawn_cleared s) (sbind (safe_disconnect w) (\<lambda>_. sreturn x)) (\<lambda>x s. R x \<and> spawn_cleared s)" for x
    by (auto simp: triple_def sbind_def spawn_cleared_def dest: disconnect_keeps split: prod.splits sum.splits)
  show "sbind (safe_disconnect w) (\<lambda>_. sreturn x) s = (Inl e, s') \<Longrightarrow> e = Crash" for x s e s'
    using disconnect_safe [of w s] by (auto simp: sbind_def split: prod.splits sum.splits)
qed

lemma body_frames: "frame work_keys (\<lambda>_. True) (obtain_identity c w sid)" "frame work_keys (\<lambda>_. True) (obtain_vps c w sid i)"
  by (rule frame_mono [OF frame_identity] frame_mono [OF frame_vps]; simp add: work_keys_def spawn_marks_def identity_keys_def vps_keys_def)+

lemma spawn_outcome:
  "outcome (same_marks t) (spawn_child py_repr c w ns caution_trait spawn_id) (\<lambda>b s. if b then spawn_cleared s else same_marks t s)"
proof -
  have boot: "outcome (same_marks t) (sbind (boot_child_orchestrator c w i caution_trait) (\<lambda>_.
     sbind (transfer_inheritance py_repr c w i ns) (\<lambda>_. sreturn True))) (\<lambda>b s. b \<and> spawn_cleared s)" for i
    by (intro outcome_work frame_rules outcome_last [OF transfer_outcome]) (auto simp: triple_def)
  have body: "outcome (same_marks t) (sbind (obtain_identity c w spawn_id) (\<lambda>identity.
      sbind (obtain_vps c w spawn_id identity) (\<lambda>vps_info. sbind (deploy_child_code w vps_info) (\<lambda>_.
      finally_disconnect w (sbind (boot_child_orchestrator c w identity caution_trait) (\<lambda>_.
         sbind (transfer_inheritance py_repr c w identity ns) (\<lambda>_. sreturn True))))))) (\<lambda>b s. b \<and> spawn_cleared s)"
    by (intro outcome_work body_frames frame_deploy finally_outcome boot)
  show ?thesis unfolding spawn_child_def
    by (rule outcome_catch_all [OF outcome_weaken [OF body] outcome_return]) auto
qed

section \<open>A pending spawn\<close>

lemma tick_pending:
  assumes "is_spawn_in_progress (np_table s)"
  shows "np_table (snd (tick py_repr c w registry s)) = np_table s \<and>
    np_history (snd (tick py_repr c w registry s)) \<in> {np_history s, np_history s @ [Read_Clock]}"
  using assms by (auto simp: tick_def sbind_def get_state_def read_table_def lift_py_def read_clock_def external_def split: option.splits sum.splits)

lemma updates_pending: "is_spawn_in_progress (np_table s) \<Longrightarrow> fst (check_for_updates w s) \<noteq> Inr True"
  by (auto simp: check_for_updates_def sbind_def external_def read_table_def)

lemma spawn_marks_pending: "same_marks t s \<Longrightarrow> is_spawn_in_progress (np_table s) = is_spawn_in_progress t"
  by (simp add: same_marks_def spawn_marks_def is_spawn_in_progress_def kv_get_def)

section \<open>A machine without key generation\<close>

definition keyless_world :: world where
  "keyless_world = demo_world\<lparr>w_keypair := (\<lambda>h p. None)\<rparr>"

definition pending_process :: node_process where
  "pending_process = born\<lparr>np_table := [''spawn_in_progress'' \<mapsto> JBool True, ''spawn_id'' \<mapsto> JStr ''spawn-1''], np_monitor := demo_state, np_budget := 100\<rparr>"

definition keyless_failure :: node_process where
  "keyless_failure = pending_process\<lparr>np_history := [Ssh_Keygen (spawn_key_path demo_config ''spawn-1'')], np_budget := 99\<rparr>"

lemma keyless_fails: "spawn_child demo_repr demo_config keyless_world demo_state (1 / 2) ''spawn-1'' pending_process = (Inr False, keyless_failure)"
  by (simp add: demo_eval keyless_world_def keyless_failure_def pending_process_def cong: sbind_weak scatch_weak catch_all_weak)

section \<open>Properties\<close>

text \<open>
  C15. What \<^verbatim>\<open>spawn_child\<close> leaves in the durable state, whatever the services answer: when it returns True the spawn
  is no longer in progress and all of its keys are gone; when it returns False the flag, the spawn id and the
  start time are what they were, so that the next start of the node resumes the same spawn.
\<close>

theorem spawn_child_outcome:
  assumes "spawn_child py_repr c w ns caution_trait spawn_id s = (Inr b, s')"
  shows "if b then np_table s' ''spawn_in_progress'' = Some (JBool False) \<and> (\<forall>k\<in>set SPAWN_KEYS_TO_CLEAR. np_table s' k = None)
    else (\<forall>k\<in>{''spawn_in_progress'', ''spawn_id'', ''spawn_started_at''}. np_table s' k = np_table s k)"
  using outcomeD [OF spawn_outcome [where t = "np_table s"] _ assms]
  by (cases b) (simp_all add: same_marks_def spawn_cleared_def spawn_marks_def)

theorem spawn_child_outcome_witness:
  "spawn_child demo_repr demo_config keyless_world demo_state (1 / 2) ''spawn-1'' pending_process = (Inr False, keyless_failure)
   \<and> np_table keyless_failure ''spawn_id'' = Some (JStr ''spawn-1'')"
  using spawn_child_outcome [OF keyless_fails] keyless_fails by (simp add: pending_process_def)

text \<open>
  C38. A spawn that failed occupies the node: from then on every decision tick, with any configuration, fleet
  and monitor reading, at most reads the clock and changes nothing (no fail-safe, no top-up, no spawn), and
  the check for updates never restarts the node, although only a restart resumes the spawn.
\<close>

theorem failed_spawn_blocks:
  assumes "is_spawn_in_progress (np_table s)" and "spawn_child py_repr c w ns caution_trait spawn_id s = (Inr False, s')"
  shows "let t = s'\<lparr>np_monitor := m, np_budget := n\<rparr>; after = snd (tick py_repr c' w registry t)
    in np_table after = np_table s' \<and> np_history after \<in> {np_history s', np_history s' @ [Read_Clock]}
      \<and> fst (check_for_updates w t) \<noteq> Inr True"
proof -
  have "same_marks (np_table s) s'" using outcomeD [OF spawn_outcome [where t = "np_table s"] _ assms(2)] by (simp add: same_marks_def)
  then have "is_spawn_in_progress (np_table s')" using assms(1) spawn_marks_pending by blast
  then show ?thesis using tick_pending [of "s'\<lparr>np_monitor := m, np_budget := n\<rparr>"] updates_pending [of "s'\<lparr>np_monitor := m, np_budget := n\<rparr>"]
    unfolding Let_def by simp
qed

theorem failed_spawn_blocks_witness:
  "np_table (snd (tick demo_repr demo_config keyless_world demo_registry (keyless_failure\<lparr>np_monitor := demo_state, np_budget := 100\<rparr>)))
   = np_table keyless_failure"
  using failed_spawn_blocks [OF _ keyless_fails, where m = demo_state and n = 100 and c' = demo_config and registry = demo_registry]
  by (simp add: Let_def pending_process_def is_spawn_in_progress_def kv_get_def)

end
