(* ===== verification/Spec2Isabelle.thy ===== *)
theory Spec2Isabelle
  imports Funding_Plan Sync Auth_Props Spawn_Finance Spawn_Inheritance Spawn_Server Spawn_Termination Spawn_Outcome
begin

text \<open>
  A verification library for the Tribler superorganism experiment: the democracy application with its
  peer-to-peer replication, the crowdfunding of solutions with Bitcoin pledges, the registration and
  login of identities, and the mycelium node, a server that pays for itself and has children.

  \<^bold>\<open>The program.\<close> Users create issues and solutions and vote for them (democracy/). Every object is
  kept in a SQLite database and spread by gossip: a node announces references to its objects (IHAVE),
  a peer asks for those it lacks (IWANT), and the objects follow in messages. A solution can get a
  funding campaign; supporters pledge an unspent Bitcoin output by a signed transaction that anybody
  can complete (ANYONECANPAY), and when the pledges cover the asking price and the fee they are
  combined into one transaction. A Bitcoin node is asked over JSON-RPC (bitcoin/). An identity is
  registered by a paid transaction that commits to its public key and logs in by signing a challenge
  (authentication/).
  A mycelium node (self_replication_service__mycelium/mycelium/code) rents its server at SporeStack and
  pays with Bitcoin. A monitor values its funds, and a decision loop sweeps them to the richest peer when
  they run out, tops up the account, or starts a child: an identity with a funded token, a server, the
  deployed code, and an inheritance. Every step of that pipeline is recorded in a SQLite table so that it
  can be resumed after a crash.

  \<^bold>\<open>Theories and sources.\<close>
  \<^item> \<open>Prelude\<close>: results, exceptions, the state and reader monads, byte codecs (locale
    \<open>stream_codec\<close>), lists. \<open>Py_Text\<close>, \<open>Py_Decimal\<close>, \<open>Datetime\<close>, \<open>Sha256\<close>: what the source uses of
    the Python library, written out as executable functions.
  \<^item> \<open>Bitcoin_Tx\<close>: democracy/funding/bitcoin_tx.py. \<open>Bitcoin_Utils\<close>: bitcoin/utils.py.
    \<open>Rpc_Client\<close>: bitcoin/rpc_client.py and rpc_errors.py.
  \<^item> \<open>Models\<close>: democracy/models and democracy/funding/models.py. \<open>Repository\<close>, \<open>Repository_Inv\<close>:
    democracy/storage/sqlite_repository.py, a record of tables with their constraints; every
    operation is a function on that record, a transaction either commits or leaves it unchanged.
  \<^item> \<open>Gossip\<close>: democracy/network/messages/gossip_messages.py. \<open>Messages\<close>: the object messages.
    \<open>Replication\<close>: democracy/network/replication.py. \<open>Community\<close>: democracy/network/community.py, the
    handlers on a record of database, outbox and notifications. \<open>Democracy_Service\<close>:
    democracy_service.py, ipv8_thread.py and event_publisher.py.
  \<^item> \<open>Funding_Service\<close>, \<open>Funding_Selection\<close>, \<open>Funding_Props\<close>, \<open>Funding_Requests\<close>, \<open>Funding_Plan\<close>:
    democracy/funding/service.py. \<open>Funding_Requests\<close> follows the record of posted requests that the model of
    the RPC client keeps.
  \<^item> \<open>Network\<close>: the step relation of a node (messages, user operations, the networking thread, the
    funding service) and its reachable states. \<open>Sync\<close>: the exchange between two nodes.
  \<^item> \<open>Auth_Models\<close>, \<open>Auth_Store\<close>, \<open>Auth_Verifier\<close>, \<open>Auth_Service\<close>, \<open>Auth_Props\<close>: authentication/.
  \<^item> \<open>Examples\<close>: a small database and Bitcoin node for the witnesses.
  \<^item> \<open>Py_Float\<close>: double arithmetic as rounding of rationals. The mycelium node:
    \<open>Spawn_State\<close> (modules/core/state.py, the process monad and its rules), \<open>Spawn_Wallet\<close> (config.py,
    core/wallet.py, monitoring/sporestack_client.py), \<open>Spawn_Economy\<close> (monitoring/node_monitor.py,
    peer_registry.py, orchestration/spawn_thresholds.py, the gossip of seeding/liberation_community.py),
    \<open>Spawn_Steps\<close> (spawning/spawn_identity.py, spawn_provision.py), \<open>Spawn_Pipeline\<close>
    (spawning/spawn_deploy.py, spawn_transfer.py, deployer.py), \<open>Spawn_Decision\<close>
    (orchestration/failsafe.py, topup.py, decision_loop.py, main.py and the runs of a node).
    \<open>Spawn_Frame\<close>, \<open>Spawn_Inv\<close>: what each operation can change, and events counted per spawn over
    restarts; \<open>Spawn_Inheritance\<close>, \<open>Spawn_Funding\<close>, \<open>Spawn_Payment\<close>, \<open>Spawn_Server\<close>: the inheritance, invoices,
    payments and servers of a spawn; \<open>Spawn_Termination\<close>, \<open>Spawn_Outcome\<close>: that every activity ends, and
    what a spawn leaves behind; \<open>Spawn_Finance\<close>: eligibility, caution and fleet; \<open>Spawn_Example\<close>: a
    world for the witnesses.

  \<^bold>\<open>Conventions.\<close> A Python exception is a value of \<open>py_exn\<close>; an operation that can raise returns
  \<open>py_exn + 'a\<close>, and one with effects is a function of the state (\<open>sm\<close>) in which changes made before
  an exception stay. Messages of exceptions keep their fixed text. Decoded JSON is the type \<open>json\<close>;
  text is a list of characters for the code points below 256; Python integers are \<open>int\<close>, bytes are
  \<open>8 word\<close>.

  \<^bold>\<open>Parameters.\<close> Code outside the repository is an argument: the Bitcoin node (what it answers to the
  n-th request, including failures and malformed documents), the clock, fresh identifiers and nonces,
  the set of peers, the text SQLite returns for the current time, and the Ed25519 primitives. Where a
  theorem relies on one of them the assumption is named: no two stored texts collide under SHA-256
  (\<open>no_collision\<close>, \<open>texts_agree\<close>), integers of received messages fit SQLite columns (\<open>ints_ok\<close>), a
  generated key pair verifies its own signatures (\<open>key_pair_ok\<close>).
  The world of a mycelium node (\<open>world\<close>) answers every external call (clock, SporeStack, bitcoinlib, the
  new machine) as a function of the whole history of calls, so it may fail, lie or change its mind. Where a
  theorem needs more it says so: the wallet history is readable and lists what reached the network
  (\<open>history_lists_sends\<close>), SporeStack lists the servers of a token whenever it answers (\<open>lists_servers\<close>), the
  clock does not run backwards and advances by what the node sleeps (\<open>clock_runs\<close>), and the ids drawn for
  the spawns of a run differ.

  \<^bold>\<open>What is shown.\<close>
  \<^item> Codecs: the transaction codec is an exact round trip in both directions, its transaction id
    ignores witnesses, the combination of pledges keeps every input once; the gossip inventory is
    canonical, complete and within the packet size; amounts within the precision and the exponents of the
    decimal context are converted exactly or refused.
  \<^item> Database: every reachable state is well-formed (keys, references, one vote per voter,
    content-addressed texts); storing a received object refines insertion into a map.
  \<^item> Protocol: an IHAVE is answered by requests for exactly the missing objects, an IWANT by exactly
    the requested stored ones, an object is stored once and passed on to all but its sender; an
    exchange is sound, and complete for a fresh node.
  \<^item> Funding: the selection terminates, is minimal step by step and, when the time stamps can be compared,
    succeeds exactly when the pledges suffice; a stored pledge was checked against the node; the status
    counts every stored pledge that the node gives no reason to refuse; a final plan covers price and fee
    with distinct valid pledges; the only requests to send a transaction are those of a broadcast, each right
    after a dry run in which the node accepted the same transaction.
  \<^item> Authentication: exact conditions for a login, one login per challenge, failed attempts do not use
    it up, an honest user can log in while the store has room; registration stores exactly what was paid for; the challenge
    store is bounded and drops expired challenges; the OP_RETURN parser equals a byte-level reference.
  \<^item> Mycelium node: over any sequence of decisions, recoveries, shutdowns and crashes at any action, a
    spawn sends its inheritance at most once and only to a child that was booted and healthy, asks for at
    most five invoices, pays for its token at most once and launches at most one server; with an unreadable
    wallet history it can pay twice (\<open>funding_repeated\<close>). Every activity ends within a fixed number of
    actions. A successful spawn clears its records, a failed one keeps them and blocks the node until a
    restart. Eligibility leaves the parent its server, its fees and a runway scaled by its caution, in exact
    arithmetic up to the rounding of doubles; the caution trait stays in range; the fleet and its gossip do
    what they announce; a rate of zero ends the decision loop.

  \<^bold>\<open>Interfaces.\<close> \<open>stream_codec\<close> (Prelude) is interpreted on the field formats of Bitcoin transactions,
  \<open>object_store\<close> and its extension \<open>vote_store\<close> (Replication) on the six tables of the repository,
  \<open>challenge_store_contract\<close> on the in-memory store and \<open>registration_store_contract\<close> on the JSON store.
  \<open>spawn_counter\<close> (Spawn_Inv) states what makes a class of events countable per spawn, its extension
  \<open>spawn_bound\<close> that the stages of the pipeline keep the count; they are interpreted on the broadcasts of
  the inheritance, the invoices, the payments and the launched servers.

  \<^bold>\<open>Bounds and loops.\<close> Every recursion is structural or has a measure. A process of a mycelium node has a
  budget of actions, the number of writes and external calls before it is killed: a theorem for every
  budget covers every crash point, and the polling loops, whose rounds all act, run as long as the budget
  lasts (\<open>poll_unfold\<close> is their equation). Sequences of a
  parsed transaction are shorter than \<open>2 ^ 63\<close> (\<open>len_ok\<close>), as in CPython; \<^verbatim>\<open>Decimal\<close> has the default
  context of 28 digits; the selection loop ends because it removes a pledge in each round.

  \<^bold>\<open>Not modelled.\<close> The user interface (src/ui), the ipv8 overlay and SQLite themselves, HTTP transport,
  threads and event loops, the torrent health service, the vendored ipv8 and the ranking experiments. Of
  the mycelium node: the simulation mode (\<^verbatim>\<open>SIM_MODE\<close>), the commands run on a new machine, torrents and
  downloads, the event log, the first start of the wallet, cancellation of a task at an await, infinite
  and NaN floats. Text beyond U+00FF and the wording of interpolated messages are left out.
\<close>

end
